(* ===== verification/Prelude.thy ===== *)
theory Prelude
  imports "HOL-Library.Word" "HOL-Library.Multiset" "HOL-Library.Signed_Division"
    "HOL-Library.List_Lexorder" "HOL-Library.Char_ord" "HOL-Library.Product_Lexorder"
    "HOL-Library.Finite_Map"
begin

text \<open>
  The part of the Go language and of its standard library that the program uses, shared by every
  component: machine integers at their width, instants and durations, byte strings with the
  operations of packages strings, encoding/hex, encoding/binary, strconv and unicode, SHA-256, and
  the generic lemmas and collections that carry the component proofs.

  \<^item> \<open>uint8\<close>, \<open>uint16\<close>, \<open>uint32\<close>, \<open>uint64\<close> are words; \<open>+\<close> wraps as in Go.
  \<^item> \<open>int\<close>, \<open>int64\<close> and \<open>time.Duration\<close> are HOL integers; where the source's arithmetic can leave the
    64-bit range the wrap-around is written out with \<open>wrap64\<close>. Go's \<open>/\<close> and \<open>%\<close> truncate towards zero
    (\<open>sdiv\<close>, \<open>smod\<close>).
  \<^item> a \<open>time.Time\<close> is the number of nanoseconds since Go's zero time, so \<open>IsZero\<close> is \<open>= 0\<close> and
    \<open>Before\<close>, \<open>After\<close>, \<open>Equal\<close> are \<open><\<close>, \<open>>\<close>, \<open>=\<close>; \<open>Sub\<close> saturates at the ends of the Duration range.
  \<^item> a Go string is its bytes, a \<open>char list\<close>; \<open><\<close> on strings is bytewise (HOL-Library.List_Lexorder).
  \<^item> a Go map is a finite map (HOL-Library.Finite_Map); code that ranges over one takes the order of
    the iteration as an argument, since Go leaves it open.
  \<^item> a Go pointer that is only read is an option, nil being None; a Go error is the left part of a sum.
\<close>

unbundle bit_operations_syntax

section \<open>Collections\<close>

named_theorems go_simps \<open>rewrites for the Go standard-library models\<close>
named_theorems heap_simps \<open>rewrites of heap operations into list operations\<close>
named_theorems valid_defs \<open>validators of the program's data, unfolded together\<close>

section \<open>Machine integers\<close>

type_synonym u8 = "8 word"
type_synonym u16 = "16 word"
type_synonym u32 = "32 word"
type_synonym u64 = "64 word"

type_synonym time = int
type_synonym duration = int

definition minInt64 :: int where
  "minInt64 = - (2 ^ 63)"

definition maxInt64 :: int where
  "maxInt64 = 2 ^ 63 - 1"

definition int64 :: "int \<Rightarrow> bool" where
  "int64 x \<longleftrightarrow> minInt64 \<le> x \<and> x \<le> maxInt64"

definition wrap64 :: "int \<Rightarrow> int" where
  "wrap64 x = (x + 2 ^ 63) mod 2 ^ 64 - 2 ^ 63"

lemma wrap64_id [simp]: "int64 x \<Longrightarrow> wrap64 x = x"
  by (simp add: wrap64_def int64_def minInt64_def maxInt64_def)

lemma wrap64_range: "int64 (wrap64 x)"
proof -
  have "0 \<le> (x + 2 ^ 63) mod 2 ^ 64" and "(x + 2 ^ 63) mod 2 ^ 64 < 2 ^ 64"
    by (rule pos_mod_sign, simp) (rule pos_mod_bound, simp)
  then show ?thesis
    by (simp add: wrap64_def int64_def minInt64_def maxInt64_def)
qed

lemma wrap64_overflow:
  "maxInt64 < x \<Longrightarrow> x \<le> maxInt64 + 2 ^ 64 \<Longrightarrow> wrap64 x = x - 2 ^ 64"
proof -
  assume a: "maxInt64 < x" "x \<le> maxInt64 + 2 ^ 64"
  have "(x + 2 ^ 63) mod 2 ^ 64 = (x + 2 ^ 63 - 2 ^ 64) mod 2 ^ 64"
    by (metis minus_mod_self2)
  also have "\<dots> = x + 2 ^ 63 - 2 ^ 64"
    using a by (intro mod_pos_pos_trivial) (simp_all add: maxInt64_def)
  finally show ?thesis by (simp add: wrap64_def)
qed

lemma smod_nonneg: "0 \<le> (a::int) \<Longrightarrow> 0 < b \<Longrightarrow> a smod b = a mod b"
  by (cases "a = 0") (simp_all add: smod_int_alt_def)

lemma sdiv_nonneg: "0 \<le> (a::int) \<Longrightarrow> 0 < b \<Longrightarrow> a sdiv b = a div b"
  by (cases "a = 0") (simp_all add: signed_divide_int_def)

lemma u8_positive: "1 \<le> (w::u8) \<longleftrightarrow> w \<noteq> 0"
  by (simp add: word_le_nat_alt Suc_le_eq unat_gt_0)

lemma unat_of_nat_small: "n < 2 ^ LENGTH('a) \<Longrightarrow> unat (of_nat n :: 'a::len word) = n"
  by (simp add: unat_of_nat)

section \<open>Instants and durations\<close>

definition microsecond :: duration where
  "microsecond = 1000"

definition millisecond :: duration where
  "millisecond = 1000000"

definition second :: duration where
  "second = 1000000000"

definition time_IsZero :: "time \<Rightarrow> bool" where
  "time_IsZero t \<longleftrightarrow> t = 0"

definition time_Sub :: "time \<Rightarrow> time \<Rightarrow> duration" where
  "time_Sub t u = max minInt64 (min maxInt64 (t - u))"

definition duration_Milliseconds :: "duration \<Rightarrow> int" where
  "duration_Milliseconds d = d sdiv millisecond"

lemma time_Sub_range: "int64 (time_Sub t u)"
  by (simp add: time_Sub_def int64_def minInt64_def maxInt64_def)

lemma time_Sub_pos: "u < t \<Longrightarrow> 0 < time_Sub t u"
  by (simp add: time_Sub_def minInt64_def maxInt64_def)

lemma time_Sub_less_iff: "0 \<le> d \<Longrightarrow> d \<le> maxInt64 \<Longrightarrow> time_Sub t u < d \<longleftrightarrow> t - u < d"
  by (auto simp: time_Sub_def minInt64_def maxInt64_def)

section \<open>Lists, options and results\<close>

text \<open>The error of a fallible call, as a boolean test and as a value.\<close>

fun is_ok :: "'e + 'a \<Rightarrow> bool" where
  "is_ok (Inl e) = False"
| "is_ok (Inr a) = True"

lemma is_ok_iff: "is_ok r \<longleftrightarrow> (\<exists>a. r = Inr a)"
  by (cases r) auto

lemma is_ok_InrI [intro]: "r = Inr a \<Longrightarrow> is_ok r"
  by simp

text \<open>The first error of a validator that yields one optionally.\<close>

definition guard :: "bool \<Rightarrow> 'e \<Rightarrow> 'e option \<Rightarrow> 'e option" where
  "guard bad e rest = (if bad then Some e else rest)"

lemma guard_None [simp]: "guard b e r = None \<longleftrightarrow> \<not> b \<and> r = None"
  by (simp add: guard_def)

lemma drop_while_suffix: "\<exists>pre. xs = pre @ dropWhile P xs \<and> (\<forall>x \<in> set pre. P x)"
  by (rule exI [of _ "takeWhile P xs"]) (auto dest: set_takeWhileD)

lemma dropWhile_le_sorted:
  "sorted xs \<Longrightarrow> dropWhile (\<lambda>x. x \<le> c) xs = filter (\<lambda>x. c < x) (xs :: 'a::linorder list)"
proof (induction xs)
  case (Cons x xs)
  then show ?case by (cases "x \<le> c") (auto intro!: filter_True [symmetric])
qed simp

lemma dropWhile_less_sorted:
  "sorted xs \<Longrightarrow> dropWhile (\<lambda>x. x < c) xs = filter (\<lambda>x. c \<le> x) (xs :: 'a::linorder list)"
proof (induction xs)
  case (Cons x xs)
  then show ?case by (cases "x < c") (auto intro!: filter_True [symmetric])
qed simp

text \<open>The length of a Go map.\<close>

definition map_len :: "('a, 'b) fmap \<Rightarrow> nat" where
  "map_len m = fcard (fmdom m)"

lemma map_len_empty [simp]: "map_len fmempty = 0"
  by (simp add: map_len_def fcard_fempty)

lemma map_len_upd: "map_len (fmupd k v m) = (if fmlookup m k = None then Suc (map_len m) else map_len m)"
  by (auto simp: map_len_def fcard_finsert_if fmlookup_dom_iff)

lemma map_len_drop: "map_len (fmdrop k m) = (if fmlookup m k = None then map_len m else map_len m - 1)"
  by (auto simp: map_len_def fcard_fminus_fsingleton_if fmlookup_dom_iff)

lemma map_len_keys: "distinct ks \<Longrightarrow> set ks = fset (fmdom m) \<Longrightarrow> map_len m = length ks"
  by (simp add: map_len_def fcard.rep_eq flip: distinct_card)

section \<open>Byte strings\<close>

type_synonym bytes = "u8 list"

definition string_bytes :: "string \<Rightarrow> bytes" where
  "string_bytes s = map of_char s"

lemma inj_of_char_u8: "inj (of_char :: char \<Rightarrow> u8)"
proof (rule injI)
  fix c d :: char
  assume "(of_char c :: u8) = of_char d"
  then have "unat (of_nat (of_char c) :: u8) = unat (of_nat (of_char d) :: u8)"
    by (simp add: of_nat_of_char)
  then have "(of_char c :: nat) mod 256 = of_char d mod 256"
    by (simp only: unat_of_nat len_num0 len_num1 len_bit0) (simp del: of_char_mod_256)
  then show "c = d" by simp
qed

lemma string_bytes_eq_iff [simp]: "string_bytes s = string_bytes t \<longleftrightarrow> s = t"
  by (simp add: string_bytes_def inj_map_eq_map inj_of_char_u8)

lemma length_string_bytes [simp]: "length (string_bytes s) = length s"
  by (simp add: string_bytes_def)

text \<open>Big-endian integers, as encoding/binary.BigEndian writes them.\<close>

definition be16 :: "u16 \<Rightarrow> bytes" where
  "be16 x = [ucast (drop_bit 8 x), ucast x]"

definition be32 :: "u32 \<Rightarrow> bytes" where
  "be32 x = [ucast (drop_bit 24 x), ucast (drop_bit 16 x), ucast (drop_bit 8 x), ucast x]"

lemma length_be16 [simp]: "length (be16 x) = 2"
  by (simp add: be16_def)

lemma length_be32 [simp]: "length (be32 x) = 4"
  by (simp add: be32_def)

lemma be16_inj [simp]: "be16 x = be16 y \<longleftrightarrow> x = y"
proof
  assume "be16 x = be16 y"
  then have hi: "ucast (drop_bit 8 x) = (ucast (drop_bit 8 y) :: u8)"
    and lo: "ucast x = (ucast y :: u8)"
    by (simp_all add: be16_def)
  show "x = y"
  proof (rule bit_word_eqI)
    fix n assume "n < LENGTH(16)"
    then have n: "n < 16" by simp
    show "bit x n = bit y n"
    proof (cases "n < 8")
      case True
      then show ?thesis using arg_cong [OF lo, of "\<lambda>w. bit w n"] by (simp add: bit_simps)
    next
      case False
      then show ?thesis
        using n arg_cong [OF hi, of "\<lambda>w. bit w (n - 8)"] by (auto simp: bit_simps)
    qed
  qed
qed simp

lemma be32_inj: "be32 x = be32 y \<longleftrightarrow> x = y"
proof
  assume eq: "be32 x = be32 y"
  then have b: "ucast (drop_bit k x) = (ucast (drop_bit k y) :: u8)" if "k \<in> {24, 16, 8, 0}" for k
    using that by (auto simp: be32_def)
  show "x = y"
  proof (rule bit_word_eqI)
    fix n assume "n < LENGTH(32)"
    then have n: "n < 32" by simp
    define k where "k = 8 * (n div 8)"
    have k: "k \<in> {24, 16, 8, 0}" "k \<le> n" "n - k < 8"
      using n by (auto simp: k_def)
    from arg_cong [OF b [OF k(1)], of "\<lambda>w. bit w (n - k)"] k n show "bit x n = bit y n"
      by (auto simp: bit_simps)
  qed
qed simp

text \<open>Hexadecimal, as encoding/hex: lower-case digits out, either case in.\<close>

definition hexDigits :: string where
  "hexDigits = ''0123456789abcdef''"

definition hex_EncodeToString :: "bytes \<Rightarrow> string" where
  "hex_EncodeToString bs =
     concat (map (\<lambda>b. [hexDigits ! (unat b div 16), hexDigits ! (unat b mod 16)]) bs)"

definition hexValue :: "char \<Rightarrow> nat option" where
  "hexValue c =
     (let n = of_char c :: nat in
      if 48 \<le> n \<and> n \<le> 57 then Some (n - 48)
      else if 97 \<le> n \<and> n \<le> 102 then Some (n - 87)
      else if 65 \<le> n \<and> n \<le> 70 then Some (n - 55)
      else None)"

fun hex_DecodeString :: "string \<Rightarrow> bytes option" where
  "hex_DecodeString [] = Some []"
| "hex_DecodeString [c] = None"
| "hex_DecodeString (c # d # s) =
     (case (hexValue c, hexValue d, hex_DecodeString s) of
        (Some h, Some l, Some bs) \<Rightarrow> Some (of_nat (16 * h + l) # bs)
      | _ \<Rightarrow> None)"

lemma length_hexDigits [simp]: "length hexDigits = 16"
  by (simp add: hexDigits_def)

lemma hexValue_digit: "n < 16 \<Longrightarrow> hexValue (hexDigits ! n) = Some n"
proof -
  have "list_all (\<lambda>k. hexValue (hexDigits ! k) = Some k) [0..<16]"
    by (simp add: upt_rec hexValue_def hexDigits_def)
  then show "n < 16 \<Longrightarrow> ?thesis" by (simp add: list_all_iff)
qed

lemma length_hex_EncodeToString [simp]: "length (hex_EncodeToString bs) = 2 * length bs"
  by (induction bs) (simp_all add: hex_EncodeToString_def)

lemma hex_Decode_Encode [simp]: "hex_DecodeString (hex_EncodeToString bs) = Some bs"
proof (induction bs)
  case Nil
  then show ?case by (simp add: hex_EncodeToString_def)
next
  case (Cons b bs)
  have lt: "unat b < 256" using unsigned_less [of b, where 'a = nat] by simp
  then have "hexValue (hexDigits ! (unat b div 16)) = Some (unat b div 16)"
    "hexValue (hexDigits ! (unat b mod 16)) = Some (unat b mod 16)"
    by (auto intro!: hexValue_digit)
  moreover have "(of_nat (16 * (unat b div 16) + unat b mod 16) :: u8) = b"
    by (simp only: mult_div_mod_eq) simp
  ultimately show ?case
    using Cons.IH by (simp add: hex_EncodeToString_def)
qed

text \<open>
  The identifiers the program calls flow IDs: 24 lower-case hexadecimal characters. The source
  tests it by decoding and re-encoding; the digits themselves are the characters of \<open>hexDigits\<close>.
\<close>

lemma hex_EncodeToString_set: "set (hex_EncodeToString bs) \<subseteq> set hexDigits"
proof -
  have "hexDigits ! (unat b div 16) \<in> set hexDigits" "hexDigits ! (unat b mod 16) \<in> set hexDigits"
    for b :: u8
    using unsigned_less [of b, where 'a = nat] by (auto intro!: nth_mem)
  then show ?thesis by (auto simp: hex_EncodeToString_def)
qed

lemma hexValue_inverse: "c \<in> set hexDigits \<Longrightarrow> hexValue c = Some n \<Longrightarrow> n < 16 \<and> hexDigits ! n = c"
  by (auto simp: in_set_conv_nth hexValue_digit)

lemma hex_Encode_Decode:
  "hex_DecodeString s = Some bs \<Longrightarrow> set s \<subseteq> set hexDigits \<Longrightarrow> hex_EncodeToString bs = s"
proof (induction s arbitrary: bs rule: hex_DecodeString.induct)
  case 1
  then show ?case by (simp add: hex_EncodeToString_def)
next
  case (3 c d s)
  from "3.prems" obtain h l bs' where hl: "hexValue c = Some h" "hexValue d = Some l"
    and bs': "hex_DecodeString s = Some bs'" and bs: "bs = of_nat (16 * h + l) # bs'"
    by (auto split: option.splits)
  from hl "3.prems"(2) have c: "h < 16" "hexDigits ! h = c" and d: "l < 16" "hexDigits ! l = d"
    by (auto dest: hexValue_inverse)
  have "unat (of_nat (16 * h + l) :: u8) = (16 * h + l) mod 256"
    by (simp only: unat_of_nat len_num0 len_num1 len_bit0) simp
  then have "unat (of_nat (16 * h + l) :: u8) = 16 * h + l"
    using c d by simp
  with "3.IH" [OF bs'] "3.prems"(2) c d show ?case
    by (simp add: bs hex_EncodeToString_def)
qed simp

lemma hex_Decode_total:
  "even (length s) \<Longrightarrow> set s \<subseteq> set hexDigits \<Longrightarrow> \<exists>bs. hex_DecodeString s = Some bs"
proof (induction s rule: hex_DecodeString.induct)
  case (3 c d s)
  then obtain h l bs where "hexValue c = Some h" "hexValue d = Some l" "hex_DecodeString s = Some bs"
    by (auto simp: in_set_conv_nth hexValue_digit)
  then show ?case by simp
qed auto

lemma length_hex_DecodeString: "hex_DecodeString s = Some bs \<Longrightarrow> length s = 2 * length bs"
  by (induction s arbitrary: bs rule: hex_DecodeString.induct) (auto split: option.splits)

text \<open>Decimal, as \<open>%d\<close> prints an unsigned integer.\<close>

fun decimal :: "nat \<Rightarrow> string" where
  "decimal n =
     (if n < 10 then [char_of (48 + n)] else decimal (n div 10) @ [char_of (48 + n mod 10)])"

declare decimal.simps [simp del]

definition decimalValue :: "string \<Rightarrow> nat" where
  "decimalValue s = foldl (\<lambda>acc c. acc * 10 + (of_char c - 48)) 0 s"

lemma decimalValue_decimal [simp]: "decimalValue (decimal n) = n"
proof (induction n rule: decimal.induct)
  case (1 n)
  show ?case
  proof (cases "n < 10")
    case True
    then show ?thesis by (simp add: decimal.simps [of n] decimalValue_def)
  next
    case False
    with "1.IH" have "foldl (\<lambda>acc c. acc * 10 + (of_char c - 48)) 0 (decimal (n div 10)) = n div 10"
      by (simp add: decimalValue_def)
    with False show ?thesis
      by (simp add: decimal.simps [of n] decimalValue_def)
  qed
qed

lemma decimal_inj [simp]: "decimal m = decimal n \<longleftrightarrow> m = n"
  by (metis decimalValue_decimal)

lemma decimal_digits: "c \<in> set (decimal n) \<Longrightarrow> 48 \<le> (of_char c :: nat) \<and> (of_char c :: nat) \<le> 57"
proof (induction n rule: decimal.induct)
  case (1 n)
  then show ?case
    by (cases "n < 10") (auto simp: decimal.simps [of n])
qed

lemma split_last:
  assumes "xs @ c # ys = xs' @ c # ys'" and "c \<notin> set ys" and "c \<notin> set ys'"
  shows "xs = xs' \<and> ys = ys'"
proof -
  obtain us where "xs = xs' @ us \<and> us @ c # ys = c # ys' \<or> xs @ us = xs' \<and> c # ys = us @ c # ys'"
    using assms(1) unfolding append_eq_append_conv2 by blast
  then show ?thesis using assms(2,3) by (cases us) auto
qed

lemma decimal_nonempty [simp]: "decimal n \<noteq> []"
  by (subst decimal.simps) simp

text \<open>
  \<open>strings.TrimSpace\<close> removes the Unicode white space at both ends. UTF-8 is self-synchronising, so
  the first (last) rune of a byte string is a space exactly when the string starts (ends) with the
  encoding of one; \<open>spaces\<close> lists the encodings of \<open>unicode.IsSpace\<close>.
\<close>

definition spaces :: "string list" where
  "spaces =
     [[CHR 0x09], [CHR 0x0A], [CHR 0x0B], [CHR 0x0C], [CHR 0x0D], [CHR 0x20],
      [CHR 0xC2, CHR 0x85], [CHR 0xC2, CHR 0xA0], [CHR 0xE1, CHR 0x9A, CHR 0x80],
      [CHR 0xE2, CHR 0x80, CHR 0xA8], [CHR 0xE2, CHR 0x80, CHR 0xA9],
      [CHR 0xE2, CHR 0x80, CHR 0xAF], [CHR 0xE2, CHR 0x81, CHR 0x9F],
      [CHR 0xE3, CHR 0x80, CHR 0x80]] @
     map (\<lambda>n. [CHR 0xE2, CHR 0x80, char_of n]) [128..<139]"

definition stripPrefix :: "string list \<Rightarrow> string \<Rightarrow> string option" where
  "stripPrefix ps s =
     map_option (\<lambda>p. drop (length p) s) (find (\<lambda>p. p \<noteq> [] \<and> take (length p) s = p) ps)"

lemma stripPrefix_shorter: "stripPrefix ps s = Some t \<Longrightarrow> length t < length s"
proof -
  assume "stripPrefix ps s = Some t"
  then obtain p where p: "p \<noteq> []" "take (length p) s = p" and t: "t = drop (length p) s"
    by (auto simp: stripPrefix_def find_Some_iff)
  from p(2) have "length p \<le> length s" by (metis length_take min.cobounded1)
  moreover from p(1) have "0 < length p" by simp
  ultimately show ?thesis unfolding t length_drop by linarith
qed

function trimLeft :: "string list \<Rightarrow> string \<Rightarrow> string" where
  "trimLeft ps s = (case stripPrefix ps s of None \<Rightarrow> s | Some t \<Rightarrow> trimLeft ps t)"
  by pat_completeness auto
termination
  by (relation "measure (\<lambda>(ps, s). length s)") (auto dest: stripPrefix_shorter)

declare trimLeft.simps [simp del]

definition strings_TrimSpace :: "string \<Rightarrow> string" where
  "strings_TrimSpace s = rev (trimLeft (map rev spaces) (rev (trimLeft spaces s)))"

definition hasPrefix :: "string \<Rightarrow> string \<Rightarrow> bool" where
  "hasPrefix s p \<longleftrightarrow> take (length p) s = p"

text \<open>
  \<open>strings.IndexFunc(s, unicode.IsControl) == -1\<close>: no ASCII control byte, no DEL and no encoding of
  U+0080 to U+009F, whose lead byte 0xC2 always starts a rune.
\<close>

fun noControl :: "string \<Rightarrow> bool" where
  "noControl [] = True"
| "noControl (c # s) =
     (let n = of_char c :: nat in
      32 \<le> n \<and> n \<noteq> 127 \<and>
      \<not> (n = 194 \<and> (case s of [] \<Rightarrow> False | d # _ \<Rightarrow> 128 \<le> (of_char d :: nat) \<and> (of_char d :: nat) < 160)) \<and>
      noControl s)"

text \<open>Printable ASCII: no such character is part of a space or of a control character.\<close>

definition plain :: "char \<Rightarrow> bool" where
  "plain c \<longleftrightarrow> 33 \<le> (of_char c :: nat) \<and> (of_char c :: nat) \<le> 126"

lemma spaces_not_plain: "\<forall>p \<in> set spaces. \<forall>c \<in> set p. \<not> plain c"
  by (auto simp: spaces_def plain_def)

lemma stripPrefix_None: "stripPrefix ps s = None \<longleftrightarrow> (\<forall>p \<in> set ps. p \<noteq> [] \<longrightarrow> take (length p) s \<noteq> p)"
  by (auto simp: stripPrefix_def find_None_iff)

lemma stripPrefix_extend:
  assumes "stripPrefix ps s = None" and "\<forall>p \<in> set ps. \<forall>c \<in> set p. \<not> plain c" and "plain c"
  shows "stripPrefix ps (s @ c # r) = None"
  unfolding stripPrefix_None
proof (intro ballI impI notI)
  fix p assume p: "p \<in> set ps" "p \<noteq> []" and eq: "take (length p) (s @ c # r) = p"
  show False
  proof (cases "length p \<le> length s")
    case True
    then show False using assms(1) p eq by (simp add: stripPrefix_None)
  next
    case False
    then have "p ! length s = c" by (subst eq [symmetric]) (simp add: nth_append)
    moreover have "p ! length s \<in> set p" using False by (intro nth_mem) simp
    ultimately show False using assms(2,3) p(1) by blast
  qed
qed

lemma trimLeft_length: "length (trimLeft ps s) \<le> length s"
proof (induction ps s rule: trimLeft.induct)
  case (1 ps s)
  then show ?case
    by (cases "stripPrefix ps s") (auto simp: trimLeft.simps [of ps s] dest: stripPrefix_shorter)
qed

lemma trimLeft_shorter: "stripPrefix ps s = Some t \<Longrightarrow> length (trimLeft ps s) < length s"
  using trimLeft_length [of ps t] stripPrefix_shorter [of ps s t] by (simp add: trimLeft.simps [of ps s])

lemma trimLeft_fixed: "trimLeft ps s = s \<longleftrightarrow> stripPrefix ps s = None"
proof (cases "stripPrefix ps s")
  case (Some t)
  then have "length (trimLeft ps s) < length s" by (rule trimLeft_shorter)
  then show ?thesis using Some by auto
qed (simp add: trimLeft.simps [of ps s])

lemma TrimSpace_fixed:
  "strings_TrimSpace s = s \<longleftrightarrow> stripPrefix spaces s = None \<and> stripPrefix (map rev spaces) (rev s) = None"
proof
  assume eq: "strings_TrimSpace s = s"
  have "length s \<le> length (trimLeft spaces s)"
    using arg_cong [OF eq, of length] trimLeft_length [of "map rev spaces" "rev (trimLeft spaces s)"]
    by (simp add: strings_TrimSpace_def)
  then have front: "trimLeft spaces s = s"
    using trimLeft_shorter [of spaces s] by (cases "stripPrefix spaces s") (auto simp: trimLeft.simps [of spaces s])
  then have "trimLeft (map rev spaces) (rev s) = rev s" using eq by (simp add: strings_TrimSpace_def rev_swap)
  then show "stripPrefix spaces s = None \<and> stripPrefix (map rev spaces) (rev s) = None"
    using front by (simp add: trimLeft_fixed)
next
  assume "stripPrefix spaces s = None \<and> stripPrefix (map rev spaces) (rev s) = None"
  then show "strings_TrimSpace s = s" by (simp add: strings_TrimSpace_def trimLeft_fixed [THEN iffD2])
qed

lemma TrimSpace_extend:
  assumes "strings_TrimSpace s = s" and "plain c" and "plain d"
  shows "strings_TrimSpace (s @ c # r @ [d]) = s @ c # r @ [d]"
proof -
  have ends: "\<forall>p \<in> set (map rev spaces). \<forall>c \<in> set p. \<not> plain c" using spaces_not_plain by simp
  have "stripPrefix (map rev spaces) ([] @ d # rev (s @ c # r)) = None"
    by (rule stripPrefix_extend [OF _ ends assms(3)]) (simp add: stripPrefix_None)
  moreover have "stripPrefix spaces (s @ c # (r @ [d])) = None"
    by (rule stripPrefix_extend [OF _ spaces_not_plain assms(2)]) (use assms(1) in \<open>simp add: TrimSpace_fixed\<close>)
  ultimately show ?thesis by (simp add: TrimSpace_fixed)
qed

lemma noControl_append: "noControl a \<Longrightarrow> noControl b \<Longrightarrow> (b \<noteq> [] \<Longrightarrow> plain (hd b)) \<Longrightarrow> noControl (a @ b)"
proof (induction a)
  case (Cons c a)
  then show ?case by (cases a; cases b) (auto simp: Let_def plain_def)
qed simp

lemma noControl_plain: "\<forall>c \<in> set s. plain c \<Longrightarrow> noControl s"
proof (induction s)
  case (Cons c s)
  then show ?case by (cases s) (auto simp: Let_def plain_def)
qed simp

lemma TrimSpace_plain:
  assumes "s \<noteq> []" "plain (hd s)" "plain (last s)"
  shows "strings_TrimSpace s = s"
proof -
  have ends: "\<forall>p \<in> set (map rev spaces). \<forall>c \<in> set p. \<not> plain c" using spaces_not_plain by simp
  have front: "stripPrefix spaces ([] @ hd s # tl s) = None"
    by (rule stripPrefix_extend [OF _ spaces_not_plain assms(2)]) (simp add: stripPrefix_None)
  have rear: "stripPrefix (map rev spaces) ([] @ last s # rev (butlast s)) = None"
    by (rule stripPrefix_extend [OF _ ends assms(3)]) (simp add: stripPrefix_None)
  have "rev s = [] @ last s # rev (butlast s)"
    using assms(1) by (metis append_Nil append_butlast_last_id rev_eq_Cons_iff rev_rev_ident)
  then have "stripPrefix (map rev spaces) (rev s) = None" by (simp only: rear)
  then show ?thesis using front assms(1) by (simp add: TrimSpace_fixed)
qed

section \<open>URLs\<close>

text \<open>What the program reads and clears of a URL parsed by net/url; the rest of it is one opaque field.\<close>

record URL =
  url_Scheme :: string
  url_Host :: string
  url_User :: "string option"
  url_RawQuery :: string
  url_Fragment :: string
  url_rest :: string

end
