(* ===== verification/Netip.thy ===== *)
theory Netip
  imports Prelude
begin

text \<open>
  The values of Go's package net/netip that the program keeps: addresses with their total order and
  their textual form, and prefixes with the containment test of firewall-style rules. An address is
  the invalid zero value, an IPv4 address or an IPv6 address with its zone (empty for none).
\<close>

datatype Addr = AddrZero | Addr4 u32 | Addr6 "128 word" string

fun Addr_IsValid :: "Addr \<Rightarrow> bool" where
  "Addr_IsValid AddrZero = False"
| "Addr_IsValid _ = True"

fun Addr_BitLen :: "Addr \<Rightarrow> nat" where
  "Addr_BitLen AddrZero = 0"
| "Addr_BitLen (Addr4 _) = 32"
| "Addr_BitLen (Addr6 _ _) = 128"

text \<open>\<open>cmp\<close> is Go's three-way comparison result: -1, 0 or 1.\<close>

definition cmp :: "'a::linorder \<Rightarrow> 'a \<Rightarrow> int" where
  "cmp a b = (if a < b then -1 else if b < a then 1 else 0)"

lemma cmp_cases [simp]:
  "cmp a b \<le> 0 \<longleftrightarrow> a \<le> b" "cmp a b = 0 \<longleftrightarrow> a = b" "cmp a b < 0 \<longleftrightarrow> a < b"
  by (auto simp: cmp_def)

lemma cmp_swap: "cmp b a = - cmp a b"
  by (auto simp: cmp_def)

text \<open>
  Comparison is by bit length, then by value, then (IPv6) by zone: a lexicographic order on a key.
\<close>

fun Addr_key :: "Addr \<Rightarrow> nat \<times> nat \<times> string" where
  "Addr_key AddrZero = (0, 0, [])"
| "Addr_key (Addr4 w) = (32, unat w, [])"
| "Addr_key (Addr6 w z) = (128, unat w, z)"

fun Addr_Compare :: "Addr \<Rightarrow> Addr \<Rightarrow> int" where
  "Addr_Compare (Addr4 v) (Addr4 w) = cmp v w"
| "Addr_Compare (Addr6 v y) (Addr6 w z) = (if v = w then cmp y z else cmp v w)"
| "Addr_Compare a b = cmp (Addr_BitLen a) (Addr_BitLen b)"

lemma Addr_key_inj: "Addr_key a = Addr_key b \<longleftrightarrow> a = b"
  by (cases a; cases b) (auto simp: word_unat_eq_iff)

lemma Addr_Compare_key: "Addr_Compare a b = cmp (Addr_key a) (Addr_key b)"
  by (cases a; cases b) (auto simp: cmp_def word_less_nat_alt word_unat_eq_iff)

section \<open>Text\<close>

definition dotted :: "nat \<Rightarrow> string" where
  "dotted n = decimal (n div 2 ^ 24 mod 256) @ ''.'' @ decimal (n div 2 ^ 16 mod 256) @ ''.'' @
              decimal (n div 2 ^ 8 mod 256) @ ''.'' @ decimal (n mod 256)"

fun lowerHex :: "nat \<Rightarrow> string" where
  "lowerHex n = (if n < 16 then [hexDigits ! n] else lowerHex (n div 16) @ [hexDigits ! (n mod 16)])"

declare lowerHex.simps [simp del]

text \<open>The sixteen-bit groups of an IPv6 address, most significant first.\<close>

definition groups :: "128 word \<Rightarrow> nat list" where
  "groups w = map (\<lambda>i. unat w div 2 ^ (16 * (7 - i)) mod 2 ^ 16) [0..<8]"

text \<open>The longest run of at least two zero groups, the first one of several.\<close>

definition zeroRun :: "nat list \<Rightarrow> nat \<times> nat" where
  "zeroRun gs =
     foldl (\<lambda>(s, e) i.
        let l = length (takeWhile (\<lambda>g. g = 0) (drop i gs))
        in if 2 \<le> l \<and> e - s < l then (i, i + l) else (s, e))
      (255, 255) [0..<8]"

function string6 :: "nat list \<Rightarrow> nat \<times> nat \<Rightarrow> nat \<Rightarrow> string" where
  "string6 gs (s, e) i =
     (if 8 \<le> i then []
      else if i = s then
        ''::'' @ (if 8 \<le> e \<or> e \<le> i then [] else lowerHex (gs ! e) @ string6 gs (s, e) (Suc e))
      else (if 0 < i then '':'' else []) @ lowerHex (gs ! i) @ string6 gs (s, e) (Suc i))"
  by pat_completeness auto
termination
  by (relation "measure (\<lambda>(gs, se, i). 8 - i)") auto

declare string6.simps [simp del]

definition zoneSuffix :: "string \<Rightarrow> string" where
  "zoneSuffix z = (if z = [] then [] else ''%'' @ z)"

fun Addr_String :: "Addr \<Rightarrow> string" where
  "Addr_String AddrZero = ''invalid IP''"
| "Addr_String (Addr4 w) = dotted (unat w)"
| "Addr_String (Addr6 w z) =
     (if unat w div 2 ^ 32 = 0xffff then ''::ffff:'' @ dotted (unat w mod 2 ^ 32) @ zoneSuffix z
      else string6 (groups w) (zeroRun (groups w)) 0 @ zoneSuffix z)"

section \<open>Prefixes\<close>

record Prefix =
  pfx_ip :: Addr
  pfx_bitsPlusOne :: nat

definition Prefix_IsValid :: "Prefix \<Rightarrow> bool" where
  "Prefix_IsValid p \<longleftrightarrow> 0 < pfx_bitsPlusOne p"

definition Prefix_Bits :: "Prefix \<Rightarrow> nat" where
  "Prefix_Bits p = pfx_bitsPlusOne p - 1"

fun Prefix_Contains :: "Prefix \<Rightarrow> Addr \<Rightarrow> bool" where
  "Prefix_Contains p ip =
     (Prefix_IsValid p \<and>
      (case (pfx_ip p, ip) of
         (Addr4 v, Addr4 w) \<Rightarrow> drop_bit (32 - Prefix_Bits p) (v XOR w) = 0
       | (Addr6 v _, Addr6 w z) \<Rightarrow> z = [] \<and> drop_bit (128 - Prefix_Bits p) (v XOR w) = 0
       | _ \<Rightarrow> False))"

lemma Prefix_Contains_valid: "Prefix_Contains p ip \<Longrightarrow> Addr_IsValid ip"
  by (cases ip) (auto split: prod.splits Addr.splits)

text \<open>\<open>Prefix.Masked\<close>: the same prefix with the bits outside the mask cleared.\<close>

definition Prefix_Masked :: "Prefix \<Rightarrow> Prefix" where
  "Prefix_Masked p =
     (let none = \<lparr>pfx_ip = AddrZero, pfx_bitsPlusOne = 0\<rparr>; bits = Prefix_Bits p in
      if \<not> Prefix_IsValid p then none
      else case pfx_ip p of
        AddrZero \<Rightarrow> none
      | Addr4 v \<Rightarrow> if bits > 32 then none else \<lparr>pfx_ip = Addr4 (push_bit (32 - bits) (drop_bit (32 - bits) v)), pfx_bitsPlusOne = bits + 1\<rparr>
      | Addr6 v z \<Rightarrow> if bits > 128 then none else \<lparr>pfx_ip = Addr6 (push_bit (128 - bits) (drop_bit (128 - bits) v)) [], pfx_bitsPlusOne = bits + 1\<rparr>)"

text \<open>What a prefix that was parsed satisfies: an address with no more bits than it has.\<close>

definition Prefix_wf :: "Prefix \<Rightarrow> bool" where
  "Prefix_wf p \<longleftrightarrow> Prefix_IsValid p \<and> Addr_IsValid (pfx_ip p) \<and> Prefix_Bits p \<le> Addr_BitLen (pfx_ip p)"

lemma drop_push_drop: "drop_bit n (push_bit n (drop_bit n (v :: 'a::len word))) = drop_bit n v"
  by (intro bit_word_eqI) (auto simp: bit_simps dest: bit_imp_le_length)

lemma Prefix_Masked_wf: "Prefix_wf p \<Longrightarrow> Prefix_wf (Prefix_Masked p) \<and> Prefix_IsValid (Prefix_Masked p)"
  by (cases "pfx_ip p") (auto simp: Prefix_wf_def Prefix_Masked_def Let_def Prefix_IsValid_def Prefix_Bits_def)

lemma Prefix_Masked_Contains: "Prefix_wf p \<Longrightarrow> Prefix_Contains (Prefix_Masked p) ip = Prefix_Contains p ip"
  by (cases "pfx_ip p"; cases ip)
    (auto simp: Prefix_wf_def Prefix_Masked_def Let_def Prefix_IsValid_def Prefix_Bits_def drop_push_drop)

end
