(* ===== verification/Packet.thy ===== *)
theory Packet
  imports Netip
begin

text \<open>
  internal/packet/event.go: the normalized metadata of one captured packet and its validator. A
  \<open>Protocol\<close> is a string with five accepted values; \<open>TCPFlags\<close> is a byte of flag bits.
\<close>

type_synonym Protocol = string
type_synonym TCPFlags = u8

definition ProtocolTCP :: Protocol where "ProtocolTCP = ''tcp''"
definition ProtocolUDP :: Protocol where "ProtocolUDP = ''udp''"
definition ProtocolICMP :: Protocol where "ProtocolICMP = ''icmp''"
definition ProtocolICMP6 :: Protocol where "ProtocolICMP6 = ''icmp6''"
definition ProtocolOther :: Protocol where "ProtocolOther = ''other''"

lemmas protocol_defs =
  ProtocolTCP_def ProtocolUDP_def ProtocolICMP_def ProtocolICMP6_def ProtocolOther_def

definition protocols :: "Protocol list" where
  "protocols = [ProtocolTCP, ProtocolUDP, ProtocolICMP, ProtocolICMP6, ProtocolOther]"

definition TCPFlagFIN :: TCPFlags where "TCPFlagFIN = 1"
definition TCPFlagSYN :: TCPFlags where "TCPFlagSYN = 2"
definition TCPFlagRST :: TCPFlags where "TCPFlagRST = 4"
definition TCPFlagPSH :: TCPFlags where "TCPFlagPSH = 8"
definition TCPFlagACK :: TCPFlags where "TCPFlagACK = 16"
definition TCPFlagURG :: TCPFlags where "TCPFlagURG = 32"

lemmas tcpflag_defs =
  TCPFlagFIN_def TCPFlagSYN_def TCPFlagRST_def TCPFlagPSH_def TCPFlagACK_def TCPFlagURG_def

record Endpoint =
  ep_Addr :: Addr
  ep_Port :: u16

record Event =
  ev_CapturedAt :: time
  ev_Source :: Endpoint
  ev_Destination :: Endpoint
  ev_Protocol :: Protocol
  ev_WireLength :: int
  ev_CapturedLength :: int
  ev_PayloadLength :: int
  ev_TCPFlags :: TCPFlags

datatype event_error =
    AddressesInvalid
  | LengthsNegative
  | CapturedExceedsWire
  | PayloadExceedsCaptured
  | ProtocolUnsupported

definition Event_Validate :: "Event \<Rightarrow> event_error option" where
  "Event_Validate e =
     (if \<not> Addr_IsValid (ep_Addr (ev_Source e)) \<or> \<not> Addr_IsValid (ep_Addr (ev_Destination e))
      then Some AddressesInvalid
      else if ev_WireLength e < 0 \<or> ev_CapturedLength e < 0 \<or> ev_PayloadLength e < 0
      then Some LengthsNegative
      else if ev_CapturedLength e > ev_WireLength e then Some CapturedExceedsWire
      else if ev_PayloadLength e > ev_CapturedLength e then Some PayloadExceedsCaptured
      else if ev_Protocol e \<in> set protocols then None
      else Some ProtocolUnsupported)"

lemma Event_Validate_None:
  "Event_Validate e = None \<longleftrightarrow>
     Addr_IsValid (ep_Addr (ev_Source e)) \<and> Addr_IsValid (ep_Addr (ev_Destination e)) \<and>
     0 \<le> ev_PayloadLength e \<and> ev_PayloadLength e \<le> ev_CapturedLength e \<and>
     ev_CapturedLength e \<le> ev_WireLength e \<and> ev_Protocol e \<in> set protocols"
  by (auto simp: Event_Validate_def)

lemma Event_Validate_wire: "Event_Validate e = None \<Longrightarrow> 0 \<le> ev_WireLength e"
  by (simp add: Event_Validate_None)

text \<open>The packet of the opposite direction: source and destination exchanged.\<close>

definition reverse_event :: "Event \<Rightarrow> Event" where
  "reverse_event e = e\<lparr>ev_Source := ev_Destination e, ev_Destination := ev_Source e\<rparr>"

lemma Event_Validate_reverse [simp]: "Event_Validate (reverse_event e) = Event_Validate e"
  by (auto simp: Event_Validate_def reverse_event_def)

text \<open>A SYN of an HTTPS connection, on which properties of packets are applied.\<close>

definition sampleEvent :: Event where
  "sampleEvent = \<lparr>ev_CapturedAt = 5, ev_Source = \<lparr>ep_Addr = Addr4 10, ep_Port = 40000\<rparr>,
     ev_Destination = \<lparr>ep_Addr = Addr4 20, ep_Port = 443\<rparr>, ev_Protocol = ProtocolTCP,
     ev_WireLength = 60, ev_CapturedLength = 60, ev_PayloadLength = 0, ev_TCPFlags = TCPFlagSYN\<rparr>"

lemma sampleEvent_valid: "Event_Validate sampleEvent = None" "ev_CapturedAt sampleEvent = 5"
  by (simp_all add: sampleEvent_def Event_Validate_def protocols_def)

end
