(* ===== verification/Sha256.thy ===== *)
theory Sha256
  imports Prelude
begin

text \<open>
  SHA-256 (crypto/sha256 of Go's standard library, FIPS 180-4), which the program uses for flow
  identifiers, automatic musical identities and configuration revisions. The development relies on
  its being a function from bytes to 32 bytes; the algorithm is written out so that every
  definition that hashes is executable.
\<close>

definition sha256_K :: "u32 list" where
  "sha256_K =
     [1116352408, 1899447441, 3049323471, 3921009573, 961987163, 1508970993, 2453635748, 2870763221,
      3624381080, 310598401, 607225278, 1426881987, 1925078388, 2162078206, 2614888103, 3248222580,
      3835390401, 4022224774, 264347078, 604807628, 770255983, 1249150122, 1555081692, 1996064986,
      2554220882, 2821834349, 2952996808, 3210313671, 3336571891, 3584528711, 113926993, 338241895,
      666307205, 773529912, 1294757372, 1396182291, 1695183700, 1986661051, 2177026350, 2456956037,
      2730485921, 2820302411, 3259730800, 3345764771, 3516065817, 3600352804, 4094571909, 275423344,
      430227734, 506948616, 659060556, 883997877, 958139571, 1322822218, 1537002063, 1747873779,
      1955562222, 2024104815, 2227730452, 2361852424, 2428436474, 2756734187, 3204031479, 3329325298]"

type_synonym sha_state = "u32 \<times> u32 \<times> u32 \<times> u32 \<times> u32 \<times> u32 \<times> u32 \<times> u32"

definition sha256_init :: sha_state where
  "sha256_init =
     (1779033703, 3144134277, 1013904242, 2773480762, 1359893119, 2600822924, 528734635, 1541459225)"

definition sha_ch :: "u32 \<Rightarrow> u32 \<Rightarrow> u32 \<Rightarrow> u32" where
  "sha_ch x y z = (x AND y) XOR (NOT x AND z)"

definition sha_maj :: "u32 \<Rightarrow> u32 \<Rightarrow> u32 \<Rightarrow> u32" where
  "sha_maj x y z = (x AND y) XOR (x AND z) XOR (y AND z)"

definition sha_big0 :: "u32 \<Rightarrow> u32" where
  "sha_big0 x = word_rotr 2 x XOR word_rotr 13 x XOR word_rotr 22 x"

definition sha_big1 :: "u32 \<Rightarrow> u32" where
  "sha_big1 x = word_rotr 6 x XOR word_rotr 11 x XOR word_rotr 25 x"

definition sha_small0 :: "u32 \<Rightarrow> u32" where
  "sha_small0 x = word_rotr 7 x XOR word_rotr 18 x XOR drop_bit 3 x"

definition sha_small1 :: "u32 \<Rightarrow> u32" where
  "sha_small1 x = word_rotr 17 x XOR word_rotr 19 x XOR drop_bit 10 x"

text \<open>The message schedule, kept newest first while it is extended from 16 to 64 words.\<close>

fun sha_extend :: "nat \<Rightarrow> u32 list \<Rightarrow> u32 list" where
  "sha_extend 0 ws = ws"
| "sha_extend (Suc n) ws =
     sha_extend n ((sha_small1 (ws ! 1) + ws ! 6 + sha_small0 (ws ! 14) + ws ! 15) # ws)"

definition sha_schedule :: "u32 list \<Rightarrow> u32 list" where
  "sha_schedule block = rev (sha_extend 48 (rev block))"

fun sha_round :: "sha_state \<Rightarrow> u32 \<times> u32 \<Rightarrow> sha_state" where
  "sha_round (a, b, c, d, e, f, g, h) (k, w) =
     (let t1 = h + sha_big1 e + sha_ch e f g + k + w;
          t2 = sha_big0 a + sha_maj a b c
      in (t1 + t2, a, b, c, d + t1, e, f, g))"

fun sha_add :: "sha_state \<Rightarrow> sha_state \<Rightarrow> sha_state" where
  "sha_add (a, b, c, d, e, f, g, h) (a', b', c', d', e', f', g', h') =
     (a + a', b + b', c + c', d + d', e + e', f + f', g + g', h + h')"

definition sha_block :: "sha_state \<Rightarrow> u32 list \<Rightarrow> sha_state" where
  "sha_block s block = sha_add s (foldl sha_round s (zip sha256_K (sha_schedule block)))"

fun word32s :: "bytes \<Rightarrow> u32 list" where
  "word32s (a # b # c # d # bs) =
     (push_bit 24 (ucast a) OR push_bit 16 (ucast b) OR push_bit 8 (ucast c) OR ucast d) # word32s bs"
| "word32s _ = []"

function chunks16 :: "u32 list \<Rightarrow> u32 list list" where
  "chunks16 ws = (if ws = [] then [] else take 16 ws # chunks16 (drop 16 ws))"
  by pat_completeness auto
termination
  by (relation "measure length") auto

declare chunks16.simps [simp del]

definition sha_pad :: "bytes \<Rightarrow> bytes" where
  "sha_pad msg =
     (let n = length msg in
      msg @ [0x80] @ replicate ((119 - n mod 64) mod 64) 0 @
      be32 (of_nat (8 * n div 2 ^ 32)) @ be32 (of_nat (8 * n)))"

fun sha_output :: "sha_state \<Rightarrow> bytes" where
  "sha_output (a, b, c, d, e, f, g, h) = concat (map be32 [a, b, c, d, e, f, g, h])"

definition sha256_Sum256 :: "bytes \<Rightarrow> bytes" where
  "sha256_Sum256 msg = sha_output (foldl sha_block sha256_init (chunks16 (word32s (sha_pad msg))))"

lemma length_sha_output [simp]: "length (sha_output s) = 32"
  by (cases s rule: sha_output.cases) simp

lemma length_sha256 [simp]: "length (sha256_Sum256 msg) = 32"
  by (simp add: sha256_Sum256_def)

end
