(* ===== verification/FlowKey.thy ===== *)
theory FlowKey
  imports Packet Sha256
begin

text \<open>
  internal/flow/key.go: the canonical bidirectional flow key of a packet, the packet's direction
  within it, and the seeded pseudonymous flow identifier. The hash state is the byte string written
  so far; \<open>writeString\<close> frames each string with its 32-bit length.
\<close>

datatype Direction = DirectionAToB | DirectionBToA

record Key =
  key_Protocol :: Protocol
  key_A :: Endpoint
  key_B :: Endpoint

definition compareEndpoint :: "Endpoint \<Rightarrow> Endpoint \<Rightarrow> int" where
  "compareEndpoint a b =
     (let c = Addr_Compare (ep_Addr a) (ep_Addr b) in
      if c \<noteq> 0 then c
      else if ep_Port a < ep_Port b then -1
      else if ep_Port a > ep_Port b then 1
      else 0)"

definition Canonicalize :: "Event \<Rightarrow> Key \<times> Direction" where
  "Canonicalize e =
     (if compareEndpoint (ev_Source e) (ev_Destination e) \<le> 0
      then (\<lparr>key_Protocol = ev_Protocol e, key_A = ev_Source e, key_B = ev_Destination e\<rparr>, DirectionAToB)
      else (\<lparr>key_Protocol = ev_Protocol e, key_A = ev_Destination e, key_B = ev_Source e\<rparr>, DirectionBToA))"

definition writeString :: "bytes \<Rightarrow> string \<Rightarrow> bytes" where
  "writeString h v = h @ be32 (of_nat (length v)) @ string_bytes v"

definition writeEndpoint :: "bytes \<Rightarrow> Endpoint \<Rightarrow> bytes" where
  "writeEndpoint h e = writeString h (Addr_String (ep_Addr e)) @ be16 (ep_Port e)"

definition Key_hashInput :: "Key \<Rightarrow> string \<Rightarrow> bytes" where
  "Key_hashInput k seed =
     writeEndpoint (writeEndpoint (writeString (writeString [] seed) (key_Protocol k)) (key_A k)) (key_B k)"

definition Key_ID :: "Key \<Rightarrow> string \<Rightarrow> string" where
  "Key_ID k seed = hex_EncodeToString (take 12 (sha256_Sum256 (Key_hashInput k seed)))"

section \<open>The order on endpoints\<close>

definition Endpoint_key :: "Endpoint \<Rightarrow> (nat \<times> nat \<times> string) \<times> u16" where
  "Endpoint_key e = (Addr_key (ep_Addr e), ep_Port e)"

lemma Endpoint_key_inj: "Endpoint_key a = Endpoint_key b \<longleftrightarrow> a = b"
  by (cases a; cases b) (auto simp: Endpoint_key_def Addr_key_inj)

lemma compareEndpoint_key: "compareEndpoint a b = cmp (Endpoint_key a) (Endpoint_key b)"
  by (auto simp: compareEndpoint_def Addr_Compare_key Endpoint_key_def Let_def cmp_def)

lemma compareEndpoint_le: "compareEndpoint a b \<le> 0 \<longleftrightarrow> Endpoint_key a \<le> Endpoint_key b"
  by (simp add: compareEndpoint_key)

lemma Canonicalize_ordered:
  "Canonicalize e = (k, d) \<Longrightarrow> compareEndpoint (key_A k) (key_B k) \<le> 0"
  by (auto simp: Canonicalize_def compareEndpoint_le split: if_splits)

lemma Canonicalize_endpoints:
  "Canonicalize e = (k, d) \<Longrightarrow>
     key_Protocol k = ev_Protocol e \<and>
     (if d = DirectionAToB then key_A k = ev_Source e \<and> key_B k = ev_Destination e
      else key_A k = ev_Destination e \<and> key_B k = ev_Source e)"
  by (auto simp: Canonicalize_def split: if_splits)

section \<open>Framing of the hash input\<close>

lemma framed_inj:
  assumes "be32 (of_nat (length v)) @ string_bytes v @ r = be32 (of_nat (length w)) @ string_bytes w @ s"
    and "length v < 2 ^ 32" and "length w < 2 ^ 32"
  shows "v = w \<and> r = s"
proof -
  have eq: "be32 (of_nat (length v)) = be32 (of_nat (length w))"
    and rest: "string_bytes v @ r = string_bytes w @ s"
    using assms(1) by (simp_all add: append_eq_append_conv)
  have "unat (of_nat (length v) :: u32) = unat (of_nat (length w) :: u32)"
    using eq be32_inj by metis
  then have "length v = length w"
    using assms(2,3) by (simp add: unat_of_nat_small)
  then show ?thesis using rest by (simp add: append_eq_append_conv)
qed

lemma Key_hashInput_inj:
  assumes "Key_hashInput k seed = Key_hashInput k' seed'"
    and "length seed < 2 ^ 32" "length seed' < 2 ^ 32"
    and "length (key_Protocol k) < 2 ^ 32" "length (key_Protocol k') < 2 ^ 32"
    and "\<And>e. e \<in> {key_A k, key_B k, key_A k', key_B k'} \<Longrightarrow> length (Addr_String (ep_Addr e)) < 2 ^ 32"
  shows "seed = seed' \<and> key_Protocol k = key_Protocol k' \<and>
     Addr_String (ep_Addr (key_A k)) = Addr_String (ep_Addr (key_A k')) \<and>
     ep_Port (key_A k) = ep_Port (key_A k') \<and>
     Addr_String (ep_Addr (key_B k)) = Addr_String (ep_Addr (key_B k')) \<and>
     ep_Port (key_B k) = ep_Port (key_B k')"
proof -
  have flat: "Key_hashInput k seed =
      be32 (of_nat (length seed)) @ string_bytes seed @
      be32 (of_nat (length (key_Protocol k))) @ string_bytes (key_Protocol k) @
      be32 (of_nat (length (Addr_String (ep_Addr (key_A k))))) @
      string_bytes (Addr_String (ep_Addr (key_A k))) @ be16 (ep_Port (key_A k)) @
      be32 (of_nat (length (Addr_String (ep_Addr (key_B k))))) @
      string_bytes (Addr_String (ep_Addr (key_B k))) @ be16 (ep_Port (key_B k))"
    for k seed
    by (simp add: Key_hashInput_def writeEndpoint_def writeString_def)
  note s1 = framed_inj [OF assms(1) [unfolded flat] assms(2,3)]
  note s2 = framed_inj [OF conjunct2 [OF s1] assms(4,5)]
  note s3 = framed_inj [OF conjunct2 [OF s2] assms(6) assms(6)]
  have tl: "be16 (ep_Port (key_A k)) = be16 (ep_Port (key_A k'))"
    "be32 (of_nat (length (Addr_String (ep_Addr (key_B k))))) @
     string_bytes (Addr_String (ep_Addr (key_B k))) @ be16 (ep_Port (key_B k)) =
     be32 (of_nat (length (Addr_String (ep_Addr (key_B k'))))) @
     string_bytes (Addr_String (ep_Addr (key_B k'))) @ be16 (ep_Port (key_B k'))"
    using conjunct2 [OF s3] by (simp_all add: append_eq_append_conv)
  note s4 = framed_inj [OF tl(2) assms(6) assms(6)]
  show ?thesis using s1 s2 s3 s4 tl(1) by simp
qed

lemma length_Key_ID [simp]: "length (Key_ID k seed) = 24"
  by (simp add: Key_ID_def)

lemma Key_ID_hex: "set (Key_ID k seed) \<subseteq> set hexDigits"
  by (simp add: Key_ID_def hex_EncodeToString_set)

lemma Key_ID_nonempty [simp]: "Key_ID k seed \<noteq> []"
  using length_Key_ID [of k seed] by (cases "Key_ID k seed") simp_all

lemma Key_ID_decodes: "\<exists>bs. hex_DecodeString (Key_ID k seed) = Some bs \<and> length bs = 12 \<and>
  hex_EncodeToString bs = Key_ID k seed"
  by (rule exI [of _ "take 12 (sha256_Sum256 (Key_hashInput k seed))"]) (simp add: Key_ID_def)

section \<open>Properties\<close>

text \<open>
  C22. The two directions of a conversation belong to one flow: a packet and its reply get the same key
  and therefore the same identifier under every seed, in opposite directions unless both endpoints
  coincide; the key's first endpoint never sorts after its second, and the identifier is 24
  hexadecimal digits.
\<close>

theorem Canonicalize_bidirectional:
  "fst (Canonicalize (reverse_event e)) = fst (Canonicalize e) \<and>
   Key_ID (fst (Canonicalize (reverse_event e))) seed = Key_ID (fst (Canonicalize e)) seed \<and>
   (snd (Canonicalize (reverse_event e)) = snd (Canonicalize e) \<longleftrightarrow> ev_Source e = ev_Destination e) \<and>
   compareEndpoint (key_A (fst (Canonicalize e))) (key_B (fst (Canonicalize e))) \<le> 0 \<and>
   length (Key_ID (fst (Canonicalize e)) seed) = 24 \<and> set (Key_ID (fst (Canonicalize e)) seed) \<subseteq> set hexDigits"
proof -
  let ?s = "Endpoint_key (ev_Source e)" and ?d = "Endpoint_key (ev_Destination e)"
  have "?s = ?d \<longleftrightarrow> ev_Source e = ev_Destination e" by (rule Endpoint_key_inj)
  then show ?thesis
    using Key_ID_hex by (auto simp: Canonicalize_def reverse_event_def compareEndpoint_le)
qed

text \<open>
  The bytes hashed into a flow identifier determine the seed, the protocol and the textual address
  and port of both endpoints, and are determined by them: the length framing leaves no two different
  flows, or one flow under two seeds, with the same hash input.
\<close>

theorem Key_hashInput_framing:
  assumes "list_all (\<lambda>s. length s < 2 ^ 32) [seed, seed', key_Protocol k, key_Protocol k',
      Addr_String (ep_Addr (key_A k)), Addr_String (ep_Addr (key_B k)),
      Addr_String (ep_Addr (key_A k')), Addr_String (ep_Addr (key_B k'))]"
  shows "Key_hashInput k seed = Key_hashInput k' seed' \<longleftrightarrow>
     seed = seed' \<and> key_Protocol k = key_Protocol k' \<and>
     Addr_String (ep_Addr (key_A k)) = Addr_String (ep_Addr (key_A k')) \<and> ep_Port (key_A k) = ep_Port (key_A k') \<and>
     Addr_String (ep_Addr (key_B k)) = Addr_String (ep_Addr (key_B k')) \<and> ep_Port (key_B k) = ep_Port (key_B k')"
    (is "?l \<longleftrightarrow> ?r")
proof
  assume ?l
  then show ?r by (rule Key_hashInput_inj) (use assms in auto)
next
  assume ?r
  then show ?l by (simp add: Key_hashInput_def writeEndpoint_def writeString_def)
qed

theorem Key_hashInput_framing_witness:
  "Key_hashInput \<lparr>key_Protocol = ''cp'', key_A = \<lparr>ep_Addr = Addr4 10, ep_Port = 40000\<rparr>,
       key_B = \<lparr>ep_Addr = Addr4 20, ep_Port = 443\<rparr>\<rparr> ''st'' \<noteq>
   Key_hashInput \<lparr>key_Protocol = ''tcp'', key_A = \<lparr>ep_Addr = Addr4 10, ep_Port = 40000\<rparr>,
       key_B = \<lparr>ep_Addr = Addr4 20, ep_Port = 443\<rparr>\<rparr> ''s''"
proof -
  let ?k = "\<lambda>p. \<lparr>key_Protocol = p, key_A = \<lparr>ep_Addr = Addr4 10, ep_Port = 40000\<rparr>,
       key_B = \<lparr>ep_Addr = Addr4 20, ep_Port = 443\<rparr>\<rparr>"
  have "length (Addr_String (Addr4 10)) < 2 ^ 32" "length (Addr_String (Addr4 20)) < 2 ^ 32"
    by (simp_all add: dotted_def decimal.simps)
  then show ?thesis using Key_hashInput_framing [of "''st''" "''s''" "?k ''cp''" "?k ''tcp''"] by simp
qed

end
