(* ===== verification/Music.thy ===== *)
theory Music
  imports FlowKey "HOL-Library.Log_Nat"
begin

text \<open>
  internal/music: diatonic modes (mode.go), note events and their validator (note.go), the musical
  identity of a flow (identity.go) and the deterministic flow-mode-v1 mapping of packets to notes
  (mapper.go). A \<open>Mode\<close> is a byte; the interval table holds the source's bytes as integers. The index
  arithmetic of \<open>Map\<close> is done in Go's 64-bit \<open>int\<close>, so it wraps, and indexing a slice with a negative
  remainder panics; the panic is an error value here. \<open>packetVelocity\<close> rounds a ratio of \<open>math.Log1p\<close>
  values; the model rounds the exact real number that ratio stands for, computed with integers only.
\<close>

section \<open>Modes (mode.go)\<close>

type_synonym Mode = u8

definition modeCount :: Mode where "modeCount = 7"

definition modeNames :: "string list" where
  "modeNames = [''ionian'', ''dorian'', ''phrygian'', ''lydian'', ''mixolydian'', ''aeolian'', ''locrian'']"

definition modeIntervals :: "int list list" where
  "modeIntervals =
     [[0, 2, 4, 5, 7, 9, 11], [0, 2, 3, 5, 7, 9, 10], [0, 1, 3, 5, 7, 8, 10], [0, 2, 4, 6, 7, 9, 11],
      [0, 2, 4, 5, 7, 9, 10], [0, 2, 3, 5, 7, 8, 10], [0, 1, 3, 5, 6, 8, 10]]"

definition Mode_Valid :: "Mode \<Rightarrow> bool" where
  "Mode_Valid m \<longleftrightarrow> m < modeCount"

definition Mode_String :: "Mode \<Rightarrow> string" where
  "Mode_String m = (if \<not> Mode_Valid m then ''mode('' @ decimal (unat m) @ '')'' else modeNames ! unat m)"

fun parseModeFrom :: "nat \<Rightarrow> string list \<Rightarrow> string \<Rightarrow> Mode option" where
  "parseModeFrom mode [] v = None"
| "parseModeFrom mode (name # names) v = (if v = name then Some (of_nat mode) else parseModeFrom (Suc mode) names v)"

definition ParseMode :: "string \<Rightarrow> Mode option" where
  "ParseMode v = parseModeFrom 0 modeNames v"

datatype interval_error = InvalidMode Mode | NegativeDegree

definition Interval :: "Mode \<Rightarrow> int \<Rightarrow> interval_error + int" where
  "Interval m degree =
     (if \<not> Mode_Valid m then Inl (InvalidMode m)
      else if degree < 0 then Inl NegativeDegree
      else Inr ((degree sdiv 7) * 12 + (modeIntervals ! unat m) ! nat (degree smod 7)))"

definition Modes :: "Mode list" where
  "Modes = [0, 1, 2, 3, 4, 5, 6]"

section \<open>Note events (note.go)\<close>

record NoteEvent =
  ne_ID :: string
  ne_Origin :: string
  ne_Sequence :: u64
  ne_MappingVersion :: string
  ne_FlowID :: string
  ne_Mode :: Mode
  ne_Root :: u8
  ne_Note :: u8
  ne_Velocity :: u8
  ne_Duration :: duration
  ne_Channel :: u8
  ne_CreatedAt :: time

datatype note_error =
    IdentifiersRequired
  | NoteModeInvalid
  | NoteRootRange
  | NoteVelocityRange
  | VelocityZero
  | ChannelRange
  | DurationNotPositive

definition NoteEvent_Validate :: "NoteEvent \<Rightarrow> note_error option" where
  "NoteEvent_Validate e =
     (if ne_ID e = [] \<or> ne_Origin e = [] then Some IdentifiersRequired
      else if \<not> Mode_Valid (ne_Mode e) then Some NoteModeInvalid
      else if ne_Root e > 11 then Some NoteRootRange
      else if ne_Note e > 127 \<or> ne_Velocity e > 127 then Some NoteVelocityRange
      else if ne_Velocity e = 0 then Some VelocityZero
      else if ne_Channel e < 1 \<or> ne_Channel e > 16 then Some ChannelRange
      else if ne_Duration e \<le> 0 then Some DurationNotPositive
      else None)"

lemma NoteEvent_Validate_None:
  "NoteEvent_Validate e = None \<longleftrightarrow>
     ne_ID e \<noteq> [] \<and> ne_Origin e \<noteq> [] \<and> Mode_Valid (ne_Mode e) \<and> ne_Root e \<le> 11 \<and> ne_Note e \<le> 127 \<and>
     ne_Velocity e \<le> 127 \<and> ne_Velocity e \<noteq> 0 \<and> 1 \<le> ne_Channel e \<and> ne_Channel e \<le> 16 \<and> 0 < ne_Duration e"
  by (auto simp: NoteEvent_Validate_def not_less u8_positive)

section \<open>Flow identity (identity.go)\<close>

record FlowIdentity =
  fi_Mode :: Mode
  fi_Root :: u8

definition IdentityForFlowID :: "string \<Rightarrow> FlowIdentity option" where
  "IdentityForFlowID flowID =
     (case hex_DecodeString flowID of
        None \<Rightarrow> None
      | Some decoded \<Rightarrow>
        if length decoded \<noteq> 12 \<or> hex_EncodeToString decoded \<noteq> flowID then None
        else let digest = sha256_Sum256 (string_bytes flowID)
             in Some \<lparr>fi_Mode = digest ! 0 mod modeCount, fi_Root = digest ! 1 mod 12\<rparr>)"

section \<open>The mapper (mapper.go)\<close>

definition FlowModeV1 :: string where "FlowModeV1 = ''flow-mode-v1''"

record MapperConfig =
  mc_Seed :: string
  mc_Origin :: string
  mc_MinimumNote :: u8
  mc_MaximumNote :: u8
  mc_MinimumDuration :: duration
  mc_MaximumDuration :: duration

record MapInput =
  mi_Packet :: Event
  mi_Sequence :: u64
  mi_InterArrival :: duration
  mi_Channel :: u8
  mi_Mode :: string
  mi_Root :: u8

record Mapper =
  mp_config :: MapperConfig

datatype mapper_error = MapperIdentityRequired | MapperNoteRange | MapperDurationRange

definition NewMapper :: "MapperConfig \<Rightarrow> mapper_error + Mapper" where
  "NewMapper config =
     (if mc_Seed config = [] \<or> mc_Origin config = [] then Inl MapperIdentityRequired
      else if mc_MinimumNote config > 127 \<or> mc_MaximumNote config > 127 \<or>
              mc_MinimumNote config > mc_MaximumNote config then Inl MapperNoteRange
      else if mc_MinimumDuration config \<le> 0 \<or> mc_MaximumDuration config < mc_MinimumDuration config
      then Inl MapperDurationRange
      else Inr \<lparr>mp_config = config\<rparr>)"

definition scaleNotes :: "Mode \<Rightarrow> u8 \<Rightarrow> u8 \<Rightarrow> u8 \<Rightarrow> u8 list" where
  "scaleNotes mode tonic minimum maximum =
     map of_int (filter (\<lambda>note. let r = (note - uint tonic) smod 12; pitchClass = (if r < 0 then r + 12 else r)
                              in pitchClass \<in> set (modeIntervals ! unat mode))
                   [uint minimum..uint maximum])"

definition protocolOffset :: "Protocol \<Rightarrow> int" where
  "protocolOffset protocol =
     (if protocol = ProtocolTCP then 0 else if protocol = ProtocolUDP then 2
      else if protocol = ProtocolICMP \<or> protocol = ProtocolICMP6 then 4 else 6)"

definition flagOffset :: "TCPFlags \<Rightarrow> int" where
  "flagOffset flags =
     (let offset = (if flags AND TCPFlagSYN \<noteq> 0 then 1 else 0);
          offset = (if flags AND TCPFlagFIN \<noteq> 0 then offset + 2 else offset)
      in if flags AND TCPFlagRST \<noteq> 0 then offset + 3 else offset)"

text \<open>
  \<open>int(math.Round(math.Log1p(n) / math.Log1p(65535) * 116))\<close>: the exact value is 29/4 times the binary
  logarithm of \<open>n + 1\<close>, so its rounding is decided by comparing \<open>(n + 1) ^ 29\<close> with powers of two.
\<close>

definition velocityCurve :: "nat \<Rightarrow> nat" where
  "velocityCurve n = (floorlog 2 ((n + 1) ^ 29) + 1) div 4"

definition packetVelocity :: "int \<Rightarrow> TCPFlags \<Rightarrow> u8" where
  "packetVelocity wireLength flags =
     (let wireLength = (if wireLength < 0 then 0 else wireLength);
          velocity = 1 + int (velocityCurve (nat wireLength));
          velocity = (if flags AND (TCPFlagSYN OR TCPFlagFIN OR TCPFlagRST) \<noteq> 0 then velocity + 10 else velocity);
          velocity = (if velocity > 127 then 127 else velocity)
      in of_int velocity)"

definition quantum :: duration where "quantum = 25 * millisecond"

definition quantizedDuration :: "duration \<Rightarrow> duration \<Rightarrow> duration \<Rightarrow> duration" where
  "quantizedDuration interArrival minimum maximum =
     (if interArrival \<le> 0 then minimum
      else let d = (wrap64 (interArrival + quantum sdiv 2) sdiv quantum) * quantum
           in if d < minimum then minimum else if d > maximum then maximum else d)"

datatype map_error =
    MapPacket event_error
  | MapChannelRange
  | MapFlowIdentity
  | MapFixedMode string
  | MapFixedRoot
  | NoScaleNotes
  | IndexOutOfRange
  | MappedEvent note_error

definition mapEventID :: "string \<Rightarrow> string \<Rightarrow> u64 \<Rightarrow> string" where
  "mapEventID origin flowID seq = origin @ '':'' @ flowID @ '':'' @ decimal (unat seq)"

text \<open>The mode and root of a note: the flow's own, or the fixed pair of the matching rule.\<close>

definition mapIdentity :: "string \<Rightarrow> string \<Rightarrow> u8 \<Rightarrow> map_error + Mode \<times> u8" where
  "mapIdentity flowID fixedMode fixedRoot =
     (case IdentityForFlowID flowID of
        None \<Rightarrow> Inl MapFlowIdentity
      | Some identity \<Rightarrow>
        if fixedMode = [] then Inr (fi_Mode identity, fi_Root identity)
        else case ParseMode fixedMode of
          None \<Rightarrow> Inl (MapFixedMode fixedMode)
        | Some mode \<Rightarrow> if fixedRoot > 11 then Inl MapFixedRoot else Inr (mode, fixedRoot))"

definition mapIndex :: "Event \<Rightarrow> Direction \<Rightarrow> nat \<Rightarrow> int" where
  "mapIndex event direction len =
     (let index = wrap64 (wrap64 (ev_WireLength event + protocolOffset (ev_Protocol event)) +
                          flagOffset (ev_TCPFlags event));
          index = (if direction = DirectionBToA then wrap64 (index + (int len + 1) sdiv 2) else index)
      in index smod int len)"

definition Mapper_Map :: "Mapper \<Rightarrow> MapInput \<Rightarrow> map_error + NoteEvent" where
  "Mapper_Map m input =
     (let event = mi_Packet input; config = mp_config m in
      case Event_Validate event of
        Some e \<Rightarrow> Inl (MapPacket e)
      | None \<Rightarrow>
        if mi_Channel input < 1 \<or> mi_Channel input > 16 then Inl MapChannelRange
        else let (key, direction) = Canonicalize event; flowID = Key_ID key (mc_Seed config) in
        case mapIdentity flowID (mi_Mode input) (mi_Root input) of
          Inl e \<Rightarrow> Inl e
        | Inr (mode, tonic) \<Rightarrow>
          let candidates = scaleNotes mode tonic (mc_MinimumNote config) (mc_MaximumNote config) in
          if length candidates = 0 then Inl NoScaleNotes
          else let i = mapIndex event direction (length candidates) in
          if i < 0 then Inl IndexOutOfRange
          else let note = \<lparr>ne_ID = mapEventID (mc_Origin config) flowID (mi_Sequence input),
                           ne_Origin = mc_Origin config, ne_Sequence = mi_Sequence input,
                           ne_MappingVersion = FlowModeV1, ne_FlowID = flowID, ne_Mode = mode, ne_Root = tonic,
                           ne_Note = candidates ! nat i,
                           ne_Velocity = packetVelocity (ev_WireLength event) (ev_TCPFlags event),
                           ne_Duration = quantizedDuration (mi_InterArrival input) (mc_MinimumDuration config)
                             (mc_MaximumDuration config),
                           ne_Channel = mi_Channel input, ne_CreatedAt = ev_CapturedAt event\<rparr>
               in case NoteEvent_Validate note of Some e \<Rightarrow> Inl (MappedEvent e) | None \<Rightarrow> Inr note)"

section \<open>Modes and scales\<close>

lemma Mode_Valid_iff: "Mode_Valid m \<longleftrightarrow> unat m < 7"
  by (simp add: Mode_Valid_def modeCount_def word_less_nat_alt)

lemma mode_cases:
  assumes "Mode_Valid m"
  shows "unat m \<in> set [0..<7]" and "modeIntervals ! unat m \<in> set modeIntervals"
proof -
  have m: "unat m < 7" using assms by (simp add: Mode_Valid_iff)
  then show "unat m \<in> set [0..<7]" by simp
  have "length modeIntervals = 7" by (simp add: modeIntervals_def)
  then show "modeIntervals ! unat m \<in> set modeIntervals" using m by simp
qed

lemma Mode_cases:
  assumes "Mode_Valid m"
  obtains "m = 0" | "m = 1" | "m = 2" | "m = 3" | "m = 4" | "m = 5" | "m = 6"
proof -
  have "unat m \<in> set [0..<7]" by (rule mode_cases(1) [OF assms])
  then show thesis using that unfolding word_unat_eq_iff by (auto simp: upt_rec)
qed

lemma ParseMode_String: "Mode_Valid m \<Longrightarrow> ParseMode (Mode_String m) = Some m"
  by (erule Mode_cases)
    (simp_all add: ParseMode_def Mode_String_def modeNames_def Mode_Valid_def modeCount_def)

lemma ParseMode_Some: "ParseMode v = Some m \<Longrightarrow> Mode_Valid m \<and> Mode_String m = v"
  by (auto simp: ParseMode_def Mode_String_def modeNames_def Mode_Valid_def modeCount_def split: if_splits)

lemma smod_normalised: "0 < b \<Longrightarrow> (let r = (a::int) smod b in if r < 0 then r + b else r) = a mod b"
proof (cases "0 \<le> a")
  case False
  assume b: "0 < b"
  have "a smod b = - (- a mod b)" using False b by (simp add: smod_int_alt_def)
  moreover have "a mod b = (if - a mod b = 0 then 0 else b - (- a mod b))"
    using zmod_zminus1_eq_if [of "- a" b] by simp
  moreover have "0 \<le> - a mod b" using b by simp
  ultimately show ?thesis by (auto simp: Let_def)
qed (simp add: smod_nonneg Let_def not_less)

lemma set_scaleNotes:
  "n \<in> set (scaleNotes mode tonic lo hi) \<longleftrightarrow>
     lo \<le> n \<and> n \<le> hi \<and> (uint n - uint tonic) mod 12 \<in> set (modeIntervals ! unat mode)"
proof -
  let ?P = "\<lambda>x. (x - uint tonic) mod 12 \<in> set (modeIntervals ! unat mode)"
  have "scaleNotes mode tonic lo hi = map of_int (filter ?P [uint lo..uint hi])"
    using smod_normalised [of 12] by (simp add: scaleNotes_def Let_def)
  then have "n \<in> set (scaleNotes mode tonic lo hi) \<longleftrightarrow> (\<exists>x. n = of_int x \<and> uint lo \<le> x \<and> x \<le> uint hi \<and> ?P x)"
    by auto
  also have "\<dots> \<longleftrightarrow> uint lo \<le> uint n \<and> uint n \<le> uint hi \<and> ?P (uint n)"
  proof
    assume "\<exists>x. n = of_int x \<and> uint lo \<le> x \<and> x \<le> uint hi \<and> ?P x"
    then obtain x where x: "n = of_int x" "uint lo \<le> x" "x \<le> uint hi" "?P x" by blast
    have "0 \<le> x" "x < 2 ^ 8" using x(2,3) uint_lt2p [of hi] by (auto intro: order_trans [OF uint_ge_0])
    then have "uint n = x" using x(1) by (simp add: uint_word_of_int_eq take_bit_int_eq_self)
    then show "uint lo \<le> uint n \<and> uint n \<le> uint hi \<and> ?P (uint n)" using x by simp
  qed (auto intro!: exI [of _ "uint n"])
  finally show ?thesis by (simp add: word_le_def)
qed

lemma length_scaleNotes: "length (scaleNotes mode tonic lo hi) \<le> 256"
proof -
  have "length (scaleNotes mode tonic lo hi) \<le> length [uint lo..uint hi]"
    unfolding scaleNotes_def length_map by (rule length_filter_le)
  also have "length [uint lo..uint hi] = nat (uint hi - uint lo + 1)" by simp
  also have "uint hi - uint lo + 1 \<le> 256" using uint_lt2p [of hi, simplified] uint_ge_0 [of lo] by linarith
  then have "nat (uint hi - uint lo + 1) \<le> 256" by (simp add: nat_le_iff)
  finally show ?thesis .
qed

text \<open>No diatonic mode skips two semitones in a row, so two adjacent notes always hold a scale note.\<close>

lemma modes_dense:
  "iv \<in> set modeIntervals \<Longrightarrow> k mod 12 \<in> set iv \<or> (k + 1) mod 12 \<in> set iv"
proof -
  assume iv: "iv \<in> set modeIntervals"
  have "\<forall>iv \<in> set modeIntervals. \<forall>j \<in> set [0..11]. j \<in> set iv \<or> (j + 1) mod 12 \<in> set iv"
    by (simp add: modeIntervals_def upto_rec1)
  moreover have "k mod 12 \<in> set [0..11]"
    using pos_mod_sign [of 12 k] pos_mod_bound [of 12 k] by simp
  moreover have "(k mod 12 + 1) mod 12 = (k + 1) mod 12" by (rule mod_add_left_eq)
  ultimately show ?thesis using iv by metis
qed

lemma scaleNotes_nonempty:
  assumes "Mode_Valid mode" and "lo < hi"
  shows "scaleNotes mode tonic lo hi \<noteq> []"
proof -
  have lt: "uint lo < uint hi" using assms(2) by (simp add: word_less_def)
  have up: "uint (lo + 1) = uint lo + 1"
    using lt uint_lt2p [of hi] by (intro uint_add_lem [THEN iffD1, of lo 1, simplified]) simp
  have "lo \<in> set (scaleNotes mode tonic lo hi) \<or> lo + 1 \<in> set (scaleNotes mode tonic lo hi)"
    using modes_dense [OF mode_cases(2) [OF assms(1)], of "uint lo - uint tonic"] lt up
    by (auto simp: set_scaleNotes word_le_def algebra_simps)
  then show ?thesis by auto
qed

section \<open>Identity, velocity, duration and index\<close>

lemma IdentityForFlowID_Key: "\<exists>i. IdentityForFlowID (Key_ID k seed) = Some i \<and> Mode_Valid (fi_Mode i) \<and> fi_Root i \<le> 11"
proof -
  obtain bs where "hex_DecodeString (Key_ID k seed) = Some bs" "length bs = 12" "hex_EncodeToString bs = Key_ID k seed"
    using Key_ID_decodes by metis
  moreover have "x mod 7 < (7::u8)" "x mod 12 \<le> (11::u8)" for x
    using mod_less_divisor [of 7 "unat x"] mod_less_divisor [of 12 "unat x"]
    by (simp_all add: word_less_nat_alt word_le_nat_alt unat_mod)
  ultimately show ?thesis by (simp add: IdentityForFlowID_def Let_def Mode_Valid_def modeCount_def)
qed

lemma velocityCurve_real:
  "int (velocityCurve n) = \<lfloor>116 * (ln (1 + real n) / ln 65536) + 1 / 2\<rfloor>"
proof -
  let ?L = "log 2 (1 + real n)"
  have L: "0 \<le> ?L" by simp
  have "ln (65536::real) = 16 * ln 2" using ln_realpow [of 2 16] by simp
  then have real: "116 * (ln (1 + real n) / ln 65536) = 29 / 4 * ?L" by (simp add: log_def)
  have "log 2 (real ((n + 1) ^ 29)) = 29 * ?L" by (simp add: log_nat_power add.commute)
  then have "int (floorlog 2 ((n + 1) ^ 29)) = \<lfloor>29 * ?L\<rfloor> + 1"
    using L by (simp add: floorlog_def)
  then have "int (velocityCurve n) = (\<lfloor>29 * ?L\<rfloor> + 2) div 4"
    by (simp add: velocityCurve_def zdiv_int)
  also have "\<dots> = \<lfloor>(29 * ?L + 2) / real_of_int 4\<rfloor>"
    by (subst floor_divide_real_eq_div) simp_all
  also have "(29 * ?L + 2) / real_of_int 4 = 116 * (ln (1 + real n) / ln 65536) + 1 / 2"
    unfolding real by (simp add: field_simps)
  finally show ?thesis .
qed

lemma packetVelocity_int:
  "uint (packetVelocity w flags) =
     min 127 (1 + int (velocityCurve (nat w)) +
       (if flags AND (TCPFlagSYN OR TCPFlagFIN OR TCPFlagRST) \<noteq> 0 then 10 else 0))"
  by (auto simp: packetVelocity_def Let_def uint_word_of_int_eq take_bit_int_eq_self min_def)

lemma packetVelocity_range: "1 \<le> uint (packetVelocity w flags)" "uint (packetVelocity w flags) \<le> 127"
  by (simp_all add: packetVelocity_int)

lemma quantizedDuration_range:
  "minimum \<le> maximum \<Longrightarrow> minimum \<le> quantizedDuration i minimum maximum \<and> quantizedDuration i minimum maximum \<le> maximum"
  by (auto simp: quantizedDuration_def Let_def)

lemma protocolOffset_range: "0 \<le> protocolOffset p \<and> protocolOffset p \<le> 6"
  by (simp add: protocolOffset_def)

lemma flagOffset_range: "0 \<le> flagOffset f \<and> flagOffset f \<le> 6"
  by (simp add: flagOffset_def Let_def)

lemma mapIndex_range:
  assumes "0 \<le> ev_WireLength e" "ev_WireLength e \<le> maxInt64 - 200" "0 < len" "len \<le> 256"
  shows "0 \<le> mapIndex e d len \<and> mapIndex e d len < int len"
proof -
  let ?a = "ev_WireLength e + protocolOffset (ev_Protocol e)"
  have a: "wrap64 ?a = ?a"
    using assms protocolOffset_range [of "ev_Protocol e"] by (simp add: int64_def minInt64_def maxInt64_def)
  let ?b = "?a + flagOffset (ev_TCPFlags e)"
  have b0: "0 \<le> ?b" "?b \<le> maxInt64 - 188"
    using assms protocolOffset_range [of "ev_Protocol e"] flagOffset_range [of "ev_TCPFlags e"] by auto
  then have b: "wrap64 ?b = ?b" by (simp add: int64_def minInt64_def maxInt64_def)
  have h: "(int len + 1) sdiv 2 = (int len + 1) div 2" by (rule sdiv_nonneg) simp_all
  have "0 \<le> ?b + (int len + 1) div 2" "?b + (int len + 1) div 2 \<le> maxInt64" using b0 assms(4) by auto
  then have c: "wrap64 (?b + (int len + 1) div 2) = ?b + (int len + 1) div 2"
    by (simp add: int64_def minInt64_def)
  have "\<exists>i. mapIndex e d len = i smod int len \<and> 0 \<le> i"
    using a b c h b0 assms by (cases "d = DirectionBToA") (auto simp: mapIndex_def Let_def)
  then show ?thesis using assms(3) by (auto simp: smod_nonneg)
qed

lemma mapIdentity_ok:
  assumes "fixedMode = [] \<or> ParseMode fixedMode \<noteq> None \<and> fixedRoot \<le> 11"
  shows "\<exists>mode tonic. mapIdentity (Key_ID k seed) fixedMode fixedRoot = Inr (mode, tonic) \<and>
    Mode_Valid mode \<and> tonic \<le> 11"
proof -
  obtain i where i: "IdentityForFlowID (Key_ID k seed) = Some i" "Mode_Valid (fi_Mode i)" "fi_Root i \<le> 11"
    using IdentityForFlowID_Key by metis
  show ?thesis
  proof (cases "fixedMode = []")
    case True
    then show ?thesis using i by (simp add: mapIdentity_def)
  next
    case False
    then obtain mode where mode: "ParseMode fixedMode = Some mode" "fixedRoot \<le> 11" using assms by auto
    then show ?thesis using i False ParseMode_Some [OF mode(1)] by (auto simp: mapIdentity_def)
  qed
qed

lemma NewMapper_config:
  assumes "NewMapper c = Inr m"
  shows "mp_config m = c" and "mc_Seed c \<noteq> []" and "mc_Origin c \<noteq> []" and "mc_MaximumNote c \<le> 127"
    and "mc_MinimumNote c \<le> mc_MaximumNote c" and "0 < mc_MinimumDuration c"
    and "mc_MinimumDuration c \<le> mc_MaximumDuration c"
  using assms by (auto simp: NewMapper_def not_less not_le split: if_splits)

lemma Mapper_Map_ok:
  assumes "NewMapper c = Inr m" and "mc_MinimumNote c < mc_MaximumNote c"
    and "Event_Validate (mi_Packet input) = None" and "ev_WireLength (mi_Packet input) \<le> maxInt64 - 200"
    and "1 \<le> mi_Channel input" and "mi_Channel input \<le> 16"
    and "mi_Mode input = [] \<or> ParseMode (mi_Mode input) \<noteq> None \<and> mi_Root input \<le> 11"
  obtains e where "Mapper_Map m input = Inr e" and "NoteEvent_Validate e = None"
    and "mapIdentity (ne_FlowID e) (mi_Mode input) (mi_Root input) = Inr (ne_Mode e, ne_Root e)"
    and "ne_Note e \<in> set (scaleNotes (ne_Mode e) (ne_Root e) (mc_MinimumNote c) (mc_MaximumNote c))"
    and "ne_Duration e = quantizedDuration (mi_InterArrival input) (mc_MinimumDuration c) (mc_MaximumDuration c)"
    and "ne_FlowID e = Key_ID (fst (Canonicalize (mi_Packet input))) (mc_Seed c)"
    and "ne_Channel e = mi_Channel input" and "ne_Sequence e = mi_Sequence input"
    and "ne_ID e = mapEventID (mc_Origin c) (ne_FlowID e) (mi_Sequence input)"
proof -
  let ?p = "mi_Packet input"
  obtain key d where kd: "Canonicalize ?p = (key, d)" by force
  define flowID where "flowID = Key_ID key (mc_Seed c)"
  obtain mode tonic where id: "mapIdentity flowID (mi_Mode input) (mi_Root input) = Inr (mode, tonic)"
    "Mode_Valid mode" "tonic \<le> 11"
    using mapIdentity_ok [OF assms(7)] unfolding flowID_def by blast
  let ?cs = "scaleNotes mode tonic (mc_MinimumNote c) (mc_MaximumNote c)"
  have ne: "?cs \<noteq> []" by (rule scaleNotes_nonempty [OF id(2) assms(2)])
  let ?i = "mapIndex ?p d (length ?cs)"
  have i: "0 \<le> ?i" "?i < int (length ?cs)"
    using mapIndex_range [OF Event_Validate_wire [OF assms(3)] assms(4), of "length ?cs" d] ne length_scaleNotes
    by auto
  have mem: "?cs ! nat ?i \<in> set ?cs" using i by (intro nth_mem) linarith
  note cfg = NewMapper_config [OF assms(1)]
  define e where "e = \<lparr>ne_ID = mapEventID (mc_Origin c) flowID (mi_Sequence input),
     ne_Origin = mc_Origin c, ne_Sequence = mi_Sequence input,
     ne_MappingVersion = FlowModeV1, ne_FlowID = flowID, ne_Mode = mode, ne_Root = tonic, ne_Note = ?cs ! nat ?i,
     ne_Velocity = packetVelocity (ev_WireLength ?p) (ev_TCPFlags ?p),
     ne_Duration = quantizedDuration (mi_InterArrival input) (mc_MinimumDuration c) (mc_MaximumDuration c),
     ne_Channel = mi_Channel input, ne_CreatedAt = ev_CapturedAt ?p\<rparr>"
  have vel: "ne_Velocity e \<le> 127" "ne_Velocity e \<noteq> 0"
    using packetVelocity_range [of "ev_WireLength ?p" "ev_TCPFlags ?p"] by (auto simp: e_def word_le_def)
  have "NoteEvent_Validate e = None"
    unfolding NoteEvent_Validate_None
    using cfg id vel quantizedDuration_range [OF cfg(7), of "mi_InterArrival input"] mem [unfolded set_scaleNotes] assms(5,6)
    by (auto simp: e_def mapEventID_def)
  moreover from this have "Mapper_Map m input = Inr e"
    using assms(3,5,6) cfg(1) kd id(1) ne i
    unfolding Mapper_Map_def by (simp add: Let_def e_def flowID_def u8_positive)
  ultimately show thesis using id(1) mem kd by (intro that [of e]) (simp_all add: e_def flowID_def)
qed

definition sampleMapperConfig :: MapperConfig where
  "sampleMapperConfig = \<lparr>mc_Seed = ''seed'', mc_Origin = ''edge'', mc_MinimumNote = 60, mc_MaximumNote = 72,
     mc_MinimumDuration = 50 * millisecond, mc_MaximumDuration = second\<rparr>"

definition sampleMapInput :: MapInput where
  "sampleMapInput = \<lparr>mi_Packet = sampleEvent, mi_Sequence = 7, mi_InterArrival = 130 * millisecond, mi_Channel = 3,
     mi_Mode = ''dorian'', mi_Root = 2\<rparr>"

lemma sampleMapper: "NewMapper sampleMapperConfig = Inr \<lparr>mp_config = sampleMapperConfig\<rparr>"
  by (simp add: NewMapper_def sampleMapperConfig_def millisecond_def second_def)

lemma sampleMapInput_ok:
  "Event_Validate (mi_Packet sampleMapInput) = None" "ParseMode (mi_Mode sampleMapInput) = Some 1"
  "mc_MinimumNote sampleMapperConfig < mc_MaximumNote sampleMapperConfig"
  "ev_WireLength (mi_Packet sampleMapInput) \<le> maxInt64 - 200" "1 \<le> mi_Channel sampleMapInput"
  "mi_Channel sampleMapInput \<le> 16" "mi_Root sampleMapInput \<le> 11" "mi_Mode sampleMapInput \<noteq> []"
  by (simp_all add: sampleMapInput_def sampleEvent_valid ParseMode_def modeNames_def sampleMapperConfig_def
      sampleEvent_def Event_Validate_def protocols_def maxInt64_def)

section \<open>Properties\<close>



text \<open>
  The musical identity belongs to the conversation, not to the packet: two packets of one flow, in
  either direction, whatever their sizes, flags, sequence numbers and channels, are mapped to the same
  mode and root when their matching rules fix the same identity or none.
\<close>

theorem Mapper_Map_identity:
  assumes "Mapper_Map m input = Inr a" and "Mapper_Map m input' = Inr b"
    and "fst (Canonicalize (mi_Packet input)) = fst (Canonicalize (mi_Packet input'))"
    and "mi_Mode input = mi_Mode input'" and "mi_Root input = mi_Root input'"
  shows "ne_Mode a = ne_Mode b \<and> ne_Root a = ne_Root b \<and> ne_FlowID a = ne_FlowID b \<and>
    Mode_Valid (ne_Mode a) \<and> ne_Root a \<le> 11"
proof -
  have inv: "mapIdentity (Key_ID (fst (Canonicalize (mi_Packet i))) (mc_Seed (mp_config m))) (mi_Mode i) (mi_Root i) =
      Inr (ne_Mode n, ne_Root n) \<and> ne_FlowID n = Key_ID (fst (Canonicalize (mi_Packet i))) (mc_Seed (mp_config m)) \<and>
      NoteEvent_Validate n = None"
    if "Mapper_Map m i = Inr n" for i n
    using that unfolding Mapper_Map_def Let_def
    by (auto split: option.splits sum.splits if_splits prod.splits)
  show ?thesis using inv [OF assms(1)] inv [OF assms(2)] assms(3-5) by (auto simp: NoteEvent_Validate_None)
qed

theorem Mapper_Map_identity_witness:
  "\<exists>a b. Mapper_Map \<lparr>mp_config = sampleMapperConfig\<rparr> sampleMapInput = Inr a \<and>
     Mapper_Map \<lparr>mp_config = sampleMapperConfig\<rparr>
       (sampleMapInput\<lparr>mi_Sequence := 8, mi_Packet := reverse_event sampleEvent\<rparr>) = Inr b \<and> ne_Root a = ne_Root b"
proof -
  let ?m = "\<lparr>mp_config = sampleMapperConfig\<rparr>"
  let ?input = "sampleMapInput\<lparr>mi_Sequence := 8, mi_Packet := reverse_event sampleEvent\<rparr>"
  obtain a where a: "Mapper_Map ?m sampleMapInput = Inr a"
    using Mapper_Map_ok [OF sampleMapper sampleMapInput_ok(3,1,4,5,6)] sampleMapInput_ok(2,7) by auto
  have "Event_Validate (mi_Packet ?input) = None" "ev_WireLength (mi_Packet ?input) \<le> maxInt64 - 200"
    "1 \<le> mi_Channel ?input" "mi_Channel ?input \<le> 16" "mi_Mode ?input = mi_Mode sampleMapInput"
    "mi_Root ?input \<le> 11"
    using sampleEvent_valid by (simp_all add: sampleMapInput_def, simp add: reverse_event_def sampleEvent_def maxInt64_def)
  then obtain b where b: "Mapper_Map ?m ?input = Inr b"
    using Mapper_Map_ok [OF sampleMapper sampleMapInput_ok(3), of ?input] sampleMapInput_ok(2) by auto
  have "fst (Canonicalize (mi_Packet sampleMapInput)) = fst (Canonicalize (mi_Packet ?input))"
    by (auto simp: sampleMapInput_def Canonicalize_def reverse_event_def compareEndpoint_le sampleEvent_def
        Endpoint_key_inj)
  then show ?thesis using Mapper_Map_identity [OF a b] a b by (auto simp: sampleMapInput_def)
qed

text \<open>
  A note's identifier determines its origin, flow and sequence number: identifiers built from flow
  identifiers never collide, even for origins that contain colons.
\<close>

theorem mapEventID_unique:
  "mapEventID o1 (Key_ID k1 seed1) n1 = mapEventID o2 (Key_ID k2 seed2) n2 \<longleftrightarrow>
     o1 = o2 \<and> Key_ID k1 seed1 = Key_ID k2 seed2 \<and> n1 = n2"
proof
  assume a: "mapEventID o1 (Key_ID k1 seed1) n1 = mapEventID o2 (Key_ID k2 seed2) n2"
  have colon: "CHR '':'' \<notin> set (decimal k)" for k
    using decimal_digits [of "CHR '':''" k] by auto
  have "(o1 @ '':'' @ Key_ID k1 seed1) @ CHR '':'' # decimal (unat n1) =
        (o2 @ '':'' @ Key_ID k2 seed2) @ CHR '':'' # decimal (unat n2)"
    using a by (simp add: mapEventID_def)
  from split_last [OF this colon colon]
  have eq: "(o1 @ '':'') @ Key_ID k1 seed1 = (o2 @ '':'') @ Key_ID k2 seed2" and n: "unat n1 = unat n2" by simp_all
  have "o1 @ '':'' = o2 @ '':'' \<and> Key_ID k1 seed1 = Key_ID k2 seed2"
    using eq by (subst (asm) append_eq_append_conv) simp_all
  then show "o1 = o2 \<and> Key_ID k1 seed1 = Key_ID k2 seed2 \<and> n1 = n2" using n by (simp add: word_unat_eq_iff)
qed (simp add: mapEventID_def)

text \<open>
  \<open>ParseMode\<close> and \<open>String\<close> are inverse: every mode parses from its name, and a name that parses is the
  name of a mode. \<open>Modes\<close> lists each valid mode exactly once, in order.
\<close>

theorem Mode_roundtrip:
  "(ParseMode v = Some m) = (Mode_Valid m \<and> Mode_String m = v) \<and>
   (set Modes = {m. Mode_Valid m}) \<and> distinct Modes"
proof -
  have "set Modes = {m. Mode_Valid m}"
    by (auto simp: Modes_def Mode_Valid_def modeCount_def elim: Mode_cases [unfolded Mode_Valid_def modeCount_def])
  then show ?thesis using ParseMode_String ParseMode_Some by (auto simp: Modes_def)
qed

text \<open>
  \<open>quantizedDuration\<close> rounds the time since the previous packet of the flow to the nearest multiple
  of 25 ms and clamps it to the configured range; the first packet of a flow and one that is out of
  order get the minimum.
\<close>

theorem quantizedDuration_nearest:
  assumes "minimum \<le> maximum" and "interArrival \<le> maxInt64 - quantum"
  shows "if interArrival \<le> 0 then quantizedDuration interArrival minimum maximum = minimum
    else \<exists>k. \<bar>2 * (k * quantum - interArrival)\<bar> \<le> quantum \<and>
           quantizedDuration interArrival minimum maximum = max minimum (min maximum (k * quantum))"
proof (cases "interArrival \<le> 0")
  case False
  let ?k = "(interArrival + 12500000) div 25000000"
  have q: "quantum = 25000000" "quantum sdiv 2 = 12500000"
    by (simp_all add: quantum_def millisecond_def sdiv_nonneg)
  have "wrap64 (interArrival + 12500000) = interArrival + 12500000"
    using False assms(2) by (simp add: int64_def minInt64_def maxInt64_def q)
  moreover have "(interArrival + 12500000) sdiv 25000000 = ?k"
    using False by (intro sdiv_nonneg) simp_all
  ultimately have eq: "quantizedDuration interArrival minimum maximum = max minimum (min maximum (?k * quantum))"
    using False assms(1) unfolding quantizedDuration_def q by (auto simp: Let_def)
  have "?k * 25000000 = interArrival + 12500000 - (interArrival + 12500000) mod 25000000"
    by (simp add: minus_mod_eq_div_mult)
  moreover have "0 \<le> (interArrival + 12500000) mod 25000000" "(interArrival + 12500000) mod 25000000 < 25000000"
    by simp_all
  ultimately have "\<bar>2 * (?k * 25000000 - interArrival)\<bar> \<le> 25000000" by (simp add: abs_le_iff)
  then show ?thesis using eq False unfolding q by auto
qed (simp add: quantizedDuration_def)

theorem quantizedDuration_nearest_witness:
  "quantizedDuration (130 * millisecond) (50 * millisecond) second = 125 * millisecond"
proof -
  have q: "quantum = 25000000" by (simp add: quantum_def millisecond_def)
  have "\<exists>k. \<bar>2 * (k * quantum - 130 * millisecond)\<bar> \<le> quantum \<and>
      quantizedDuration (130 * millisecond) (50 * millisecond) second = max (50 * millisecond) (min second (k * quantum))"
    using quantizedDuration_nearest [of "50 * millisecond" second "130 * millisecond"]
    by (simp add: millisecond_def second_def maxInt64_def q)
  then obtain k where k: "\<bar>2 * (k * 25000000 - 130000000)\<bar> \<le> (25000000::int)"
      "quantizedDuration (130 * millisecond) (50 * millisecond) second = max 50000000 (min 1000000000 (k * 25000000))"
    unfolding q by (auto simp: millisecond_def second_def)
  have "k \<le> 5" "5 \<le> k" using abs_le_D1 [OF k(1)] abs_le_D2 [OF k(1)] by simp_all
  then have "k = 5" by simp
  then show ?thesis using k(2) by (simp add: millisecond_def)
qed

text \<open>
  \<open>packetVelocity\<close> is the logarithmic loudness curve: one plus the nearest integer to 116 times the
  ratio of \<open>ln (1 + length)\<close> to \<open>ln 65536\<close>, ten more for a connection-control packet, never above 127;
  it is at least 1, so every packet sounds, and longer packets are never quieter.
\<close>

theorem packetVelocity_curve:
  "uint (packetVelocity w flags) =
     min 127 (1 + \<lfloor>116 * (ln (1 + real (nat w)) / ln 65536) + 1 / 2\<rfloor> +
       (if flags AND (TCPFlagSYN OR TCPFlagFIN OR TCPFlagRST) \<noteq> 0 then 10 else 0)) \<and>
   1 \<le> packetVelocity w flags \<and> packetVelocity w flags \<le> 127 \<and>
   packetVelocity w flags \<le> packetVelocity (max w w') flags"
proof -
  let ?f = "\<lambda>n. \<lfloor>116 * (ln (1 + real n) / ln 65536) + 1 / 2\<rfloor>"
  have mono: "?f a \<le> ?f b" if "a \<le> b" for a b
    using that by (intro floor_mono add_mono mult_left_mono divide_right_mono) simp_all
  have "int (velocityCurve (nat w)) \<le> int (velocityCurve (nat (max w w')))"
    unfolding velocityCurve_real by (rule mono) simp
  then show ?thesis
    using packetVelocity_range [of w flags] by (auto simp: word_le_def packetVelocity_int velocityCurve_real)
qed

text \<open>
  A valid packet can make \<open>Map\<close> panic: the index sum is computed in a 64-bit \<open>int\<close>, so for a wire
  length near its maximum, which \<open>Event.Validate\<close> accepts, it wraps to a negative number and the slice is
  indexed with a negative remainder.
\<close>

theorem Mapper_Map_index_overflow:
  "\<exists>m input. NewMapper sampleMapperConfig = Inr m \<and> Event_Validate (mi_Packet input) = None \<and>
     int64 (ev_WireLength (mi_Packet input)) \<and> mi_Channel input = 3 \<and> Mapper_Map m input = Inl IndexOutOfRange"
proof -
  define p where "p = sampleEvent\<lparr>ev_WireLength := maxInt64, ev_Protocol := ProtocolUDP, ev_TCPFlags := 0\<rparr>"
  define input where "input = sampleMapInput\<lparr>mi_Packet := p, mi_Mode := ''ionian'', mi_Root := 0\<rparr>"
  have valid: "Event_Validate p = None"
    by (simp add: p_def sampleEvent_def Event_Validate_def protocols_def maxInt64_def)
  obtain key d where kd: "Canonicalize p = (key, d)" by force
  have d: "d = DirectionAToB"
    using kd by (simp add: Canonicalize_def compareEndpoint_def p_def sampleEvent_def Addr_Compare_key cmp_def split: if_splits)
  obtain i where "IdentityForFlowID (Key_ID key ''seed'') = Some i" using IdentityForFlowID_Key by metis
  then have id: "mapIdentity (Key_ID key ''seed'') ''ionian'' 0 = Inr (0, 0)"
    by (simp add: mapIdentity_def ParseMode_def modeNames_def)
  have len: "length (scaleNotes 0 0 60 72) = 8"
    by (simp add: scaleNotes_def modeIntervals_def upto_rec1 smod_int_alt_def)
  then have ne: "scaleNotes 0 0 60 72 \<noteq> []" by auto
  have "mapIndex p d 8 = -7"
    by (simp add: mapIndex_def d p_def protocolOffset_def flagOffset_def protocol_defs wrap64_def maxInt64_def
        smod_int_alt_def)
  then have "Mapper_Map \<lparr>mp_config = sampleMapperConfig\<rparr> input = Inl IndexOutOfRange"
    using valid kd id len ne
    by (simp add: Mapper_Map_def input_def sampleMapInput_def sampleMapperConfig_def Let_def)
  moreover have "mi_Packet input = p" "mi_Channel input = 3" "int64 (ev_WireLength p)"
    by (simp_all add: input_def sampleMapInput_def p_def int64_def maxInt64_def minInt64_def)
  ultimately show ?thesis using sampleMapper valid by metis
qed

end
