(* ===== verification/Midi.thy ===== *)
theory Midi
  imports Music
begin

text \<open>
  internal/midi/midi.go: output devices and their selection, and the three MIDI 1.0 messages the
  program sends. The regular-expression engine is an argument of \<open>SelectDevice\<close>: it maps a pattern to
  its matcher, or to nothing when the pattern does not compile. A receiving synthesizer is described
  by the set of notes it sounds and the effect a message has on it.
\<close>

section \<open>Messages\<close>

datatype midi_error =
    ErrNoOutputDevices
  | PatternInvalid string
  | ChannelInvalid
  | NoteOrVelocityInvalid
  | NoteNumberInvalid
  | ErrOutputUnavailable
  | DeviceSend string
  | SendFailed string midi_error

text \<open>\<open>errors.Is\<close> looks through the wrapping of \<open>fmt.Errorf("...: %w", err)\<close>.\<close>

fun errors_Is :: "midi_error \<Rightarrow> midi_error \<Rightarrow> bool" where
  "errors_Is (SendFailed op e) target \<longleftrightarrow> SendFailed op e = target \<or> errors_Is e target"
| "errors_Is e target \<longleftrightarrow> e = target"

definition validateChannel :: "u8 \<Rightarrow> midi_error option" where
  "validateChannel channel = (if channel < 1 \<or> channel > 16 then Some ChannelInvalid else None)"

definition NoteOn :: "u8 \<Rightarrow> u8 \<Rightarrow> u8 \<Rightarrow> midi_error + bytes" where
  "NoteOn channel note velocity =
     (case validateChannel channel of
        Some e \<Rightarrow> Inl e
      | None \<Rightarrow> if note > 127 \<or> velocity = 0 \<or> velocity > 127 then Inl NoteOrVelocityInvalid
                else Inr [0x90 OR (channel - 1), note, velocity])"

definition NoteOff :: "u8 \<Rightarrow> u8 \<Rightarrow> midi_error + bytes" where
  "NoteOff channel note =
     (case validateChannel channel of
        Some e \<Rightarrow> Inl e
      | None \<Rightarrow> if note > 127 then Inl NoteNumberInvalid else Inr [0x80 OR (channel - 1), note, 0])"

definition AllNotesOff :: "u8 \<Rightarrow> midi_error + bytes" where
  "AllNotesOff channel =
     (case validateChannel channel of Some e \<Rightarrow> Inl e | None \<Rightarrow> Inr [0xB0 OR (channel - 1), 123, 0])"

text \<open>The payload of a call whose error the source discards, the zero slice when it failed.\<close>

definition message_of :: "midi_error + bytes \<Rightarrow> bytes" where
  "message_of r = (case r of Inl _ \<Rightarrow> [] | Inr m \<Rightarrow> m)"

section \<open>Device selection\<close>

record Device =
  dv_Number :: int
  dv_Name :: string

definition SelectDevice :: "(string \<Rightarrow> (string \<Rightarrow> bool) option) \<Rightarrow> Device list \<Rightarrow> string \<Rightarrow> string \<Rightarrow> midi_error + Device" where
  "SelectDevice compile devices exactName namePattern =
     (if devices = [] then Inl ErrNoOutputDevices
      else case (if exactName \<noteq> [] then find (\<lambda>d. dv_Name d = exactName) devices else None) of
        Some d \<Rightarrow> Inr d
      | None \<Rightarrow>
        if namePattern \<noteq> [] then
          (case compile namePattern of
             None \<Rightarrow> Inl (PatternInvalid namePattern)
           | Some matchString \<Rightarrow>
             (case find (\<lambda>d. matchString (dv_Name d)) devices of Some d \<Rightarrow> Inr d | None \<Rightarrow> Inr (devices ! 0)))
        else Inr (devices ! 0))"

section \<open>What a synthesizer sounds\<close>

type_synonym noteKey = "u8 \<times> u8"

text \<open>
  The effect of a received message on the sounding notes, keyed by user-facing channel and note: the
  high nibble of the status byte is the kind of message, the low nibble the channel; a Note On with
  velocity zero is a Note Off, and controller 123 silences its channel.
\<close>

fun midi_apply :: "bytes \<Rightarrow> noteKey set \<Rightarrow> noteKey set" where
  "midi_apply [status, a, b] notes =
     (let channel = (status AND 0x0F) + 1; kind = status AND 0xF0 in
      if kind = 0x90 \<and> b \<noteq> 0 then insert (channel, a) notes
      else if kind = 0x90 \<or> kind = 0x80 then notes - {(channel, a)}
      else if kind = 0xB0 \<and> a = 123 then {k \<in> notes. fst k \<noteq> channel}
      else notes)"
| "midi_apply _ notes = notes"

definition channels :: "u8 list" where
  "channels = [1, 2, 3, 4, 5, 6, 7, 8, 9, 10, 11, 12, 13, 14, 15, 16]"

lemma set_channels: "c \<in> set channels \<longleftrightarrow> 1 \<le> c \<and> c \<le> 16"
proof -
  have "set channels = of_nat ` set [1..<17]" unfolding set_map [symmetric] by (simp add: channels_def upt_rec)
  moreover have "c \<in> of_nat ` set [1..<17] \<longleftrightarrow> unat c \<in> set [1..<17]"
    by (auto simp: unat_of_nat_small intro!: image_eqI [of _ _ "unat c"])
  moreover have "unat c \<in> set [1..<17] \<longleftrightarrow> 1 \<le> c \<and> c \<le> 16" by (auto simp: word_le_nat_alt)
  ultimately show ?thesis by blast
qed

lemma validateChannel_ok: "validateChannel c = None \<longleftrightarrow> c \<in> set channels"
  by (auto simp: validateChannel_def set_channels not_less u8_positive)

lemma validateChannel_None [simp]: "c \<in> set channels \<Longrightarrow> validateChannel c = None"
  by (simp add: validateChannel_ok)

lemma status_bits:
  "c \<in> set channels \<Longrightarrow>
     (0x90 OR (c - 1)) AND 0xF0 = (0x90::u8) \<and> ((0x90 OR (c - 1)) AND 0x0F) + 1 = c \<and>
     (0x80 OR (c - 1)) AND 0xF0 = (0x80::u8) \<and> ((0x80 OR (c - 1)) AND 0x0F) + 1 = c \<and>
     (0xB0 OR (c - 1)) AND 0xF0 = (0xB0::u8) \<and> ((0xB0 OR (c - 1)) AND 0x0F) + 1 = c"
  by (auto simp: channels_def)

lemma NoteOn_ok:
  "c \<in> set channels \<Longrightarrow> n \<le> 127 \<Longrightarrow> v \<noteq> 0 \<Longrightarrow> v \<le> 127 \<Longrightarrow>
     \<exists>m. NoteOn c n v = Inr m \<and> (\<forall>notes. midi_apply m notes = insert (c, n) notes)"
  using status_bits [of c] by (auto simp: NoteOn_def validateChannel_ok not_less Let_def)

lemma NoteOff_ok:
  "c \<in> set channels \<Longrightarrow> n \<le> 127 \<Longrightarrow> \<exists>m. NoteOff c n = Inr m \<and> (\<forall>notes. midi_apply m notes = notes - {(c, n)})"
  using status_bits [of c] by (auto simp: NoteOff_def validateChannel_ok not_less Let_def)

lemma AllNotesOff_ok:
  "c \<in> set channels \<Longrightarrow> \<exists>m. AllNotesOff c = Inr m \<and> (\<forall>notes. midi_apply m notes = {k \<in> notes. fst k \<noteq> c})"
  using status_bits [of c] by (auto simp: AllNotesOff_def validateChannel_ok Let_def)

section \<open>Properties\<close>

text \<open>
  The message builders are exact: each builds a three-byte message precisely for channels 1 to 16
  and notes and velocities in range, and the message does to a synthesizer what its name says, on the
  user-facing channel and on no other.
\<close>

theorem midi_messages:
  "((\<exists>m. NoteOn c n v = Inr m) \<longleftrightarrow> 1 \<le> c \<and> c \<le> 16 \<and> n \<le> 127 \<and> 1 \<le> v \<and> v \<le> 127) \<and>
   ((\<exists>m. NoteOff c n = Inr m) \<longleftrightarrow> 1 \<le> c \<and> c \<le> 16 \<and> n \<le> 127) \<and>
   ((\<exists>m. AllNotesOff c = Inr m) \<longleftrightarrow> 1 \<le> c \<and> c \<le> 16) \<and>
   (case NoteOn c n v of Inl _ \<Rightarrow> True | Inr m \<Rightarrow> length m = 3 \<and> midi_apply m notes = insert (c, n) notes) \<and>
   (case NoteOff c n of Inl _ \<Rightarrow> True | Inr m \<Rightarrow> length m = 3 \<and> midi_apply m notes = notes - {(c, n)}) \<and>
   (case AllNotesOff c of Inl _ \<Rightarrow> True | Inr m \<Rightarrow> length m = 3 \<and> midi_apply m notes = {k \<in> notes. fst k \<noteq> c})"
proof (cases "c \<in> set channels")
  case True
  then have c: "1 \<le> c" "c \<le> 16" by (simp_all add: set_channels)
  show ?thesis
    using True c status_bits [OF True]
    by (simp add: NoteOn_def NoteOff_def AllNotesOff_def Let_def u8_positive) (auto simp: not_less)
next
  case False
  then obtain e where "validateChannel c = Some e" using validateChannel_ok [of c] by auto
  moreover have "\<not> (1 \<le> c \<and> c \<le> 16)" using False by (simp add: set_channels)
  ultimately show ?thesis by (auto simp: NoteOn_def NoteOff_def AllNotesOff_def)
qed

text \<open>
  \<open>SelectDevice\<close> returns one of the listed devices whenever there is one and the pattern compiles;
  a device with the exact configured name always wins, whatever the pattern matches, and a missing
  name falls back to the pattern and then to the first device.
\<close>

theorem SelectDevice_precedence:
  "(case SelectDevice compile devices exactName namePattern of
      Inl e \<Rightarrow> devices = [] \<and> e = ErrNoOutputDevices \<or>
               compile namePattern = None \<and> e = PatternInvalid namePattern
    | Inr d \<Rightarrow> d \<in> set devices \<and>
        (exactName \<in> dv_Name ` set devices - {[]} \<longrightarrow> dv_Name d = exactName) \<and>
        (exactName \<notin> dv_Name ` set devices \<longrightarrow>
           (case compile namePattern of
              None \<Rightarrow> namePattern = [] \<and> d = hd devices
            | Some f \<Rightarrow> (\<exists>x \<in> set devices. f (dv_Name x)) \<and> namePattern \<noteq> [] \<and> f (dv_Name d) \<or>
                        ((\<forall>x \<in> set devices. \<not> f (dv_Name x)) \<or> namePattern = []) \<and> d = hd devices)))"
proof (cases "devices = []")
  case False
  then have hd: "hd devices \<in> set devices" "devices ! 0 = hd devices" by (simp_all add: hd_conv_nth)
  have find: "x \<in> set devices \<and> P x" if "find P devices = Some x" for P x
    using that by (auto simp: find_Some_iff)
  let ?e = "if exactName \<noteq> [] then find (\<lambda>d. dv_Name d = exactName) devices else None"
  show ?thesis
  proof (cases ?e)
    case (Some d)
    then have "d \<in> set devices \<and> dv_Name d = exactName" using find by (auto split: if_splits)
    then show ?thesis using Some False by (auto simp: SelectDevice_def)
  next
    case None
    then have no: "exactName \<notin> dv_Name ` set devices - {[]}" by (auto simp: find_None_iff split: if_splits)
    have eq: "SelectDevice compile devices exactName namePattern =
        (if namePattern \<noteq> [] then
          (case compile namePattern of
             None \<Rightarrow> Inl (PatternInvalid namePattern)
           | Some f \<Rightarrow> (case find (\<lambda>d. f (dv_Name d)) devices of Some d \<Rightarrow> Inr d | None \<Rightarrow> Inr (hd devices)))
        else Inr (hd devices))"
      unfolding SelectDevice_def None hd(2) using False by simp
    show ?thesis
    proof (cases "namePattern = [] \<or> compile namePattern = None")
      case True
      then show ?thesis using eq no hd(1) by (auto split: option.splits)
    next
      case False
      then obtain f where f: "compile namePattern = Some f" "namePattern \<noteq> []" by auto
      show ?thesis
      proof (cases "find (\<lambda>d. f (dv_Name d)) devices")
        case None
        then have "\<forall>x \<in> set devices. \<not> f (dv_Name x)" by (simp add: find_None_iff)
        then show ?thesis using eq no hd(1) f None by auto
      next
        case (Some d)
        then show ?thesis using eq no f find [OF Some] by auto
      qed
    qed
  qed
qed (simp add: SelectDevice_def)

theorem SelectDevice_precedence_witness:
  "\<exists>d. SelectDevice (\<lambda>_. Some (\<lambda>_. True)) [\<lparr>dv_Number = 0, dv_Name = ''through''\<rparr>, \<lparr>dv_Number = 1, dv_Name = ''synth''\<rparr>]
     ''synth'' ''t.*'' = Inr d \<and> dv_Name d = ''synth''"
  using SelectDevice_precedence [where compile = "\<lambda>_. Some (\<lambda>_. True)"
      and devices = "[\<lparr>dv_Number = 0, dv_Name = ''through''\<rparr>, \<lparr>dv_Number = 1, dv_Name = ''synth''\<rparr>]"
      and exactName = "''synth''" and namePattern = "''t.*''"]
  by (auto split: sum.splits)

end
