(* ===== verification/Scheduler.thy ===== *)
theory Scheduler
  imports Midi
begin

text \<open>
  internal/midi/scheduler.go: the scheduler that turns note events into Note On messages and owns the
  matching Note Off. Its sender is an argument, a function that passes a world through and may fail.
  Go's timers are explicit: \<open>AfterFunc\<close> arms a timer under a fresh handle, \<open>Stop\<close> disarms it, an armed
  timer may fire at any moment, and a fired callback runs later, when it gets the lock; a callback
  that has fired can no longer be stopped, which is why the source compares generations. The
  operation gate and the mutex make every operation atomic. Calls of the observer are recorded in
  order; elapsed times are not.
\<close>

section \<open>State\<close>

record activeNote =
  an_started :: time
  an_generation :: u64
  an_timer :: nat

datatype observation =
    ObsNote u8 string
  | ObsWrite string string
  | ObsActive u8 nat nat

record SchedulerConfig =
  cf_MaximumNotesPerSecond :: int
  cf_MaximumPolyphony :: int
  cf_MinimumRetriggerInterval :: duration

record Scheduler =
  sd_maximumNotesPerSecond :: int
  sd_maximumPolyphony :: int
  sd_minimumRetriggerInterval :: duration
  sd_active :: "(noteKey, activeNote) fmap"
  sd_recent :: "time list"
  sd_nextGeneration :: u64
  sd_closed :: bool
  ck_armed :: "(nat, noteKey \<times> u64) fmap"
  ck_fired :: "(noteKey \<times> u64) list"
  ck_next :: nat
  sd_observed :: "observation list"

datatype scheduler_error =
    MaximumNotesNotPositive
  | PolyphonyRange
  | RetriggerNegative
  | ContextRequired
  | ContextDone string
  | ScheduleNote note_error
  | ErrRateLimited
  | ErrPolyphonyLimited
  | ErrRetriggerLimited
  | ErrSchedulerClosed
  | SendError midi_error

text \<open>A context: absent, or with its error on entry and at the moment the gate is acquired.\<close>

datatype ctx = NilContext | Context "string option" "string option"

type_synonym 'w sender = "'w \<Rightarrow> bytes \<Rightarrow> midi_error option \<times> 'w"

definition NewScheduler :: "SchedulerConfig \<Rightarrow> scheduler_error + Scheduler" where
  "NewScheduler c =
     (if cf_MaximumNotesPerSecond c \<le> 0 then Inl MaximumNotesNotPositive
      else if cf_MaximumPolyphony c \<le> 0 \<or> cf_MaximumPolyphony c > 128 then Inl PolyphonyRange
      else if cf_MinimumRetriggerInterval c < 0 then Inl RetriggerNegative
      else Inr \<lparr>sd_maximumNotesPerSecond = cf_MaximumNotesPerSecond c, sd_maximumPolyphony = cf_MaximumPolyphony c,
                sd_minimumRetriggerInterval = cf_MinimumRetriggerInterval c, sd_active = fmempty, sd_recent = [],
                sd_nextGeneration = 0, sd_closed = False, ck_armed = fmempty, ck_fired = [], ck_next = 0,
                sd_observed = []\<rparr>)"

section \<open>Timers and observer\<close>

definition observe :: "observation \<Rightarrow> Scheduler \<Rightarrow> Scheduler" where
  "observe e s = s\<lparr>sd_observed := sd_observed s @ [e]\<rparr>"

definition timer_Stop :: "nat \<Rightarrow> Scheduler \<Rightarrow> Scheduler" where
  "timer_Stop h s = s\<lparr>ck_armed := fmdrop h (ck_armed s)\<rparr>"

definition AfterFunc :: "noteKey \<Rightarrow> u64 \<Rightarrow> Scheduler \<Rightarrow> nat \<times> Scheduler" where
  "AfterFunc key generation s =
     (ck_next s, s\<lparr>ck_armed := fmupd (ck_next s) (key, generation) (ck_armed s), ck_next := Suc (ck_next s)\<rparr>)"

text \<open>The loop over the active notes that stops each note's timer.\<close>

definition stopTimers :: "Scheduler \<Rightarrow> Scheduler" where
  "stopTimers s =
     s\<lparr>ck_armed := fmdrop_fset (an_timer |`| fmran (sd_active s)) (ck_armed s)\<rparr>"

definition activeOn :: "u8 \<Rightarrow> Scheduler \<Rightarrow> nat" where
  "activeOn channel s = fcard (ffilter (\<lambda>k. fst k = channel) (fmdom (sd_active s)))"

definition observeActive :: "u8 \<Rightarrow> Scheduler \<Rightarrow> Scheduler" where
  "observeActive channel s = observe (ObsActive channel (activeOn channel s) (map_len (sd_active s))) s"

definition clearActiveLocked :: "Scheduler \<Rightarrow> Scheduler" where
  "clearActiveLocked s =
     fold (\<lambda>channel. observe (ObsActive channel 0 0)) channels ((stopTimers s)\<lparr>sd_active := fmempty\<rparr>)"

section \<open>Sending\<close>

definition sendMessage ::
  "'w sender \<Rightarrow> string \<Rightarrow> bytes \<Rightarrow> Scheduler \<times> 'w \<Rightarrow> midi_error option \<times> Scheduler \<times> 'w" where
  "sendMessage tx operation message sw =
     (case tx (snd sw) message of
        (None, w) \<Rightarrow> (None, observe (ObsWrite operation ''success'') (fst sw), w)
      | (Some e, w) \<Rightarrow>
          (Some (SendFailed operation e), clearActiveLocked (observe (ObsWrite operation ''error'') (fst sw)), w))"

definition scheduler_send ::
  "'w sender \<Rightarrow> string \<Rightarrow> u8 \<Rightarrow> u8 \<Rightarrow> u8 \<Rightarrow> Scheduler \<times> 'w \<Rightarrow> midi_error option \<times> Scheduler \<times> 'w" where
  "scheduler_send tx operation channel note velocity sw =
     (case (if operation = ''note_off'' then NoteOff channel note else NoteOn channel note velocity) of
        Inl e \<Rightarrow> (Some e, sw)
      | Inr message \<Rightarrow> sendMessage tx operation message sw)"

text \<open>
  \<open>panicLocked\<close>: stop everything, then All Notes Off on the sixteen channels; a missing output is not a
  failure. The failures are collected in order.
\<close>

fun panicChannels :: "'w sender \<Rightarrow> u8 list \<Rightarrow> midi_error list \<Rightarrow> Scheduler \<times> 'w \<Rightarrow> midi_error list \<times> Scheduler \<times> 'w" where
  "panicChannels tx [] failures sw = (failures, sw)"
| "panicChannels tx (channel # rest) failures sw =
     (case sendMessage tx ''all_notes_off'' (message_of (AllNotesOff channel)) sw of
        (err, s, w) \<Rightarrow>
          panicChannels tx rest
            (case err of None \<Rightarrow> failures
             | Some e \<Rightarrow> if errors_Is e ErrOutputUnavailable then failures else failures @ [e])
            (observe (ObsActive channel 0 0) s, w))"

definition panicLocked :: "'w sender \<Rightarrow> Scheduler \<times> 'w \<Rightarrow> midi_error list \<times> Scheduler \<times> 'w" where
  "panicLocked tx sw = panicChannels tx channels [] ((stopTimers (fst sw))\<lparr>sd_active := fmempty\<rparr>, snd sw)"

section \<open>Operations\<close>

definition pruneRateWindow :: "time \<Rightarrow> Scheduler \<Rightarrow> Scheduler" where
  "pruneRateWindow now s = s\<lparr>sd_recent := dropWhile (\<lambda>t. \<not> t > now - second) (sd_recent s)\<rparr>"

text \<open>The part of \<open>Write\<close> after the limits: silence a retriggered note, start the note, arm its timer.\<close>

definition startNote ::
  "'w sender \<Rightarrow> time \<Rightarrow> NoteEvent \<Rightarrow> Scheduler \<times> 'w \<Rightarrow> scheduler_error option \<times> Scheduler \<times> 'w" where
  "startNote tx now note sw =
     (case sendMessage tx ''note_on'' (message_of (NoteOn (ne_Channel note) (ne_Note note) (ne_Velocity note))) sw of
        (Some e, s, w) \<Rightarrow> (Some (SendError e), observe (ObsNote (ne_Channel note) ''error'') s, w)
      | (None, s, w) \<Rightarrow>
          let key = (ne_Channel note, ne_Note note);
              s1 = s\<lparr>sd_recent := sd_recent s @ [now], sd_nextGeneration := sd_nextGeneration s + 1\<rparr>;
              generation = sd_nextGeneration s1;
              (timer, s2) = AfterFunc key generation s1;
              s3 = s2\<lparr>sd_active := fmupd key \<lparr>an_started = now, an_generation = generation, an_timer = timer\<rparr>
                        (sd_active s2)\<rparr>
          in (None, observeActive (ne_Channel note) (observe (ObsNote (ne_Channel note) ''played'') s3), w))"

definition silenceNote ::
  "'w sender \<Rightarrow> NoteEvent \<Rightarrow> activeNote \<Rightarrow> Scheduler \<times> 'w \<Rightarrow> midi_error option \<times> Scheduler \<times> 'w" where
  "silenceNote tx note current sw =
     (let s = timer_Stop (an_timer current) (fst sw);
          s = s\<lparr>sd_active := fmdrop (ne_Channel note, ne_Note note) (sd_active s)\<rparr>
      in case scheduler_send tx ''note_off'' (ne_Channel note) (ne_Note note) 0 (s, snd sw) of
        (None, sw') \<Rightarrow> (None, sw')
      | (Some e, sw') \<Rightarrow>
          (case sendMessage tx ''all_notes_off'' (message_of (AllNotesOff (ne_Channel note))) sw' of
             (_, s, w) \<Rightarrow>
               (Some e, observeActive (ne_Channel note) (observe (ObsNote (ne_Channel note) ''error'') s), w)))"

definition Scheduler_Write ::
  "'w sender \<Rightarrow> ctx \<Rightarrow> time \<Rightarrow> NoteEvent \<Rightarrow> Scheduler \<times> 'w \<Rightarrow> scheduler_error option \<times> Scheduler \<times> 'w" where
  "Scheduler_Write tx c now note sw =
     (case c of
        NilContext \<Rightarrow> (Some ContextRequired, sw)
      | Context err gateErr \<Rightarrow>
        (case NoteEvent_Validate note of
           Some e \<Rightarrow> (Some (ScheduleNote e), sw)
         | None \<Rightarrow>
           (case err of Some e \<Rightarrow> (Some (ContextDone e), sw) | None \<Rightarrow>
           (case gateErr of Some e \<Rightarrow> (Some (ContextDone e), sw) | None \<Rightarrow>
           let (s, w) = sw; channel = ne_Channel note; key = (channel, ne_Note note) in
           if sd_closed s then (Some ErrSchedulerClosed, sw)
           else let current = fmlookup (sd_active s) key in
           if (case current of Some a \<Rightarrow> time_Sub now (an_started a) < sd_minimumRetriggerInterval s | None \<Rightarrow> False)
           then (Some ErrRetriggerLimited, observe (ObsNote channel ''retrigger_limited'') s, w)
           else let s = pruneRateWindow now s in
           if int (length (sd_recent s)) \<ge> sd_maximumNotesPerSecond s
           then (Some ErrRateLimited, observe (ObsNote channel ''rate_limited'') s, w)
           else if current = None \<and> int (map_len (sd_active s)) \<ge> sd_maximumPolyphony s
           then (Some ErrPolyphonyLimited, observe (ObsNote channel ''polyphony_limited'') s, w)
           else case current of
             None \<Rightarrow> startNote tx now note (s, w)
           | Some a \<Rightarrow>
             (case silenceNote tx note a (s, w) of
                (Some e, sw') \<Rightarrow> (Some (SendError e), sw')
              | (None, sw') \<Rightarrow> startNote tx now note sw')))))"

definition Scheduler_Panic :: "'w sender \<Rightarrow> Scheduler \<times> 'w \<Rightarrow> midi_error list \<times> Scheduler \<times> 'w" where
  "Scheduler_Panic tx sw = panicLocked tx sw"

definition Scheduler_Close :: "'w sender \<Rightarrow> Scheduler \<times> 'w \<Rightarrow> midi_error list \<times> Scheduler \<times> 'w" where
  "Scheduler_Close tx sw =
     (if sd_closed (fst sw) then ([], sw)
      else panicLocked tx ((fst sw)\<lparr>sd_closed := True\<rparr>, snd sw))"

definition Scheduler_stop :: "'w sender \<Rightarrow> noteKey \<Rightarrow> u64 \<Rightarrow> Scheduler \<times> 'w \<Rightarrow> Scheduler \<times> 'w" where
  "Scheduler_stop tx key generation sw =
     (case fmlookup (sd_active (fst sw)) key of
        None \<Rightarrow> sw
      | Some active \<Rightarrow>
        if an_generation active \<noteq> generation then sw
        else let s = (fst sw)\<lparr>sd_active := fmdrop key (sd_active (fst sw))\<rparr> in
        case scheduler_send tx ''note_off'' (fst key) (snd key) 0 (s, snd sw) of
          (Some e, sw') \<Rightarrow>
            (case sendMessage tx ''all_notes_off'' (message_of (AllNotesOff (fst key))) sw' of
               (_, s, w) \<Rightarrow> (observeActive (fst key) (observe (ObsNote (fst key) ''note_off_error'') s), w))
        | (None, s, w) \<Rightarrow> (observeActive (fst key) (observe (ObsNote (fst key) ''stopped'') s), w))"

text \<open>The runtime's side of the timers: an armed timer fires, a fired callback runs.\<close>

definition timer_fire :: "nat \<Rightarrow> Scheduler \<Rightarrow> Scheduler" where
  "timer_fire h s =
     (case fmlookup (ck_armed s) h of
        None \<Rightarrow> s
      | Some kg \<Rightarrow> s\<lparr>ck_armed := fmdrop h (ck_armed s), ck_fired := ck_fired s @ [kg]\<rparr>)"

definition callback_run :: "'w sender \<Rightarrow> noteKey \<times> u64 \<Rightarrow> Scheduler \<times> 'w \<Rightarrow> Scheduler \<times> 'w" where
  "callback_run tx kg sw =
     (if kg \<in> set (ck_fired (fst sw))
      then Scheduler_stop tx (fst kg) (snd kg) ((fst sw)\<lparr>ck_fired := remove1 kg (ck_fired (fst sw))\<rparr>, snd sw)
      else sw)"

section \<open>Frame lemmas\<close>

lemma observe_frame [simp]:
  "sd_active (observe e s) = sd_active s" "sd_recent (observe e s) = sd_recent s"
  "sd_closed (observe e s) = sd_closed s" "sd_nextGeneration (observe e s) = sd_nextGeneration s"
  "ck_armed (observe e s) = ck_armed s" "ck_fired (observe e s) = ck_fired s" "ck_next (observe e s) = ck_next s"
  "sd_maximumNotesPerSecond (observe e s) = sd_maximumNotesPerSecond s"
  "sd_maximumPolyphony (observe e s) = sd_maximumPolyphony s"
  "sd_minimumRetriggerInterval (observe e s) = sd_minimumRetriggerInterval s"
  by (simp_all add: observe_def)

lemma fold_observe: "fold (\<lambda>c. observe (g c)) xs s = s\<lparr>sd_observed := sd_observed s @ map g xs\<rparr>"
  by (induction xs arbitrary: s) (simp_all add: observe_def)

text \<open>The state without its observer log, which is all the invariants read.\<close>

definition quiet :: "Scheduler \<Rightarrow> Scheduler" where
  "quiet s = s\<lparr>sd_observed := []\<rparr>"

lemma quiet_observe [simp]: "quiet (observe e s) = quiet s" "quiet (observeActive c s) = quiet s"
  by (simp_all add: quiet_def observe_def observeActive_def)

lemma quiet_fields:
  assumes "quiet s = quiet t"
  shows "sd_active s = sd_active t" "sd_recent s = sd_recent t" "sd_closed s = sd_closed t"
    "ck_armed s = ck_armed t" "ck_fired s = ck_fired t" "ck_next s = ck_next t"
    "sd_nextGeneration s = sd_nextGeneration t"
    "sd_maximumNotesPerSecond s = sd_maximumNotesPerSecond t" "sd_maximumPolyphony s = sd_maximumPolyphony t"
    "sd_minimumRetriggerInterval s = sd_minimumRetriggerInterval t"
  using assms by (cases s; cases t; simp add: quiet_def)+

lemma quiet_clear: "quiet (clearActiveLocked s) = quiet ((stopTimers s)\<lparr>sd_active := fmempty\<rparr>)"
  by (simp add: clearActiveLocked_def fold_observe quiet_def)

section \<open>The invariant\<close>

text \<open>Every active note has its own callback: armed under the note's timer handle, or fired.\<close>

definition pending :: "Scheduler \<Rightarrow> noteKey \<Rightarrow> activeNote \<Rightarrow> bool" where
  "pending s k a \<longleftrightarrow>
     an_timer a < ck_next s \<and>
     (fmlookup (ck_armed s) (an_timer a) = Some (k, an_generation a) \<or> (k, an_generation a) \<in> set (ck_fired s))"

definition callbacks_pending :: "Scheduler \<Rightarrow> bool" where
  "callbacks_pending s \<longleftrightarrow>
     (\<forall>k a. fmlookup (sd_active s) k = Some a \<longrightarrow> pending s k a) \<and>
     (\<forall>h v. fmlookup (ck_armed s) h = Some v \<longrightarrow> h < ck_next s) \<and>
     (\<forall>k k' a a'. fmlookup (sd_active s) k = Some a \<longrightarrow> fmlookup (sd_active s) k' = Some a' \<longrightarrow>
        an_timer a = an_timer a' \<longrightarrow> k = k')"

lemma callbacks_pendingI:
  assumes "\<And>k a. fmlookup (sd_active s) k = Some a \<Longrightarrow> pending s k a"
    and "\<And>h v. fmlookup (ck_armed s) h = Some v \<Longrightarrow> h < ck_next s"
    and "\<And>k k' a a'. fmlookup (sd_active s) k = Some a \<Longrightarrow> fmlookup (sd_active s) k' = Some a' \<Longrightarrow>
      an_timer a = an_timer a' \<Longrightarrow> k = k'"
  shows "callbacks_pending s"
  using assms unfolding callbacks_pending_def by blast

lemma callbacks_pendingD:
  assumes "callbacks_pending s"
  shows "fmlookup (sd_active s) k = Some a \<Longrightarrow> pending s k a"
    and "fmlookup (ck_armed s) h = Some v \<Longrightarrow> h < ck_next s"
    and "fmlookup (sd_active s) k = Some a \<Longrightarrow> fmlookup (sd_active s) k' = Some a' \<Longrightarrow>
      an_timer a = an_timer a' \<Longrightarrow> k = k'"
  using assms unfolding callbacks_pending_def by blast+

definition Scheduler_inv :: "Scheduler \<Rightarrow> bool" where
  "Scheduler_inv s \<longleftrightarrow>
     0 < sd_maximumNotesPerSecond s \<and> 0 < sd_maximumPolyphony s \<and> sd_maximumPolyphony s \<le> 128 \<and>
     int (map_len (sd_active s)) \<le> sd_maximumPolyphony s \<and>
     (\<forall>k \<in> fset (fmdom (sd_active s)). fst k \<in> set channels \<and> snd k \<le> 127) \<and> callbacks_pending s"

lemma Scheduler_inv_quiet: "quiet s = quiet t \<Longrightarrow> Scheduler_inv s = Scheduler_inv t"
  using quiet_fields [of s t] by (simp add: Scheduler_inv_def callbacks_pending_def pending_def)

lemma NewScheduler_inv: "NewScheduler c = Inr s \<Longrightarrow> Scheduler_inv s \<and> sd_active s = fmempty \<and> sd_recent s = []"
  by (auto simp: NewScheduler_def Scheduler_inv_def callbacks_pending_def split: if_splits)

lemma inv_recent: "Scheduler_inv (s\<lparr>sd_recent := xs\<rparr>) = Scheduler_inv s"
  "Scheduler_inv (s\<lparr>sd_recent := xs, sd_nextGeneration := g\<rparr>) = Scheduler_inv s"
  "Scheduler_inv (s\<lparr>sd_closed := b\<rparr>) = Scheduler_inv s"
  by (simp_all add: Scheduler_inv_def callbacks_pending_def pending_def)

text \<open>Dropping notes, and disarming timers that belong to no remaining note, keeps the invariant.\<close>

lemma inv_shrink:
  assumes inv: "Scheduler_inv s" and active: "\<And>k a. fmlookup m k = Some a \<Longrightarrow> fmlookup (sd_active s) k = Some a"
    and armed: "\<And>h v. fmlookup t h = Some v \<Longrightarrow> fmlookup (ck_armed s) h = Some v"
    and kept: "\<And>k a. fmlookup m k = Some a \<Longrightarrow> fmlookup t (an_timer a) = fmlookup (ck_armed s) (an_timer a)"
  shows "Scheduler_inv (s\<lparr>ck_armed := t, sd_active := m\<rparr>)"
proof -
  have cb: "callbacks_pending s" using inv by (simp add: Scheduler_inv_def)
  have dom: "fmdom m |\<subseteq>| fmdom (sd_active s)" using active by (auto simp: fmlookup_dom_iff)
  have "callbacks_pending (s\<lparr>ck_armed := t, sd_active := m\<rparr>)"
  proof (rule callbacks_pendingI)
    fix k a assume "fmlookup (sd_active (s\<lparr>ck_armed := t, sd_active := m\<rparr>)) k = Some a"
    then have m: "fmlookup m k = Some a" by simp
    from callbacks_pendingD(1) [OF cb active [OF m]] kept [OF m]
    show "pending (s\<lparr>ck_armed := t, sd_active := m\<rparr>) k a" by (simp add: pending_def)
  next
    fix h v assume "fmlookup (ck_armed (s\<lparr>ck_armed := t, sd_active := m\<rparr>)) h = Some v"
    then show "h < ck_next (s\<lparr>ck_armed := t, sd_active := m\<rparr>)"
      using armed callbacks_pendingD(2) [OF cb] by auto
  next
    fix k k' a a'
    assume "fmlookup (sd_active (s\<lparr>ck_armed := t, sd_active := m\<rparr>)) k = Some a"
      "fmlookup (sd_active (s\<lparr>ck_armed := t, sd_active := m\<rparr>)) k' = Some a'" "an_timer a = an_timer a'"
    then have "fmlookup (sd_active s) k = Some a" "fmlookup (sd_active s) k' = Some a'" "an_timer a = an_timer a'"
      using active by simp_all
    then show "k = k'" by (rule callbacks_pendingD(3) [OF cb])
  qed
  moreover have "map_len m \<le> map_len (sd_active s)" unfolding map_len_def using dom by (simp add: fcard_mono)
  ultimately show ?thesis using inv dom by (auto simp: Scheduler_inv_def)
qed

lemma inv_clear: "Scheduler_inv s \<Longrightarrow> Scheduler_inv ((stopTimers s)\<lparr>sd_active := fmempty\<rparr>)"
  unfolding stopTimers_def by (rule inv_shrink) (auto split: if_splits)

lemma inv_drop: "Scheduler_inv s \<Longrightarrow> Scheduler_inv (s\<lparr>sd_active := fmdrop k (sd_active s)\<rparr>)"
proof -
  assume inv: "Scheduler_inv s"
  have "Scheduler_inv (s\<lparr>ck_armed := ck_armed s, sd_active := fmdrop k (sd_active s)\<rparr>)"
    by (rule inv_shrink [OF inv]) (auto split: if_splits)
  then show ?thesis by simp
qed

text \<open>Stopping the timer of a note that is dropped at the same time disturbs no other note.\<close>

lemma inv_stop_drop:
  assumes inv: "Scheduler_inv s" and a: "fmlookup (sd_active s) k = Some a"
  shows "Scheduler_inv ((timer_Stop (an_timer a) s)\<lparr>sd_active := fmdrop k (sd_active s)\<rparr>)"
proof -
  have "callbacks_pending s" using inv by (simp add: Scheduler_inv_def)
  note other = callbacks_pendingD(3) [OF this a]
  show ?thesis unfolding timer_Stop_def
    by (rule inv_shrink [OF inv]) (auto split: if_splits dest: other)
qed

lemma inv_insert:
  assumes inv: "Scheduler_inv s" and room: "int (map_len (sd_active s)) < sd_maximumPolyphony s"
    and new: "fmlookup (sd_active s) k = None" and k: "fst k \<in> set channels" "snd k \<le> 127"
    and t: "AfterFunc k g s = (h, s1)"
  shows "Scheduler_inv (s1\<lparr>sd_active := fmupd k \<lparr>an_started = now, an_generation = g, an_timer = h\<rparr> (sd_active s1)\<rparr>)"
    (is "Scheduler_inv ?s")
proof -
  have cb: "callbacks_pending s" using inv by (simp add: Scheduler_inv_def)
  have h: "h = ck_next s" and s1: "s1 = s\<lparr>ck_armed := fmupd (ck_next s) (k, g) (ck_armed s), ck_next := Suc (ck_next s)\<rparr>"
    using t by (auto simp: AfterFunc_def)
  have old: "an_timer b < ck_next s" if "fmlookup (sd_active s) k' = Some b" for k' b
    using callbacks_pendingD(1) [OF cb that] by (simp add: pending_def)
  have look: "fmlookup (sd_active ?s) k' = (if k' = k then Some \<lparr>an_started = now, an_generation = g, an_timer = ck_next s\<rparr>
      else fmlookup (sd_active s) k')" for k'
    by (simp add: s1 h)
  have "callbacks_pending ?s"
  proof (rule callbacks_pendingI)
    fix k' b assume b: "fmlookup (sd_active ?s) k' = Some b"
    show "pending ?s k' b"
    proof (cases "k' = k")
      case True
      then show ?thesis using b by (auto simp: look pending_def s1 h)
    next
      case False
      then have b': "fmlookup (sd_active s) k' = Some b" using b look [of k'] by (simp only: if_False)
      show ?thesis
        using callbacks_pendingD(1) [OF cb b'] old [OF b'] by (auto simp: pending_def s1)
    qed
  next
    fix x v assume "fmlookup (ck_armed ?s) x = Some v"
    then show "x < ck_next ?s"
      using callbacks_pendingD(2) [OF cb, of x] by (auto simp: s1 less_Suc_eq split: if_splits)
  next
    fix k1 k2 a1 a2
    assume a: "fmlookup (sd_active ?s) k1 = Some a1" "fmlookup (sd_active ?s) k2 = Some a2" "an_timer a1 = an_timer a2"
    show "k1 = k2"
    proof (cases "k1 = k \<or> k2 = k")
      case True
      then show ?thesis using a(1,2) [unfolded look] a(3) old [of k1 a1] old [of k2 a2] by (auto split: if_splits)
    next
      case False
      then show ?thesis using a(1,2) [unfolded look] a(3) callbacks_pendingD(3) [OF cb, of k1 a1 k2 a2] by auto
    qed
  qed
  moreover have "map_len (sd_active ?s) = Suc (map_len (sd_active s))"
    using new by (simp add: s1 map_len_upd)
  ultimately show ?thesis using inv room k by (auto simp: Scheduler_inv_def s1)
qed

text \<open>Taking a callback off the fired list, for the notes other than the one it stops.\<close>

lemma inv_take:
  assumes inv: "Scheduler_inv s" and m: "\<And>k' a. fmlookup m k' = Some a \<Longrightarrow>
      fmlookup (sd_active s) k' = Some a \<and> (k', an_generation a) \<noteq> kg"
  shows "Scheduler_inv (s\<lparr>ck_fired := remove1 kg (ck_fired s), sd_active := m\<rparr>)"
proof -
  have "Scheduler_inv (s\<lparr>ck_armed := ck_armed s, sd_active := m\<rparr>)"
    by (rule inv_shrink [OF inv]) (use m in auto)
  then have inv': "Scheduler_inv (s\<lparr>sd_active := m\<rparr>)" by simp
  then have cb: "callbacks_pending (s\<lparr>sd_active := m\<rparr>)" by (simp add: Scheduler_inv_def)
  have "callbacks_pending (s\<lparr>ck_fired := remove1 kg (ck_fired s), sd_active := m\<rparr>)"
  proof (rule callbacks_pendingI)
    fix k' a assume "fmlookup (sd_active (s\<lparr>ck_fired := remove1 kg (ck_fired s), sd_active := m\<rparr>)) k' = Some a"
    then have a: "fmlookup m k' = Some a" by simp
    then have "pending (s\<lparr>sd_active := m\<rparr>) k' a" using callbacks_pendingD(1) [OF cb] by simp
    then show "pending (s\<lparr>ck_fired := remove1 kg (ck_fired s), sd_active := m\<rparr>) k' a"
      using m [OF a] by (simp add: pending_def)
  qed (use callbacks_pendingD(2,3) [OF cb] in \<open>simp_all\<close>)
  then show ?thesis using inv' by (simp add: Scheduler_inv_def)
qed

lemma inv_fire:
  assumes inv: "Scheduler_inv s"
  shows "Scheduler_inv (timer_fire h s)"
proof (cases "fmlookup (ck_armed s) h")
  case (Some kg)
  have cb: "callbacks_pending s" using inv by (simp add: Scheduler_inv_def)
  have eq: "timer_fire h s = s\<lparr>ck_armed := fmdrop h (ck_armed s), ck_fired := ck_fired s @ [kg]\<rparr>"
    using Some by (simp add: timer_fire_def)
  have "callbacks_pending (timer_fire h s)"
  proof (rule callbacks_pendingI)
    fix k a assume "fmlookup (sd_active (timer_fire h s)) k = Some a"
    then have "pending s k a" using callbacks_pendingD(1) [OF cb] by (simp add: eq)
    then show "pending (timer_fire h s) k a" using Some by (auto simp: pending_def eq)
  qed (use callbacks_pendingD(2,3) [OF cb] in \<open>auto simp: eq split: if_splits\<close>)
  then show ?thesis using inv by (simp add: Scheduler_inv_def eq)
qed (simp add: timer_fire_def inv)

section \<open>The sender\<close>

text \<open>
  What the scheduler relies on: a message that is sent successfully reaches the synthesizer behind the
  sender. A failed send may leave the synthesizer in any state, because the connection is gone.
\<close>

locale midi_sender =
  fixes tx :: "'w sender" and sounding :: "'w \<Rightarrow> noteKey set"
  assumes delivered: "tx w m = (None, w') \<Longrightarrow> sounding w' = midi_apply m (sounding w)"
begin

definition tracked :: "Scheduler \<times> 'w \<Rightarrow> bool" where
  "tracked sw \<longleftrightarrow> Scheduler_inv (fst sw) \<and> fset (fmdom (sd_active (fst sw))) \<subseteq> sounding (snd sw)"

lemma tracked_quiet: "quiet s = quiet t \<Longrightarrow> tracked (s, w) \<longleftrightarrow> tracked (t, w)"
  using Scheduler_inv_quiet [of s t] quiet_fields(1) [of s t] by (simp add: tracked_def)

lemma sendMessage_cases:
  assumes "sendMessage tx op m (s, w) = (r, s', w')"
  obtains (ok) "r = None" "quiet s' = quiet s" "sounding w' = midi_apply m (sounding w)"
  | (failed) e where "r = Some (SendFailed op e)" "quiet s' = quiet ((stopTimers s)\<lparr>sd_active := fmempty\<rparr>)"
      "fst (tx w m) = Some e"
proof (cases "tx w m")
  case (Pair e w1)
  show thesis
  proof (cases e)
    case None
    then have "tx w m = (None, w1)" using Pair by simp
    then show thesis using assms ok delivered [of w m w1] by (auto simp: sendMessage_def)
  next
    case (Some x)
    have "quiet (stopTimers (observe z s)\<lparr>sd_active := fmempty\<rparr>) = quiet (stopTimers s\<lparr>sd_active := fmempty\<rparr>)" for z
      by (simp add: stopTimers_def observe_def quiet_def)
    then show thesis using assms failed Pair Some by (auto simp: sendMessage_def quiet_clear)
  qed
qed

text \<open>One send keeps the correspondence when the message silences no active note.\<close>

lemma sendMessage_tracked:
  assumes inv: "Scheduler_inv s" and keep: "fset (fmdom (sd_active s)) \<subseteq> midi_apply m (sounding w)"
    and r: "sendMessage tx op m (s, w) = (r, s', w')"
  shows "tracked (s', w')"
  using r
proof (cases rule: sendMessage_cases)
  case ok
  then show ?thesis using inv keep Scheduler_inv_quiet [of s' s] quiet_fields(1) [of s' s] by (simp add: tracked_def)
next
  case failed
  then show ?thesis
    using inv_clear [OF inv] Scheduler_inv_quiet [OF failed(2)] quiet_fields(1) [OF failed(2)] by (simp add: tracked_def)
qed

lemma all_off_tracked:
  assumes inv: "Scheduler_inv s" and c: "c \<in> set channels" and keep: "sd_active s = fmempty"
    and r: "sendMessage tx op (message_of (AllNotesOff c)) (s, w) = (r, s', w')"
  shows "tracked (s', w')" and "sd_active s' = fmempty"
proof -
  show "tracked (s', w')" by (rule sendMessage_tracked [OF inv _ r]) (simp add: keep)
  show "sd_active s' = fmempty"
    using r by (cases rule: sendMessage_cases) (auto dest: quiet_fields(1) simp: keep)
qed

lemma panicChannels_tracked:
  "Scheduler_inv s \<Longrightarrow> sd_active s = fmempty \<Longrightarrow> set cs \<subseteq> set channels \<Longrightarrow>
     panicChannels tx cs fs (s, w) = (fs', s', w') \<Longrightarrow> tracked (s', w') \<and> sd_active s' = fmempty"
proof (induction cs arbitrary: fs s w)
  case (Cons c cs)
  obtain r s1 w1 where send: "sendMessage tx ''all_notes_off'' (message_of (AllNotesOff c)) (s, w) = (r, s1, w1)"
    by (metis prod_cases3)
  note a = all_off_tracked [OF Cons.prems(1) _ Cons.prems(2) send]
  have c: "c \<in> set channels" using Cons.prems(3) by simp
  have "Scheduler_inv (observe (ObsActive c 0 0) s1)"
    using a(1) [OF c] Scheduler_inv_quiet [of "observe (ObsActive c 0 0) s1" s1] by (simp add: tracked_def)
  then show ?case
    using Cons.IH [of "observe (ObsActive c 0 0) s1"] Cons.prems(3,4) a(2) [OF c] send by simp
qed (simp add: tracked_def)

lemma panicLocked_tracked:
  assumes "Scheduler_inv s" and "panicLocked tx (s, w) = (fs, s', w')"
  shows "tracked (s', w') \<and> sd_active s' = fmempty"
  using panicChannels_tracked [OF inv_clear [OF assms(1)] _ subset_refl] assms(2) by (simp add: panicLocked_def)

text \<open>Silencing one note: its key leaves the map and, if the send works, the synthesizer.\<close>

lemma note_off_tracked:
  assumes inv: "Scheduler_inv s" and new: "fmlookup (sd_active s) (c, n) = None"
    and c: "c \<in> set channels" "n \<le> 127" and sub: "fset (fmdom (sd_active s)) \<subseteq> sounding w"
    and r: "scheduler_send tx ''note_off'' c n 0 (s, w) = (r, s', w')"
  shows "tracked (s', w')" and "fmlookup (sd_active s') (c, n) = None"
    and "map_len (sd_active s') \<le> map_len (sd_active s)" and "r \<noteq> None \<Longrightarrow> sd_active s' = fmempty"
    and "sd_maximumPolyphony s' = sd_maximumPolyphony s"
proof -
  obtain m where m: "NoteOff c n = Inr m" "\<And>notes. midi_apply m notes = notes - {(c, n)}"
    using NoteOff_ok [OF c] by blast
  have send: "sendMessage tx ''note_off'' m (s, w) = (r, s', w')" using r m(1) by (simp add: scheduler_send_def)
  have notin: "(c, n) \<notin> fset (fmdom (sd_active s))" using new by (simp add: fmlookup_dom_iff)
  show "tracked (s', w')"
    by (rule sendMessage_tracked [OF inv _ send]) (use sub notin m(2) in auto)
  show "fmlookup (sd_active s') (c, n) = None" "map_len (sd_active s') \<le> map_len (sd_active s)"
    "r \<noteq> None \<Longrightarrow> sd_active s' = fmempty" "sd_maximumPolyphony s' = sd_maximumPolyphony s"
    using send by (cases rule: sendMessage_cases; auto dest: quiet_fields(1,9) simp: new stopTimers_def)+
qed

lemma startNote_tracked:
  assumes tr: "tracked (s, w)" and room: "int (map_len (sd_active s)) < sd_maximumPolyphony s"
    and new: "fmlookup (sd_active s) (ne_Channel note, ne_Note note) = None"
    and valid: "NoteEvent_Validate note = None" and r: "startNote tx now note (s, w) = (r, s', w')"
  shows "tracked (s', w')"
proof -
  let ?c = "ne_Channel note" and ?n = "ne_Note note"
  have v: "?c \<in> set channels" "?n \<le> 127" "ne_Velocity note \<noteq> 0" "ne_Velocity note \<le> 127"
    using valid by (auto simp: NoteEvent_Validate_None set_channels)
  obtain m where m: "NoteOn ?c ?n (ne_Velocity note) = Inr m" "\<And>notes. midi_apply m notes = insert (?c, ?n) notes"
    using NoteOn_ok [OF v] by blast
  obtain q s1 w1 where send: "sendMessage tx ''note_on'' m (s, w) = (q, s1, w1)" by (metis prod_cases3)
  have inv: "Scheduler_inv s" and sub: "fset (fmdom (sd_active s)) \<subseteq> sounding w" using tr by (simp_all add: tracked_def)
  have tr1: "tracked (s1, w1)" by (rule sendMessage_tracked [OF inv _ send]) (use sub m(2) in auto)
  show ?thesis
    using send
  proof (cases rule: sendMessage_cases)
    case ok
    define s2 where "s2 = s1\<lparr>sd_recent := sd_recent s1 @ [now], sd_nextGeneration := sd_nextGeneration s1 + 1\<rparr>"
    obtain h s3 where t: "AfterFunc (?c, ?n) (sd_nextGeneration s2) s2 = (h, s3)" by force
    define s4 where "s4 = s3\<lparr>sd_active := fmupd (?c, ?n)
       \<lparr>an_started = now, an_generation = sd_nextGeneration s2, an_timer = h\<rparr> (sd_active s3)\<rparr>"
    have f: "sd_active s2 = sd_active s" "sd_maximumPolyphony s2 = sd_maximumPolyphony s"
      using quiet_fields(1,9) [OF ok(2)] by (simp_all add: s2_def)
    have "Scheduler_inv s2" using tr1 by (simp add: s2_def inv_recent tracked_def)
    then have inv4: "Scheduler_inv s4"
      unfolding s4_def using room new v f by (intro inv_insert [OF _ _ _ _ _ t]) simp_all
    have "sd_active s3 = sd_active s" using t f by (auto simp: AfterFunc_def)
    then have "fset (fmdom (sd_active s4)) \<subseteq> sounding w1" using sub ok(3) m(2) by (auto simp: s4_def)
    moreover have "w' = w1" "quiet s' = quiet s4"
      using r m(1) send ok(1) t by (auto simp: startNote_def message_of_def Let_def s2_def s4_def)
    ultimately show ?thesis using inv4 tracked_quiet [of s' s4 w1] by (simp add: tracked_def)
  next
    case failed
    then have "w' = w1" "quiet s' = quiet s1"
      using r m(1) send by (auto simp: startNote_def message_of_def)
    then show ?thesis using tr1 tracked_quiet [of s' s1 w1] by simp
  qed
qed

lemma silenceNote_tracked:
  assumes tr: "tracked (s, w)" and a: "fmlookup (sd_active s) (ne_Channel note, ne_Note note) = Some a"
    and valid: "NoteEvent_Validate note = None" and r: "silenceNote tx note a (s, w) = (r, s', w')"
  shows "tracked (s', w')"
    and "r = None \<Longrightarrow> fmlookup (sd_active s') (ne_Channel note, ne_Note note) = None \<and>
      map_len (sd_active s') < map_len (sd_active s) \<and> sd_maximumPolyphony s' = sd_maximumPolyphony s"
proof -
  let ?c = "ne_Channel note" and ?n = "ne_Note note"
  have v: "?c \<in> set channels" "?n \<le> 127" using valid by (auto simp: NoteEvent_Validate_None set_channels)
  define s1 where "s1 = (timer_Stop (an_timer a) s)\<lparr>sd_active := fmdrop (?c, ?n) (sd_active s)\<rparr>"
  have inv1: "Scheduler_inv s1"
    unfolding s1_def by (rule inv_stop_drop [OF _ a]) (use tr in \<open>simp add: tracked_def\<close>)
  obtain q s2 w2 where send: "scheduler_send tx ''note_off'' ?c ?n 0 (s1, w) = (q, s2, w2)" by (metis prod_cases3)
  have new: "fmlookup (sd_active s1) (?c, ?n) = None" and sub: "fset (fmdom (sd_active s1)) \<subseteq> sounding w"
    using tr by (auto simp: s1_def tracked_def)
  note off = note_off_tracked [OF inv1 new v sub send]
  have len: "Suc (map_len (sd_active s1)) = map_len (sd_active s)"
  proof -
    have "0 < map_len (sd_active s)"
      using a fmdomI [OF a] by (auto simp: map_len_def fcard.rep_eq card_gt_0_iff)
    then show ?thesis using a by (simp add: s1_def map_len_drop)
  qed
  have eq: "silenceNote tx note a (s, w) = (case q of None \<Rightarrow> (None, s2, w2)
     | Some e \<Rightarrow> (case sendMessage tx ''all_notes_off'' (message_of (AllNotesOff ?c)) (s2, w2) of
             (_, s, w) \<Rightarrow> (Some e, observeActive ?c (observe (ObsNote ?c ''error'') s), w)))"
    using send by (simp add: silenceNote_def Let_def s1_def timer_Stop_def split: option.splits)
  show "tracked (s', w')"
  proof (cases q)
    case None
    then show ?thesis using eq r off(1) by simp
  next
    case (Some e)
    obtain z s3 w3 where z: "sendMessage tx ''all_notes_off'' (message_of (AllNotesOff ?c)) (s2, w2) = (z, s3, w3)"
      by (metis prod_cases3)
    have "tracked (s3, w3)"
      by (rule all_off_tracked(1) [OF _ v(1) _ z]) (use off(1,4) Some in \<open>auto simp: tracked_def\<close>)
    moreover have "quiet s' = quiet s3" "w' = w3" using r eq Some z by auto
    ultimately show ?thesis using tracked_quiet [of s' s3 w3] by simp
  qed
  assume "r = None"
  then have "s' = s2" using eq r by (cases q) (auto split: prod.splits)
  then show "fmlookup (sd_active s') (?c, ?n) = None \<and> map_len (sd_active s') < map_len (sd_active s) \<and>
      sd_maximumPolyphony s' = sd_maximumPolyphony s"
    using off(2,3,5) len by (auto simp: s1_def timer_Stop_def)
qed

text \<open>
  \<open>stop\<close> runs from a callback that has just been taken off the fired list, so the note it stops has no
  callback left until it is gone; what is asked of the state is stated for the state without it.
\<close>

lemma stop_tracked:
  assumes match: "\<And>a. fmlookup (sd_active s) key = Some a \<Longrightarrow> an_generation a = g \<Longrightarrow>
      Scheduler_inv (s\<lparr>sd_active := fmdrop key (sd_active s)\<rparr>) \<and> fst key \<in> set channels \<and> snd key \<le> 127 \<and>
      fset (fmdom (sd_active s)) \<subseteq> sounding w"
    and other: "\<nexists>a. fmlookup (sd_active s) key = Some a \<and> an_generation a = g \<Longrightarrow> tracked (s, w)"
    and r: "Scheduler_stop tx key g (s, w) = (s', w')"
  shows "tracked (s', w')"
proof (cases "\<exists>a. fmlookup (sd_active s) key = Some a \<and> an_generation a = g")
  case True
  then obtain a where a: "fmlookup (sd_active s) key = Some a" "an_generation a = g" by blast
  obtain c n where key: "key = (c, n)" by force
  define s1 where "s1 = s\<lparr>sd_active := fmdrop key (sd_active s)\<rparr>"
  have v: "c \<in> set channels" "n \<le> 127" and inv1: "Scheduler_inv s1" and snd0: "fset (fmdom (sd_active s)) \<subseteq> sounding w"
    using match [OF a] key by (simp_all add: s1_def)
  obtain q s2 w2 where send: "scheduler_send tx ''note_off'' c n 0 (s1, w) = (q, s2, w2)" by (metis prod_cases3)
  have new: "fmlookup (sd_active s1) (c, n) = None" and sub: "fset (fmdom (sd_active s1)) \<subseteq> sounding w"
    using snd0 key by (auto simp: s1_def)
  note off = note_off_tracked [OF inv1 new v sub send]
  have eq: "Scheduler_stop tx key g (s, w) = (case q of
       Some e \<Rightarrow> (case sendMessage tx ''all_notes_off'' (message_of (AllNotesOff c)) (s2, w2) of
               (_, s, w) \<Rightarrow> (observeActive c (observe (ObsNote c ''note_off_error'') s), w))
     | None \<Rightarrow> (observeActive c (observe (ObsNote c ''stopped'') s2), w2))"
    using send a key by (simp add: Scheduler_stop_def Let_def s1_def split: option.splits)
  show ?thesis
  proof (cases q)
    case None
    then have "quiet s' = quiet s2" "w' = w2" using eq r by auto
    then show ?thesis using off(1) tracked_quiet [of s' s2 w2] by simp
  next
    case (Some e)
    obtain z s3 w3 where z: "sendMessage tx ''all_notes_off'' (message_of (AllNotesOff c)) (s2, w2) = (z, s3, w3)"
      by (metis prod_cases3)
    have "tracked (s3, w3)"
      by (rule all_off_tracked(1) [OF _ v(1) _ z]) (use off(1,4) Some in \<open>auto simp: tracked_def\<close>)
    moreover have "quiet s' = quiet s3" "w' = w3" using r eq Some z by auto
    ultimately show ?thesis using tracked_quiet [of s' s3 w3] by simp
  qed
next
  case False
  then have "s' = s" "w' = w" using r by (auto simp: Scheduler_stop_def split: option.splits if_splits)
  then show ?thesis using other [OF False] by simp
qed

end

text \<open>The ways \<open>Write\<close> can go: refused with nothing sent, a new note, or a retriggered note.\<close>

lemma Write_cases:
  assumes "Scheduler_Write tx c now note (s, w) = (r, s', w')"
  obtains (refused) e t where "r = Some e" "w' = w" "quiet s' = quiet t" "t = s \<or> t = pruneRateWindow now s"
  | (fresh) "NoteEvent_Validate note = None" "\<not> sd_closed s"
      "fmlookup (sd_active s) (ne_Channel note, ne_Note note) = None"
      "int (length (sd_recent (pruneRateWindow now s))) < sd_maximumNotesPerSecond s"
      "int (map_len (sd_active s)) < sd_maximumPolyphony s"
      "startNote tx now note (pruneRateWindow now s, w) = (r, s', w')"
  | (silence_failed) a e where "NoteEvent_Validate note = None" "\<not> sd_closed s"
      "fmlookup (sd_active s) (ne_Channel note, ne_Note note) = Some a"
      "silenceNote tx note a (pruneRateWindow now s, w) = (Some e, s', w')" "r = Some (SendError e)"
  | (retrigger) a s1 w1 where "NoteEvent_Validate note = None" "\<not> sd_closed s"
      "fmlookup (sd_active s) (ne_Channel note, ne_Note note) = Some a"
      "sd_minimumRetriggerInterval s \<le> time_Sub now (an_started a)"
      "int (length (sd_recent (pruneRateWindow now s))) < sd_maximumNotesPerSecond s"
      "silenceNote tx note a (pruneRateWindow now s, w) = (None, s1, w1)"
      "startNote tx now note (s1, w1) = (r, s', w')"
proof -
  have frame: "sd_active (pruneRateWindow now s) = sd_active s" "sd_closed (pruneRateWindow now s) = sd_closed s"
    "sd_maximumNotesPerSecond (pruneRateWindow now s) = sd_maximumNotesPerSecond s"
    "sd_maximumPolyphony (pruneRateWindow now s) = sd_maximumPolyphony s"
    by (simp_all add: pruneRateWindow_def)
  let ?key = "(ne_Channel note, ne_Note note)"
  consider (early) "c = NilContext \<or> (\<exists>e1 e2. c = Context e1 e2 \<and> (e1 \<noteq> None \<or> e2 \<noteq> None)) \<or>
      NoteEvent_Validate note \<noteq> None \<or> sd_closed s"
    | (go) "c = Context None None" "NoteEvent_Validate note = None" "\<not> sd_closed s"
    by (cases c; metis option.exhaust)
  then show thesis
  proof cases
    case early
    then have "\<exists>e. r = Some e" "s' = s" "w' = w"
      using assms by (auto simp: Scheduler_Write_def split: ctx.splits option.splits)
    then show thesis using refused by blast
  next
    case go
    show thesis
    proof (cases "fmlookup (sd_active s) ?key")
      case None
      then have eq: "Scheduler_Write tx c now note (s, w) =
          (if int (length (sd_recent (pruneRateWindow now s))) \<ge> sd_maximumNotesPerSecond s
           then (Some ErrRateLimited, observe (ObsNote (ne_Channel note) ''rate_limited'') (pruneRateWindow now s), w)
           else if int (map_len (sd_active s)) \<ge> sd_maximumPolyphony s
           then (Some ErrPolyphonyLimited, observe (ObsNote (ne_Channel note) ''polyphony_limited'') (pruneRateWindow now s), w)
           else startNote tx now note (pruneRateWindow now s, w))"
        using go frame by (simp add: Scheduler_Write_def Let_def)
      show thesis
      proof (cases "int (length (sd_recent (pruneRateWindow now s))) < sd_maximumNotesPerSecond s \<and>
          int (map_len (sd_active s)) < sd_maximumPolyphony s")
        case True
        then show thesis using eq assms fresh go None by simp
      next
        case False
        then show thesis
          using eq assms refused [of ErrRateLimited "pruneRateWindow now s"]
            refused [of ErrPolyphonyLimited "pruneRateWindow now s"] by (auto split: if_splits)
      qed
    next
      case (Some a)
      have eq: "Scheduler_Write tx c now note (s, w) =
          (if time_Sub now (an_started a) < sd_minimumRetriggerInterval s
           then (Some ErrRetriggerLimited, observe (ObsNote (ne_Channel note) ''retrigger_limited'') s, w)
           else if int (length (sd_recent (pruneRateWindow now s))) \<ge> sd_maximumNotesPerSecond s
           then (Some ErrRateLimited, observe (ObsNote (ne_Channel note) ''rate_limited'') (pruneRateWindow now s), w)
           else case silenceNote tx note a (pruneRateWindow now s, w) of
                (Some e, sw') \<Rightarrow> (Some (SendError e), sw')
              | (None, sw') \<Rightarrow> startNote tx now note sw')"
        using go frame Some by (simp add: Scheduler_Write_def Let_def)
      obtain q s1 w1 where q: "silenceNote tx note a (pruneRateWindow now s, w) = (q, s1, w1)" by (metis prod_cases3)
      consider "time_Sub now (an_started a) < sd_minimumRetriggerInterval s"
        | "\<not> time_Sub now (an_started a) < sd_minimumRetriggerInterval s"
          "int (length (sd_recent (pruneRateWindow now s))) \<ge> sd_maximumNotesPerSecond s"
        | "\<not> time_Sub now (an_started a) < sd_minimumRetriggerInterval s"
          "int (length (sd_recent (pruneRateWindow now s))) < sd_maximumNotesPerSecond s"
        by linarith
      then show thesis
      proof cases
        case 1
        then show thesis using eq assms refused [of ErrRetriggerLimited s] by auto
      next
        case 2
        then show thesis using eq assms refused [of ErrRateLimited "pruneRateWindow now s"] by auto
      next
        case 3
        then show thesis
          using eq assms q go Some silence_failed [of a] retrigger [of a s1 w1] by (cases q) auto
      qed
    qed
  qed
qed

lemma prune_inv: "Scheduler_inv (pruneRateWindow now s) = Scheduler_inv s"
  by (simp add: pruneRateWindow_def inv_recent)

context midi_sender
begin

lemma Write_tracked:
  assumes tr: "tracked (s, w)" and r: "Scheduler_Write tx c now note (s, w) = (r, s', w')"
  shows "tracked (s', w')"
proof -
  have trp: "tracked (pruneRateWindow now s, w)"
    using tr prune_inv [of now s] by (simp add: tracked_def pruneRateWindow_def)
  have frame: "sd_active (pruneRateWindow now s) = sd_active s"
    "sd_maximumPolyphony (pruneRateWindow now s) = sd_maximumPolyphony s"
    by (simp_all add: pruneRateWindow_def)
  show ?thesis
    using r
  proof (cases rule: Write_cases)
    case (refused e t)
    then show ?thesis using tr trp tracked_quiet [OF refused(3)] by auto
  next
    case fresh
    then show ?thesis using startNote_tracked [OF trp] frame by simp
  next
    case (silence_failed a e)
    then show ?thesis using silenceNote_tracked(1) [OF trp] frame by simp
  next
    case (retrigger a s1 w1)
    note sil = silenceNote_tracked [OF trp, of "note" a None s1 w1]
    have t1: "tracked (s1, w1)" by (rule sil(1)) (use retrigger frame in auto)
    have off: "fmlookup (sd_active s1) (ne_Channel note, ne_Note note) = None"
      "map_len (sd_active s1) < map_len (sd_active s)" "sd_maximumPolyphony s1 = sd_maximumPolyphony s"
      using sil(2) retrigger frame by auto
    have "int (map_len (sd_active s)) \<le> sd_maximumPolyphony s" using tr by (simp add: tracked_def Scheduler_inv_def)
    then show ?thesis using startNote_tracked [OF t1 _ off(1) retrigger(1) retrigger(7)] off by simp
  qed
qed

end

section \<open>Interleavings\<close>

text \<open>
  Everything but a write: operator controls, timers firing, callbacks running. A run interleaves these
  with writes at times that do not decrease; it keeps the latest time and the times of the played notes.
\<close>

inductive sched_step :: "'w sender \<Rightarrow> Scheduler \<times> 'w \<Rightarrow> Scheduler \<times> 'w \<Rightarrow> bool" for tx where
  step_panic: "Scheduler_Panic tx sw = (fs, sw') \<Longrightarrow> sched_step tx sw sw'"
| step_close: "Scheduler_Close tx sw = (fs, sw') \<Longrightarrow> sched_step tx sw sw'"
| step_fire: "sched_step tx (s, w) (timer_fire h s, w)"
| step_run: "callback_run tx kg sw = sw' \<Longrightarrow> sched_step tx sw sw'"

inductive sched_run :: "'w sender \<Rightarrow> Scheduler \<times> 'w \<Rightarrow> time \<Rightarrow> time list \<Rightarrow> Scheduler \<times> 'w \<Rightarrow> bool" for tx start where
  run_start: "sched_run tx start t [] start"
| run_write: "sched_run tx start t played sw \<Longrightarrow> t \<le> now \<Longrightarrow> Scheduler_Write tx c now event sw = (r, sw') \<Longrightarrow>
     sched_run tx start now (if r = None then played @ [now] else played) sw'"
| run_step: "sched_run tx start t played sw \<Longrightarrow> sched_step tx sw sw' \<Longrightarrow> sched_run tx start t played sw'"

context midi_sender
begin

lemma step_tracked: "sched_step tx sw sw' \<Longrightarrow> tracked sw \<Longrightarrow> tracked sw'"
proof (induction rule: sched_step.induct)
  case (step_panic sw fs sw')
  then show ?case
    using panicLocked_tracked [of "fst sw" "snd sw" fs "fst sw'" "snd sw'"]
    by (simp add: Scheduler_Panic_def tracked_def)
next
  case (step_close sw fs sw')
  show ?case
  proof (cases "sd_closed (fst sw)")
    case True
    then show ?thesis using step_close by (simp add: Scheduler_Close_def)
  next
    case False
    then show ?thesis
      using panicLocked_tracked [of "(fst sw)\<lparr>sd_closed := True\<rparr>" "snd sw" fs "fst sw'" "snd sw'"] step_close inv_recent(3)
      by (simp add: Scheduler_Close_def tracked_def)
  qed
next
  case (step_fire s w h)
  then show ?case using inv_fire [of s h] by (auto simp: tracked_def timer_fire_def split: option.splits)
next
  case (step_run kg sw sw')
  obtain s w where sw: "sw = (s, w)" by force
  show ?case
  proof (cases "kg \<in> set (ck_fired s)")
    case True
    let ?s = "s\<lparr>ck_fired := remove1 kg (ck_fired s)\<rparr>"
    have tr: "Scheduler_inv s" "fset (fmdom (sd_active s)) \<subseteq> sounding w" using step_run sw by (simp_all add: tracked_def)
    have run: "Scheduler_stop tx (fst kg) (snd kg) (?s, w) = (fst sw', snd sw')"
      using step_run sw True by (simp add: callback_run_def)
    have "tracked (fst sw', snd sw')"
    proof (rule stop_tracked [OF _ _ run])
      fix a assume a: "fmlookup (sd_active ?s) (fst kg) = Some a" "an_generation a = snd kg"
      have "fst kg \<in> fset (fmdom (sd_active s))" using fmdomI a(1) by fastforce
      moreover have "Scheduler_inv (s\<lparr>ck_fired := remove1 kg (ck_fired s), sd_active := fmdrop (fst kg) (sd_active s)\<rparr>)"
        by (rule inv_take [OF tr(1)]) (auto split: if_splits)
      ultimately show "Scheduler_inv (?s\<lparr>sd_active := fmdrop (fst kg) (sd_active ?s)\<rparr>) \<and> fst (fst kg) \<in> set channels \<and>
          snd (fst kg) \<le> 127 \<and> fset (fmdom (sd_active ?s)) \<subseteq> sounding w"
        using tr by (simp add: Scheduler_inv_def)
    next
      assume none: "\<nexists>a. fmlookup (sd_active ?s) (fst kg) = Some a \<and> an_generation a = snd kg"
      have "Scheduler_inv (s\<lparr>ck_fired := remove1 kg (ck_fired s), sd_active := sd_active s\<rparr>)"
        by (rule inv_take [OF tr(1)]) (use none in auto)
      then show "tracked (?s, w)" using tr(2) by (simp add: tracked_def)
    qed
    then show ?thesis by simp
  next
    case False
    then show ?thesis using step_run sw by (simp add: callback_run_def)
  qed
qed

lemma run_tracked: "sched_run tx start t played sw \<Longrightarrow> tracked start \<Longrightarrow> tracked sw"
proof (induction rule: sched_run.induct)
  case (run_write t played sw now c event r sw')
  then show ?case
    using Write_tracked [of "fst sw" "snd sw" c now event r "fst sw'" "snd sw'"] by simp
qed (auto intro: step_tracked)

end

section \<open>A sender that does not fail\<close>

locale reliable_sender = midi_sender +
  assumes reliable: "fst (tx w m) = None"
begin

lemma sendMessage_ok:
  "\<exists>w'. sendMessage tx op m (s, w) = (None, observe (ObsWrite op ''success'') s, w') \<and>
     sounding w' = midi_apply m (sounding w)"
proof -
  obtain w1 where w1: "tx w m = (None, w1)" using reliable [of w m] by (cases "tx w m") simp
  show ?thesis using delivered [OF w1] w1 by (simp add: sendMessage_def)
qed

text \<open>The notes the scheduler holds active are exactly the notes the synthesizer sounds.\<close>

definition exact :: "Scheduler \<times> 'a \<Rightarrow> bool" where
  "exact sw \<longleftrightarrow> Scheduler_inv (fst sw) \<and> sounding (snd sw) = fset (fmdom (sd_active (fst sw)))"

lemma startNote_exact:
  assumes "exact (s, w)" and valid: "NoteEvent_Validate note = None" and r: "startNote tx now note (s, w) = (r, s', w')"
  shows "sounding w' = fset (fmdom (sd_active s'))" and "r = None"
proof -
  let ?c = "ne_Channel note" and ?n = "ne_Note note"
  have v: "?c \<in> set channels" "?n \<le> 127" "ne_Velocity note \<noteq> 0" "ne_Velocity note \<le> 127"
    using valid by (auto simp: NoteEvent_Validate_None set_channels)
  obtain m where m: "NoteOn ?c ?n (ne_Velocity note) = Inr m" "\<And>notes. midi_apply m notes = insert (?c, ?n) notes"
    using NoteOn_ok [OF v] by blast
  obtain w1 where w1: "sendMessage tx ''note_on'' m (s, w) = (None, observe (ObsWrite ''note_on'' ''success'') s, w1)"
    "sounding w1 = midi_apply m (sounding w)" using sendMessage_ok by metis
  have "w' = w1" "sd_active s' = fmupd (?c, ?n) (the (fmlookup (sd_active s') (?c, ?n))) (sd_active s)" "r = None"
    using r m(1) w1(1) by (auto simp: startNote_def message_of_def Let_def AfterFunc_def observeActive_def)
  moreover from this(2) have "fset (fmdom (sd_active s')) = insert (?c, ?n) (fset (fmdom (sd_active s)))"
    by (metis finsert.rep_eq fmdom_fmupd)
  ultimately show "sounding w' = fset (fmdom (sd_active s'))" "r = None"
    using assms(1) w1(2) m(2) by (simp_all add: exact_def)
qed

lemma note_off_exact:
  assumes c: "c \<in> set channels" "n \<le> 127"
  shows "\<exists>w'. scheduler_send tx ''note_off'' c n 0 (s, w) = (None, observe (ObsWrite ''note_off'' ''success'') s, w') \<and>
    sounding w' = sounding w - {(c, n)}"
proof -
  obtain m where m: "NoteOff c n = Inr m" "\<And>notes. midi_apply m notes = notes - {(c, n)}"
    using NoteOff_ok [OF c] by blast
  then show ?thesis using sendMessage_ok [of "''note_off''" m s w] by (simp add: scheduler_send_def)
qed

lemma silenceNote_exact:
  assumes ex: "exact (s, w)" and valid: "NoteEvent_Validate note = None" and r: "silenceNote tx note a (s, w) = (r, s', w')"
  shows "sounding w' = fset (fmdom (sd_active s'))" and "r = None"
proof -
  let ?c = "ne_Channel note" and ?n = "ne_Note note"
  have v: "?c \<in> set channels" "?n \<le> 127" using valid by (auto simp: NoteEvent_Validate_None set_channels)
  let ?s = "(timer_Stop (an_timer a) s)\<lparr>sd_active := fmdrop (?c, ?n) (sd_active s)\<rparr>"
  obtain w1 where w1: "scheduler_send tx ''note_off'' ?c ?n 0 (?s, w) = (None, observe (ObsWrite ''note_off'' ''success'') ?s, w1)"
    "sounding w1 = sounding w - {(?c, ?n)}" using note_off_exact [OF v, of ?s w] by blast
  have "sd_active (timer_Stop (an_timer a) s) = sd_active s" by (simp add: timer_Stop_def)
  then have "silenceNote tx note a (s, w) = (None, observe (ObsWrite ''note_off'' ''success'') ?s, w1)"
    using w1(1) by (simp only: silenceNote_def Let_def fst_conv snd_conv prod.case option.case)
  with r have "s' = observe (ObsWrite ''note_off'' ''success'') ?s" "w' = w1" "r = None" by (simp_all only: prod.inject)
  then show "sounding w' = fset (fmdom (sd_active s'))" "r = None" using ex w1(2) by (auto simp: exact_def)
qed

lemma stop_exact:
  assumes ex: "sounding w = fset (fmdom (sd_active s))" and v: "\<forall>k \<in> fset (fmdom (sd_active s)). fst k \<in> set channels \<and> snd k \<le> 127"
    and r: "Scheduler_stop tx key g (s, w) = (s', w')"
  shows "sounding w' = fset (fmdom (sd_active s'))"
proof (cases "\<exists>a. fmlookup (sd_active s) key = Some a \<and> an_generation a = g")
  case True
  then obtain a where a: "fmlookup (sd_active s) key = Some a" "an_generation a = g" by blast
  let ?s = "s\<lparr>sd_active := fmdrop key (sd_active s)\<rparr>"
  have k: "fst key \<in> set channels" "snd key \<le> 127" using v fmdomI [OF a(1)] by blast+
  obtain w1 where w1: "scheduler_send tx ''note_off'' (fst key) (snd key) 0 (?s, w) =
      (None, observe (ObsWrite ''note_off'' ''success'') ?s, w1)" "sounding w1 = sounding w - {key}"
    using note_off_exact [OF k, of ?s w] unfolding prod.collapse by blast
  have "Scheduler_stop tx key g (s, w) =
      (observeActive (fst key) (observe (ObsNote (fst key) ''stopped'') (observe (ObsWrite ''note_off'' ''success'') ?s)), w1)"
    using a w1(1) by (simp only: Scheduler_stop_def Let_def fst_conv snd_conv prod.case option.case if_False simp_thms)
  with r have "w' = w1" "sd_active s' = fmdrop key (sd_active s)" by (auto simp: observeActive_def)
  then show ?thesis using ex w1(2) by auto
next
  case False
  then have "s' = s" "w' = w" using r by (auto simp: Scheduler_stop_def split: option.splits if_splits)
  then show ?thesis using ex by simp
qed

lemma panicChannels_sounding:
  "panicChannels tx cs fs (s, w) = (fs', s', w') \<Longrightarrow> set cs \<subseteq> set channels \<Longrightarrow>
     sounding w' = {k \<in> sounding w. fst k \<notin> set cs} \<and> fs' = fs \<and> sd_active s' = sd_active s"
proof (induction cs arbitrary: s w)
  case (Cons c cs)
  obtain m where m: "AllNotesOff c = Inr m" "\<And>notes. midi_apply m notes = {k \<in> notes. fst k \<noteq> c}"
    using AllNotesOff_ok [of c] Cons.prems(2) by auto
  obtain w1 where w1: "sendMessage tx ''all_notes_off'' m (s, w) = (None, observe (ObsWrite ''all_notes_off'' ''success'') s, w1)"
    "sounding w1 = midi_apply m (sounding w)" using sendMessage_ok by metis
  have "panicChannels tx cs fs (observe (ObsActive c 0 0) (observe (ObsWrite ''all_notes_off'' ''success'') s), w1) = (fs', s', w')"
    using Cons.prems(1) m(1) w1(1) by (simp add: message_of_def)
  from Cons.IH [OF this] Cons.prems(2) w1(2) m(2) show ?case by auto
qed simp

lemma panicLocked_exact:
  assumes "sounding w = fset (fmdom (sd_active s))"
    and "\<forall>k \<in> fset (fmdom (sd_active s)). fst k \<in> set channels \<and> snd k \<le> 127"
    and "panicLocked tx (s, w) = (fs, s', w')"
  shows "sounding w' = {} \<and> fs = [] \<and> sd_active s' = fmempty"
  using panicChannels_sounding [OF assms(3) [unfolded panicLocked_def] subset_refl] assms(1,2) by auto

end

end
