(* ===== verification/Scheduler_Spec.thy ===== *)
theory Scheduler_Spec
  imports Scheduler
begin

text \<open>
  The promises of internal/midi/scheduler.go over every interleaving of writes, operator controls,
  timers and callbacks: bounded polyphony, no note without a pending callback, agreement with the
  synthesizer, and the rate limit over any one-second window.
\<close>

section \<open>Exact agreement under a reliable sender\<close>

context reliable_sender
begin

lemma exact_tracked: "exact (s, w) \<Longrightarrow> tracked (s, w)"
  by (simp add: exact_def tracked_def)

lemma exactI: "tracked (s, w) \<Longrightarrow> sounding w = fset (fmdom (sd_active s)) \<Longrightarrow> exact (s, w)"
  by (simp add: exact_def tracked_def)

lemma Write_exact:
  assumes ex: "exact (s, w)" and r: "Scheduler_Write tx c now note (s, w) = (r, s', w')"
  shows "exact (s', w')"
proof (rule exactI [OF Write_tracked [OF exact_tracked [OF ex] r]])
  have p: "exact (pruneRateWindow now s, w)" "sd_active (pruneRateWindow now s) = sd_active s"
    using ex prune_inv [of now s] by (simp_all add: exact_def pruneRateWindow_def)
  show "sounding w' = fset (fmdom (sd_active s'))"
    using r
  proof (cases rule: Write_cases)
    case (refused e t)
    have "sd_active t = sd_active s" using refused(4) p(2) by blast
    then have "sd_active s' = sd_active s" using quiet_fields(1) [OF refused(3)] by simp
    then show ?thesis using ex refused(2) by (simp add: exact_def)
  next
    case fresh
    show ?thesis by (rule startNote_exact(1) [OF p(1) fresh(1,6)])
  next
    case (silence_failed a e)
    show ?thesis by (rule silenceNote_exact(1) [OF p(1) silence_failed(1,4)])
  next
    case (retrigger a s1 w1)
    have a: "fmlookup (sd_active (pruneRateWindow now s)) (ne_Channel note, ne_Note note) = Some a"
      using retrigger(3) p(2) by simp
    have "exact (s1, w1)"
      by (rule exactI [OF silenceNote_tracked(1) [OF exact_tracked [OF p(1)] a retrigger(1,6)]
            silenceNote_exact(1) [OF p(1) retrigger(1,6)]])
    from startNote_exact(1) [OF this retrigger(1,7)] show ?thesis .
  qed
qed

lemma step_exact: "sched_step tx sw sw' \<Longrightarrow> exact sw \<Longrightarrow> exact sw'"
proof (induction rule: sched_step.induct)
  case (step_panic sw fs sw')
  have "tracked sw'" using step_tracked [OF sched_step.step_panic [OF step_panic(1)]] exact_tracked [of "fst sw" "snd sw"] step_panic by simp
  moreover have "sounding (snd sw') = {}" "sd_active (fst sw') = fmempty"
    using panicLocked_exact [of "snd sw" "fst sw" fs "fst sw'" "snd sw'"] step_panic
    by (auto simp: Scheduler_Panic_def exact_def Scheduler_inv_def)
  ultimately show ?case using exactI [of "fst sw'" "snd sw'"] by simp
next
  case (step_close sw fs sw')
  have tr: "tracked sw'" using step_tracked [OF sched_step.step_close [OF step_close(1)]] exact_tracked [of "fst sw" "snd sw"] step_close by simp
  show ?case
  proof (cases "sd_closed (fst sw)")
    case True
    then show ?thesis using step_close by (simp add: Scheduler_Close_def)
  next
    case False
    then have "sounding (snd sw') = {}" "sd_active (fst sw') = fmempty"
      using panicLocked_exact [of "snd sw" "(fst sw)\<lparr>sd_closed := True\<rparr>" fs "fst sw'" "snd sw'"] step_close
      by (auto simp: Scheduler_Close_def exact_def Scheduler_inv_def)
    then show ?thesis using tr exactI [of "fst sw'" "snd sw'"] by simp
  qed
next
  case (step_fire s w h)
  have "tracked (timer_fire h s, w)" by (rule step_tracked [OF sched_step.step_fire exact_tracked [OF step_fire]])
  moreover have "sd_active (timer_fire h s) = sd_active s" by (simp add: timer_fire_def split: option.splits)
  ultimately show ?case using step_fire by (intro exactI) (simp_all add: exact_def)
next
  case (step_run kg sw sw')
  have tr: "tracked sw'" using step_tracked [OF sched_step.step_run [OF step_run(1)]] exact_tracked [of "fst sw" "snd sw"] step_run by simp
  show ?case
  proof (cases "kg \<in> set (ck_fired (fst sw))")
    case True
    let ?s = "(fst sw)\<lparr>ck_fired := remove1 kg (ck_fired (fst sw))\<rparr>"
    have "Scheduler_stop tx (fst kg) (snd kg) (?s, snd sw) = (fst sw', snd sw')"
      using step_run True by (simp add: callback_run_def)
    from stop_exact [OF _ _ this] have "sounding (snd sw') = fset (fmdom (sd_active (fst sw')))"
      using step_run by (simp add: exact_def Scheduler_inv_def)
    then show ?thesis using tr exactI [of "fst sw'" "snd sw'"] by simp
  next
    case False
    then show ?thesis using step_run by (simp add: callback_run_def)
  qed
qed

lemma run_exact: "sched_run tx start t played sw \<Longrightarrow> exact start \<Longrightarrow> exact sw"
proof (induction rule: sched_run.induct)
  case (run_write t played sw now c event r sw')
  then show ?case using Write_exact [of "fst sw" "snd sw" c now event r "fst sw'" "snd sw'"] by simp
qed (auto intro: step_exact)

end

section \<open>The rate window\<close>

text \<open>Only a played note touches the window; everything else, failed sends included, keeps it.\<close>

lemma sendMessage_recent:
  assumes "sendMessage tx op m (s, w) = (r, s', w')"
  shows "sd_recent s' = sd_recent s \<and> sd_maximumNotesPerSecond s' = sd_maximumNotesPerSecond s"
  using assms
  by (auto simp: sendMessage_def clearActiveLocked_def fold_observe stopTimers_def split: prod.splits option.splits)

lemma scheduler_send_recent:
  assumes "scheduler_send tx op c n v (s, w) = (r, s', w')"
  shows "sd_recent s' = sd_recent s \<and> sd_maximumNotesPerSecond s' = sd_maximumNotesPerSecond s"
  using assms sendMessage_recent [of tx op _ s w r s' w']
  by (auto simp: scheduler_send_def split: sum.splits)

lemma panicChannels_recent:
  "panicChannels tx cs fs (s, w) = (fs', s', w') \<Longrightarrow>
     sd_recent s' = sd_recent s \<and> sd_maximumNotesPerSecond s' = sd_maximumNotesPerSecond s"
proof (induction cs arbitrary: fs s w)
  case (Cons c cs)
  obtain r s1 w1 where send: "sendMessage tx ''all_notes_off'' (message_of (AllNotesOff c)) (s, w) = (r, s1, w1)"
    by (metis prod_cases3)
  then show ?case using Cons.prems Cons.IH [of _ "observe (ObsActive c 0 0) s1" w1] sendMessage_recent [OF send] by simp
qed simp

lemma panicLocked_recent:
  "panicLocked tx (s, w) = (fs, s', w') \<Longrightarrow>
     sd_recent s' = sd_recent s \<and> sd_maximumNotesPerSecond s' = sd_maximumNotesPerSecond s"
  unfolding panicLocked_def by (drule panicChannels_recent) (simp add: stopTimers_def)

lemma silenceNote_recent:
  assumes "silenceNote tx event a (s, w) = (r, s', w')"
  shows "sd_recent s' = sd_recent s \<and> sd_maximumNotesPerSecond s' = sd_maximumNotesPerSecond s"
proof -
  let ?c = "ne_Channel event"
  let ?s = "(timer_Stop (an_timer a) s)\<lparr>sd_active := fmdrop (?c, ne_Note event) (sd_active s)\<rparr>"
  obtain q s1 w1 where q: "scheduler_send tx ''note_off'' ?c (ne_Note event) 0 (?s, w) = (q, s1, w1)" by (metis prod_cases3)
  obtain z s2 w2 where z: "sendMessage tx ''all_notes_off'' (message_of (AllNotesOff ?c)) (s1, w1) = (z, s2, w2)"
    by (metis prod_cases3)
  have "sd_recent s' = sd_recent s1 \<and> sd_maximumNotesPerSecond s' = sd_maximumNotesPerSecond s1 \<or>
      sd_recent s' = sd_recent s2 \<and> sd_maximumNotesPerSecond s' = sd_maximumNotesPerSecond s2"
    using assms q z by (cases q) (auto simp: silenceNote_def Let_def timer_Stop_def observeActive_def)
  then show ?thesis using scheduler_send_recent [OF q] sendMessage_recent [OF z] by (auto simp: timer_Stop_def)
qed

lemma startNote_recent:
  assumes "startNote tx now event (s, w) = (r, s', w')"
  shows "sd_recent s' = (if r = None then sd_recent s @ [now] else sd_recent s) \<and>
    sd_maximumNotesPerSecond s' = sd_maximumNotesPerSecond s"
proof -
  obtain q s1 w1 where q: "sendMessage tx ''note_on'' (message_of (NoteOn (ne_Channel event) (ne_Note event) (ne_Velocity event)))
      (s, w) = (q, s1, w1)" by (metis prod_cases3)
  show ?thesis
    using assms q sendMessage_recent [OF q]
    by (cases q) (auto simp: startNote_def Let_def AfterFunc_def observeActive_def)
qed

lemma Write_recent:
  assumes "Scheduler_Write tx c now event (s, w) = (r, s', w')"
  shows "sd_maximumNotesPerSecond s' = sd_maximumNotesPerSecond s \<and>
    (if r = None then sd_recent s' = dropWhile (\<lambda>t. \<not> t > now - second) (sd_recent s) @ [now] \<and>
        int (length (dropWhile (\<lambda>t. \<not> t > now - second) (sd_recent s))) < sd_maximumNotesPerSecond s
     else sd_recent s' = sd_recent s \<or> sd_recent s' = dropWhile (\<lambda>t. \<not> t > now - second) (sd_recent s))"
proof -
  have p: "sd_recent (pruneRateWindow now s) = dropWhile (\<lambda>t. \<not> t > now - second) (sd_recent s)"
    "sd_maximumNotesPerSecond (pruneRateWindow now s) = sd_maximumNotesPerSecond s"
    by (simp_all add: pruneRateWindow_def)
  show ?thesis
    using assms
  proof (cases rule: Write_cases)
    case (refused e t)
    then show ?thesis using quiet_fields(2,8) [OF refused(3)] p by auto
  next
    case fresh
    then show ?thesis using startNote_recent [OF fresh(6)] p by simp
  next
    case (silence_failed a e)
    then show ?thesis using silenceNote_recent [OF silence_failed(4)] p by simp
  next
    case (retrigger a s1 w1)
    then show ?thesis using silenceNote_recent [OF retrigger(6)] startNote_recent [OF retrigger(7)] p by simp
  qed
qed

lemma step_recent:
  "sched_step tx sw sw' \<Longrightarrow> sd_recent (fst sw') = sd_recent (fst sw) \<and>
     sd_maximumNotesPerSecond (fst sw') = sd_maximumNotesPerSecond (fst sw)"
proof (induction rule: sched_step.induct)
  case (step_panic sw fs sw')
  then show ?case using panicLocked_recent [of tx "fst sw" "snd sw" fs "fst sw'" "snd sw'"] by (simp add: Scheduler_Panic_def)
next
  case (step_close sw fs sw')
  then show ?case
    using panicLocked_recent [of tx "(fst sw)\<lparr>sd_closed := True\<rparr>" "snd sw" fs "fst sw'" "snd sw'"]
    by (auto simp: Scheduler_Close_def split: if_splits)
next
  case (step_run kg sw sw')
  let ?s = "(fst sw)\<lparr>ck_fired := remove1 kg (ck_fired (fst sw))\<rparr>"
  let ?s1 = "?s\<lparr>sd_active := fmdrop (fst kg) (sd_active ?s)\<rparr>"
  obtain q s1 w1 where q: "scheduler_send tx ''note_off'' (fst (fst kg)) (snd (fst kg)) 0 (?s1, snd sw) = (q, s1, w1)"
    by (metis prod_cases3)
  obtain z s2 w2 where z: "sendMessage tx ''all_notes_off'' (message_of (AllNotesOff (fst (fst kg)))) (s1, w1) = (z, s2, w2)"
    by (metis prod_cases3)
  have "fst sw' \<in> {fst sw, ?s} \<or> quiet (fst sw') \<in> {quiet s1, quiet s2}"
    using step_run q z
    by (cases q) (auto simp: callback_run_def Scheduler_stop_def Let_def split: option.splits if_splits)
  then show ?case
    using scheduler_send_recent [OF q] sendMessage_recent [OF z] quiet_fields(2,8) [of "fst sw'" s1]
      quiet_fields(2,8) [of "fst sw'" s2] by auto
qed (simp add: timer_fire_def split: option.splits)

definition rate_inv :: "nat \<Rightarrow> time \<Rightarrow> time list \<Rightarrow> time list \<Rightarrow> bool" where
  "rate_inv limit t played recent \<longleftrightarrow>
     sorted played \<and> (\<forall>x \<in> set played. x \<le> t) \<and>
     (\<exists>old. played = old @ recent \<and> (\<forall>x \<in> set old. x \<le> t - second)) \<and>
     (\<forall>i. i + limit < length played \<longrightarrow> played ! i + second \<le> played ! (i + limit))"

lemma rate_inv_prune:
  assumes "rate_inv limit t played recent" "t \<le> now"
  shows "rate_inv limit now played (dropWhile (\<lambda>t. \<not> t > now - second) recent)"
proof -
  obtain old where old: "played = old @ recent" "\<forall>x \<in> set old. x \<le> t - second"
    using assms(1) by (auto simp: rate_inv_def)
  let ?P = "\<lambda>t. \<not> t > now - second"
  have "played = (old @ takeWhile ?P recent) @ dropWhile ?P recent" using old(1) by simp
  moreover have "\<forall>x \<in> set (old @ takeWhile ?P recent). x \<le> now - second"
    using old(2) assms(2) by (auto dest: set_takeWhileD)
  ultimately have split: "\<exists>old. played = old @ dropWhile ?P recent \<and> (\<forall>x \<in> set old. x \<le> now - second)" by blast
  have "\<forall>x \<in> set played. x \<le> now" using assms by (auto simp: rate_inv_def)
  then show ?thesis using split assms(1) by (simp add: rate_inv_def)
qed

lemma rate_inv_play:
  assumes inv: "rate_inv limit now played recent" and len: "length recent < limit"
  shows "rate_inv limit now (played @ [now]) (recent @ [now])"
proof -
  obtain old where old: "played = old @ recent" "\<forall>x \<in> set old. x \<le> now - second"
    and s: "sorted played" "\<forall>x \<in> set played. x \<le> now"
    and gap: "\<And>i. i + limit < length played \<Longrightarrow> played ! i + second \<le> played ! (i + limit)"
    using inv by (auto simp: rate_inv_def)
  have "(played @ [now]) ! i + second \<le> (played @ [now]) ! (i + limit)" if i: "i + limit < length (played @ [now])" for i
  proof (cases "i + limit < length played")
    case True
    then show ?thesis using gap [OF True] by (simp add: nth_append)
  next
    case False
    then have e: "i + limit = length played" using i by simp
    then have "i < length old" using len old(1) by simp
    then have "played ! i \<in> set old" "i < length played" using old(1) by (simp_all add: nth_append)
    then have "played ! i \<le> now - second" using old(2) by blast
    then show ?thesis using e \<open>i < length played\<close> by (simp add: nth_append)
  qed
  moreover have "sorted (played @ [now])" using s by (simp add: sorted_append)
  moreover have "played @ [now] = old @ (recent @ [now])" using old(1) by simp
  ultimately show ?thesis using s(2) old(2) unfolding rate_inv_def by auto
qed

lemma rate_inv_later: "rate_inv limit t played recent \<Longrightarrow> t \<le> now \<Longrightarrow> rate_inv limit now played recent"
  unfolding rate_inv_def by fastforce

lemma run_rate:
  assumes "sched_run tx start t played sw" and "0 < sd_maximumNotesPerSecond (fst start)" "sd_recent (fst start) = []"
  shows "rate_inv (nat (sd_maximumNotesPerSecond (fst start))) t played (sd_recent (fst sw)) \<and>
    sd_maximumNotesPerSecond (fst sw) = sd_maximumNotesPerSecond (fst start)"
  using assms
proof (induction rule: sched_run.induct)
  case (run_write t played sw now c event r sw')
  let ?limit = "nat (sd_maximumNotesPerSecond (fst start))"
  have inv: "rate_inv ?limit t played (sd_recent (fst sw))"
    and same: "sd_maximumNotesPerSecond (fst sw) = sd_maximumNotesPerSecond (fst start)"
    using run_write by simp_all
  note w = Write_recent [of tx c now event "fst sw" "snd sw" r "fst sw'" "snd sw'"]
  show ?case
    using w run_write(3) same rate_inv_prune [OF inv run_write(2)] rate_inv_later [OF inv run_write(2)]
      rate_inv_play [OF rate_inv_prune [OF inv run_write(2)]]
    by (cases "r = None") auto
next
  case (run_step t played sw sw')
  then show ?case using step_recent [OF run_step(2)] by simp
qed (simp add: rate_inv_def)

section \<open>Properties\<close>

text \<open>A sender whose world is the set of sounding notes, for the applications of the properties.\<close>

definition perfectSender :: "noteKey set sender" where
  "perfectSender w m = (None, midi_apply m w)"

interpretation ps: reliable_sender perfectSender "\<lambda>w. w"
  by unfold_locales (simp_all add: perfectSender_def)

definition sampleNote :: NoteEvent where
  "sampleNote = \<lparr>ne_ID = ''edge:1'', ne_Origin = ''edge'', ne_Sequence = 1, ne_MappingVersion = FlowModeV1,
     ne_FlowID = ''f'', ne_Mode = 1, ne_Root = 2, ne_Note = 62, ne_Velocity = 90, ne_Duration = second,
     ne_Channel = 3, ne_CreatedAt = 5\<rparr>"

definition sampleScheduler :: Scheduler where
  "sampleScheduler = \<lparr>sd_maximumNotesPerSecond = 1, sd_maximumPolyphony = 4, sd_minimumRetriggerInterval = 10,
     sd_active = fmempty, sd_recent = [], sd_nextGeneration = 0, sd_closed = False, ck_armed = fmempty, ck_fired = [],
     ck_next = 0, sd_observed = []\<rparr>"

definition sampleSchedulerConfig :: SchedulerConfig where
  "sampleSchedulerConfig = \<lparr>cf_MaximumNotesPerSecond = 1, cf_MaximumPolyphony = 4, cf_MinimumRetriggerInterval = 10\<rparr>"

lemma sampleScheduler_new: "NewScheduler sampleSchedulerConfig = Inr sampleScheduler"
  by (simp add: NewScheduler_def sampleScheduler_def sampleSchedulerConfig_def)

lemma sampleNote_valid: "NoteEvent_Validate sampleNote = None" "NoteEvent_Validate (sampleNote\<lparr>ne_Note := 64\<rparr>) = None"
  by (simp_all add: NoteEvent_Validate_def sampleNote_def Mode_Valid_def modeCount_def second_def)

text \<open>An accepted write of a note that is not sounding, through that sender.\<close>

lemma perfect_write:
  assumes valid: "NoteEvent_Validate event = None" and "\<not> sd_closed s" and k: "k = (ne_Channel event, ne_Note event)"
    and "fmlookup (sd_active s) k = None" and "int (map_len (sd_active s)) < sd_maximumPolyphony s"
    and "recent = dropWhile (\<lambda>t. \<not> t > now - second) (sd_recent s)" and "int (length recent) < sd_maximumNotesPerSecond s"
  shows "\<exists>s'. Scheduler_Write perfectSender (Context None None) now event (s, w) = (None, s', insert k w) \<and>
    sd_active s' = fmupd k \<lparr>an_started = now, an_generation = sd_nextGeneration s + 1, an_timer = ck_next s\<rparr> (sd_active s) \<and>
    ck_armed s' = fmupd (ck_next s) (k, sd_nextGeneration s + 1) (ck_armed s) \<and> ck_fired s' = ck_fired s \<and>
    sd_recent s' = recent @ [now] \<and> sd_closed s' = sd_closed s \<and> sd_maximumPolyphony s' = sd_maximumPolyphony s \<and>
    sd_maximumNotesPerSecond s' = sd_maximumNotesPerSecond s"
proof -
  have v: "ne_Channel event \<in> set channels" "ne_Note event \<le> 127" "ne_Velocity event \<noteq> 0" "ne_Velocity event \<le> 127"
    using valid by (auto simp: NoteEvent_Validate_None set_channels)
  obtain m where m: "NoteOn (ne_Channel event) (ne_Note event) (ne_Velocity event) = Inr m" "\<And>notes. midi_apply m notes = insert k notes"
    using NoteOn_ok [OF v] k by blast
  show ?thesis
    using assms m
    by (simp add: Scheduler_Write_def startNote_def sendMessage_def perfectSender_def Let_def pruneRateWindow_def
        AfterFunc_def observeActive_def message_of_def)
qed

lemma sampleRun:
  "\<exists>s. sched_run perfectSender (sampleScheduler, {}) 100 [100] (s, {(3, 62)}) \<and>
     sd_active s = fmupd (3, 62) \<lparr>an_started = 100, an_generation = 1, an_timer = 0\<rparr> fmempty \<and> ck_fired s = [] \<and>
     sd_recent s = [100] \<and> \<not> sd_closed s \<and> sd_maximumPolyphony s = 4 \<and> sd_maximumNotesPerSecond s = 1"
proof -
  obtain s where s: "Scheduler_Write perfectSender (Context None None) 100 sampleNote (sampleScheduler, {}) = (None, s, {(3, 62)})"
    "sd_active s = fmupd (3, 62) \<lparr>an_started = 100, an_generation = 1, an_timer = 0\<rparr> fmempty" "ck_fired s = []"
    "sd_recent s = [100]" "\<not> sd_closed s" "sd_maximumPolyphony s = 4" "sd_maximumNotesPerSecond s = 1"
    using perfect_write [OF sampleNote_valid(1), of sampleScheduler "(3, 62)" "[]" 100 "{}"]
    by (auto simp: sampleScheduler_def sampleNote_def)
  have "sched_run perfectSender (sampleScheduler, {}) 0 [] (sampleScheduler, {})" by (rule run_start)
  from run_write [OF this _ s(1)] have "sched_run perfectSender (sampleScheduler, {}) 100 [100] (s, {(3, 62)})" by simp
  then show ?thesis using s by blast
qed

text \<open>
  C2. Bounded polyphony and no stuck notes, for every interleaving and a sender that may fail at any
  moment: after any run of writes, panics, closes, firing timers and running callbacks, at most the
  configured number of notes is active, each on a valid channel and note number, each still sounding
  on the synthesizer, and each with its own callback armed or about to run, so that its Note Off is
  never lost.
\<close>

theorem Scheduler_no_stuck_notes:
  assumes delivered: "\<And>w m w'. tx w m = (None, w') \<Longrightarrow> sounding w' = midi_apply m (sounding w)"
    and new: "NewScheduler c = Inr s0" and run: "sched_run tx (s0, w0) t played (s, w)"
  shows "int (map_len (sd_active s)) \<le> sd_maximumPolyphony s \<and> sd_maximumPolyphony s \<le> 128 \<and>
    fset (fmdom (sd_active s)) \<subseteq> sounding w \<and>
    (\<forall>k a. fmlookup (sd_active s) k = Some a \<longrightarrow>
       1 \<le> fst k \<and> fst k \<le> 16 \<and> snd k \<le> 127 \<and>
       (fmlookup (ck_armed s) (an_timer a) = Some (k, an_generation a) \<or> (k, an_generation a) \<in> set (ck_fired s)))"
proof -
  have loc: "midi_sender tx sounding" by unfold_locales (rule delivered)
  have "midi_sender.tracked sounding (s0, w0)"
    unfolding midi_sender.tracked_def [OF loc] using NewScheduler_inv [OF new] by simp
  then have "midi_sender.tracked sounding (s, w)" by (rule midi_sender.run_tracked [OF loc run])
  then have inv: "Scheduler_inv s" "fset (fmdom (sd_active s)) \<subseteq> sounding w"
    by (simp_all add: midi_sender.tracked_def [OF loc])
  have "1 \<le> fst k \<and> fst k \<le> 16 \<and> snd k \<le> 127 \<and>
      (fmlookup (ck_armed s) (an_timer a) = Some (k, an_generation a) \<or> (k, an_generation a) \<in> set (ck_fired s))"
    if "fmlookup (sd_active s) k = Some a" for k a
  proof -
    have cb: "callbacks_pending s" using inv(1) by (simp add: Scheduler_inv_def)
    have "fst k \<in> set channels \<and> snd k \<le> 127" using inv(1) fmdomI [OF that] unfolding Scheduler_inv_def by blast
    then show ?thesis using callbacks_pendingD(1) [OF cb that] unfolding pending_def set_channels by blast
  qed
  then show ?thesis using inv by (simp add: Scheduler_inv_def)
qed

theorem Scheduler_no_stuck_notes_witness:
  "\<exists>s. sched_run perfectSender (sampleScheduler, {}) 100 [100] (s, {(3, 62)}) \<and> fmlookup (ck_armed s) 0 = Some ((3, 62), 1)"
proof -
  obtain s where s: "sched_run perfectSender (sampleScheduler, {}) 100 [100] (s, {(3, 62)})"
    "sd_active s = fmupd (3, 62) \<lparr>an_started = 100, an_generation = 1, an_timer = 0\<rparr> fmempty" "ck_fired s = []"
    using sampleRun by blast
  let ?a = "\<lparr>an_started = 100, an_generation = 1, an_timer = 0\<rparr>"
  have "fmlookup (sd_active s) (3, 62) = Some ?a" by (simp add: s(2))
  moreover note Scheduler_no_stuck_notes [where sounding = "\<lambda>w. w", OF ps.delivered sampleScheduler_new s(1)]
  ultimately have "fmlookup (ck_armed s) (an_timer ?a) = Some ((3, 62), an_generation ?a) \<or>
      ((3, 62), an_generation ?a) \<in> set (ck_fired s)" by blast
  then show ?thesis using s(1,3) by auto
qed

text \<open>
  C19. While no send fails, the scheduler knows exactly what sounds: after any run the notes sounding on
  the synthesizer are the active notes, and a panic or a close silences it completely and reports no
  failure.
\<close>

theorem Scheduler_agrees_with_synthesizer:
  assumes delivered: "\<And>w m w'. tx w m = (None, w') \<Longrightarrow> sounding w' = midi_apply m (sounding w)"
    and reliable: "\<And>w m. fst (tx w m) = None"
    and new: "NewScheduler c = Inr s0" and silent: "sounding w0 = {}"
    and run: "sched_run tx (s0, w0) t played (s, w)"
    and panic: "Scheduler_Panic tx (s, w) = (fs, s', w')"
  shows "sounding w = fset (fmdom (sd_active s)) \<and> sounding w' = {} \<and> fs = [] \<and> sd_active s' = fmempty"
proof -
  have loc: "reliable_sender tx sounding" by unfold_locales (rule delivered, assumption, rule reliable)
  have "reliable_sender.exact sounding (s0, w0)"
    unfolding reliable_sender.exact_def [OF loc] using NewScheduler_inv [OF new] silent by simp
  then have "reliable_sender.exact sounding (s, w)" by (rule reliable_sender.run_exact [OF loc run])
  then have e: "sounding w = fset (fmdom (sd_active s))"
    and inv: "\<forall>k \<in> fset (fmdom (sd_active s)). fst k \<in> set channels \<and> snd k \<le> 127"
    by (simp_all add: reliable_sender.exact_def [OF loc] Scheduler_inv_def)
  show ?thesis
    using e reliable_sender.panicLocked_exact [OF loc e inv panic [unfolded Scheduler_Panic_def]] by simp
qed

theorem Scheduler_agrees_with_synthesizer_witness:
  "\<exists>s s'. sched_run perfectSender (sampleScheduler, {}) 100 [100] (s, {(3, 62)}) \<and>
     Scheduler_Panic perfectSender (s, {(3, 62)}) = ([], s', {})"
proof -
  obtain s where run: "sched_run perfectSender (sampleScheduler, {}) 100 [100] (s, {(3, 62)})" using sampleRun by blast
  obtain fs s' w' where p: "Scheduler_Panic perfectSender (s, {(3, 62)}) = (fs, s', w')" by (metis prod_cases3)
  from Scheduler_agrees_with_synthesizer [where sounding = "\<lambda>w. w", OF ps.delivered ps.reliable sampleScheduler_new refl run p]
  show ?thesis using run p by auto
qed

text \<open>
  C23. The rate limit holds over every window, not only over fixed seconds: when the clock does not run
  backwards, any note is played at least one second after the note played \<open>maximumNotesPerSecond\<close> notes
  before it, whatever happens in between.
\<close>

theorem Scheduler_rate_limit:
  assumes new: "NewScheduler c = Inr s0" and run: "sched_run tx (s0, w0) t played sw"
    and i: "i + nat (cf_MaximumNotesPerSecond c) < length played"
  shows "played ! i + second \<le> played ! (i + nat (cf_MaximumNotesPerSecond c))"
proof -
  have "sd_maximumNotesPerSecond s0 = cf_MaximumNotesPerSecond c" "0 < cf_MaximumNotesPerSecond c"
    using new by (auto simp: NewScheduler_def split: if_splits)
  then have "rate_inv (nat (cf_MaximumNotesPerSecond c)) t played (sd_recent (fst sw))"
    using run_rate [OF run] NewScheduler_inv [OF new] by simp
  then show ?thesis using i by (simp add: rate_inv_def)
qed

theorem Scheduler_rate_limit_witness:
  "\<exists>sw. sched_run perfectSender (sampleScheduler, {}) (200 + second) [100, 200 + second] sw \<and> 100 + second \<le> 200 + second"
proof -
  obtain s where s: "sched_run perfectSender (sampleScheduler, {}) 100 [100] (s, {(3, 62)})"
    "sd_active s = fmupd (3, 62) \<lparr>an_started = 100, an_generation = 1, an_timer = 0\<rparr> fmempty" "sd_recent s = [100]"
    "\<not> sd_closed s" "sd_maximumPolyphony s = 4" "sd_maximumNotesPerSecond s = 1"
    using sampleRun by blast
  obtain s' where "Scheduler_Write perfectSender (Context None None) (200 + second) (sampleNote\<lparr>ne_Note := 64\<rparr>) (s, {(3, 62)}) =
      (None, s', insert (3, 64) {(3, 62)})"
    using perfect_write [OF sampleNote_valid(2) s(4) refl, of "[]" "200 + second" "{(3, 62)}"] s
    by (auto simp: sampleNote_def second_def map_len_upd)
  from run_write [OF s(1) _ this]
  have run: "sched_run perfectSender (sampleScheduler, {}) (200 + second) [100, 200 + second] (s', {(3, 64), (3, 62)})"
    by (simp add: second_def)
  from Scheduler_rate_limit [OF sampleScheduler_new run, of 0]
  have "100 + second \<le> 200 + second" by (simp add: sampleSchedulerConfig_def)
  then show ?thesis using run by blast
qed

end
