(* ===== verification/Midi_Runtime.thy ===== *)
theory Midi_Runtime
  imports Scheduler
begin

text \<open>
  internal/midi/manager.go and runtime.go: the manager that discovers, opens and replaces one MIDI
  output, and the runtime that serializes it with the scheduler. The native driver is an argument, a
  record of the functions of Go's \<open>Driver\<close> and \<open>Output\<close> interfaces over a world of their own; an opened
  output is named by a number the manager has not used before, as each \<open>Open\<close> returns a new object.
  The operation gate makes a transition atomic with respect to notes, timers and controls.
\<close>

section \<open>The driver\<close>

record 'w Driver =
  drv_Devices :: "'w \<Rightarrow> (string + Device list) \<times> 'w"
  drv_Open :: "'w \<Rightarrow> nat \<Rightarrow> int \<Rightarrow> string option \<times> 'w"
  out_Send :: "'w \<Rightarrow> nat \<Rightarrow> bytes \<Rightarrow> string option \<times> 'w"
  out_Close :: "'w \<Rightarrow> nat \<Rightarrow> string option \<times> 'w"

section \<open>The manager (manager.go)\<close>

datatype manager_observation =
    DeviceState string
  | Reconnect string
  | DeviceError string

record ManagerConfig =
  mcf_ExactDeviceName :: string
  mcf_DeviceNamePattern :: string
  mcf_PollInterval :: duration

record Manager =
  mg_exactDeviceName :: string
  mg_deviceNamePattern :: string
  mg_pollInterval :: duration
  mg_output :: "nat option"
  mg_device :: Device
  mg_devices :: "Device list"
  mg_discoveryOK :: bool
  mg_stopped :: bool
  mg_nextOutput :: nat
  mg_observed :: "manager_observation list"

datatype manager_error =
    PollIntervalNotPositive
  | ManagerPattern string
  | ErrManagerStopped
  | ErrRuntimeClosed
  | RuntimeContextRequired
  | RuntimeContextDone string
  | DiscoverFailed string
  | SelectFailed midi_error
  | OpenFailed string
  | ResetFailed string "string option"
  | PanicFailed midi_error

definition noDevice :: Device where
  "noDevice = \<lparr>dv_Number = 0, dv_Name = []\<rparr>"

definition manager_observe :: "manager_observation \<Rightarrow> Manager \<Rightarrow> Manager" where
  "manager_observe e m = m\<lparr>mg_observed := mg_observed m @ [e]\<rparr>"

definition NewManager :: "(string \<Rightarrow> (string \<Rightarrow> bool) option) \<Rightarrow> ManagerConfig \<Rightarrow> manager_error + Manager" where
  "NewManager compile c =
     (if mcf_PollInterval c \<le> 0 then Inl PollIntervalNotPositive
      else if mcf_DeviceNamePattern c \<noteq> [] \<and> compile (mcf_DeviceNamePattern c) = None
      then Inl (ManagerPattern (mcf_DeviceNamePattern c))
      else Inr (manager_observe (DeviceState ''disconnected'')
        \<lparr>mg_exactDeviceName = mcf_ExactDeviceName c, mg_deviceNamePattern = mcf_DeviceNamePattern c,
         mg_pollInterval = mcf_PollInterval c, mg_output = None, mg_device = noDevice, mg_devices = [],
         mg_discoveryOK = False, mg_stopped = False, mg_nextOutput = 0, mg_observed = []\<rparr>))"

definition disconnectLocked :: "'w Driver \<Rightarrow> Manager \<times> 'w \<Rightarrow> Manager \<times> 'w" where
  "disconnectLocked drv mw =
     (case mg_output (fst mw) of
        None \<Rightarrow> mw
      | Some h \<Rightarrow>
        let (err, w) = out_Close drv (snd mw) h;
            m = (if err \<noteq> None then manager_observe (DeviceError ''close'') (fst mw) else fst mw)
        in (manager_observe (DeviceState ''disconnected'') (m\<lparr>mg_output := None, mg_device := noDevice\<rparr>), w))"

definition Manager_Send :: "'w Driver \<Rightarrow> (Manager \<times> 'w) sender" where
  "Manager_Send drv mw message =
     (case mg_output (fst mw) of
        None \<Rightarrow> (Some ErrOutputUnavailable, mw)
      | Some h \<Rightarrow>
        (case out_Send drv (snd mw) h message of
           (None, w) \<Rightarrow> (None, fst mw, w)
         | (Some e, w) \<Rightarrow>
             (Some (DeviceSend e), disconnectLocked drv (manager_observe (DeviceError ''send'') (fst mw), w))))"

definition Manager_Current :: "Manager \<Rightarrow> Device \<times> bool" where
  "Manager_Current m = (mg_device m, mg_output m \<noteq> None)"

record ManagerSnapshot =
  ms_Devices :: "Device list"
  ms_Current :: Device
  ms_Connected :: bool
  ms_DiscoveryOK :: bool

definition Manager_Snapshot :: "Manager \<Rightarrow> ManagerSnapshot" where
  "Manager_Snapshot m =
     \<lparr>ms_Devices = mg_devices m, ms_Current = mg_device m, ms_Connected = (mg_output m \<noteq> None),
      ms_DiscoveryOK = mg_discoveryOK m\<rparr>"

fun resetChannels :: "'w Driver \<Rightarrow> nat \<Rightarrow> u8 list \<Rightarrow> 'w \<Rightarrow> string option \<times> 'w" where
  "resetChannels drv h [] w = (None, w)"
| "resetChannels drv h (channel # rest) w =
     (case out_Send drv w h (message_of (AllNotesOff channel)) of
        (Some e, w') \<Rightarrow> (Some e, w')
      | (None, w') \<Rightarrow> resetChannels drv h rest w')"

definition resetOutput :: "'w Driver \<Rightarrow> nat \<Rightarrow> 'w \<Rightarrow> string option \<times> 'w" where
  "resetOutput drv h w = resetChannels drv h channels w"

definition replaceOutputCoordinated :: "'w Driver \<Rightarrow> nat option \<Rightarrow> Device \<Rightarrow> Manager \<times> 'w \<Rightarrow> Manager \<times> 'w" where
  "replaceOutputCoordinated drv output device mw =
     (let previous = mg_output (fst mw); m = (fst mw)\<lparr>mg_output := output, mg_device := device\<rparr> in
      case previous of
        None \<Rightarrow> (m, snd mw)
      | Some h \<Rightarrow>
        let (err, w) = out_Close drv (snd mw) h;
            m = (if err \<noteq> None then manager_observe (DeviceError ''close'') m else m);
            m = (if output = None then manager_observe (DeviceState ''disconnected'') m else m)
        in (m, w))"

section \<open>The runtime (runtime.go)\<close>

record 'w Runtime =
  rt_closed :: bool
  rt_state :: "Scheduler \<times> Manager \<times> 'w"

definition rt_manager :: "'w Runtime \<Rightarrow> Manager" where
  "rt_manager rt = fst (snd (rt_state rt))"

definition with_manager :: "('w Runtime) \<Rightarrow> Manager \<times> 'w \<Rightarrow> 'w Runtime" where
  "with_manager rt mw = rt\<lparr>rt_state := (fst (rt_state rt), mw)\<rparr>"

definition NewRuntime :: "Manager \<Rightarrow> Scheduler \<Rightarrow> 'w \<Rightarrow> 'w Runtime" where
  "NewRuntime manager scheduler w = \<lparr>rt_closed = False, rt_state = (scheduler, manager, w)\<rparr>"

definition Runtime_Write :: "'w Driver \<Rightarrow> ctx \<Rightarrow> time \<Rightarrow> NoteEvent \<Rightarrow> 'w Runtime \<Rightarrow> scheduler_error option \<times> 'w Runtime" where
  "Runtime_Write drv c now note rt =
     (let (r, st) = Scheduler_Write (Manager_Send drv) c now note (rt_state rt) in (r, rt\<lparr>rt_state := st\<rparr>))"

definition Runtime_Panic :: "'w Driver \<Rightarrow> ctx \<Rightarrow> 'w Runtime \<Rightarrow> manager_error list \<times> 'w Runtime" where
  "Runtime_Panic drv c rt =
     (case c of
        NilContext \<Rightarrow> ([RuntimeContextRequired], rt)
      | Context _ (Some e) \<Rightarrow> ([RuntimeContextDone e], rt)
      | Context _ None \<Rightarrow>
        if rt_closed rt then ([ErrRuntimeClosed], rt)
        else let (fs, st) = panicLocked (Manager_Send drv) (rt_state rt) in (map PanicFailed fs, rt\<lparr>rt_state := st\<rparr>))"

definition Runtime_Close :: "'w Driver \<Rightarrow> 'w Runtime \<Rightarrow> manager_error list \<times> 'w Runtime" where
  "Runtime_Close drv rt =
     (if rt_closed rt then ([], rt)
      else let (fs, st) = Scheduler_Close (Manager_Send drv) (rt_state rt)
           in (map PanicFailed fs, rt\<lparr>rt_closed := True, rt_state := st\<rparr>))"

definition transitionCoordinated ::
  "'w Driver \<Rightarrow> nat option \<Rightarrow> Device \<Rightarrow> 'w Runtime \<Rightarrow> manager_error list \<times> 'w Runtime" where
  "transitionCoordinated drv output device rt =
     (if rt_closed rt
      then (case output of
              None \<Rightarrow> ([ErrRuntimeClosed], rt)
            | Some h \<Rightarrow> ([ErrRuntimeClosed],
                        with_manager rt (rt_manager rt, snd (out_Close drv (snd (snd (rt_state rt))) h))))
      else let (fs, st) = (if mg_output (rt_manager rt) \<noteq> None then panicLocked (Manager_Send drv) (rt_state rt)
                           else ([], rt_state rt))
           in (map PanicFailed fs, rt\<lparr>rt_state := (fst st, replaceOutputCoordinated drv output device (snd st))\<rparr>))"

definition rt_observe :: "manager_observation \<Rightarrow> 'w Runtime \<Rightarrow> 'w Runtime" where
  "rt_observe e rt = with_manager rt (manager_observe e (rt_manager rt), snd (snd (rt_state rt)))"

text \<open>
  \<open>reconcileLocked\<close> from the point where a device is selected: keep the current output when it is that
  device, otherwise open it, silence it on every channel and hand it to the transition.
\<close>

definition openSelected :: "'w Driver \<Rightarrow> Device \<Rightarrow> 'w Runtime \<Rightarrow> manager_error list \<times> 'w Runtime" where
  "openSelected drv selected rt =
     (let (m, w) = snd (rt_state rt) in
      if mg_output m \<noteq> None \<and> mg_device m = selected then ([], rt)
      else let h = mg_nextOutput m; (err, w) = drv_Open drv w h (dv_Number selected);
               rt = with_manager rt (m\<lparr>mg_nextOutput := Suc h\<rparr>, w) in
        case err of
          Some e \<Rightarrow> ([OpenFailed e], rt_observe (Reconnect ''open_error'') (rt_observe (DeviceError ''open'') rt))
        | None \<Rightarrow>
          let (err, w) = resetOutput drv h w in
          case err of
            Some e \<Rightarrow>
              let rt = rt_observe (Reconnect ''reset_error'') (rt_observe (DeviceError ''reset'')
                         (with_manager rt (m\<lparr>mg_nextOutput := Suc h\<rparr>, w)));
                  (cerr, w) = out_Close drv w h
              in ([ResetFailed e cerr], with_manager rt (rt_manager rt, w))
          | None \<Rightarrow>
            let (errs, rt) = transitionCoordinated drv (Some h) selected (with_manager rt (m\<lparr>mg_nextOutput := Suc h\<rparr>, w)) in
            if errs \<noteq> []
            then (errs, rt_observe (Reconnect ''transition_error'')
                    (if snd (Manager_Current (rt_manager rt)) then rt_observe (DeviceState ''connected'') rt else rt))
            else ([], rt_observe (Reconnect ''success'') (rt_observe (DeviceState ''connected'') rt)))"

definition reconcileLocked ::
  "'w Driver \<Rightarrow> (string \<Rightarrow> (string \<Rightarrow> bool) option) \<Rightarrow> 'w Runtime \<Rightarrow> manager_error list \<times> 'w Runtime" where
  "reconcileLocked drv compile rt =
     (let (m, w) = snd (rt_state rt); (found, w) = drv_Devices drv w in
      case found of
        Inl e \<Rightarrow>
          ([DiscoverFailed e], rt_observe (Reconnect ''discovery_error'') (rt_observe (DeviceError ''discover'')
             (with_manager rt (m\<lparr>mg_discoveryOK := False\<rparr>, w))))
      | Inr devices \<Rightarrow>
        let rt = with_manager rt (m\<lparr>mg_devices := devices, mg_discoveryOK := True\<rparr>, w) in
        case SelectDevice compile devices (mg_exactDeviceName m) (mg_deviceNamePattern m) of
          Inl e \<Rightarrow>
            let (terrs, rt) = (if snd (Manager_Current (rt_manager rt)) then transitionCoordinated drv None noDevice rt
                               else ([], rt));
                rt = (if e \<noteq> ErrNoOutputDevices then rt_observe (DeviceError ''select'') rt else rt)
            in (SelectFailed e # terrs, rt_observe (Reconnect ''unavailable'') rt)
        | Inr selected \<Rightarrow> openSelected drv selected rt)"

definition reconcile ::
  "'w Driver \<Rightarrow> (string \<Rightarrow> (string \<Rightarrow> bool) option) \<Rightarrow> 'w Runtime \<Rightarrow> manager_error list \<times> 'w Runtime" where
  "reconcile drv compile rt =
     (if mg_stopped (rt_manager rt) then ([ErrManagerStopped], rt) else reconcileLocked drv compile rt)"

text \<open>The deferred end of \<open>Run\<close>: the manager stops and gives up its output without touching the scheduler.\<close>

definition Manager_finish :: "'w Driver \<Rightarrow> 'w Runtime \<Rightarrow> 'w Runtime" where
  "Manager_finish drv rt =
     (let (m, w) = snd (rt_state rt)
      in with_manager rt (replaceOutputCoordinated drv None noDevice (m\<lparr>mg_stopped := True\<rparr>, w)))"

section \<open>The manager as a sender\<close>

text \<open>
  What the development assumes of a driver: each opened output has a synthesizer of its own, a
  successful send reaches the one behind its output, and no call disturbs the others.
\<close>

locale midi_ports =
  fixes drv :: "'w Driver" and heard :: "'w \<Rightarrow> nat \<Rightarrow> noteKey set"
  assumes send_heard: "out_Send drv w h m = (None, w') \<Longrightarrow> heard w' h = midi_apply m (heard w h)"
    and send_other: "out_Send drv w h m = (r, w') \<Longrightarrow> h' \<noteq> h \<Longrightarrow> heard w' h' = heard w h'"
    and open_other: "drv_Open drv w h n = (e, w') \<Longrightarrow> h' \<noteq> h \<Longrightarrow> heard w' h' = heard w h'"
    and close_other: "out_Close drv w h = (e, w') \<Longrightarrow> h' \<noteq> h \<Longrightarrow> heard w' h' = heard w h'"
    and devices_heard: "drv_Devices drv w = (d, w') \<Longrightarrow> heard w' = heard w"

definition output_heard :: "('w \<Rightarrow> nat \<Rightarrow> noteKey set) \<Rightarrow> Manager \<times> 'w \<Rightarrow> noteKey set" where
  "output_heard heard mw = (case mg_output (fst mw) of None \<Rightarrow> {} | Some h \<Rightarrow> heard (snd mw) h)"

sublocale midi_ports \<subseteq> midi_sender "Manager_Send drv" "output_heard heard"
proof
  fix mw mw' and m :: bytes
  assume "Manager_Send drv mw m = (None, mw')"
  then obtain h w' where "mg_output (fst mw) = Some h" "out_Send drv (snd mw) h m = (None, w')" "mw' = (fst mw, w')"
    by (auto simp: Manager_Send_def split: option.splits prod.splits)
  then show "output_heard heard mw' = midi_apply m (output_heard heard mw)"
    using send_heard by (simp add: output_heard_def)
qed

section \<open>The scheduler touches the world only through its sender\<close>

text \<open>What every send keeps, every operation of the scheduler keeps.\<close>

lemma sendMessage_world:
  "sendMessage tx op m (s, w) = (r, s', w') \<Longrightarrow> (\<And>w m. P w \<Longrightarrow> P (snd (tx w m))) \<Longrightarrow> P w \<Longrightarrow> P w'"
  by (auto simp: sendMessage_def split: prod.splits option.splits) (metis snd_conv)+

lemma scheduler_send_world:
  "scheduler_send tx op c n v (s, w) = (r, s', w') \<Longrightarrow> (\<And>w m. P w \<Longrightarrow> P (snd (tx w m))) \<Longrightarrow> P w \<Longrightarrow> P w'"
  using sendMessage_world [where P = P and tx = tx and op = op and s = s and w = w and r = r and s' = s' and w' = w']
  by (auto simp: scheduler_send_def split: sum.splits)

lemma panicChannels_world:
  "panicChannels tx cs fs (s, w) = (fs', s', w') \<Longrightarrow> (\<And>w m. P w \<Longrightarrow> P (snd (tx w m))) \<Longrightarrow> P w \<Longrightarrow> P w'"
proof (induction cs arbitrary: fs s w)
  case (Cons c cs)
  obtain r s1 w1 where send: "sendMessage tx ''all_notes_off'' (message_of (AllNotesOff c)) (s, w) = (r, s1, w1)"
    by (metis prod_cases3)
  show ?case
    by (rule Cons.IH [OF _ Cons.prems(2) sendMessage_world [OF send Cons.prems(2,3)]])
      (use Cons.prems(1) send in auto)
qed simp

lemma panicLocked_world:
  "panicLocked tx (s, w) = (fs, s', w') \<Longrightarrow> (\<And>w m. P w \<Longrightarrow> P (snd (tx w m))) \<Longrightarrow> P w \<Longrightarrow> P w'"
  using panicChannels_world [where P = P and tx = tx] by (fastforce simp: panicLocked_def)

lemma startNote_world:
  "startNote tx now note (s, w) = (r, s', w') \<Longrightarrow> (\<And>w m. P w \<Longrightarrow> P (snd (tx w m))) \<Longrightarrow> P w \<Longrightarrow> P w'"
  by (auto simp: startNote_def Let_def AfterFunc_def split: prod.splits option.splits
      dest!: sendMessage_world [where P = P])

lemma silenceNote_world:
  "silenceNote tx note a (s, w) = (r, s', w') \<Longrightarrow> (\<And>w m. P w \<Longrightarrow> P (snd (tx w m))) \<Longrightarrow> P w \<Longrightarrow> P w'"
  by (auto simp: silenceNote_def Let_def split: prod.splits option.splits
      dest!: sendMessage_world [where P = P] scheduler_send_world [where P = P])

lemma Write_world:
  "Scheduler_Write tx c now note (s, w) = (r, s', w') \<Longrightarrow> (\<And>w m. P w \<Longrightarrow> P (snd (tx w m))) \<Longrightarrow> P w \<Longrightarrow> P w'"
proof (erule Write_cases)
  fix a s1 w1
  assume keep: "\<And>w m. P w \<Longrightarrow> P (snd (tx w m))" and "P w"
    and "silenceNote tx note a (pruneRateWindow now s, w) = (None, s1, w1)"
  from silenceNote_world [where P = P, OF this(3) keep \<open>P w\<close>] have "P w1" .
  assume "startNote tx now note (s1, w1) = (r, s', w')"
  from startNote_world [where P = P, OF this keep \<open>P w1\<close>] show "P w'" .
qed (auto dest: startNote_world [where P = P] silenceNote_world [where P = P])

lemma stop_world:
  "Scheduler_stop tx key g (s, w) = (s', w') \<Longrightarrow> (\<And>w m. P w \<Longrightarrow> P (snd (tx w m))) \<Longrightarrow> P w \<Longrightarrow> P w'"
  by (auto simp: Scheduler_stop_def Let_def split: prod.splits option.splits if_splits
      dest!: sendMessage_world [where P = P] scheduler_send_world [where P = P])

text \<open>Only \<open>Close\<close> closes the scheduler.\<close>

lemma stopTimers_closed [simp]: "sd_closed (stopTimers s) = sd_closed s"
  by (simp add: stopTimers_def)

lemma sendMessage_closed: "sendMessage tx op m (s, w) = (r, s', w') \<Longrightarrow> sd_closed s' = sd_closed s"
  by (auto simp: sendMessage_def clearActiveLocked_def fold_observe split: prod.splits option.splits)

lemma scheduler_send_closed: "scheduler_send tx op c n v (s, w) = (r, s', w') \<Longrightarrow> sd_closed s' = sd_closed s"
  by (auto simp: scheduler_send_def split: sum.splits dest: sendMessage_closed)

lemma panicChannels_closed: "panicChannels tx cs fs (s, w) = (fs', s', w') \<Longrightarrow> sd_closed s' = sd_closed s"
  by (induction cs arbitrary: fs s w) (auto split: prod.splits dest!: sendMessage_closed)

lemma panicLocked_closed: "panicLocked tx (s, w) = (fs, s', w') \<Longrightarrow> sd_closed s' = sd_closed s"
  by (auto simp: panicLocked_def dest: panicChannels_closed)

lemma startNote_closed: "startNote tx now note (s, w) = (r, s', w') \<Longrightarrow> sd_closed s' = sd_closed s"
  by (auto simp: startNote_def Let_def AfterFunc_def observeActive_def split: prod.splits option.splits
      dest!: sendMessage_closed)

lemma silenceNote_closed: "silenceNote tx note a (s, w) = (r, s', w') \<Longrightarrow> sd_closed s' = sd_closed s"
  by (auto simp: silenceNote_def Let_def timer_Stop_def observeActive_def split: prod.splits option.splits
      dest!: sendMessage_closed scheduler_send_closed)

lemma Write_closed: "Scheduler_Write tx c now note (s, w) = (r, s', w') \<Longrightarrow> sd_closed s' = sd_closed s"
  by (erule Write_cases)
    (auto simp: pruneRateWindow_def dest!: startNote_closed silenceNote_closed quiet_fields(3))

lemma stop_closed: "Scheduler_stop tx key g (s, w) = (s', w') \<Longrightarrow> sd_closed s' = sd_closed s"
  by (auto simp: Scheduler_stop_def Let_def observeActive_def split: prod.splits option.splits if_splits
      dest!: sendMessage_closed scheduler_send_closed)

section \<open>Interleavings\<close>

text \<open>
  The steps of the running system. A poll is not atomic: discovery, opening with the reset of the new
  output, and closing a rejected output happen outside the gate, between any other steps; only the
  transition holds it. \<open>app.go\<close> closes the runtime before it cancels the manager, so the final
  disconnect follows a close.
\<close>

inductive rt_step :: "'w Driver \<Rightarrow> 'w Runtime \<Rightarrow> 'w Runtime \<Rightarrow> bool" for drv where
  rt_write: "Runtime_Write drv c now event rt = (r, rt') \<Longrightarrow> rt_step drv rt rt'"
| rt_panic: "Runtime_Panic drv c rt = (fs, rt') \<Longrightarrow> rt_step drv rt rt'"
| rt_close: "Runtime_Close drv rt = (fs, rt') \<Longrightarrow> rt_step drv rt rt'"
| rt_fire: "rt_state rt = (s, mw) \<Longrightarrow> rt_step drv rt (rt\<lparr>rt_state := (timer_fire h s, mw)\<rparr>)"
| rt_callback: "callback_run (Manager_Send drv) kg (rt_state rt) = st \<Longrightarrow> rt_step drv rt (rt\<lparr>rt_state := st\<rparr>)"
| rt_discover: "rt_state rt = (s, m, w) \<Longrightarrow> drv_Devices drv w = (found, w') \<Longrightarrow>
     rt_step drv rt (with_manager rt (m\<lparr>mg_devices := ds, mg_discoveryOK := ok\<rparr>, w'))"
| rt_open: "rt_state rt = (s, m, w) \<Longrightarrow> drv_Open drv w (mg_nextOutput m) n = (err, w') \<Longrightarrow>
     rt_step drv rt (with_manager rt (m\<lparr>mg_nextOutput := Suc (mg_nextOutput m)\<rparr>, w'))"
| rt_reset: "rt_state rt = (s, m, w) \<Longrightarrow> mg_output m \<noteq> Some h \<Longrightarrow> out_Send drv w h message = (err, w') \<Longrightarrow>
     rt_step drv rt (with_manager rt (m, w'))"
| rt_discard: "rt_state rt = (s, m, w) \<Longrightarrow> mg_output m \<noteq> Some h \<Longrightarrow> out_Close drv w h = (err, w') \<Longrightarrow>
     rt_step drv rt (with_manager rt (m, w'))"
| rt_transition: "mg_output (rt_manager rt) \<noteq> output \<or> output = None \<Longrightarrow>
     (\<And>h. output = Some h \<Longrightarrow> h < mg_nextOutput (rt_manager rt)) \<Longrightarrow>
     transitionCoordinated drv output device rt = (errs, rt') \<Longrightarrow> rt_step drv rt rt'"
| rt_observe: "rt_step drv rt (rt_observe e rt)"
| rt_finish: "rt_closed rt \<Longrightarrow> rt_step drv rt (Manager_finish drv rt)"

text \<open>The part of the manager that sends and transitions respect: outputs are named below the next number.\<close>

definition manager_named :: "nat \<Rightarrow> nat option \<Rightarrow> Manager \<times> 'w \<Rightarrow> bool" where
  "manager_named n out mw \<longleftrightarrow> mg_nextOutput (fst mw) = n \<and> (mg_output (fst mw) = out \<or> mg_output (fst mw) = None)"

lemma Manager_Send_named: "manager_named n out mw \<Longrightarrow> manager_named n out (snd (Manager_Send drv mw m))"
  by (auto simp: manager_named_def Manager_Send_def disconnectLocked_def manager_observe_def Let_def
      split: option.splits prod.splits)

context midi_ports
begin

lemma manager_sender: "midi_sender (Manager_Send drv) (output_heard heard)"
  by unfold_locales

definition rt_inv :: "'w Runtime \<Rightarrow> bool" where
  "rt_inv rt \<longleftrightarrow> tracked (rt_state rt) \<and>
     (\<forall>h. mg_output (rt_manager rt) = Some h \<longrightarrow> h < mg_nextOutput (rt_manager rt)) \<and>
     sd_closed (fst (rt_state rt)) = rt_closed rt \<and> (rt_closed rt \<longrightarrow> sd_active (fst (rt_state rt)) = fmempty)"

text \<open>A step of the scheduler through the manager: the outputs keep their names.\<close>

lemma rt_inv_scheduler:
  assumes "rt_inv rt" and "tracked (s', mw')"
    and "\<And>n out. manager_named n out (snd (rt_state rt)) \<Longrightarrow> manager_named n out mw'"
    and "sd_closed s' = c \<and> (c \<longrightarrow> sd_active s' = fmempty)"
  shows "rt_inv (rt\<lparr>rt_closed := c, rt_state := (s', mw')\<rparr>)"
  using assms(1,2,4) assms(3) [of "mg_nextOutput (rt_manager rt)" "mg_output (rt_manager rt)"]
  by (auto simp: rt_inv_def rt_manager_def manager_named_def)

text \<open>A change of the world that the current output does not notice.\<close>

lemma rt_inv_world:
  assumes "rt_inv rt" and "rt_state rt = (s, m, w)" and "mg_output m' = mg_output m"
    and "mg_nextOutput m \<le> mg_nextOutput m'" and "\<And>h. mg_output m = Some h \<Longrightarrow> heard w' h = heard w h"
  shows "rt_inv (with_manager rt (m', w'))"
  using assms
  by (fastforce simp: rt_inv_def rt_manager_def with_manager_def tracked_def output_heard_def split: option.splits)

lemma rt_inv_observe: "rt_inv rt \<Longrightarrow> rt_inv (rt_observe e rt)"
  unfolding rt_observe_def by (rule rt_inv_world) (auto simp: rt_manager_def manager_observe_def prod_eq_iff)

lemma rt_inv_replace:
  assumes "Scheduler_inv s" "sd_active s = fmempty" "\<And>h. output = Some h \<Longrightarrow> h < mg_nextOutput m"
    and "sd_closed s = rt_closed rt"
  shows "rt_inv (rt\<lparr>rt_state := (s, replaceOutputCoordinated drv output device (m, w))\<rparr>)"
  using assms
  by (auto simp: rt_inv_def rt_manager_def tracked_def replaceOutputCoordinated_def manager_observe_def Let_def
      split: option.splits prod.splits)

lemma rt_inv_transition:
  assumes inv: "rt_inv rt" and out: "mg_output (rt_manager rt) \<noteq> output \<or> output = None"
    and named: "\<And>h. output = Some h \<Longrightarrow> h < mg_nextOutput (rt_manager rt)"
    and t: "transitionCoordinated drv output device rt = (errs, rt')"
  shows "rt_inv rt'"
proof -
  obtain s m w where st: "rt_state rt = (s, m, w)" by (metis prod_cases3)
  have m: "rt_manager rt = m" by (simp add: rt_manager_def st)
  show ?thesis
  proof (cases "rt_closed rt")
    case True
    show ?thesis
    proof (cases "output")
      case None
      then show ?thesis using t True inv by (simp add: transitionCoordinated_def)
    next
      case (Some h)
      have "rt_inv (with_manager rt (m, snd (out_Close drv w h)))"
      proof (rule rt_inv_world [OF inv st])
        fix h' assume "mg_output m = Some h'"
        then have "h' \<noteq> h" using out Some m by auto
        then show "heard (snd (out_Close drv w h)) h' = heard w h'" using close_other [of w h _ _ h'] prod.collapse by metis
      qed simp_all
      then show ?thesis using t True Some by (simp add: transitionCoordinated_def st m)
    qed
  next
    case open_: False
    show ?thesis
    proof (cases "mg_output m")
      case None
      then have "sd_active s = fmempty" using inv fmdomI
        by (force simp: rt_inv_def tracked_def st output_heard_def intro!: fmap_ext dest: fmdomI)
      moreover have "rt' = rt\<lparr>rt_state := (s, replaceOutputCoordinated drv output device (m, w))\<rparr>"
        using t open_ None by (simp add: transitionCoordinated_def st m)
      ultimately show ?thesis using rt_inv_replace [of s "output" m rt] inv named m open_
        by (simp add: rt_inv_def tracked_def st)
    next
      case (Some h0)
      obtain fs s1 m1 w1 where p: "panicLocked (Manager_Send drv) (s, m, w) = (fs, s1, m1, w1)" by (metis prod_cases3)
      have "tracked (s1, m1, w1) \<and> sd_active s1 = fmempty"
        by (rule panicLocked_tracked [OF _ p]) (use inv in \<open>simp add: rt_inv_def tracked_def st\<close>)
      moreover have "manager_named (mg_nextOutput m) (mg_output m) (m1, w1)"
        by (rule panicLocked_world [where P = "manager_named (mg_nextOutput m) (mg_output m)", OF p Manager_Send_named])
          (simp_all add: manager_named_def)
      moreover have "rt' = rt\<lparr>rt_state := (s1, replaceOutputCoordinated drv output device (m1, w1))\<rparr>"
        using t open_ Some p by (auto simp: transitionCoordinated_def st m)
      moreover have "sd_closed s1 = rt_closed rt" using panicLocked_closed [OF p] inv by (simp add: rt_inv_def st)
      ultimately show ?thesis using rt_inv_replace [of s1 "output" m1 rt] named m
        by (simp add: manager_named_def tracked_def)
    qed
  qed
qed

lemma rt_inv_state:
  assumes "rt_inv rt" and "tracked (s', mw')"
    and "\<And>n out. manager_named n out (snd (rt_state rt)) \<Longrightarrow> manager_named n out mw'"
    and "sd_closed s' = rt_closed rt \<and> (rt_closed rt \<longrightarrow> sd_active s' = fmempty)"
  shows "rt_inv (rt\<lparr>rt_state := (s', mw')\<rparr>)"
  using rt_inv_scheduler [where c = "rt_closed rt", OF assms] by simp

lemma rt_inv_write:
  assumes inv: "rt_inv rt" and w: "Runtime_Write drv c now event rt = (r, rt')"
  shows "rt_inv rt'"
proof -
  obtain s mw where st: "rt_state rt = (s, mw)" by (cases "rt_state rt")
  obtain s' mw' where wr: "Scheduler_Write (Manager_Send drv) c now event (s, mw) = (r, s', mw')"
    and rt': "rt' = rt\<lparr>rt_state := (s', mw')\<rparr>"
    using w st by (auto simp: Runtime_Write_def split: prod.splits)
  have tr: "tracked (s, mw)" using inv by (simp add: rt_inv_def st)
  show ?thesis unfolding rt'
  proof (rule rt_inv_state [OF inv Write_tracked [OF tr wr]])
    fix n out assume "manager_named n out (snd (rt_state rt))"
    then show "manager_named n out mw'"
      using Write_world [where P = "manager_named n out", OF wr Manager_Send_named] by (simp add: st)
  next
    have "sd_closed s = rt_closed rt" "rt_closed rt \<longrightarrow> sd_active s = fmempty" using inv by (simp_all add: rt_inv_def st)
    with wr show "sd_closed s' = rt_closed rt \<and> (rt_closed rt \<longrightarrow> sd_active s' = fmempty)"
      using Write_closed [OF wr]
      by (cases rule: Write_cases) (auto simp: pruneRateWindow_def dest: quiet_fields(1))
  qed
qed

lemma rt_inv_panic:
  assumes inv: "rt_inv rt" and p: "panicLocked (Manager_Send drv) (s\<lparr>sd_closed := b\<rparr>, mw) = (fs, s', mw')"
    and st: "rt_state rt = (s, mw)"
  shows "rt_inv (rt\<lparr>rt_closed := b, rt_state := (s', mw')\<rparr>)"
proof -
  have "Scheduler_inv (s\<lparr>sd_closed := b\<rparr>)" using inv inv_recent(3) by (simp add: rt_inv_def st tracked_def)
  from panicLocked_tracked [OF this p] have t: "tracked (s', mw')" "sd_active s' = fmempty" by simp_all
  show ?thesis
  proof (rule rt_inv_scheduler [OF inv t(1)])
    fix n out assume "manager_named n out (snd (rt_state rt))"
    then show "manager_named n out mw'"
      using panicLocked_world [where P = "manager_named n out", OF p Manager_Send_named] by (simp add: st)
  next
    show "sd_closed s' = b \<and> (b \<longrightarrow> sd_active s' = fmempty)" using t(2) panicLocked_closed [OF p] by simp
  qed
qed

lemma rt_inv_callback:
  assumes inv: "rt_inv rt" and r: "callback_run (Manager_Send drv) kg (rt_state rt) = st'"
  shows "rt_inv (rt\<lparr>rt_state := st'\<rparr>)"
proof -
  obtain s mw where st: "rt_state rt = (s, mw)" by (cases "rt_state rt")
  obtain s' mw' where st': "st' = (s', mw')" by (cases st')
  have "tracked (s', mw')" using step_tracked [OF step_run [OF r]] inv by (simp add: rt_inv_def st')
  then show ?thesis unfolding st'
  proof (rule rt_inv_state [OF inv])
    fix n out assume "manager_named n out (snd (rt_state rt))"
    then show "manager_named n out mw'"
      using r stop_world [where P = "manager_named n out" and tx = "Manager_Send drv", OF _ Manager_Send_named]
      by (auto simp: callback_run_def st st' split: if_splits)
  next
    have "sd_closed s = rt_closed rt" "rt_closed rt \<longrightarrow> sd_active s = fmempty" using inv by (simp_all add: rt_inv_def st)
    moreover have "sd_closed s' = sd_closed s" using r by (auto simp: callback_run_def st st' split: if_splits dest: stop_closed)
    ultimately show "sd_closed s' = rt_closed rt \<and> (rt_closed rt \<longrightarrow> sd_active s' = fmempty)"
      using r by (auto simp: callback_run_def st st' Scheduler_stop_def split: if_splits)
  qed
qed

lemma rt_inv_fire:
  assumes inv: "rt_inv rt" and st: "rt_state rt = (s, mw)"
  shows "rt_inv (rt\<lparr>rt_state := (timer_fire h s, mw)\<rparr>)"
proof (rule rt_inv_state [OF inv])
  show "tracked (timer_fire h s, mw)"
    using step_tracked [OF step_fire] inv by (simp add: rt_inv_def st)
qed (use inv st in \<open>auto simp: rt_inv_def timer_fire_def split: option.splits\<close>)

lemma rt_inv_finish: "rt_inv rt \<Longrightarrow> rt_closed rt \<Longrightarrow> rt_inv (Manager_finish drv rt)"
  using rt_inv_replace [of "fst (rt_state rt)" None]
  by (cases "rt_state rt") (simp add: Manager_finish_def with_manager_def rt_inv_def tracked_def)

lemma rt_inv_step: "rt_step drv rt rt' \<Longrightarrow> rt_inv rt \<Longrightarrow> rt_inv rt'"
proof (induction rule: rt_step.induct)
  case (rt_panic c rt fs rt')
  obtain s mw where st: "rt_state rt = (s, mw)" by (cases "rt_state rt")
  have same: "sd_closed s = rt_closed rt" using rt_panic(2) by (simp add: rt_inv_def st)
  obtain fs1 s' mw' where p: "panicLocked (Manager_Send drv) (s, mw) = (fs1, s', mw')" by (metis prod_cases3)
  have "rt' = rt \<or> rt' = rt\<lparr>rt_state := (s', mw')\<rparr>"
    using rt_panic(1) p by (simp add: Runtime_Panic_def st split: ctx.splits option.splits if_splits)
  moreover have "rt_inv (rt\<lparr>rt_closed := rt_closed rt, rt_state := (s', mw')\<rparr>)"
    using rt_inv_panic [OF rt_panic(2) _ st, of "rt_closed rt"] p by (simp flip: same)
  ultimately show ?case using rt_panic(2) by auto
next
  case (rt_close rt fs rt')
  obtain s mw where st: "rt_state rt = (s, mw)" by (cases "rt_state rt")
  have same: "sd_closed s = rt_closed rt" using rt_close(2) by (simp add: rt_inv_def st)
  obtain fs1 s' mw' where p: "panicLocked (Manager_Send drv) (s\<lparr>sd_closed := True\<rparr>, mw) = (fs1, s', mw')"
    by (metis prod_cases3)
  have "rt' = rt \<or> rt' = rt\<lparr>rt_closed := True, rt_state := (s', mw')\<rparr>"
    using rt_close(1) p same by (simp add: Runtime_Close_def Scheduler_Close_def st split: if_splits)
  then show ?case using rt_inv_panic [OF rt_close(2) p st] rt_close(2) by auto
next
  case (rt_discover rt s m w found w' ds ok)
  then show ?case using rt_inv_world [OF rt_discover(3,1)] devices_heard [OF rt_discover(2)] by simp
next
  case (rt_open rt s m w n err w')
  have "h < mg_nextOutput m" if "mg_output m = Some h" for h
    using rt_open(3) that by (simp add: rt_inv_def rt_manager_def rt_open(1))
  then show ?case
    by (intro rt_inv_world [OF rt_open(3,1)] open_other [OF rt_open(2)]) (auto dest: less_not_refl2)
next
  case (rt_reset rt s m w h message err w')
  then show ?case by (intro rt_inv_world [OF rt_reset(4,1)] send_other [OF rt_reset(3)]) auto
next
  case (rt_discard rt s m w h err w')
  then show ?case by (intro rt_inv_world [OF rt_discard(4,1)] close_other [OF rt_discard(3)]) auto
next
  case (rt_transition rt "output" device errs rt')
  then show ?case using rt_inv_transition by metis
qed (auto intro: rt_inv_write rt_inv_fire rt_inv_callback rt_inv_observe rt_inv_finish)

lemma rt_inv_steps: "(rt_step drv)\<^sup>*\<^sup>* rt rt' \<Longrightarrow> rt_inv rt \<Longrightarrow> rt_inv rt'"
  by (induction rule: rtranclp_induct) (auto intro: rt_inv_step)

end

text \<open>A poll is a sequence of these steps, so whatever they keep it keeps.\<close>

lemma with_manager_simps [simp]:
  "rt_state (with_manager rt mw) = (fst (rt_state rt), mw)" "rt_manager (with_manager rt mw) = fst mw"
  "with_manager (with_manager rt mw') mw = with_manager rt mw"
  by (simp_all add: with_manager_def rt_manager_def)

lemma rt_manager_observe [simp]:
  "mg_output (rt_manager (rt_observe e rt)) = mg_output (rt_manager rt)"
  "mg_nextOutput (rt_manager (rt_observe e rt)) = mg_nextOutput (rt_manager rt)"
  by (simp_all add: rt_observe_def manager_observe_def)

lemma reset_steps:
  "resetChannels drv h cs w = (err, w') \<Longrightarrow> rt_state rt = (s, m, w) \<Longrightarrow> mg_output m \<noteq> Some h \<Longrightarrow>
     (rt_step drv)\<^sup>*\<^sup>* rt (with_manager rt (m, w'))"
proof (induction cs arbitrary: w rt)
  case Nil
  then have "with_manager rt (m, w') = rt" by (simp add: with_manager_def)
  then show ?case by simp
next
  case (Cons c cs)
  obtain r w1 where send: "out_Send drv w h (message_of (AllNotesOff c)) = (r, w1)" by force
  have step: "rt_step drv rt (with_manager rt (m, w1))" using rt_reset [OF Cons.prems(2,3) send] .
  show ?case
  proof (cases r)
    case None
    then show ?thesis
      using Cons.IH [of w1 "with_manager rt (m, w1)"] Cons.prems send converse_rtranclp_into_rtranclp [of "rt_step drv", OF step] by simp
  next
    case (Some e)
    then show ?thesis using Cons.prems send step by auto
  qed
qed

lemma observe_steps: "(rt_step drv)\<^sup>*\<^sup>* rt rt' \<Longrightarrow> (rt_step drv)\<^sup>*\<^sup>* rt (rt_observe e rt')"
  using rt_step.rt_observe [of drv rt' e] by (rule rtranclp.rtrancl_into_rtrancl [rotated])

lemma openSelected_steps:
  assumes named: "\<And>h. mg_output (rt_manager rt) = Some h \<Longrightarrow> h < mg_nextOutput (rt_manager rt)"
  shows "(rt_step drv)\<^sup>*\<^sup>* rt (snd (openSelected drv selected rt))"
proof -
  obtain s m w where st: "rt_state rt = (s, m, w)" by (metis prod_cases3)
  let ?h = "mg_nextOutput m" let ?m = "m\<lparr>mg_nextOutput := Suc ?h\<rparr>"
  have m: "rt_manager rt = m" by (simp add: rt_manager_def st)
  have fresh: "mg_output ?m \<noteq> Some ?h" using named m by auto
  show ?thesis
  proof (cases "mg_output m \<noteq> None \<and> mg_device m = selected")
    case True
    then show ?thesis by (simp add: openSelected_def st)
  next
    case new: False
    obtain err w1 where op: "drv_Open drv w ?h (dv_Number selected) = (err, w1)" by force
    have p1: "(rt_step drv)\<^sup>*\<^sup>* rt (with_manager rt (?m, w1))" using rt_open [OF st op] by blast
    obtain err2 w2 where rs: "resetOutput drv ?h w1 = (err2, w2)" by force
    let ?rt2 = "with_manager rt (?m, w2)"
    have "(rt_step drv)\<^sup>*\<^sup>* (with_manager rt (?m, w1)) ?rt2"
      using reset_steps [OF rs [unfolded resetOutput_def], of "with_manager rt (?m, w1)" s ?m] fresh by (simp add: st)
    with p1 have p2: "(rt_step drv)\<^sup>*\<^sup>* rt ?rt2" by simp
    show ?thesis
    proof (cases err)
      case (Some e)
      then show ?thesis using new op p1 by (simp add: openSelected_def st Let_def observe_steps)
    next
      case ok: None
      show ?thesis
      proof (cases err2)
        case (Some e)
        obtain cerr w3 where cl: "out_Close drv w2 ?h = (cerr, w3)" by force
        let ?rt = "rt_observe (Reconnect ''reset_error'') (rt_observe (DeviceError ''reset'') ?rt2)"
        have "rt_state ?rt = (s, rt_manager ?rt, w2)" "mg_output (rt_manager ?rt) \<noteq> Some ?h"
          using fresh by (simp_all add: rt_observe_def manager_observe_def st)
        from rt_discard [OF this cl] have "rt_step drv ?rt (with_manager ?rt (rt_manager ?rt, w3))" .
        moreover have "(rt_step drv)\<^sup>*\<^sup>* rt ?rt" using p2 by (simp add: observe_steps)
        ultimately show ?thesis using new op ok rs Some cl by (simp add: openSelected_def st Let_def)
      next
        case None
        obtain errs rt3 where tr: "transitionCoordinated drv (Some ?h) selected ?rt2 = (errs, rt3)" by force
        have "rt_step drv ?rt2 rt3"
          by (rule rt_transition [OF _ _ tr]) (use fresh in auto)
        with p2 have "(rt_step drv)\<^sup>*\<^sup>* rt rt3" by simp
        then show ?thesis using new op ok rs None tr by (simp add: openSelected_def st Let_def observe_steps)
      qed
    qed
  qed
qed

lemma reconcile_steps:
  assumes named: "\<And>h. mg_output (rt_manager rt) = Some h \<Longrightarrow> h < mg_nextOutput (rt_manager rt)"
  shows "(rt_step drv)\<^sup>*\<^sup>* rt (snd (reconcile drv compile rt))"
proof -
  obtain s m w where st: "rt_state rt = (s, m, w)" by (metis prod_cases3)
  have m: "rt_manager rt = m" by (simp add: rt_manager_def st)
  obtain found w1 where d: "drv_Devices drv w = (found, w1)" by force
  have p1: "(rt_step drv)\<^sup>*\<^sup>* rt (with_manager rt (m\<lparr>mg_devices := ds, mg_discoveryOK := ok\<rparr>, w1))" for ds ok
    using rt_discover [OF st d] by blast
  show ?thesis
  proof (cases found)
    case (Inl e)
    have "m\<lparr>mg_devices := mg_devices m, mg_discoveryOK := False\<rparr> = m\<lparr>mg_discoveryOK := False\<rparr>" by simp
    with p1 [where ds = "mg_devices m" and ok = False] show ?thesis
      using d Inl by (simp add: reconcile_def reconcileLocked_def st m observe_steps)
  next
    case (Inr devices)
    let ?rt = "with_manager rt (m\<lparr>mg_devices := devices, mg_discoveryOK := True\<rparr>, w1)"
    show ?thesis
    proof (cases "SelectDevice compile devices (mg_exactDeviceName m) (mg_deviceNamePattern m)")
      case (Inl e)
      obtain terrs rt2 where tr: "transitionCoordinated drv None noDevice ?rt = (terrs, rt2)" by force
      have "rt_step drv ?rt rt2" by (rule rt_transition [OF _ _ tr]) simp_all
      with p1 [where ds = devices and ok = True] have "(rt_step drv)\<^sup>*\<^sup>* rt rt2" by simp
      with p1 [where ds = devices and ok = True] show ?thesis
        using d Inr Inl tr by (simp add: reconcile_def reconcileLocked_def st m observe_steps Let_def)
    next
      case (Inr selected)
      have "(rt_step drv)\<^sup>*\<^sup>* ?rt (snd (openSelected drv selected ?rt))"
        by (rule openSelected_steps) (use named m in auto)
      with p1 have "(rt_step drv)\<^sup>*\<^sup>* rt (snd (openSelected drv selected ?rt))" by (rule rtranclp_trans)
      then show ?thesis using d Inr \<open>found = Inr devices\<close> by (simp add: reconcile_def reconcileLocked_def st m Let_def)
    qed
  qed
qed

section \<open>A change of device\<close>

lemma panicChannels_failures: "panicChannels tx cs fs sw = (fs', sw') \<Longrightarrow> \<exists>more. fs' = fs @ more"
proof (induction cs arbitrary: fs sw)
  case (Cons c cs)
  then show ?case by (fastforce split: prod.splits option.splits if_splits)
qed simp

context midi_ports
begin

lemma panicChannels_silences:
  "panicChannels (Manager_Send drv) cs fs (s, m, w) = ([], s', m', w') \<Longrightarrow> mg_output m = Some h \<Longrightarrow> set cs \<subseteq> set channels \<Longrightarrow>
     m' = m \<and> heard w' h = {k \<in> heard w h. fst k \<notin> set cs} \<and> (\<forall>h'. h' \<noteq> h \<longrightarrow> heard w' h' = heard w h')"
proof (induction cs arbitrary: fs s w)
  case (Cons c cs)
  obtain b where b: "AllNotesOff c = Inr b" "\<And>notes. midi_apply b notes = {k \<in> notes. fst k \<noteq> c}"
    using AllNotesOff_ok [of c] Cons.prems(3) by auto
  obtain r w1 where send: "out_Send drv w h b = (r, w1)" by force
  have tx: "Manager_Send drv (m, w) b = (case r of None \<Rightarrow> (None, m, w1)
      | Some e \<Rightarrow> (Some (DeviceSend e), disconnectLocked drv (manager_observe (DeviceError ''send'') m, w1)))"
    using send Cons.prems(2) by (simp add: Manager_Send_def split: option.splits)
  show ?case
  proof (cases r)
    case None
    then have "panicChannels (Manager_Send drv) cs fs
        (observe (ObsActive c 0 0) (observe (ObsWrite ''all_notes_off'' ''success'') s), m, w1) = ([], s', m', w')"
      using Cons.prems(1) tx b(1) by (simp add: sendMessage_def message_of_def)
    from Cons.IH [OF this Cons.prems(2)] Cons.prems(3) None send send_heard [of w h b w1] send_other [OF send] b(2)
    show ?thesis by auto
  next
    case (Some e)
    then obtain sw fs1 where "panicChannels (Manager_Send drv) cs (fs @ [fs1]) sw = ([], s', m', w')"
      using Cons.prems(1) tx b(1) by (auto simp: sendMessage_def message_of_def split: prod.splits)
    from panicChannels_failures [OF this] show ?thesis by simp
  qed
qed simp

lemma resetChannels_silences:
  "resetChannels drv h cs w = (None, w') \<Longrightarrow> set cs \<subseteq> set channels \<Longrightarrow>
     heard w' h = {k \<in> heard w h. fst k \<notin> set cs} \<and> (\<forall>h'. h' \<noteq> h \<longrightarrow> heard w' h' = heard w h')"
proof (induction cs arbitrary: w)
  case (Cons c cs)
  obtain b where b: "AllNotesOff c = Inr b" "\<And>notes. midi_apply b notes = {k \<in> notes. fst k \<noteq> c}"
    using AllNotesOff_ok [of c] Cons.prems(2) by auto
  obtain w1 where send: "out_Send drv w h b = (None, w1)" and rest: "resetChannels drv h cs w1 = (None, w')"
    using Cons.prems(1) b(1) by (auto simp: message_of_def split: prod.splits option.splits)
  from Cons.IH [OF rest] Cons.prems(2) send_heard [OF send] send_other [OF send] b(2) show ?case by auto
qed simp

lemma transition_silences:
  assumes inv: "rt_inv rt" and st: "rt_state rt = (s, m, w)" and new: "mg_output m \<noteq> Some h"
    and t: "transitionCoordinated drv (Some h) device rt = ([], rt')"
  shows "mg_output (rt_manager rt') = Some h" "mg_device (rt_manager rt') = device"
    and "sd_active (fst (rt_state rt')) = fmempty" "heard (snd (snd (rt_state rt'))) h = heard w h"
    and "mg_output m = Some old \<Longrightarrow>
      \<exists>w1. (\<forall>k \<in> heard w1 old. fst k \<notin> set channels) \<and> snd (snd (rt_state rt')) = snd (out_Close drv w1 old)"
proof -
  have m: "rt_manager rt = m" by (simp add: rt_manager_def st)
  have open_: "\<not> rt_closed rt" using t by (auto simp: transitionCoordinated_def)
  have "mg_output (rt_manager rt') = Some h \<and> mg_device (rt_manager rt') = device \<and>
      sd_active (fst (rt_state rt')) = fmempty \<and> heard (snd (snd (rt_state rt'))) h = heard w h \<and>
      (mg_output m = Some old \<longrightarrow>
         (\<exists>w1. (\<forall>k \<in> heard w1 old. fst k \<notin> set channels) \<and> snd (snd (rt_state rt')) = snd (out_Close drv w1 old)))"
  proof (cases "mg_output m")
    case None
    then have "sd_active s = fmempty" using inv fmdomI
      by (force simp: rt_inv_def tracked_def st output_heard_def intro!: fmap_ext dest: fmdomI)
    then show ?thesis using t open_ None by (auto simp: transitionCoordinated_def st m replaceOutputCoordinated_def rt_manager_def)
  next
    case (Some h0)
    obtain fs s1 m1 w1 where p: "panicLocked (Manager_Send drv) (s, m, w) = (fs, s1, m1, w1)" by (metis prod_cases3)
    have fs: "fs = []" using t open_ Some p by (auto simp: transitionCoordinated_def st m)
    have active: "sd_active s1 = fmempty"
      using panicLocked_tracked [OF _ p] inv by (simp add: rt_inv_def tracked_def st)
    have sil: "m1 = m" "heard w1 h0 = {k \<in> heard w h0. fst k \<notin> set channels}" "heard w1 h = heard w h"
      using panicChannels_silences [OF p [unfolded panicLocked_def fs fst_conv snd_conv] Some subset_refl] new Some by auto
    obtain e w2 where cl: "out_Close drv w1 h0 = (e, w2)" by force
    have "rt' = rt\<lparr>rt_state := (s1, replaceOutputCoordinated drv (Some h) device (m, w1))\<rparr>"
      using t open_ Some p sil(1) by (auto simp: transitionCoordinated_def st m)
    then show ?thesis
      using active sil cl close_other [OF cl, of h] new Some
      by (auto simp: rt_manager_def replaceOutputCoordinated_def manager_observe_def Let_def)
  qed
  then show "mg_output (rt_manager rt') = Some h" "mg_device (rt_manager rt') = device"
    "sd_active (fst (rt_state rt')) = fmempty" "heard (snd (snd (rt_state rt'))) h = heard w h"
    "mg_output m = Some old \<Longrightarrow>
      \<exists>w1. (\<forall>k \<in> heard w1 old. fst k \<notin> set channels) \<and> snd (snd (rt_state rt')) = snd (out_Close drv w1 old)"
    by simp_all
qed

lemma openSelected_switches:
  assumes inv: "rt_inv rt" and other: "mg_output (rt_manager rt) = None \<or> mg_device (rt_manager rt) \<noteq> selected"
    and o: "openSelected drv selected rt = ([], rt')"
  shows "\<exists>h. mg_output (rt_manager rt') = Some h \<and> mg_device (rt_manager rt') = selected \<and>
      sd_active (fst (rt_state rt')) = fmempty \<and> (\<forall>k \<in> heard (snd (snd (rt_state rt'))) h. fst k \<notin> set channels) \<and>
      (\<forall>old. mg_output (rt_manager rt) = Some old \<longrightarrow>
         (\<exists>w1. (\<forall>k \<in> heard w1 old. fst k \<notin> set channels) \<and> snd (snd (rt_state rt')) = snd (out_Close drv w1 old)))"
proof -
  obtain s m w where st: "rt_state rt = (s, m, w)" by (metis prod_cases3)
  have m: "rt_manager rt = m" by (simp add: rt_manager_def st)
  let ?h = "mg_nextOutput m" let ?m = "m\<lparr>mg_nextOutput := Suc ?h\<rparr>"
  obtain err w1 where op: "drv_Open drv w ?h (dv_Number selected) = (err, w1)" by force
  obtain err2 w2 where rs: "resetOutput drv ?h w1 = (err2, w2)" by force
  let ?rt = "with_manager rt (?m, w2)"
  obtain errs rt3 where tr: "transitionCoordinated drv (Some ?h) selected ?rt = (errs, rt3)" by force
  have ok: "err = None" "err2 = None" "errs = []"
    and rt': "rt' = rt_observe (Reconnect ''success'') (rt_observe (DeviceState ''connected'') rt3)"
    using o other op rs tr by (auto simp: openSelected_def st m Let_def split: option.splits if_splits prod.splits)
  have new: "mg_output m \<noteq> Some h" if "?h \<le> h" for h using inv that by (auto simp: rt_inv_def m)
  have heard2: "heard w2 ?h = {k \<in> heard w1 ?h. fst k \<notin> set channels}" "\<And>h. h \<noteq> ?h \<Longrightarrow> heard w2 h = heard w h"
    using resetChannels_silences [OF _ subset_refl] rs ok(2) open_other [OF op] by (auto simp: resetOutput_def)
  have inv2: "rt_inv ?rt" by (rule rt_inv_world [OF inv st]) (use heard2(2) new in auto)
  have st2: "rt_state ?rt = (s, ?m, w2)" by (simp add: st)
  note t = transition_silences [OF inv2 st2 _ tr [unfolded ok(3)]]
  have "fst (rt_state rt') = fst (rt_state rt3)" "snd (snd (rt_state rt')) = snd (snd (rt_state rt3))"
    "mg_output (rt_manager rt') = mg_output (rt_manager rt3)" "mg_device (rt_manager rt') = mg_device (rt_manager rt3)"
    by (simp_all add: rt' rt_observe_def manager_observe_def)
  then show ?thesis using t new heard2(1) by (auto simp: m)
qed

end

section \<open>A driver that plays\<close>

text \<open>A driver over synthesizers that only listen: it satisfies the laws, so the properties are not vacuous.\<close>

definition soundDriver :: "Device list \<Rightarrow> (nat \<Rightarrow> noteKey set) Driver" where
  "soundDriver ds = \<lparr>drv_Devices = (\<lambda>w. (Inr ds, w)), drv_Open = (\<lambda>w h n. (None, w(h := {}))),
     out_Send = (\<lambda>w h m. (None, w(h := midi_apply m (w h)))), out_Close = (\<lambda>w h. (None, w))\<rparr>"

interpretation sound: midi_ports "soundDriver ds" "\<lambda>w. w"
  by unfold_locales (auto simp: soundDriver_def)

definition sampleManagerConfig :: ManagerConfig where
  "sampleManagerConfig = \<lparr>mcf_ExactDeviceName = ''Synth'', mcf_DeviceNamePattern = [], mcf_PollInterval = second\<rparr>"

definition sampleSchedulerConfig :: SchedulerConfig where
  "sampleSchedulerConfig = \<lparr>cf_MaximumNotesPerSecond = 20, cf_MaximumPolyphony = 4, cf_MinimumRetriggerInterval = 10\<rparr>"

definition synth :: Device where
  "synth = \<lparr>dv_Number = 3, dv_Name = ''Synth''\<rparr>"

lemma sample_managers:
  "\<exists>m s. NewManager (\<lambda>_. None) sampleManagerConfig = Inr m \<and> NewScheduler sampleSchedulerConfig = Inr s \<and>
     mg_output m = None \<and> mg_nextOutput m = 0 \<and> sd_closed s = False \<and> sd_active s = fmempty"
  by (simp add: NewManager_def NewScheduler_def sampleManagerConfig_def sampleSchedulerConfig_def second_def manager_observe_def)

lemma NewManager_frame: "NewManager compile c = Inr m \<Longrightarrow> mg_output m = None \<and> mg_nextOutput m = 0 \<and> \<not> mg_stopped m"
  by (auto simp: NewManager_def manager_observe_def split: if_splits)

lemma midi_ports_NewRuntime:
  assumes "midi_ports drv heard" and "NewManager compile mc = Inr m0" and "NewScheduler sc = Inr s0"
  shows "midi_ports.rt_inv heard (NewRuntime m0 s0 w0)"
  using NewManager_frame [OF assms(2)] NewScheduler_inv [OF assms(3)] assms(3)
  by (auto simp: midi_ports.rt_inv_def [OF assms(1)] midi_sender.tracked_def [OF midi_ports.manager_sender [OF assms(1)]]
      NewRuntime_def rt_manager_def NewScheduler_def split: if_splits)

lemma sound_reset: "fst (resetChannels (soundDriver ds) h cs w) = None"
  by (induction cs arbitrary: w) (simp_all add: soundDriver_def)

lemma sound_open:
  assumes "rt_state rt = (s, m, w)" "mg_output m = None" "\<not> rt_closed rt"
  shows "fst (openSelected (soundDriver ds) selected rt) = []"
proof -
  obtain w1 where o: "drv_Open (soundDriver ds) w (mg_nextOutput m) (dv_Number selected) = (None, w1)"
    by (simp add: soundDriver_def)
  obtain w2 where "resetOutput (soundDriver ds) (mg_nextOutput m) w1 = (None, w2)"
    using sound_reset by (metis prod.collapse resetOutput_def)
  then show ?thesis using assms o
    by (simp add: openSelected_def Let_def transitionCoordinated_def with_manager_def rt_manager_def)
qed

lemma transition_closed: "transitionCoordinated drv out d rt = (errs, rt') \<Longrightarrow> rt_closed rt' = rt_closed rt"
  by (auto simp: transitionCoordinated_def with_manager_def split: if_splits option.splits prod.splits)

lemma closed_with_manager [simp]: "rt_closed (with_manager rt mw) = rt_closed rt" "rt_closed (rt_observe e rt) = rt_closed rt"
  by (simp_all add: with_manager_def rt_observe_def)

lemma reconcile_closed: "rt_closed (snd (reconcile drv compile rt)) = rt_closed rt"
  by (auto simp: reconcile_def reconcileLocked_def openSelected_def Let_def dest!: transition_closed
      split: prod.splits sum.splits option.splits if_splits)

section \<open>Properties\<close>

text \<open>
  C7. Notes never outlive their output, for every driver and every interleaving of note writes, operator
  panics, timer callbacks, shutdown and the pieces of a device poll: each active note sounds on the
  output that is open now, no note is active while there is none, at most the configured number is
  active, a closed runtime has no active note, and one more poll keeps all of this.
\<close>

theorem Runtime_notes_follow_output:
  assumes ports: "midi_ports drv heard" and manager: "NewManager compile mc = Inr m0" and scheduler: "NewScheduler sc = Inr s0"
    and run: "(rt_step drv)\<^sup>*\<^sup>* (NewRuntime m0 s0 w0) rt" and poll: "rt' = rt \<or> rt' = snd (reconcile drv compile rt)"
  shows "fset (fmdom (sd_active (fst (rt_state rt')))) \<subseteq> output_heard heard (snd (rt_state rt')) \<and>
    (mg_output (rt_manager rt') = None \<longrightarrow> sd_active (fst (rt_state rt')) = fmempty) \<and>
    int (map_len (sd_active (fst (rt_state rt')))) \<le> sd_maximumPolyphony (fst (rt_state rt')) \<and>
    sd_closed (fst (rt_state rt')) = rt_closed rt' \<and> (rt_closed rt' \<longrightarrow> sd_active (fst (rt_state rt')) = fmempty)"
proof -
  have "midi_ports.rt_inv heard rt"
    by (rule midi_ports.rt_inv_steps [OF ports run midi_ports_NewRuntime [OF ports manager scheduler]])
  moreover from this have "(rt_step drv)\<^sup>*\<^sup>* rt rt'"
    using poll reconcile_steps [of rt drv compile] by (auto simp: midi_ports.rt_inv_def [OF ports])
  ultimately have inv: "midi_ports.rt_inv heard rt'" by (metis midi_ports.rt_inv_steps [OF ports])
  have sub: "fset (fmdom (sd_active (fst (rt_state rt')))) \<subseteq> output_heard heard (snd (rt_state rt'))"
    and sch: "Scheduler_inv (fst (rt_state rt'))"
    using inv midi_sender.tracked_def [OF midi_ports.manager_sender [OF ports]] by (auto simp: midi_ports.rt_inv_def [OF ports])
  have "sd_active (fst (rt_state rt')) = fmempty" if "mg_output (rt_manager rt') = None"
    using sub that by (force simp: output_heard_def rt_manager_def intro!: fmap_ext dest: fmdomI)
  then show ?thesis
    using sub sch inv by (simp add: midi_ports.rt_inv_def [OF ports] Scheduler_inv_def)
qed

theorem Runtime_notes_follow_output_witness:
  "\<exists>rt. (rt_step (soundDriver [synth]))\<^sup>*\<^sup>* (NewRuntime (sum.projr (NewManager (\<lambda>_. None) sampleManagerConfig))
      (sum.projr (NewScheduler sampleSchedulerConfig)) (\<lambda>_. {(3, 60)})) rt \<and>
     sd_active (fst (rt_state (snd (reconcile (soundDriver [synth]) (\<lambda>_. None) rt)))) = fmempty"
proof -
  obtain m s where ms: "NewManager (\<lambda>_. None) sampleManagerConfig = Inr m" "NewScheduler sampleSchedulerConfig = Inr s"
    using sample_managers by blast
  obtain fs rt where c: "Runtime_Close (soundDriver [synth]) (NewRuntime m s (\<lambda>_. {(3, 60)})) = (fs, rt)" by force
  have run: "(rt_step (soundDriver [synth]))\<^sup>*\<^sup>* (NewRuntime m s (\<lambda>_. {(3, 60)})) rt" using rt_close [OF c] by blast
  have closed: "rt_closed rt" using c by (auto simp: Runtime_Close_def NewRuntime_def split: prod.splits)
  let ?rt' = "snd (reconcile (soundDriver [synth]) (\<lambda>_. None) rt)"
  have "rt_closed ?rt' = rt_closed rt" by (rule reconcile_closed)
  with Runtime_notes_follow_output [OF sound.midi_ports_axioms ms run disjI2 [OF refl]] closed
  show ?thesis using run ms by auto
qed

text \<open>
  A change of device is clean: when a poll opens another device and reports no error, that device is
  the current output, it was silenced on all sixteen channels before it was put into use and nothing has
  sounded on it since, no note is active, and the previous output was silenced on all sixteen channels
  before it was closed.
\<close>

theorem Runtime_device_switch:
  assumes ports: "midi_ports drv heard" and manager: "NewManager compile mc = Inr m0" and scheduler: "NewScheduler sc = Inr s0"
    and run: "(rt_step drv)\<^sup>*\<^sup>* (NewRuntime m0 s0 w0) rt"
    and other: "mg_output (rt_manager rt) = None \<or> mg_device (rt_manager rt) \<noteq> selected"
    and switch: "openSelected drv selected rt = ([], rt')"
  shows "\<exists>h. mg_output (rt_manager rt') = Some h \<and> mg_device (rt_manager rt') = selected \<and>
      sd_active (fst (rt_state rt')) = fmempty \<and> (\<forall>k \<in> heard (snd (snd (rt_state rt'))) h. fst k \<notin> set channels) \<and>
      (\<forall>old. mg_output (rt_manager rt) = Some old \<longrightarrow>
         (\<exists>w1. (\<forall>k \<in> heard w1 old. fst k \<notin> set channels) \<and> snd (snd (rt_state rt')) = snd (out_Close drv w1 old)))"
  by (rule midi_ports.openSelected_switches [OF ports _ other switch])
    (rule midi_ports.rt_inv_steps [OF ports run midi_ports_NewRuntime [OF ports manager scheduler]])

theorem Runtime_device_switch_witness:
  "\<exists>rt'. openSelected (soundDriver [synth]) synth (NewRuntime (sum.projr (NewManager (\<lambda>_. None) sampleManagerConfig))
      (sum.projr (NewScheduler sampleSchedulerConfig)) (\<lambda>_. {(3, 60)})) = ([], rt') \<and> mg_device (rt_manager rt') = synth"
proof -
  obtain m s where ms: "NewManager (\<lambda>_. None) sampleManagerConfig = Inr m" "NewScheduler sampleSchedulerConfig = Inr s"
    and out: "mg_output m = None" "mg_nextOutput m = 0"
    using sample_managers by blast
  have "fst (openSelected (soundDriver [synth]) synth (NewRuntime m s (\<lambda>_. {(3, 60)}))) = []"
    by (rule sound_open) (use out in \<open>simp_all add: NewRuntime_def\<close>)
  then obtain rt' where o: "openSelected (soundDriver [synth]) synth (NewRuntime m s (\<lambda>_. {(3, 60)})) = ([], rt')"
    by (metis prod.collapse)
  have "mg_output (rt_manager (NewRuntime m s (\<lambda>_. {(3, 60)}))) = None" by (simp add: NewRuntime_def rt_manager_def out)
  from Runtime_device_switch [OF sound.midi_ports_axioms ms rtranclp.rtrancl_refl disjI1 [OF this] o] o ms
  show ?thesis by auto
qed

end
