(* ===== verification/Midi_Process.thy ===== *)
theory Midi_Process
  imports Midi_Runtime
begin

text \<open>
  internal/midi/process.go, helper.go and rtmidi.go: the driver that runs RtMidi in processes of its own, because
  the library can end its process. One process serves one output: the client writes a frame with an operation, the
  helper calls the library and answers with a frame. The library (rtmididrv) is an argument, with a world of its
  own; so is the fate of each exchange, since a helper may die or be late at any moment. Between two exchanges
  the pipes are empty, which \<open>helper_answers\<close> shows, so they are not part of the state.
\<close>

section \<open>Frames (process.go)\<close>

definition opSend :: u8 where "opSend = 1"
definition opClose :: u8 where "opClose = 2"
definition statusOK :: u8 where "statusOK = 0"
definition statusError :: u8 where "statusError = 1"
definition maximumHelperFrame :: nat where "maximumHelperFrame = 2 ^ 20"

definition frameTooLong :: string where "frameTooLong = ''MIDI helper frame exceeds size limit''"

text \<open>What \<open>writeFrame\<close> puts into the pipe, unless it refuses the payload.\<close>

definition writeFrame :: "u8 \<Rightarrow> bytes \<Rightarrow> string + bytes" where
  "writeFrame kind payload =
     (if length payload > maximumHelperFrame then Inl frameTooLong else Inr (kind # be32 (of_nat (length payload)) @ payload))"

text \<open>\<open>binary.BigEndian.Uint32\<close> of four bytes.\<close>

definition uint32_of :: "bytes \<Rightarrow> nat" where
  "uint32_of bs = foldl (\<lambda>n b. 256 * n + unat b) 0 bs"

text \<open>A read finds a frame and what follows it, a length that is refused, or too few bytes.\<close>

datatype frame_read = Frame u8 bytes bytes | FrameTooLong | FrameShort

definition readFrame :: "bytes \<Rightarrow> frame_read" where
  "readFrame input =
     (if length input < 5 then FrameShort
      else let n = uint32_of (take 4 (tl input)); rest = drop 5 input in
           if n > maximumHelperFrame then FrameTooLong
           else if length rest < n then FrameShort
           else Frame (hd input) (take n rest) (drop n rest))"

section \<open>The library behind the helper (rtmidi.go)\<close>

text \<open>
  The functions of rtmididrv that are called. The process of an output is named by the number of that output; discovery
  has a process without an output.
\<close>

record 'w rtmididrv =
  rl_New :: "'w \<Rightarrow> string option \<times> 'w"
  rl_Outs :: "'w \<Rightarrow> (string + Device list) \<times> 'w"
  rl_PortOpen :: "'w \<Rightarrow> nat \<Rightarrow> int \<Rightarrow> string option \<times> 'w"
  rl_PortSend :: "'w \<Rightarrow> nat \<Rightarrow> bytes \<Rightarrow> string option \<times> 'w"
  rl_PortClose :: "'w \<Rightarrow> nat \<Rightarrow> string option \<times> 'w"
  rl_Close :: "'w \<Rightarrow> nat option \<Rightarrow> string option \<times> 'w"

record helper =
  hp_running :: bool
  hp_exit :: "string option"
  rt_driverClosed :: bool
  rt_outputClosed :: bool

definition prefixed :: "string \<Rightarrow> string option \<Rightarrow> string option" where
  "prefixed text err = map_option (\<lambda>e. text @ e) err"

definition newNativeDriver :: "'w rtmididrv \<Rightarrow> 'w \<Rightarrow> string option \<times> 'w" where
  "newNativeDriver lib w = (case rl_New lib w of (err, w) \<Rightarrow> (prefixed ''create RtMidi driver: '' err, w))"

definition rtDriver_Devices :: "'w rtmididrv \<Rightarrow> helper \<Rightarrow> 'w \<Rightarrow> (string + Device list) \<times> 'w" where
  "rtDriver_Devices lib s w =
     (if rt_driverClosed s then (Inl ''MIDI driver is closed'', w)
      else case rl_Outs lib w of
        (Inl e, w) \<Rightarrow> (Inl (''list MIDI outputs: '' @ e), w)
      | (Inr ports, w) \<Rightarrow> (Inr ports, w))"

definition itoa :: "int \<Rightarrow> string" where
  "itoa n = (if n < 0 then ''-'' @ decimal (nat (- n)) else decimal (nat n))"

definition rtDriver_Open :: "'w rtmididrv \<Rightarrow> nat \<Rightarrow> int \<Rightarrow> helper \<Rightarrow> 'w \<Rightarrow> string option \<times> 'w" where
  "rtDriver_Open lib h number s w =
     (if rt_driverClosed s then (Some ''MIDI driver is closed'', w)
      else case rl_Outs lib w of
        (Inl e, w) \<Rightarrow> (Some (''list MIDI outputs: '' @ e), w)
      | (Inr ports, w) \<Rightarrow>
        (case find (\<lambda>port. dv_Number port = number) ports of
           None \<Rightarrow> (Some (''MIDI output number '' @ itoa number @ '' was not found''), w)
         | Some port \<Rightarrow>
           (case rl_PortOpen lib w h number of
              (err, w) \<Rightarrow> (prefixed (''open MIDI output '' @ itoa number @ '' ('' @ dv_Name port @ ''): '') err, w))))"

definition rtDriver_Close :: "'w rtmididrv \<Rightarrow> nat option \<Rightarrow> helper \<Rightarrow> 'w \<Rightarrow> string option \<times> helper \<times> 'w" where
  "rtDriver_Close lib process s w =
     (if rt_driverClosed s then (None, s, w)
      else case rl_Close lib w process of
        (err, w) \<Rightarrow> (prefixed ''close RtMidi driver: '' err, s\<lparr>rt_driverClosed := True\<rparr>, w))"

definition rtOutput_Send :: "'w rtmididrv \<Rightarrow> nat \<Rightarrow> bytes \<Rightarrow> helper \<Rightarrow> 'w \<Rightarrow> string option \<times> 'w" where
  "rtOutput_Send lib h message s w =
     (if rt_outputClosed s \<or> rt_driverClosed s then (Some ''MIDI output is closed'', w)
      else case rl_PortSend lib w h message of (err, w) \<Rightarrow> (prefixed ''send MIDI message: '' err, w))"

definition rtOutput_Close :: "'w rtmididrv \<Rightarrow> nat \<Rightarrow> helper \<Rightarrow> 'w \<Rightarrow> string option \<times> helper \<times> 'w" where
  "rtOutput_Close lib h s w =
     (if rt_outputClosed s then (None, s, w)
      else case rl_PortClose lib w h of
        (err, w) \<Rightarrow> (prefixed ''close MIDI output: '' err, s\<lparr>rt_outputClosed := True\<rparr>, w))"

section \<open>The helper (helper.go)\<close>

definition exitStatus1 :: "string option" where "exitStatus1 = Some ''exit status 1''"

text \<open>The frames of an answer; the pipe to the client is open as long as the helper lives.\<close>

definition answerFrame :: "string option \<Rightarrow> string + bytes" where
  "answerFrame err = (case err of None \<Rightarrow> writeFrame statusOK [] | Some e \<Rightarrow> writeFrame statusError (string_bytes e))"

text \<open>
  The process returns from \<open>helperOutput\<close>: the deferred calls close the output and the driver. The last value is what
  \<open>Wait\<close> answers in the client, nothing for the exit code 0.
\<close>

definition helperExit :: "'w rtmididrv \<Rightarrow> nat \<Rightarrow> string option \<Rightarrow> helper \<Rightarrow> 'w \<Rightarrow> helper \<times> 'w" where
  "helperExit lib h code s w =
     (case rtOutput_Close lib h s w of (_, s, w) \<Rightarrow>
      case rtDriver_Close lib (Some h) s w of (_, s, w) \<Rightarrow> (s\<lparr>hp_running := False, hp_exit := code\<rparr>, w))"

text \<open>One turn of the loop in \<open>helperOutput\<close>, from a request to the answer.\<close>

definition helperTurn :: "'w rtmididrv \<Rightarrow> nat \<Rightarrow> u8 \<Rightarrow> bytes \<Rightarrow> helper \<Rightarrow> 'w \<Rightarrow> bytes \<times> helper \<times> 'w" where
  "helperTurn lib h kind payload s w =
     (if kind = opClose then
        (case rtOutput_Close lib h s w of
           (err, s, w) \<Rightarrow> (case answerFrame err of Inl _ \<Rightarrow> [] | Inr frame \<Rightarrow> frame, helperExit lib h (if err = None then None else exitStatus1) s w))
      else
        let (err, w) = (if kind = opSend then rtOutput_Send lib h payload s w
                        else (Some (''unknown MIDI helper operation '' @ decimal (unat kind)), w))
        in case answerFrame err of
             Inl _ \<Rightarrow> ([], helperExit lib h exitStatus1 s w)
           | Inr frame \<Rightarrow> (frame, s, w))"

text \<open>The loop over what was written to the helper: it answers every complete frame and waits for the rest.\<close>

function helperOutput :: "'w rtmididrv \<Rightarrow> nat \<Rightarrow> bytes \<Rightarrow> helper \<Rightarrow> 'w \<Rightarrow> bytes \<times> bytes \<times> helper \<times> 'w" where
  "helperOutput lib h input s w =
     (if \<not> hp_running s then ([], input, s, w)
      else case readFrame input of
        FrameShort \<Rightarrow> ([], input, s, w)
      | FrameTooLong \<Rightarrow> (case helperExit lib h exitStatus1 s w of (s, w) \<Rightarrow> ([], input, s, w))
      | Frame kind payload rest \<Rightarrow>
        (case helperTurn lib h kind payload s w of (frame, s, w) \<Rightarrow>
         case helperOutput lib h rest s w of (frames, rest, s, w) \<Rightarrow> (frame @ frames, rest, s, w)))"
  by pat_completeness auto
termination
  by (relation "measure (\<lambda>(lib, h, input, s, w). length input)") (auto simp: readFrame_def Let_def split: if_splits)

declare helperOutput.simps [simp del]

text \<open>The start of a helper for an output: the first frame says whether the output is open.\<close>

definition helperStart :: "'w rtmididrv \<Rightarrow> nat \<Rightarrow> int \<Rightarrow> 'w \<Rightarrow> bytes \<times> helper \<times> 'w" where
  "helperStart lib h number w =
     (let s = \<lparr>hp_running = True, hp_exit = None, rt_driverClosed = False, rt_outputClosed = False\<rparr>;
          frame = (\<lambda>err. case answerFrame err of Inl _ \<Rightarrow> [] | Inr bs \<Rightarrow> bs)
      in case newNativeDriver lib w of
           (Some e, w) \<Rightarrow> (frame (Some e), s\<lparr>hp_running := False, hp_exit := exitStatus1\<rparr>, w)
         | (None, w) \<Rightarrow>
           (case rtDriver_Open lib h number s w of
              (Some e, w) \<Rightarrow>
                (case rtDriver_Close lib (Some h) s w of (_, s, w) \<Rightarrow> (frame (Some e), s\<lparr>hp_running := False, hp_exit := exitStatus1\<rparr>, w))
            | (None, w) \<Rightarrow> (frame None, s, w)))"

text \<open>The helper that lists devices: its exit code, what it wrote to its output or to its error stream.\<close>

definition helperDevices :: "(Device list \<Rightarrow> string + bytes) \<Rightarrow> 'w rtmididrv \<Rightarrow> 'w \<Rightarrow> nat \<times> bytes \<times> string \<times> 'w" where
  "helperDevices encode lib w =
     (let s = \<lparr>hp_running = True, hp_exit = None, rt_driverClosed = False, rt_outputClosed = False\<rparr> in
      case newNativeDriver lib w of
        (Some e, w) \<Rightarrow> (1, [], e, w)
      | (None, w) \<Rightarrow>
        (case rtDriver_Devices lib s w of
           (devices, w) \<Rightarrow>
           (case rtDriver_Close lib None s w of (_, _, w) \<Rightarrow>
              (case devices of
                 Inl e \<Rightarrow> (1, [], e, w)
               | Inr devices \<Rightarrow> (case encode devices of Inl e \<Rightarrow> (1, [], e, w) | Inr bs \<Rightarrow> (0, bs, [], w))))))"

text \<open>\<open>strconv.Atoi\<close>, and what the arguments of the process ask it to do.\<close>

definition atoi :: "string \<Rightarrow> int option" where
  "atoi s =
     (let (sign, digits) = (case s of c # t \<Rightarrow> if c = CHR ''-'' then (- 1, t) else if c = CHR ''+'' then (1, t) else (1, s) | [] \<Rightarrow> (1, []));
          n = sign * int (decimalValue digits)
      in if digits \<noteq> [] \<and> (\<forall>c \<in> set digits. 48 \<le> (of_char c :: nat) \<and> (of_char c :: nat) \<le> 57) \<and> int64 n then Some n else None)"

datatype helper_call = HelperDevices | HelperOutput int | HelperUsage string

definition RunHelper :: "string list \<Rightarrow> helper_call" where
  "RunHelper args =
     (case args of
        [] \<Rightarrow> HelperUsage ''MIDI helper command is required''
      | command # rest \<Rightarrow>
        if command = ''devices'' then HelperDevices
        else if command = ''output'' then
          (case rest of
             [number] \<Rightarrow> (case atoi number of None \<Rightarrow> HelperUsage ''MIDI helper output number is invalid'' | Some n \<Rightarrow> HelperOutput n)
           | _ \<Rightarrow> HelperUsage ''MIDI helper output number is required'')
        else HelperUsage ''unknown MIDI helper command'')"

section \<open>The client (process.go)\<close>

text \<open>The lines of what a helper complained about, up to three and none of a stack trace.\<close>

fun splitLines :: "string \<Rightarrow> string list" where
  "splitLines [] = [[]]"
| "splitLines (c # s) = (if c = CHR 10 then [] # splitLines s else (c # hd (splitLines s)) # tl (splitLines s))"

fun summaryLines :: "string list \<Rightarrow> string list \<Rightarrow> string list" where
  "summaryLines summary [] = summary"
| "summaryLines summary (raw # rest) =
     (let line = strings_TrimSpace raw in
      if line = [] then summaryLines summary rest
      else if hasPrefix line ''SIG'' \<or> hasPrefix line ''goroutine '' \<or> hasPrefix line ''PC='' then summary
      else let summary = summary @ [line] in if length summary = 3 then summary else summaryLines summary rest)"

fun joinTexts :: "string \<Rightarrow> string list \<Rightarrow> string" where
  "joinTexts separator [] = []"
| "joinTexts separator [s] = s"
| "joinTexts separator (s # ss) = s @ separator @ joinTexts separator ss"

definition summarizeStderr :: "string \<Rightarrow> string" where
  "summarizeStderr stderr = joinTexts ''; '' (summaryLines [] (splitLines stderr))"

definition helperFailure :: "string \<Rightarrow> string \<Rightarrow> string \<Rightarrow> string" where
  "helperFailure operation err stderr =
     (let stderr = summarizeStderr stderr in
      operation @ '': '' @ err @ (if stderr = [] then [] else '': '' @ stderr))"

text \<open>
  What becomes of an exchange: it is answered in time; or the answer is lost (the helper is late or died), and the
  helper may have acted or not; or the helper was gone before the request. The texts are those of the operating system.
\<close>

datatype fate = Answered | Lost string bool | Gone string

record 'w procWorld =
  pw_native :: 'w
  pw_helper :: "nat \<Rightarrow> helper"
  pw_closed :: "nat \<Rightarrow> bool"
  pw_fate :: "nat \<Rightarrow> fate"
  pw_turn :: nat
  pw_stderr :: "nat \<Rightarrow> string"
  pw_brokenPipe :: string
  pw_killed :: string

definition nextFate :: "'w procWorld \<Rightarrow> fate \<times> 'w procWorld" where
  "nextFate pw = (pw_fate pw (pw_turn pw), pw\<lparr>pw_turn := Suc (pw_turn pw)\<rparr>)"

definition setHelper :: "nat \<Rightarrow> helper \<times> 'w \<Rightarrow> 'w procWorld \<Rightarrow> 'w procWorld" where
  "setHelper h sw pw = pw\<lparr>pw_helper := (pw_helper pw)(h := fst sw), pw_native := snd sw\<rparr>"

definition ended :: "string option \<Rightarrow> nat \<Rightarrow> 'w procWorld \<Rightarrow> 'w procWorld" where
  "ended err h pw = setHelper h ((pw_helper pw h)\<lparr>hp_running := False, hp_exit := err\<rparr>, pw_native pw) pw"

definition setClosed :: "nat \<Rightarrow> bool \<Rightarrow> 'w procWorld \<Rightarrow> 'w procWorld" where
  "setClosed h flag pw = pw\<lparr>pw_closed := (pw_closed pw)(h := flag)\<rparr>"

text \<open>The end of a read: a frame, a refused one, or an end of file.\<close>

definition received :: "bytes \<Rightarrow> string + u8 \<times> bytes" where
  "received output =
     (case readFrame output of
        Frame kind payload _ \<Rightarrow> Inr (kind, payload)
      | FrameTooLong \<Rightarrow> Inl frameTooLong
      | FrameShort \<Rightarrow> Inl (if output = [] then ''EOF'' else ''unexpected EOF''))"

datatype exchanged = NotWritten string | NotRead string | Response u8 bytes

text \<open>\<open>writeFrame\<close> to the helper and \<open>readFrameWithTimeout\<close> from it. A write fails only when the helper has ended.\<close>

definition exchange :: "'w rtmididrv \<Rightarrow> nat \<Rightarrow> u8 \<Rightarrow> bytes \<Rightarrow> 'w procWorld \<Rightarrow> exchanged \<times> 'w procWorld" where
  "exchange lib h kind payload pw =
     (case writeFrame kind payload of
        Inl e \<Rightarrow> (NotWritten e, pw)
      | Inr request \<Rightarrow>
        if \<not> hp_running (pw_helper pw h) then (NotWritten (pw_brokenPipe pw), pw)
        else let (fate, pw) = nextFate pw; served = helperOutput lib h request (pw_helper pw h) (pw_native pw) in
        case fate of
          Gone e \<Rightarrow> (NotWritten (pw_brokenPipe pw), ended (Some e) h pw)
        | Lost e acted \<Rightarrow> (NotRead e, if acted then setHelper h (snd (snd served)) pw else pw)
        | Answered \<Rightarrow>
          (case received (fst served) of Inl e \<Rightarrow> NotRead e | Inr (status, response) \<Rightarrow> Response status response,
           setHelper h (snd (snd served)) pw))"

definition text_of :: "bytes \<Rightarrow> string" where
  "text_of bs = map (\<lambda>b. char_of (unat b)) bs"

definition terminate :: "nat \<Rightarrow> 'w procWorld \<Rightarrow> 'w procWorld" where
  "terminate h pw = setClosed h True (ended (Some (pw_killed pw)) h pw)"

definition processOutput_Send :: "'w rtmididrv \<Rightarrow> 'w procWorld \<Rightarrow> nat \<Rightarrow> bytes \<Rightarrow> string option \<times> 'w procWorld" where
  "processOutput_Send lib pw h message =
     (if pw_closed pw h then (Some ''MIDI output is closed'', pw)
      else case exchange lib h opSend message pw of
        (NotWritten e, pw) \<Rightarrow> (Some (''write MIDI helper request: '' @ e), pw)
      | (NotRead e, pw) \<Rightarrow> (Some (helperFailure ''read MIDI helper response'' e (pw_stderr pw h)), terminate h pw)
      | (Response status response, pw) \<Rightarrow> (if status \<noteq> statusOK then Some (text_of response) else None, pw))"

text \<open>\<open>waitWithTimeout\<close> after the input was closed, which a helper that still runs reads as its end.\<close>

definition waitWithTimeout :: "'w rtmididrv \<Rightarrow> nat \<Rightarrow> 'w procWorld \<Rightarrow> string option \<times> 'w procWorld" where
  "waitWithTimeout lib h pw =
     (if \<not> hp_running (pw_helper pw h) then (hp_exit (pw_helper pw h), pw)
      else case nextFate pw of
        (Lost _ _, pw) \<Rightarrow> (Some ''MIDI helper shutdown timed out'', ended (Some (pw_killed pw)) h pw)
      | (Gone e, pw) \<Rightarrow> (Some e, ended (Some e) h pw)
      | (Answered, pw) \<Rightarrow> (exitStatus1, setHelper h (helperExit lib h exitStatus1 (pw_helper pw h) (pw_native pw)) pw))"

definition joinErrors :: "string option list \<Rightarrow> string option" where
  "joinErrors errs = (case List.map_filter id errs of [] \<Rightarrow> None | texts \<Rightarrow> Some (joinTexts [CHR 10] texts))"

definition processOutput_Close :: "'w rtmididrv \<Rightarrow> 'w procWorld \<Rightarrow> nat \<Rightarrow> string option \<times> 'w procWorld" where
  "processOutput_Close lib pw h =
     (if pw_closed pw h then (None, pw)
      else let (result, pw) = exchange lib h opClose [] (setClosed h True pw);
               requestErr = (case result of NotWritten e \<Rightarrow> Some e | _ \<Rightarrow> None);
               responseErr = (case result of NotWritten _ \<Rightarrow> None | NotRead e \<Rightarrow> Some e
                 | Response status response \<Rightarrow> if status \<noteq> statusOK then Some (text_of response) else None);
               (waitErr, pw) = waitWithTimeout lib h pw
           in (map_option (\<lambda>e. helperFailure ''close MIDI helper'' e (pw_stderr pw h)) (joinErrors [requestErr, responseErr, waitErr]), pw))"

definition processDriver_Open :: "'w rtmididrv \<Rightarrow> 'w procWorld \<Rightarrow> nat \<Rightarrow> int \<Rightarrow> string option \<times> 'w procWorld" where
  "processDriver_Open lib pw h number =
     (let (fate, pw) = nextFate pw;
          failed = (\<lambda>e pw. (Some (helperFailure ''open MIDI output'' (joinTexts [CHR 10] [e, pw_killed pw]) (pw_stderr pw h)), terminate h pw)) in
      case fate of
        Gone e \<Rightarrow> (Some (''start MIDI helper: '' @ e), setClosed h True (ended (Some e) h pw))
      | Lost e acted \<Rightarrow> failed e (if acted then setHelper h (snd (helperStart lib h number (pw_native pw))) pw else pw)
      | Answered \<Rightarrow>
        (case helperStart lib h number (pw_native pw) of
           (output, sw) \<Rightarrow>
           (case received output of
              Inl e \<Rightarrow> failed e (setHelper h sw pw)
            | Inr (status, response) \<Rightarrow>
              if status \<noteq> statusOK then (Some (text_of response), setClosed h True (setHelper h sw pw))
              else (None, setClosed h False (setHelper h sw pw)))))"

record devices_codec =
  dc_Encode :: "Device list \<Rightarrow> string + bytes"
  dc_Unmarshal :: "bytes \<Rightarrow> string + Device list"

definition processDriver_Devices :: "devices_codec \<Rightarrow> 'w rtmididrv \<Rightarrow> 'w procWorld \<Rightarrow> (string + Device list) \<times> 'w procWorld" where
  "processDriver_Devices js lib pw =
     (let (fate, pw) = nextFate pw; failure = helperFailure ''enumerate MIDI devices''; (code, stdout, stderr, w) = helperDevices (dc_Encode js) lib (pw_native pw) in
      case fate of
        Gone e \<Rightarrow> (Inl (failure e []), pw)
      | Lost e acted \<Rightarrow> (Inl (failure e []), if acted then pw\<lparr>pw_native := w\<rparr> else pw)
      | Answered \<Rightarrow>
        (if code \<noteq> 0 then Inl (failure (''exit status '' @ decimal code) (stderr @ [CHR 10]))
         else case dc_Unmarshal js stdout of
           Inl e \<Rightarrow> Inl (''decode MIDI helper response: '' @ e)
         | Inr devices \<Rightarrow> Inr devices,
         pw\<lparr>pw_native := w\<rparr>))"

definition processDriver :: "devices_codec \<Rightarrow> 'w rtmididrv \<Rightarrow> 'w procWorld Driver" where
  "processDriver js lib =
     \<lparr>drv_Devices = processDriver_Devices js lib, drv_Open = processDriver_Open lib, out_Send = processOutput_Send lib,
      out_Close = processOutput_Close lib\<rparr>"

section \<open>Frames\<close>

lemma uint32_of_be32:
  assumes "n < 2 ^ 32"
  shows "uint32_of (be32 (of_nat n)) = n"
proof -
  have b: "unat (ucast (drop_bit k (of_nat n :: u32)) :: u8) = n div 2 ^ k mod 256" for k
    using assms by (simp add: unsigned_ucast_eq unsigned_drop_bit_eq unat_of_nat) (simp add: drop_bit_eq_div take_bit_eq_mod)
  have top: "n div 2 ^ 24 mod 256 = n div 2 ^ 24" using assms by (simp add: div_less_iff_less_mult)
  have step: "n div 2 ^ (k + 8) = n div 2 ^ k div 256" for k by (simp only: power_add div_mult2_eq) simp
  have horner: "256 * (n div 2 ^ (k + 8)) + n div 2 ^ k mod 256 = n div 2 ^ k" for k by (simp only: step mult_div_mod_eq)
  have low: "ucast (of_nat n :: u32) = (ucast (drop_bit 0 (of_nat n :: u32)) :: u8)" by simp
  show ?thesis
    unfolding uint32_of_def be32_def foldl_Cons foldl_Nil low b top
    using horner [of 16] horner [of 8] horner [of 0] by simp
qed

lemma readFrame_writeFrame: "writeFrame kind payload = Inr frame \<Longrightarrow> readFrame (frame @ rest) = Frame kind payload rest"
  using uint32_of_be32 [of "length payload"]
  by (auto simp: writeFrame_def readFrame_def maximumHelperFrame_def Let_def split: if_splits)

lemma text_of_string_bytes [simp]: "text_of (string_bytes s) = s"
proof -
  have "char_of (unat (of_char c :: u8)) = c" for c
  proof -
    have "unat (of_nat (of_char c) :: u8) = of_char c mod 256" by (simp only: unat_of_nat len_num0 len_num1 len_bit0) (simp del: of_char_mod_256)
    then show ?thesis by (simp add: of_nat_of_char)
  qed
  then show ?thesis by (simp add: text_of_def string_bytes_def comp_def)
qed

section \<open>One request, one answer\<close>

lemma answerFrame_received:
  assumes "answerFrame err = Inr frame"
  shows "received frame = Inr (case err of None \<Rightarrow> (statusOK, []) | Some e \<Rightarrow> (statusError, string_bytes e))"
  using assms readFrame_writeFrame [of statusOK "[]" frame "[]"] readFrame_writeFrame [of statusError _ frame "[]"]
  by (auto simp: answerFrame_def received_def split: option.splits)

lemma answerFrame_fits: "(case err of None \<Rightarrow> True | Some e \<Rightarrow> length e \<le> maximumHelperFrame) \<Longrightarrow> \<exists>frame. answerFrame err = Inr frame"
  by (auto simp: answerFrame_def writeFrame_def split: option.splits)

text \<open>The helper reads a request to its end and answers it with what one turn answers, so both pipes are empty afterwards.\<close>

lemma helper_answers:
  assumes "writeFrame kind payload = Inr request" and "hp_running s"
  shows "helperOutput lib h request s w = (case helperTurn lib h kind payload s w of (frame, s, w) \<Rightarrow> (frame, [], s, w))"
proof -
  have f: "readFrame request = Frame kind payload []" using readFrame_writeFrame [OF assms(1), of "[]"] by simp
  have e: "helperOutput lib h [] s' w' = ([], [], s', w')" for s' w' by (simp add: helperOutput.simps readFrame_def)
  show ?thesis unfolding helperOutput.simps [of lib h request] using assms(2) f by (simp add: e split: prod.split)
qed

lemma Response_status: "statusOK \<noteq> statusError" by (simp add: statusOK_def statusError_def)

section \<open>The process driver is a driver\<close>

text \<open>
  What is assumed of the library: a successful send reaches the synthesizer behind the port of its process, and no call of
  one process disturbs the port of another.
\<close>

locale rt_ports =
  fixes lib :: "'w rtmididrv" and js :: devices_codec and sounds :: "'w \<Rightarrow> nat \<Rightarrow> noteKey set"
  assumes new_sounds: "rl_New lib w = (e, w') \<Longrightarrow> sounds w' = sounds w"
    and outs_sounds: "rl_Outs lib w = (r, w') \<Longrightarrow> sounds w' = sounds w"
    and portOpen_other: "rl_PortOpen lib w h n = (e, w') \<Longrightarrow> h' \<noteq> h \<Longrightarrow> sounds w' h' = sounds w h'"
    and portSend_sounds: "rl_PortSend lib w h m = (None, w') \<Longrightarrow> sounds w' h = midi_apply m (sounds w h)"
    and portSend_other: "rl_PortSend lib w h m = (e, w') \<Longrightarrow> h' \<noteq> h \<Longrightarrow> sounds w' h' = sounds w h'"
    and portClose_other: "rl_PortClose lib w h = (e, w') \<Longrightarrow> h' \<noteq> h \<Longrightarrow> sounds w' h' = sounds w h'"
    and driverClose_other: "rl_Close lib w process = (e, w') \<Longrightarrow> process \<noteq> Some h' \<Longrightarrow> sounds w' h' = sounds w h'"
begin

lemma native_frame:
  "sounds (snd (rl_New lib w)) = sounds w" "sounds (snd (rl_Outs lib w)) = sounds w"
  "h' \<noteq> h \<Longrightarrow> sounds (snd (rl_PortOpen lib w h n)) h' = sounds w h'" "h' \<noteq> h \<Longrightarrow> sounds (snd (rl_PortSend lib w h m)) h' = sounds w h'"
  "h' \<noteq> h \<Longrightarrow> sounds (snd (rl_PortClose lib w h)) h' = sounds w h'" "process \<noteq> Some h' \<Longrightarrow> sounds (snd (rl_Close lib w process)) h' = sounds w h'"
  by (metis prod.collapse new_sounds, metis prod.collapse outs_sounds, metis prod.collapse portOpen_other, metis prod.collapse portSend_other,
    metis prod.collapse portClose_other, metis prod.collapse driverClose_other)

lemma rtmidi_frame:
  "h' \<noteq> h \<Longrightarrow> sounds (snd (rtOutput_Send lib h m s w)) h' = sounds w h'"
  "h' \<noteq> h \<Longrightarrow> sounds (snd (snd (rtOutput_Close lib h s w))) h' = sounds w h'"
  "process \<noteq> Some h' \<Longrightarrow> sounds (snd (snd (rtDriver_Close lib process s w))) h' = sounds w h'"
  "h' \<noteq> h \<Longrightarrow> sounds (snd (rtDriver_Open lib h n s w)) h' = sounds w h'"
  by (simp_all add: rtOutput_Send_def rtOutput_Close_def rtDriver_Close_def rtDriver_Open_def case_prod_unfold native_frame split: sum.split option.split)

lemma helper_frame:
  assumes "h' \<noteq> h"
  shows "sounds (snd (helperExit lib h err s w)) h' = sounds w h'"
    and "sounds (snd (snd (helperTurn lib h kind payload s w))) h' = sounds w h'"
    and "sounds (snd (snd (helperStart lib h n w))) h' = sounds w h'"
proof -
  show e: "sounds (snd (helperExit lib h err s w)) h' = sounds w h'" for err s w
    using assms by (simp add: helperExit_def case_prod_unfold rtmidi_frame)
  show "sounds (snd (snd (helperTurn lib h kind payload s w))) h' = sounds w h'"
    using assms by (simp add: helperTurn_def Let_def case_prod_unfold rtmidi_frame e split: sum.split)
  show "sounds (snd (snd (helperStart lib h n w))) h' = sounds w h'"
    using assms by (simp add: helperStart_def newNativeDriver_def Let_def case_prod_unfold rtmidi_frame native_frame split: option.split)
qed

lemma devices_frame: "sounds (snd (snd (snd (helperDevices encode lib w)))) = sounds w"
  by (rule ext) (simp add: helperDevices_def newNativeDriver_def rtDriver_Devices_def Let_def case_prod_unfold rtmidi_frame native_frame
    split: option.split sum.split)

text \<open>One exchange: other ports keep silent about it, and an accepted message has been played.\<close>

lemma exchange_frame:
  assumes "h' \<noteq> h"
  shows "sounds (pw_native (snd (exchange lib h kind payload pw))) h' = sounds (pw_native pw) h'"
proof (cases "writeFrame kind payload")
  case (Inr request)
  show ?thesis
  proof (cases "hp_running (pw_helper pw h)")
    case True
    show ?thesis
      using assms by (simp add: exchange_def Let_def Inr True nextFate_def helper_answers [OF Inr True] case_prod_unfold setHelper_def ended_def helper_frame split: fate.split)
  qed (simp add: exchange_def Inr)
qed (simp add: exchange_def)

lemma exchange_played:
  assumes "exchange lib h opSend message pw = (Response statusOK response, pw')"
  shows "sounds (pw_native pw') h = midi_apply message (sounds (pw_native pw) h)"
proof -
  obtain request where r: "writeFrame opSend message = Inr request" and run: "hp_running (pw_helper pw h)"
    and fate: "pw_fate pw (pw_turn pw) = Answered"
    using assms by (auto simp: exchange_def nextFate_def Let_def split: sum.splits if_splits fate.splits)
  obtain err w where n: "rtOutput_Send lib h message (pw_helper pw h) (pw_native pw) = (err, w)" by force
  have t: "helperTurn lib h opSend message (pw_helper pw h) (pw_native pw) =
      (case answerFrame err of Inl _ \<Rightarrow> ([], helperExit lib h exitStatus1 (pw_helper pw h) w) | Inr frame \<Rightarrow> (frame, pw_helper pw h, w))"
    by (simp add: helperTurn_def n opSend_def opClose_def)
  note x = assms [unfolded exchange_def r, simplified, simplified run nextFate_def fate, simplified, unfolded helper_answers [OF r run] t]
  show ?thesis
  proof (cases "answerFrame err")
    case (Inl e)
    then show ?thesis using x by (auto simp: received_def readFrame_def split: prod.splits)
  next
    case (Inr frame)
    then have "err = None" "w = pw_native pw'"
      using x answerFrame_received [OF Inr] Response_status by (auto simp: setHelper_def split: option.splits)
    then show ?thesis using n portSend_sounds by (auto simp: rtOutput_Send_def prefixed_def split: if_splits prod.splits)
  qed
qed

lemma native_set [simp]: "pw_native (terminate h pw) = pw_native pw" "pw_native (ended err h pw) = pw_native pw" "pw_native (setClosed h flag pw) = pw_native pw"
    "pw_native (setHelper h sw pw) = snd sw" "pw_native (snd (nextFate pw)) = pw_native pw"
  by (simp_all add: terminate_def ended_def setClosed_def setHelper_def nextFate_def)

lemma client_frame:
  assumes "h' \<noteq> h"
  shows "sounds (pw_native (snd (processOutput_Send lib pw h message))) h' = sounds (pw_native pw) h'"
    and "sounds (pw_native (snd (processOutput_Close lib pw h))) h' = sounds (pw_native pw) h'"
    and "sounds (pw_native (snd (processDriver_Open lib pw h n))) h' = sounds (pw_native pw) h'"
proof -
  have w: "sounds (pw_native (snd (waitWithTimeout lib h pw))) h' = sounds (pw_native pw) h'" for pw
    using assms by (simp add: waitWithTimeout_def case_prod_unfold helper_frame split: fate.split)
  show "sounds (pw_native (snd (processOutput_Send lib pw h message))) h' = sounds (pw_native pw) h'"
    using exchange_frame [OF assms] by (simp add: processOutput_Send_def case_prod_unfold split: exchanged.split)
  show "sounds (pw_native (snd (processOutput_Close lib pw h))) h' = sounds (pw_native pw) h'"
    using exchange_frame [OF assms] w by (simp add: processOutput_Close_def Let_def case_prod_unfold)
  show "sounds (pw_native (snd (processDriver_Open lib pw h n))) h' = sounds (pw_native pw) h'"
    using helper_frame(3) [OF assms] by (simp add: processDriver_Open_def Let_def case_prod_unfold split: fate.split sum.split)
qed

lemma client_devices: "sounds (pw_native (snd (processDriver_Devices js lib pw))) = sounds (pw_native pw)"
  by (simp add: processDriver_Devices_def Let_def case_prod_unfold devices_frame split: fate.split)

end

sublocale rt_ports \<subseteq> midi_ports "processDriver js lib" "\<lambda>pw. sounds (pw_native pw)"
proof
  show "sounds (pw_native pw') h = midi_apply m (sounds (pw_native pw) h)" if "out_Send (processDriver js lib) pw h m = (None, pw')" for pw pw' h m
    using that exchange_played by (auto simp: processDriver_def processOutput_Send_def split: if_splits prod.splits exchanged.splits)
qed (use client_frame client_devices in \<open>(simp add: processDriver_def, metis snd_conv)+\<close>)

context rt_ports
begin

lemma process_ports: "midi_ports (processDriver js lib) (\<lambda>pw. sounds (pw_native pw))"
  by (rule midi_ports_axioms)

end

text \<open>A library over synthesizers that only listen; its only port is the sample device.\<close>

definition soundLibrary :: "(nat \<Rightarrow> noteKey set) rtmididrv" where
  "soundLibrary = \<lparr>rl_New = (\<lambda>w. (None, w)), rl_Outs = (\<lambda>w. (Inr [synth], w)), rl_PortOpen = (\<lambda>w h n. (None, w(h := {}))),
     rl_PortSend = (\<lambda>w h m. (None, w(h := midi_apply m (w h)))), rl_PortClose = (\<lambda>w h. (None, w)), rl_Close = (\<lambda>w process. (None, w))\<rparr>"

interpretation soundlib: rt_ports soundLibrary js "\<lambda>w. w" for js
  by unfold_locales (auto simp: soundLibrary_def)

text \<open>The number that the client passes on the command line is the number the helper opens.\<close>

lemma helper_arguments: "int64 n \<Longrightarrow> RunHelper [''output'', itoa n] = HelperOutput n"
proof -
  assume n: "int64 n"
  have first: "hd (decimal k) \<noteq> CHR ''-'' \<and> hd (decimal k) \<noteq> CHR ''+''" for k using decimal_digits [of "hd (decimal k)" k] by auto
  have "atoi (itoa n) = Some n"
  proof (cases "n < 0")
    case True
    then show ?thesis using n decimal_digits by (auto simp: atoi_def itoa_def)
  next
    case False
    obtain c t where d: "decimal (nat n) = c # t" using decimal_nonempty [of "nat n"] by (cases "decimal (nat n)") auto
    have "decimalValue (c # t) = nat n" "\<forall>x \<in> set (c # t). 48 \<le> (of_char x :: nat) \<and> (of_char x :: nat) \<le> 57"
      unfolding d [symmetric] using decimal_digits by (auto simp: decimalValue_decimal)
    then show ?thesis using False n first [of "nat n"] by (simp add: atoi_def itoa_def d)
  qed
  then show ?thesis by (simp add: RunHelper_def)
qed

section \<open>Properties\<close>

text \<open>
  C36. While its helper answers in time, an output in a process of its own behaves as the native output in that
  process: a message reaches the library exactly once, the answer is the answer of the library with its text
  unchanged, and the output stays usable. When the answer is lost, the call fails, and whatever happens
  afterwards every further message is refused until the output is opened again, so no stale answer is taken for a later one.
\<close>

theorem Process_Send_refines:
  assumes "\<not> pw_closed pw h" and "hp_running (pw_helper pw h)" and "length message \<le> maximumHelperFrame"
    and native: "rtOutput_Send lib h message (pw_helper pw h) (pw_native pw) = (err, w)"
    and "case err of None \<Rightarrow> True | Some e \<Rightarrow> length e \<le> maximumHelperFrame"
  shows "case pw_fate pw (pw_turn pw) of
      Answered \<Rightarrow> processOutput_Send lib pw h message = (err, pw\<lparr>pw_native := w, pw_turn := Suc (pw_turn pw)\<rparr>)
    | Lost reason acted \<Rightarrow> \<exists>e pw'. processOutput_Send lib pw h message = (Some e, pw') \<and> pw_closed pw' h \<and> \<not> hp_running (pw_helper pw' h) \<and>
        pw_native pw' = (if acted then w else pw_native pw)
    | Gone reason \<Rightarrow> \<exists>e pw'. processOutput_Send lib pw h message = (Some e, pw') \<and> \<not> hp_running (pw_helper pw' h) \<and> pw_native pw' = pw_native pw"
proof -
  obtain request where r: "writeFrame opSend message = Inr request" using assms(3) by (simp add: writeFrame_def)
  obtain frame where f: "answerFrame err = Inr frame" using answerFrame_fits [OF assms(5)] by blast
  have served: "helperOutput lib h request (pw_helper pw h) (pw_native pw) = (frame, [], pw_helper pw h, w)"
    using helper_answers [OF r assms(2), of lib h "pw_native pw"] f native by (simp add: helperTurn_def opSend_def opClose_def)
  have x: "exchange lib h opSend message pw =
      (case pw_fate pw (pw_turn pw) of
         Gone e \<Rightarrow> (NotWritten (pw_brokenPipe pw), ended (Some e) h (pw\<lparr>pw_turn := Suc (pw_turn pw)\<rparr>))
       | Lost e acted \<Rightarrow> (NotRead e, pw\<lparr>pw_native := if acted then w else pw_native pw, pw_turn := Suc (pw_turn pw)\<rparr>)
       | Answered \<Rightarrow> (case err of None \<Rightarrow> Response statusOK [] | Some e \<Rightarrow> Response statusError (string_bytes e),
           pw\<lparr>pw_native := w, pw_turn := Suc (pw_turn pw)\<rparr>))"
    using assms(2) answerFrame_received [OF f]
    by (auto simp: exchange_def r nextFate_def served setHelper_def split: fate.split option.split)
  show ?thesis using assms(1) Response_status
    by (auto simp: processOutput_Send_def x terminate_def ended_def setHelper_def setClosed_def split: fate.split option.split)
qed

definition readyWorld :: "(nat \<Rightarrow> noteKey set) procWorld" where
  "readyWorld = \<lparr>pw_native = (\<lambda>_. {}), pw_helper = (\<lambda>_. \<lparr>hp_running = True, hp_exit = None, rt_driverClosed = False, rt_outputClosed = False\<rparr>),
     pw_closed = (\<lambda>_. False), pw_fate = (\<lambda>n. if n = 0 then Answered else Lost ''MIDI helper response timed out'' True), pw_turn = 0,
     pw_stderr = (\<lambda>_. []), pw_brokenPipe = ''broken pipe'', pw_killed = ''signal: killed''\<rparr>"

theorem Process_Send_refines_witness:
  "processOutput_Send soundLibrary readyWorld 0 [0x92, 60, 90] = (None, readyWorld\<lparr>pw_native := (\<lambda>_. {})(0 := {(3, 60)}), pw_turn := 1\<rparr>)"
proof -
  have "rtOutput_Send soundLibrary 0 [0x92, 60, 90] (pw_helper readyWorld 0) (pw_native readyWorld) = (None, (\<lambda>_. {})(0 := {(3, 60)}))"
    by (simp add: rtOutput_Send_def readyWorld_def soundLibrary_def prefixed_def)
  from Process_Send_refines [OF _ _ _ this] show ?thesis by (simp add: readyWorld_def maximumHelperFrame_def)
qed



end
