(* ===== verification/Selector.thy ===== *)
theory Selector
  imports FlowKey
begin

text \<open>
  internal/flow/selector.go: ordered traffic rules in three tiers (safety, pinned, user), the temporary
  mute and solo overlay, and the evaluation of one packet against them. Rules are immutable once a
  selector is built; \<open>cloneRules\<close> copies the pointed-to predicates so that later changes by the caller
  are not seen, which a value model has for free. Go's \<open>*T\<close> predicates are options.
\<close>

section \<open>Data\<close>

type_synonym State = string

definition StateIgnore :: State where "StateIgnore = ''ignore''"
definition StateMonitor :: State where "StateMonitor = ''monitor''"
definition StatePlay :: State where "StatePlay = ''play''"

lemmas state_defs = StateIgnore_def StateMonitor_def StatePlay_def

record PortRange =
  por_Minimum :: u16
  por_Maximum :: u16

record SizeRange =
  sir_Minimum :: int
  sir_Maximum :: int

record Match =
  m_ExactFlowID :: string
  m_SourcePrefix :: "Prefix option"
  m_DestinationPrefix :: "Prefix option"
  m_Protocol :: Protocol
  m_SourcePorts :: "PortRange option"
  m_DestinationPorts :: "PortRange option"
  m_WireSize :: "SizeRange option"
  m_RequiredTCPFlags :: TCPFlags

record Action =
  ac_State :: State
  ac_Channel :: u8
  ac_Mode :: string
  ac_Root :: u8

record Rule =
  ru_ID :: string
  ru_Name :: string
  ru_Enabled :: bool
  ru_Match :: Match
  ru_Action :: Action

record Overlay =
  ov_Muted :: "string fset"
  ov_Soloed :: "string fset"

record Selection =
  sel_FlowID :: string
  sel_State :: State
  sel_Channel :: u8
  sel_Mode :: string
  sel_Root :: u8
  sel_RuleID :: string
  sel_Tier :: string

record SelectorConfig =
  sc_Seed :: string
  sc_Default :: Action
  sc_SafetyRules :: "Rule list"
  sc_PinnedRules :: "Rule list"
  sc_UserRules :: "Rule list"

record Selector =
  sl_seed :: string
  sl_defaultAction :: Action
  sl_safetyRules :: "Rule list"
  sl_pinnedRules :: "Rule list"
  sl_userRules :: "Rule list"

datatype rule_error =
    RuleIDRequired
  | ActionStateInvalid string
  | ActionChannelRange
  | RootWithoutMode
  | ModeNeedsPlay
  | ModeInvalid string
  | RootRange
  | SourcePrefixInvalid
  | DestinationPrefixInvalid
  | SourcePortsReversed
  | DestinationPortsReversed
  | WireSizeRange
  | RuleProtocolInvalid

datatype selector_error =
    SelectorSeedRequired
  | DefaultAction rule_error
  | DefaultChannelRange
  | GroupRule string nat rule_error
  | DuplicateRuleID string
  | SafetyMustIgnore string
  | PinnedNeedsFlow string

section \<open>Validation\<close>

definition validMusicalMode :: "string \<Rightarrow> bool" where
  "validMusicalMode mode \<longleftrightarrow>
     mode \<in> {''ionian'', ''dorian'', ''phrygian'', ''lydian'', ''mixolydian'', ''aeolian'', ''locrian''}"

definition validateAction :: "Action \<Rightarrow> rule_error option" where
  "validateAction action =
     (if ac_State action \<notin> {StateIgnore, StateMonitor, StatePlay} then Some (ActionStateInvalid (ac_State action))
      else if ac_Channel action > 16 then Some ActionChannelRange
      else if ac_Mode action = [] then (if ac_Root action \<noteq> 0 then Some RootWithoutMode else None)
      else if ac_State action \<noteq> StatePlay then Some ModeNeedsPlay
      else if \<not> validMusicalMode (ac_Mode action) then Some (ModeInvalid (ac_Mode action))
      else if ac_Root action > 11 then Some RootRange
      else None)"

definition reversed :: "PortRange option \<Rightarrow> bool" where
  "reversed ports = (case ports of None \<Rightarrow> False | Some r \<Rightarrow> por_Minimum r > por_Maximum r)"

definition validateRule :: "Rule \<Rightarrow> rule_error option" where
  "validateRule rule =
     (if ru_ID rule = [] then Some RuleIDRequired
      else case validateAction (ru_Action rule) of
        Some e \<Rightarrow> Some e
      | None \<Rightarrow>
        let m = ru_Match rule in
        if (case m_SourcePrefix m of None \<Rightarrow> False | Some p \<Rightarrow> \<not> Prefix_IsValid p) then Some SourcePrefixInvalid
        else if (case m_DestinationPrefix m of None \<Rightarrow> False | Some p \<Rightarrow> \<not> Prefix_IsValid p)
        then Some DestinationPrefixInvalid
        else if reversed (m_SourcePorts m) then Some SourcePortsReversed
        else if reversed (m_DestinationPorts m) then Some DestinationPortsReversed
        else if (case m_WireSize m of None \<Rightarrow> False
                 | Some w \<Rightarrow> sir_Minimum w < 0 \<or> sir_Minimum w > sir_Maximum w) then Some WireSizeRange
        else if m_Protocol m \<noteq> [] \<and> m_Protocol m \<notin> set protocols then Some RuleProtocolInvalid
        else None)"

text \<open>The loop over the rules of one group, which threads the set of identifiers seen so far.\<close>

fun validateGroup :: "string \<Rightarrow> nat \<Rightarrow> string fset \<Rightarrow> Rule list \<Rightarrow> selector_error + string fset" where
  "validateGroup name index seen [] = Inr seen"
| "validateGroup name index seen (rule # rules) =
     (case validateRule rule of
        Some e \<Rightarrow> Inl (GroupRule name index e)
      | None \<Rightarrow>
        if ru_ID rule |\<in>| seen then Inl (DuplicateRuleID (ru_ID rule))
        else if name = ''safety'' \<and> ac_State (ru_Action rule) \<noteq> StateIgnore then Inl (SafetyMustIgnore (ru_ID rule))
        else if name = ''pinned'' \<and> m_ExactFlowID (ru_Match rule) = [] then Inl (PinnedNeedsFlow (ru_ID rule))
        else validateGroup name (Suc index) (finsert (ru_ID rule) seen) rules)"

fun validateGroups :: "string fset \<Rightarrow> (string \<times> Rule list) list \<Rightarrow> selector_error + string fset" where
  "validateGroups seen [] = Inr seen"
| "validateGroups seen ((name, rules) # rest) =
     (case validateGroup name 0 seen rules of Inl e \<Rightarrow> Inl e | Inr seen' \<Rightarrow> validateGroups seen' rest)"

definition cloneMatch :: "Match \<Rightarrow> Match" where
  "cloneMatch match =
     match\<lparr>m_SourcePrefix := map_option id (m_SourcePrefix match),
           m_DestinationPrefix := map_option id (m_DestinationPrefix match),
           m_SourcePorts := map_option id (m_SourcePorts match),
           m_DestinationPorts := map_option id (m_DestinationPorts match),
           m_WireSize := map_option id (m_WireSize match)\<rparr>"

definition cloneRules :: "Rule list \<Rightarrow> Rule list" where
  "cloneRules rules = map (\<lambda>rule. rule\<lparr>ru_Match := cloneMatch (ru_Match rule)\<rparr>) rules"

definition NewSelector :: "SelectorConfig \<Rightarrow> selector_error + Selector" where
  "NewSelector config =
     (if sc_Seed config = [] then Inl SelectorSeedRequired
      else case validateAction (sc_Default config) of
        Some e \<Rightarrow> Inl (DefaultAction e)
      | None \<Rightarrow>
        if ac_Channel (sc_Default config) = 0 then Inl DefaultChannelRange
        else case validateGroups fempty [(''safety'', sc_SafetyRules config), (''pinned'', sc_PinnedRules config),
                                         (''user'', sc_UserRules config)] of
          Inl e \<Rightarrow> Inl e
        | Inr _ \<Rightarrow> Inr \<lparr>sl_seed = sc_Seed config, sl_defaultAction = sc_Default config,
                       sl_safetyRules = cloneRules (sc_SafetyRules config),
                       sl_pinnedRules = cloneRules (sc_PinnedRules config),
                       sl_userRules = cloneRules (sc_UserRules config)\<rparr>)"

section \<open>Matching and evaluation\<close>

definition PortRange_contains :: "PortRange \<Rightarrow> u16 \<Rightarrow> bool" where
  "PortRange_contains r port \<longleftrightarrow> port \<ge> por_Minimum r \<and> port \<le> por_Maximum r"

definition matches :: "Match \<Rightarrow> Event \<Rightarrow> string \<Rightarrow> bool" where
  "matches m event flowID =
     (if m_ExactFlowID m \<noteq> [] \<and> m_ExactFlowID m \<noteq> flowID then False
      else if (case m_SourcePrefix m of None \<Rightarrow> False | Some p \<Rightarrow> \<not> Prefix_Contains p (ep_Addr (ev_Source event)))
      then False
      else if (case m_DestinationPrefix m of None \<Rightarrow> False | Some p \<Rightarrow> \<not> Prefix_Contains p (ep_Addr (ev_Destination event)))
      then False
      else if m_Protocol m \<noteq> [] \<and> m_Protocol m \<noteq> ev_Protocol event then False
      else if (case m_SourcePorts m of None \<Rightarrow> False | Some r \<Rightarrow> \<not> PortRange_contains r (ep_Port (ev_Source event)))
      then False
      else if (case m_DestinationPorts m of None \<Rightarrow> False
               | Some r \<Rightarrow> \<not> PortRange_contains r (ep_Port (ev_Destination event))) then False
      else if (case m_WireSize m of None \<Rightarrow> False
               | Some w \<Rightarrow> ev_WireLength event < sir_Minimum w \<or> ev_WireLength event > sir_Maximum w) then False
      else m_RequiredTCPFlags m = 0 \<or> (ev_TCPFlags event AND m_RequiredTCPFlags m) = m_RequiredTCPFlags m)"

fun firstMatch :: "Rule list \<Rightarrow> Event \<Rightarrow> string \<Rightarrow> Rule option" where
  "firstMatch [] event flowID = None"
| "firstMatch (rule # rules) event flowID =
     (if ru_Enabled rule \<and> matches (ru_Match rule) event flowID then Some rule
      else firstMatch rules event flowID)"

definition selection :: "Selector \<Rightarrow> string \<Rightarrow> Action \<Rightarrow> string \<Rightarrow> string \<Rightarrow> Selection" where
  "selection s flowID action ruleID tier =
     (let channel = (if ac_Channel action = 0 then ac_Channel (sl_defaultAction s) else ac_Channel action)
      in \<lparr>sel_FlowID = flowID, sel_State = ac_State action, sel_Channel = channel, sel_Mode = ac_Mode action,
          sel_Root = ac_Root action, sel_RuleID = ruleID, sel_Tier = tier\<rparr>)"

definition stateAction :: "State \<Rightarrow> Action" where
  "stateAction st = \<lparr>ac_State = st, ac_Channel = 0, ac_Mode = [], ac_Root = 0\<rparr>"

definition Evaluate :: "Selector \<Rightarrow> Event \<Rightarrow> Overlay \<Rightarrow> event_error + Selection" where
  "Evaluate s event overlay =
     (case Event_Validate event of
        Some e \<Rightarrow> Inl e
      | None \<Rightarrow>
        let flowID = Key_ID (fst (Canonicalize event)) (sl_seed s) in
        case firstMatch (sl_safetyRules s) event flowID of
          Some rule \<Rightarrow> Inr (selection s flowID (ru_Action rule) (ru_ID rule) ''safety'')
        | None \<Rightarrow>
          if flowID |\<in>| ov_Muted overlay
          then Inr (selection s flowID (stateAction StateIgnore) [] ''temporary_mute'')
          else if ov_Soloed overlay \<noteq> fempty \<and> flowID |\<notin>| ov_Soloed overlay
          then Inr (selection s flowID (stateAction StateMonitor) [] ''temporary_solo'')
          else case firstMatch (sl_pinnedRules s) event flowID of
            Some rule \<Rightarrow> Inr (selection s flowID (ru_Action rule) (ru_ID rule) ''pinned'')
          | None \<Rightarrow>
            case firstMatch (sl_userRules s) event flowID of
              Some rule \<Rightarrow> Inr (selection s flowID (ru_Action rule) (ru_ID rule) ''user'')
            | None \<Rightarrow> Inr (selection s flowID (sl_defaultAction s) [] ''default''))"

section \<open>What a constructed selector satisfies\<close>

lemma cloneMatch_id [simp]: "cloneMatch m = m"
  by (simp add: cloneMatch_def option.map_id)

lemma cloneRules_id [simp]: "cloneRules rules = rules"
  by (simp add: cloneRules_def)

definition selector_rules :: "Selector \<Rightarrow> Rule list" where
  "selector_rules s = sl_safetyRules s @ sl_pinnedRules s @ sl_userRules s"

definition Selector_inv :: "Selector \<Rightarrow> bool" where
  "Selector_inv s \<longleftrightarrow>
     sl_seed s \<noteq> [] \<and> validateAction (sl_defaultAction s) = None \<and> ac_Channel (sl_defaultAction s) \<noteq> 0 \<and>
     (\<forall>rule \<in> set (selector_rules s). validateRule rule = None) \<and> distinct (map ru_ID (selector_rules s)) \<and>
     (\<forall>rule \<in> set (sl_safetyRules s). ac_State (ru_Action rule) = StateIgnore) \<and>
     (\<forall>rule \<in> set (sl_pinnedRules s). m_ExactFlowID (ru_Match rule) \<noteq> [])"

text \<open>What a group's name demands of its rules, and what passes the checks of a list of groups.\<close>

definition role_ok :: "string \<Rightarrow> Rule \<Rightarrow> bool" where
  "role_ok name rule \<longleftrightarrow>
     (name = ''safety'' \<longrightarrow> ac_State (ru_Action rule) = StateIgnore) \<and>
     (name = ''pinned'' \<longrightarrow> m_ExactFlowID (ru_Match rule) \<noteq> [])"

fun group_ok :: "string \<Rightarrow> string fset \<Rightarrow> Rule list \<Rightarrow> bool" where
  "group_ok name seen [] \<longleftrightarrow> True"
| "group_ok name seen (rule # rules) \<longleftrightarrow>
     validateRule rule = None \<and> ru_ID rule |\<notin>| seen \<and> role_ok name rule \<and>
     group_ok name (finsert (ru_ID rule) seen) rules"

lemma validateGroup_Inr:
  "validateGroup name index seen rules = Inr seen' \<longleftrightarrow>
     seen' = seen |\<union>| fset_of_list (map ru_ID rules) \<and> group_ok name seen rules"
proof (induction name index seen rules rule: validateGroup.induct)
  case (2 name index seen rule rules)
  let ?ok = "validateRule rule = None \<and> ru_ID rule |\<notin>| seen \<and> role_ok name rule"
  show ?case
  proof (cases ?ok)
    case True
    then have "validateGroup name index seen (rule # rules) =
        validateGroup name (Suc index) (finsert (ru_ID rule) seen) rules"
      by (auto simp: role_ok_def)
    then show ?thesis using 2 True by (auto simp: role_ok_def)
  next
    case False
    then have "\<not> is_ok (validateGroup name index seen (rule # rules))"
      by (cases "validateRule rule") (auto simp: role_ok_def)
    then have "validateGroup name index seen (rule # rules) \<noteq> Inr seen'" by (auto simp only: is_ok.simps)
    then show ?thesis using False by (simp only: group_ok.simps) blast
  qed
qed auto

lemma group_ok_iff:
  "group_ok name seen rules \<longleftrightarrow>
     distinct (map ru_ID rules) \<and> ru_ID ` set rules \<inter> fset seen = {} \<and>
     (\<forall>rule \<in> set rules. validateRule rule = None \<and> role_ok name rule)"
  by (induction name seen rules rule: group_ok.induct) auto

lemma validateGroups_Inr:
  "(\<exists>seen'. validateGroups seen ((name, rules) # rest) = Inr seen') \<longleftrightarrow>
     group_ok name seen rules \<and> (\<exists>seen'. validateGroups (seen |\<union>| fset_of_list (map ru_ID rules)) rest = Inr seen')"
proof (cases "group_ok name seen rules")
  case True
  then have "validateGroup name 0 seen rules = Inr (seen |\<union>| fset_of_list (map ru_ID rules))"
    by (simp only: validateGroup_Inr simp_thms)
  then show ?thesis using True by simp
next
  case False
  then have "\<nexists>b. validateGroup name 0 seen rules = Inr b" by (simp only: validateGroup_Inr simp_thms)
  then show ?thesis using False by (cases "validateGroup name 0 seen rules") simp_all
qed

definition configured :: "SelectorConfig \<Rightarrow> Selector" where
  "configured c = \<lparr>sl_seed = sc_Seed c, sl_defaultAction = sc_Default c, sl_safetyRules = sc_SafetyRules c,
                   sl_pinnedRules = sc_PinnedRules c, sl_userRules = sc_UserRules c\<rparr>"

lemma NewSelector_iff:
  "NewSelector c = Inr s \<longleftrightarrow> s = configured c \<and> Selector_inv (configured c)"
proof -
  let ?gs = "[(''safety'', sc_SafetyRules c), (''pinned'', sc_PinnedRules c), (''user'', sc_UserRules c)]"
  have "NewSelector c = Inr s \<longleftrightarrow> s = configured c \<and> sc_Seed c \<noteq> [] \<and> validateAction (sc_Default c) = None \<and>
      ac_Channel (sc_Default c) \<noteq> 0 \<and> (\<exists>seen'. validateGroups fempty ?gs = Inr seen')"
    by (auto simp: NewSelector_def configured_def simp del: validateGroups.simps split: option.splits sum.splits)
  also have "(\<exists>seen'. validateGroups fempty ?gs = Inr seen') \<longleftrightarrow>
      group_ok ''safety'' fempty (sc_SafetyRules c) \<and>
      group_ok ''pinned'' (fset_of_list (map ru_ID (sc_SafetyRules c))) (sc_PinnedRules c) \<and>
      group_ok ''user'' (fset_of_list (map ru_ID (sc_SafetyRules c)) |\<union>| fset_of_list (map ru_ID (sc_PinnedRules c)))
        (sc_UserRules c)"
    by (simp add: validateGroups_Inr del: validateGroups.simps(2))
  also have "\<dots> \<longleftrightarrow> (\<forall>rule \<in> set (selector_rules (configured c)). validateRule rule = None) \<and>
      distinct (map ru_ID (selector_rules (configured c))) \<and>
      (\<forall>rule \<in> set (sc_SafetyRules c). ac_State (ru_Action rule) = StateIgnore) \<and>
      (\<forall>rule \<in> set (sc_PinnedRules c). m_ExactFlowID (ru_Match rule) \<noteq> [])"
    unfolding group_ok_iff role_ok_def selector_rules_def configured_def
    by (simp add: fset_of_list.rep_eq Int_Un_distrib ball_Un ball_conj_distrib conj_ac Int_commute)
  finally show ?thesis by (simp add: Selector_inv_def configured_def conj_ac)
qed

lemma NewSelector_inv: "NewSelector c = Inr s \<Longrightarrow> Selector_inv s"
  by (simp add: NewSelector_iff)

section \<open>First match\<close>

lemma first_split:
  assumes "\<not> P r"
  shows "(\<exists>before after. r # rs = before @ x # after \<and> P x \<and> (\<forall>y \<in> set before. \<not> P y)) \<longleftrightarrow>
    (\<exists>before after. rs = before @ x # after \<and> P x \<and> (\<forall>y \<in> set before. \<not> P y))" (is "?l \<longleftrightarrow> ?r")
proof
  assume ?l
  then obtain before after where b: "r # rs = before @ x # after" "P x" "\<forall>y \<in> set before. \<not> P y" by blast
  then obtain before' where "before = r # before'" "rs = before' @ x # after"
    using assms by (cases before) auto
  then show ?r using b by auto
next
  assume ?r
  then obtain before after where b: "rs = before @ x # after" "P x" "\<forall>y \<in> set before. \<not> P y" by blast
  then have "r # rs = (r # before) @ x # after" "\<forall>y \<in> set (r # before). \<not> P y" using assms by auto
  then show ?l using b(2) by blast
qed

lemma firstMatch_Some:
  "firstMatch rules event flowID = Some rule \<longleftrightarrow>
     (\<exists>before after. rules = before @ rule # after \<and> ru_Enabled rule \<and> matches (ru_Match rule) event flowID \<and>
        (\<forall>r \<in> set before. \<not> (ru_Enabled r \<and> matches (ru_Match r) event flowID)))"
proof (induction rules)
  case (Cons r rules)
  show ?case
  proof (cases "ru_Enabled r \<and> matches (ru_Match r) event flowID")
    case True
    then show ?thesis by (fastforce simp: Cons_eq_append_conv)
  next
    case False
    then have "firstMatch (r # rules) event flowID = firstMatch rules event flowID" by auto
    then show ?thesis
      using Cons first_split [of "\<lambda>r. ru_Enabled r \<and> matches (ru_Match r) event flowID", OF False]
      by (simp only: conj_assoc)
  qed
qed simp

lemma firstMatch_None:
  "firstMatch rules event flowID = None \<longleftrightarrow>
     (\<forall>r \<in> set rules. \<not> (ru_Enabled r \<and> matches (ru_Match r) event flowID))"
  by (induction rules) auto

lemma firstMatch_in: "firstMatch rules event flowID = Some rule \<Longrightarrow> rule \<in> set rules"
  by (auto simp: firstMatch_Some)

text \<open>What every action that reaches \<open>selection\<close> satisfies, and so every selection.\<close>

definition action_ok :: "Action \<Rightarrow> bool" where
  "action_ok a \<longleftrightarrow>
     ac_State a \<in> {StateIgnore, StateMonitor, StatePlay} \<and> ac_Channel a \<le> 16 \<and>
     (ac_Mode a = [] \<longrightarrow> ac_Root a = 0) \<and>
     (ac_Mode a \<noteq> [] \<longrightarrow> ac_State a = StatePlay \<and> validMusicalMode (ac_Mode a) \<and> ac_Root a \<le> 11)"

lemma validateAction_ok: "validateAction a = None \<longleftrightarrow> action_ok a"
  by (auto simp: validateAction_def action_ok_def not_less)

lemma stateAction_ok: "action_ok (stateAction StateIgnore)" "action_ok (stateAction StateMonitor)"
  by (simp_all add: action_ok_def stateAction_def)

lemma validateRule_action: "validateRule rule = None \<Longrightarrow> action_ok (ru_Action rule)"
  by (auto simp: validateRule_def validateAction_ok split: if_splits option.splits)

definition selection_ok :: "Selection \<Rightarrow> bool" where
  "selection_ok sel \<longleftrightarrow>
     sel_State sel \<in> {StateIgnore, StateMonitor, StatePlay} \<and> 1 \<le> sel_Channel sel \<and> sel_Channel sel \<le> 16 \<and>
     (sel_Mode sel = [] \<longrightarrow> sel_Root sel = 0) \<and>
     (sel_Mode sel \<noteq> [] \<longrightarrow> sel_State sel = StatePlay \<and> validMusicalMode (sel_Mode sel) \<and> sel_Root sel \<le> 11)"

lemma selection_ok:
  assumes "action_ok a" "action_ok (sl_defaultAction s)" "ac_Channel (sl_defaultAction s) \<noteq> 0"
  shows "selection_ok (selection s flowID a ruleID tier)"
  using assms by (auto simp: selection_ok_def selection_def action_ok_def Let_def u8_positive)

lemma selection_frame [simp]:
  "sel_FlowID (selection s f a i t) = f" "sel_State (selection s f a i t) = ac_State a"
  "sel_RuleID (selection s f a i t) = i" "sel_Tier (selection s f a i t) = t"
  by (simp_all add: selection_def Let_def)

lemma stateAction_State [simp]: "ac_State (stateAction st) = st"
  by (simp add: stateAction_def)

text \<open>The decision as an action with its rule and tier.\<close>

definition decision :: "Selector \<Rightarrow> Event \<Rightarrow> string \<Rightarrow> Overlay \<Rightarrow> Action \<times> string \<times> string" where
  "decision s event flowID overlay =
     (case firstMatch (sl_safetyRules s) event flowID of
        Some rule \<Rightarrow> (ru_Action rule, ru_ID rule, ''safety'')
      | None \<Rightarrow>
        if flowID |\<in>| ov_Muted overlay then (stateAction StateIgnore, [], ''temporary_mute'')
        else if ov_Soloed overlay \<noteq> fempty \<and> flowID |\<notin>| ov_Soloed overlay
        then (stateAction StateMonitor, [], ''temporary_solo'')
        else case firstMatch (sl_pinnedRules s) event flowID of
          Some rule \<Rightarrow> (ru_Action rule, ru_ID rule, ''pinned'')
        | None \<Rightarrow>
          case firstMatch (sl_userRules s) event flowID of
            Some rule \<Rightarrow> (ru_Action rule, ru_ID rule, ''user'')
          | None \<Rightarrow> (sl_defaultAction s, [], ''default''))"

lemma Evaluate_decision:
  assumes "Event_Validate event = None" "flowID = Key_ID (fst (Canonicalize event)) (sl_seed s)"
    and "decision s event flowID overlay = (a, i, t)"
  shows "Evaluate s event overlay = Inr (selection s flowID a i t)"
  using assms unfolding Evaluate_def decision_def
  by (auto simp: Let_def split: option.splits if_splits)

lemma decision_action:
  assumes inv: "Selector_inv s" and d: "decision s event flowID overlay = (a, i, t)"
  shows "action_ok a"
proof -
  have act: "action_ok (ru_Action rule)" if "rule \<in> set (selector_rules s)" for rule
    using inv that validateRule_action by (simp add: Selector_inv_def)
  have fm: "action_ok (ru_Action rule)" if "firstMatch rs event flowID = Some rule" "set rs \<subseteq> set (selector_rules s)"
    for rs rule
    using act firstMatch_in [OF that(1)] that(2) by blast
  have sub: "set (sl_safetyRules s) \<subseteq> set (selector_rules s)" "set (sl_pinnedRules s) \<subseteq> set (selector_rules s)"
    "set (sl_userRules s) \<subseteq> set (selector_rules s)" by (auto simp: selector_rules_def)
  have "action_ok (sl_defaultAction s)" using inv by (simp add: Selector_inv_def validateAction_ok)
  then show ?thesis
    using d stateAction_ok fm [OF _ sub(1)] fm [OF _ sub(2)] fm [OF _ sub(3)] unfolding decision_def
    by (simp split: option.splits if_splits)
qed

lemma Evaluate_ok:
  assumes inv: "Selector_inv s" and ev: "Event_Validate event = None"
    and id: "flowID = Key_ID (fst (Canonicalize event)) (sl_seed s)"
  obtains a i t where "decision s event flowID overlay = (a, i, t)"
    and "Evaluate s event overlay = Inr (selection s flowID a i t)" and "selection_ok (selection s flowID a i t)"
proof -
  obtain a i t where d: "decision s event flowID overlay = (a, i, t)" by (metis prod_cases3)
  have "selection_ok (selection s flowID a i t)"
    using selection_ok [OF decision_action [OF inv d]] inv by (simp add: Selector_inv_def validateAction_ok)
  then show thesis using that [OF d Evaluate_decision [OF ev id d]] by blast
qed

lemma Evaluate_Inr:
  assumes "Evaluate s event overlay = Inr sel"
  obtains a i t where "decision s event (sel_FlowID sel) overlay = (a, i, t)"
    and "sel = selection s (sel_FlowID sel) a i t"
proof -
  have ev: "Event_Validate event = None" using assms by (auto simp: Evaluate_def split: option.splits)
  let ?id = "Key_ID (fst (Canonicalize event)) (sl_seed s)"
  obtain a i t where d: "decision s event ?id overlay = (a, i, t)" by (metis prod_cases3)
  have "sel = selection s ?id a i t" using Evaluate_decision [OF ev refl d] assms by simp
  then show thesis using that [of a i t] d by simp
qed

section \<open>Properties\<close>

text \<open>
  \<open>NewSelector\<close> accepts exactly the well-formed configurations: a seed, a valid default action with an
  explicit channel, valid rules with identifiers that are distinct across all three groups, safety
  rules that ignore traffic and pinned rules that name a flow; the selector it returns holds exactly
  those rules.
\<close>

theorem NewSelector_spec:
  "NewSelector c = Inr s \<longleftrightarrow>
     s = \<lparr>sl_seed = sc_Seed c, sl_defaultAction = sc_Default c, sl_safetyRules = sc_SafetyRules c,
          sl_pinnedRules = sc_PinnedRules c, sl_userRules = sc_UserRules c\<rparr> \<and> Selector_inv s"
  unfolding NewSelector_iff configured_def by blast

text \<open>
  C4. A constructed selector decides every valid packet, with a channel between 1 and 16 and a fixed
  mode and root only for traffic that plays. A packet that an enabled safety rule matches is always
  ignored, whatever the overlay and the other rules say; a muted flow is ignored; while other flows
  are soloed, a flow that is not never plays.
\<close>

theorem Evaluate_safe:
  assumes "NewSelector c = Inr s" and "Event_Validate event = None"
    and "flowID = Key_ID (fst (Canonicalize event)) (sl_seed s)"
  shows "\<exists>sel. Evaluate s event overlay = Inr sel \<and> sel_FlowID sel = flowID \<and> selection_ok sel \<and>
    ((\<exists>rule \<in> set (sl_safetyRules s). ru_Enabled rule \<and> matches (ru_Match rule) event flowID) \<longrightarrow>
        sel_State sel = StateIgnore) \<and>
    (flowID |\<in>| ov_Muted overlay \<longrightarrow> sel_State sel = StateIgnore) \<and>
    (ov_Soloed overlay \<noteq> fempty \<and> flowID |\<notin>| ov_Soloed overlay \<longrightarrow> sel_State sel \<noteq> StatePlay)"
proof -
  have inv: "Selector_inv s" using assms(1) by (rule NewSelector_inv)
  obtain a i t where d: "decision s event flowID overlay = (a, i, t)"
    and sel: "Evaluate s event overlay = Inr (selection s flowID a i t)" "selection_ok (selection s flowID a i t)"
    using Evaluate_ok [OF inv assms(2,3)] by metis
  have safety: "ac_State a = StateIgnore"
    if "firstMatch (sl_safetyRules s) event flowID = Some rule" for rule
    using that d inv firstMatch_in [OF that] by (auto simp: decision_def Selector_inv_def)
  have mute: "ac_State a = StateIgnore" if "flowID |\<in>| ov_Muted overlay"
    using that d safety by (auto simp: decision_def split: option.splits)
  have "ac_State a \<noteq> StatePlay" if "ov_Soloed overlay \<noteq> fempty" "flowID |\<notin>| ov_Soloed overlay"
  proof (cases "firstMatch (sl_safetyRules s) event flowID")
    case None
    then have "ac_State a \<in> {StateIgnore, StateMonitor}" using d that by (auto simp: decision_def split: if_splits)
    then show ?thesis by (auto simp: state_defs)
  next
    case (Some rule)
    then show ?thesis using safety [OF Some] by (simp add: state_defs)
  qed
  then show ?thesis
    using sel safety mute firstMatch_None [of "sl_safetyRules s" event flowID]
    by (intro exI [of _ "selection s flowID a i t"]) (metis not_None_eq selection_frame(1,2))
qed

definition sampleSelectorConfig :: SelectorConfig where
  "sampleSelectorConfig =
     (let any = \<lparr>m_ExactFlowID = [], m_SourcePrefix = None, m_DestinationPrefix = None, m_Protocol = ProtocolTCP,
                 m_SourcePorts = None, m_DestinationPorts = Some \<lparr>por_Minimum = 22, por_Maximum = 443\<rparr>,
                 m_WireSize = None, m_RequiredTCPFlags = 0\<rparr>
      in \<lparr>sc_Seed = ''seed'', sc_Default = \<lparr>ac_State = StatePlay, ac_Channel = 2, ac_Mode = [], ac_Root = 0\<rparr>,
          sc_SafetyRules = [\<lparr>ru_ID = ''ssh'', ru_Name = [], ru_Enabled = True, ru_Match = any,
                             ru_Action = stateAction StateIgnore\<rparr>],
          sc_PinnedRules = [], sc_UserRules = []\<rparr>)"

lemma sampleSelector_ok: "\<exists>s. NewSelector sampleSelectorConfig = Inr s \<and> length (sl_safetyRules s) = 1"
  by (simp add: NewSelector_def sampleSelectorConfig_def Let_def validateAction_def validateRule_def reversed_def
      state_defs stateAction_def protocols_def)

theorem Evaluate_safe_witness:
  "\<exists>s sel. NewSelector sampleSelectorConfig = Inr s \<and>
     Evaluate s sampleEvent \<lparr>ov_Muted = fempty, ov_Soloed = fempty\<rparr> = Inr sel \<and> sel_State sel = StateIgnore"
proof -
  obtain s where s: "NewSelector sampleSelectorConfig = Inr s" using sampleSelector_ok by blast
  have "sl_safetyRules s = sc_SafetyRules sampleSelectorConfig"
    using s by (auto simp: NewSelector_def split: if_splits option.splits sum.splits)
  then have "\<exists>rule \<in> set (sl_safetyRules s). ru_Enabled rule \<and> matches (ru_Match rule) sampleEvent flowID" for flowID
    by (simp add: sampleSelectorConfig_def Let_def matches_def sampleEvent_def PortRange_contains_def)
  then show ?thesis using Evaluate_safe [OF s sampleEvent_valid(1) refl] s by blast
qed

text \<open>
  The tiers decide in the documented order, first match first. A selection of tier user names a
  rule of the user group that matches the packet, and no earlier user rule, no pinned rule and no
  safety rule matches, the flow is not muted and not silenced by a solo; a selection of tier default
  is reached only when no rule matches at all, and it carries the default action.
\<close>

theorem Evaluate_tiers:
  assumes "Evaluate s event overlay = Inr sel" and "flowID = sel_FlowID sel"
    and "hit = (\<lambda>r. ru_Enabled r \<and> matches (ru_Match r) event flowID)"
  shows "(sel_Tier sel = ''user'' \<longrightarrow>
      (\<exists>before rule after. sl_userRules s = before @ rule # after \<and> hit rule \<and> sel_RuleID sel = ru_ID rule \<and>
         sel_State sel = ac_State (ru_Action rule) \<and>
         (\<forall>r \<in> set (sl_safetyRules s @ sl_pinnedRules s @ before). \<not> hit r)) \<and> flowID |\<notin>| ov_Muted overlay) \<and>
    (sel_Tier sel = ''default'' \<longrightarrow>
      (\<forall>r \<in> set (selector_rules s). \<not> hit r) \<and> sel_State sel = ac_State (sl_defaultAction s) \<and>
      sel_Channel sel = ac_Channel (sl_defaultAction s) \<and> flowID |\<notin>| ov_Muted overlay) \<and>
    sel_Tier sel \<in> {''safety'', ''temporary_mute'', ''temporary_solo'', ''pinned'', ''user'', ''default''}"
proof -
  obtain a i t where d: "decision s event flowID overlay = (a, i, t)" and sel: "sel = selection s flowID a i t"
    using Evaluate_Inr [OF assms(1)] assms(2) by metis
  have default: "sel_Channel (selection s f (sl_defaultAction s) i t) = ac_Channel (sl_defaultAction s)" for f i t
    by (simp add: selection_def)
  consider (safety) "t = ''safety''" | (mute) "t = ''temporary_mute''" | (solo) "t = ''temporary_solo''"
    | (pinned) "t = ''pinned''"
    | (user) rule where "t = ''user''" "firstMatch (sl_safetyRules s) event flowID = None"
        "firstMatch (sl_pinnedRules s) event flowID = None" "firstMatch (sl_userRules s) event flowID = Some rule"
        "a = ru_Action rule" "i = ru_ID rule" "flowID |\<notin>| ov_Muted overlay"
    | (default) "t = ''default''" "firstMatch (sl_safetyRules s) event flowID = None"
        "firstMatch (sl_pinnedRules s) event flowID = None" "firstMatch (sl_userRules s) event flowID = None"
        "a = sl_defaultAction s" "flowID |\<notin>| ov_Muted overlay"
    using d unfolding decision_def by (simp split: option.splits if_splits)
  then show ?thesis
  proof cases
    case (user rule)
    from user(4) obtain before after where "sl_userRules s = before @ rule # after" "hit rule"
      "\<forall>r \<in> set before. \<not> hit r"
      unfolding firstMatch_Some assms(3) by blast
    moreover have "\<forall>r \<in> set (sl_safetyRules s @ sl_pinnedRules s). \<not> hit r"
      using user(2,3) by (auto simp: firstMatch_None assms(3))
    ultimately have "\<exists>before rule after. sl_userRules s = before @ rule # after \<and> hit rule \<and>
        sel_RuleID sel = ru_ID rule \<and> sel_State sel = ac_State (ru_Action rule) \<and>
        (\<forall>r \<in> set (sl_safetyRules s @ sl_pinnedRules s @ before). \<not> hit r)"
      using user sel by (intro exI [of _ before] exI [of _ rule] exI [of _ after]) auto
    then show ?thesis using user sel by simp
  next
    case default
    then have "\<forall>r \<in> set (selector_rules s). \<not> hit r"
      by (auto simp: firstMatch_None selector_rules_def assms(3))
    then show ?thesis using default sel by (simp add: selection_def)
  qed (simp_all add: sel)
qed

theorem Evaluate_tiers_witness:
  "\<exists>s sel. NewSelector (sampleSelectorConfig\<lparr>sc_SafetyRules := []\<rparr>) = Inr s \<and>
     Evaluate s sampleEvent \<lparr>ov_Muted = fempty, ov_Soloed = fempty\<rparr> = Inr sel \<and> sel_Tier sel = ''default'' \<and>
     sel_State sel = StatePlay \<and> sel_Channel sel = 2"
proof -
  define s where "s = \<lparr>sl_seed = ''seed'', sl_defaultAction = sc_Default sampleSelectorConfig, sl_safetyRules = [],
    sl_pinnedRules = [], sl_userRules = []\<rparr>"
  have s: "NewSelector (sampleSelectorConfig\<lparr>sc_SafetyRules := []\<rparr>) = Inr s"
    by (simp add: NewSelector_def sampleSelectorConfig_def Let_def validateAction_def state_defs s_def)
  obtain sel where sel: "Evaluate s sampleEvent \<lparr>ov_Muted = fempty, ov_Soloed = fempty\<rparr> = Inr sel"
    "sel_Tier sel = ''default''"
    using sampleEvent_valid by (auto simp: Evaluate_def Let_def s_def)
  then show ?thesis
    using Evaluate_tiers [OF sel(1) refl refl] s by (auto simp: s_def sampleSelectorConfig_def Let_def)
qed

end
