(* ===== verification/Config.thy ===== *)
theory Config
  imports Selector Music
begin

text \<open>
  internal/config/config.go, rules.go and secrets.go: the configuration document, its validation, the
  conversion of its rules to the selector's, and the redaction of its secrets. Validation collects every
  problem; \<open>errors.Join\<close> of no problem is nil. The compilers of package regexp, the parser of net/url and
  \<open>netip.ParsePrefix\<close> are an argument; \<open>net.SplitHostPort\<close> is written out.
\<close>

section \<open>The document (config.go, rules.go)\<close>

record InstanceConfig =
  ic_ID :: string
  ic_Role :: string

record CaptureConfig =
  cc_Enabled :: bool
  cc_Interface :: string
  cc_BPF :: string
  cc_SnapshotLength :: int
  cc_Promiscuous :: bool

record MappingConfig =
  mac_Version :: string
  mac_Seed :: string
  mac_DefaultState :: string
  mac_DefaultChannel :: u8
  mac_MinimumNote :: u8
  mac_MaximumNote :: u8
  mac_MinimumDuration :: duration
  mac_MaximumDuration :: duration

record PerformanceConfig =
  pc_PacketQueueCapacity :: int
  pc_NoteQueueCapacity :: int
  pc_UIQueueCapacity :: int
  pc_FlowRegistryCapacity :: int
  pc_FlowTTL :: duration
  pc_MaximumNotesPerSecond :: int
  pc_MaximumPolyphony :: int
  pc_MinimumRetriggerInterval :: duration

record MIDIConfig =
  mdc_Enabled :: bool
  mdc_ExactDeviceName :: string
  mdc_DeviceNameRegexp :: string
  mdc_PollInterval :: duration

record ServerConfig =
  svc_ListenAddress :: string
  svc_ReadTimeout :: duration
  svc_WriteTimeout :: duration

record PeerConfig =
  pec_Enabled :: bool
  pec_URL :: string
  pec_Token :: string
  pec_QueueCapacity :: int
  pec_MaximumConnections :: int
  pec_RecentTTL :: duration
  pec_ReconnectBase :: duration
  pec_ReconnectLimit :: duration
  pec_StaleAfter :: duration

record LoggingConfig =
  lc_Level :: string
  lc_Format :: string

record PortRangeConfig =
  prc_Minimum :: u16
  prc_Maximum :: u16

record SizeRangeConfig =
  szc_Minimum :: int
  szc_Maximum :: int

record RuleMatchConfig =
  rmc_ExactFlowID :: string
  rmc_SourceCIDR :: string
  rmc_DestinationCIDR :: string
  rmc_Protocol :: Protocol
  rmc_SourcePorts :: "PortRangeConfig option"
  rmc_DestinationPorts :: "PortRangeConfig option"
  rmc_WireSize :: "SizeRangeConfig option"
  rmc_RequiredTCPFlags :: "string list"

record RuleActionConfig =
  rac_State :: string
  rac_Channel :: u8
  rac_Mode :: string
  rac_Root :: "u8 option"

record RuleConfig =
  ruc_ID :: string
  ruc_Name :: string
  ruc_Enabled :: bool
  ruc_Match :: RuleMatchConfig
  ruc_Action :: RuleActionConfig

record Config =
  cf_Instance :: InstanceConfig
  cf_Capture :: CaptureConfig
  cf_Mapping :: MappingConfig
  cf_Performance :: PerformanceConfig
  cf_MIDI :: MIDIConfig
  cf_Server :: ServerConfig
  cf_Peer :: PeerConfig
  cf_MetricsNamespace :: string
  cf_Logging :: LoggingConfig
  cf_Rules :: "RuleConfig list"

definition RoleStandalone :: string where "RoleStandalone = ''standalone''"
definition RoleEdge :: string where "RoleEdge = ''edge''"
definition RoleHost :: string where "RoleHost = ''host''"

definition RedactedValue :: string where "RedactedValue = ''<redacted>''"
definition RedactedURLValue :: string where "RedactedURLValue = ''wss://redacted.invalid/''"

definition minute :: duration where "minute = 60 * second"

definition Config_Default :: Config where
  "Config_Default =
     \<lparr>cf_Instance = \<lparr>ic_ID = ''musical-packets'', ic_Role = RoleStandalone\<rparr>,
      cf_Capture = \<lparr>cc_Enabled = True, cc_Interface = ''auto'', cc_BPF = [], cc_SnapshotLength = 65535, cc_Promiscuous = True\<rparr>,
      cf_Mapping = \<lparr>mac_Version = ''flow-mode-v1'', mac_Seed = ''musical-packets'', mac_DefaultState = StateMonitor,
        mac_DefaultChannel = 1, mac_MinimumNote = 36, mac_MaximumNote = 96, mac_MinimumDuration = 50 * millisecond,
        mac_MaximumDuration = 2 * second\<rparr>,
      cf_Performance = \<lparr>pc_PacketQueueCapacity = 4096, pc_NoteQueueCapacity = 1024, pc_UIQueueCapacity = 512,
        pc_FlowRegistryCapacity = 10000, pc_FlowTTL = 5 * minute, pc_MaximumNotesPerSecond = 100, pc_MaximumPolyphony = 32,
        pc_MinimumRetriggerInterval = 10 * millisecond\<rparr>,
      cf_MIDI = \<lparr>mdc_Enabled = True, mdc_ExactDeviceName = [], mdc_DeviceNameRegexp = [], mdc_PollInterval = 2 * second\<rparr>,
      cf_Server = \<lparr>svc_ListenAddress = ''127.0.0.1:8080'', svc_ReadTimeout = 10 * second, svc_WriteTimeout = 10 * second\<rparr>,
      cf_Peer = \<lparr>pec_Enabled = False, pec_URL = [], pec_Token = [], pec_QueueCapacity = 1024, pec_MaximumConnections = 64,
        pec_RecentTTL = 5 * minute, pec_ReconnectBase = 500 * millisecond, pec_ReconnectLimit = 30 * second,
        pec_StaleAfter = 500 * millisecond\<rparr>,
      cf_MetricsNamespace = ''musical_packets'', cf_Logging = \<lparr>lc_Level = ''info'', lc_Format = ''text''\<rparr>, cf_Rules = []\<rparr>"

section \<open>Rules (rules.go)\<close>

record config_lib =
  cl_regexp :: "string \<Rightarrow> (string \<Rightarrow> bool) option"
  cl_Parse :: "string \<Rightarrow> URL option"
  cl_ParsePrefix :: "string \<Rightarrow> Prefix option"

datatype rule_problem =
    RPIDRequired
  | RPState string
  | RPChannel
  | RPModeRootPair
  | RPMode string
  | RPRoot
  | RPModeNeedsPlay
  | RPFlowID
  | RPProtocol string
  | RPSourceCIDR
  | RPDestinationCIDR
  | RPSourcePorts
  | RPDestinationPorts
  | RPWireSize
  | RPFlagDuplicated nat string
  | RPFlagInvalid nat string

definition flagBit :: "string \<Rightarrow> TCPFlags option" where
  "flagBit flag = map_of [(''fin'', TCPFlagFIN), (''syn'', TCPFlagSYN), (''rst'', TCPFlagRST), (''psh'', TCPFlagPSH),
     (''ack'', TCPFlagACK), (''urg'', TCPFlagURG)] flag"

text \<open>The loop over the required flags, which threads the flags seen and the bits collected.\<close>

fun requiredFlags :: "nat \<Rightarrow> string fset \<Rightarrow> TCPFlags \<Rightarrow> string list \<Rightarrow> TCPFlags \<times> rule_problem list" where
  "requiredFlags index seen bits [] = (bits, [])"
| "requiredFlags index seen bits (flag # flags) =
     (if flag |\<in>| seen then
        let (bits, problems) = requiredFlags (Suc index) seen bits flags in (bits, RPFlagDuplicated index flag # problems)
      else case flagBit flag of
        Some b \<Rightarrow> requiredFlags (Suc index) (finsert flag seen) (bits OR b) flags
      | None \<Rightarrow>
        let (bits, problems) = requiredFlags (Suc index) (finsert flag seen) bits flags in (bits, RPFlagInvalid index flag # problems))"

definition toAction :: "RuleActionConfig \<Rightarrow> Action \<times> rule_problem list" where
  "toAction a =
     (let action = \<lparr>ac_State = rac_State a, ac_Channel = rac_Channel a, ac_Mode = [], ac_Root = 0\<rparr>;
          p1 = (if rac_State a \<in> {StateIgnore, StateMonitor, StatePlay} then [] else [RPState (rac_State a)]);
          p2 = (if rac_Channel a > 16 then [RPChannel] else [])
      in if (rac_Mode a = []) \<noteq> (rac_Root a = None) then (action, p1 @ p2 @ [RPModeRootPair])
         else case rac_Root a of
           None \<Rightarrow> (action, p1 @ p2)
         | Some tonic \<Rightarrow>
           let (action, p3) = (case ParseMode (rac_Mode a) of
                  None \<Rightarrow> (action, [RPMode (rac_Mode a)])
                | Some mode \<Rightarrow> (action\<lparr>ac_Mode := Mode_String mode\<rparr>, []));
               (action, p4) = (if tonic > 11 then (action, [RPRoot]) else (action\<lparr>ac_Root := tonic\<rparr>, []));
               p5 = (if ac_State action \<noteq> StatePlay then [RPModeNeedsPlay] else [])
           in (action, p1 @ p2 @ p3 @ p4 @ p5))"

definition toPrefix :: "config_lib \<Rightarrow> string \<Rightarrow> rule_problem \<Rightarrow> Prefix option \<times> rule_problem list" where
  "toPrefix lib cidr problem =
     (if cidr = [] then (None, [])
      else case cl_ParsePrefix lib (strings_TrimSpace cidr) of
        None \<Rightarrow> (None, [problem])
      | Some prefix \<Rightarrow> (Some (Prefix_Masked prefix), []))"

definition toPorts :: "PortRangeConfig option \<Rightarrow> rule_problem \<Rightarrow> PortRange option \<times> rule_problem list" where
  "toPorts ports problem =
     (case ports of
        None \<Rightarrow> (None, [])
      | Some r \<Rightarrow> if prc_Minimum r > prc_Maximum r then (None, [problem])
                  else (Some \<lparr>por_Minimum = prc_Minimum r, por_Maximum = prc_Maximum r\<rparr>, []))"

definition toSize :: "SizeRangeConfig option \<Rightarrow> SizeRange option \<times> rule_problem list" where
  "toSize sizes =
     (case sizes of
        None \<Rightarrow> (None, [])
      | Some r \<Rightarrow> if szc_Minimum r < 0 \<or> szc_Minimum r > szc_Maximum r then (None, [RPWireSize])
                  else (Some \<lparr>sir_Minimum = szc_Minimum r, sir_Maximum = szc_Maximum r\<rparr>, []))"

definition flowIDText :: "string \<Rightarrow> bool" where
  "flowIDText v \<longleftrightarrow>
     (case hex_DecodeString v of None \<Rightarrow> False | Some decoded \<Rightarrow> length v = 24 \<and> hex_EncodeToString decoded = v)"

definition toMatch :: "config_lib \<Rightarrow> RuleMatchConfig \<Rightarrow> Match \<times> rule_problem list" where
  "toMatch lib m =
     (let p1 = (if rmc_ExactFlowID m \<noteq> [] \<and> \<not> flowIDText (rmc_ExactFlowID m) then [RPFlowID] else []);
          p2 = (if rmc_Protocol m = [] \<or> rmc_Protocol m \<in> set protocols then [] else [RPProtocol (rmc_Protocol m)]);
          (source, p3) = toPrefix lib (rmc_SourceCIDR m) RPSourceCIDR;
          (destination, p4) = toPrefix lib (rmc_DestinationCIDR m) RPDestinationCIDR;
          (sourcePorts, p5) = toPorts (rmc_SourcePorts m) RPSourcePorts;
          (destinationPorts, p6) = toPorts (rmc_DestinationPorts m) RPDestinationPorts;
          (wireSize, p7) = toSize (rmc_WireSize m);
          (flags, p8) = requiredFlags 0 {||} 0 (rmc_RequiredTCPFlags m)
      in (\<lparr>m_ExactFlowID = rmc_ExactFlowID m, m_SourcePrefix = source, m_DestinationPrefix = destination,
           m_Protocol = rmc_Protocol m, m_SourcePorts = sourcePorts, m_DestinationPorts = destinationPorts,
           m_WireSize = wireSize, m_RequiredTCPFlags = flags\<rparr>, p1 @ p2 @ p3 @ p4 @ p5 @ p6 @ p7 @ p8))"

definition toFlowRule :: "config_lib \<Rightarrow> RuleConfig \<Rightarrow> rule_problem list + Rule" where
  "toFlowRule lib rule =
     (let p1 = (if strings_TrimSpace (ruc_ID rule) = [] then [RPIDRequired] else []);
          (action, p2) = toAction (ruc_Action rule);
          (match, p3) = toMatch lib (ruc_Match rule)
      in if p1 @ p2 @ p3 \<noteq> [] then Inl (p1 @ p2 @ p3)
         else Inr \<lparr>ru_ID = ruc_ID rule, ru_Name = ruc_Name rule, ru_Enabled = ruc_Enabled rule, ru_Match = match,
                   ru_Action = action\<rparr>)"

datatype rules_problem = DuplicateID nat string nat | RuleProblem nat "rule_problem list"

text \<open>The loop of \<open>ToFlowRules\<close>, which threads the identifiers seen with their indices.\<close>

fun convertRules :: "config_lib \<Rightarrow> nat \<Rightarrow> (string, nat) fmap \<Rightarrow> RuleConfig list \<Rightarrow> Rule list \<times> rules_problem list" where
  "convertRules lib index seen [] = ([], [])"
| "convertRules lib index seen (rule # rules) =
     (let (seen, p1) =
            (if strings_TrimSpace (ruc_ID rule) \<noteq> []
             then (case fmlookup seen (ruc_ID rule) of
                     Some previous \<Rightarrow> (seen, [DuplicateID index (ruc_ID rule) previous])
                   | None \<Rightarrow> (fmupd (ruc_ID rule) index seen, []))
             else (seen, []));
          (converted, problems) = convertRules lib (Suc index) seen rules
      in case toFlowRule lib rule of
           Inl e \<Rightarrow> (converted, p1 @ RuleProblem index e # problems)
         | Inr r \<Rightarrow> (r # converted, p1 @ problems))"

definition ToFlowRules :: "config_lib \<Rightarrow> RuleConfig list \<Rightarrow> rules_problem list + Rule list" where
  "ToFlowRules lib rules =
     (let (converted, problems) = convertRules lib 0 fmempty rules
      in if problems \<noteq> [] then Inl problems else Inr converted)"

definition FlowRules :: "config_lib \<Rightarrow> Config \<Rightarrow> rules_problem list + Rule list" where
  "FlowRules lib c = ToFlowRules lib (cf_Rules c)"

section \<open>Validation (config.go)\<close>

text \<open>\<open>net.SplitHostPort\<close>: the port starts after the last colon; brackets may surround the host.\<close>

definition indexOf :: "char \<Rightarrow> string \<Rightarrow> nat option" where
  "indexOf c s = (if c \<in> set s then Some (length (takeWhile (\<lambda>d. d \<noteq> c) s)) else None)"

definition lastIndexOf :: "char \<Rightarrow> string \<Rightarrow> nat option" where
  "lastIndexOf c s = map_option (\<lambda>i. length s - 1 - i) (indexOf c (rev s))"

definition net_SplitHostPort :: "string \<Rightarrow> (string \<times> string) option" where
  "net_SplitHostPort hostport =
     (case lastIndexOf CHR '':'' hostport of
        None \<Rightarrow> None
      | Some i \<Rightarrow>
        let port = drop (i + 1) hostport;
            rest = (\<lambda>host j k. if CHR ''['' \<in> set (drop j hostport) \<or> CHR '']'' \<in> set (drop k hostport) then None
                              else Some (host, port))
        in if hd hostport = CHR ''['' then
             (case indexOf CHR '']'' hostport of
                None \<Rightarrow> None
              | Some e \<Rightarrow> if e + 1 = i then rest (drop 1 (take e hostport)) 1 (e + 1) else None)
           else let host = take i hostport in if CHR '':'' \<in> set host then None else rest host 0 0)"

definition asciiLetter :: "char \<Rightarrow> bool" where
  "asciiLetter c \<longleftrightarrow> (let n = of_char c :: nat in 65 \<le> n \<and> n \<le> 90 \<or> 97 \<le> n \<and> n \<le> 122)"

definition asciiDigit :: "char \<Rightarrow> bool" where
  "asciiDigit c \<longleftrightarrow> (let n = of_char c :: nat in 48 \<le> n \<and> n \<le> 57)"

text \<open>The pattern \<open>[a-zA-Z_:][a-zA-Z0-9_:]*\<close>, anchored at both ends.\<close>

fun validMetricName :: "string \<Rightarrow> bool" where
  "validMetricName [] = False"
| "validMetricName (c # s) =
     ((asciiLetter c \<or> c \<in> set ''_:'') \<and> (\<forall>d \<in> set s. asciiLetter d \<or> asciiDigit d \<or> d \<in> set ''_:''))"

datatype config_problem =
    InstanceIDRequired
  | RoleInvalid string
  | InterfaceRequired
  | SnapshotLengthRange
  | DefaultStateInvalid string
  | MappingVersionUnsupported string
  | MappingSeedRequired
  | MappingChannelRange
  | MappingNoteRange
  | MappingDurationRange
  | QueueCapacitiesInvalid
  | RegistryCapacityInvalid
  | FlowTTLInvalid
  | NotesPerSecondInvalid
  | PolyphonyInvalid
  | RetriggerInvalid
  | PollIntervalInvalid
  | DeviceRegexpInvalid
  | ListenAddressInvalid
  | TimeoutsInvalid
  | EdgeNeedsPeer
  | EdgeWithMIDI
  | PeerURLInvalid
  | PeerTokenShort
  | PeerQueueInvalid
  | PeerConnectionsRange
  | PeerRecentTTLInvalid
  | PeerReconnectInvalid
  | PeerStaleInvalid
  | MetricsNamespaceInvalid
  | LogLevelInvalid string
  | LogFormatInvalid string
  | RulesInvalid "rules_problem list"

definition problem :: "bool \<Rightarrow> config_problem \<Rightarrow> config_problem list" where
  "problem b e = (if b then [e] else [])"

definition peerURLOK :: "config_lib \<Rightarrow> string \<Rightarrow> bool" where
  "peerURLOK lib raw \<longleftrightarrow>
     (case cl_Parse lib raw of
        None \<Rightarrow> False
      | Some parsed \<Rightarrow> \<not> (url_Host parsed = [] \<or> url_User parsed \<noteq> None \<or>
          url_Scheme parsed \<noteq> ''ws'' \<and> url_Scheme parsed \<noteq> ''wss''))"

definition validatePeer :: "config_lib \<Rightarrow> string \<Rightarrow> PeerConfig \<Rightarrow> config_problem list" where
  "validatePeer lib role p =
     problem ((role = RoleEdge \<or> pec_URL p \<noteq> []) \<and> \<not> peerURLOK lib (pec_URL p)) PeerURLInvalid @
     problem (length (pec_Token p) < 16 \<and> pec_Token p \<noteq> RedactedValue) PeerTokenShort @
     problem (pec_QueueCapacity p \<le> 0) PeerQueueInvalid @
     problem (pec_MaximumConnections p \<le> 0 \<or> pec_MaximumConnections p > 1024) PeerConnectionsRange @
     problem (pec_RecentTTL p \<le> 0) PeerRecentTTLInvalid @
     problem (pec_ReconnectBase p \<le> 0 \<or> pec_ReconnectLimit p < pec_ReconnectBase p) PeerReconnectInvalid @
     problem (pec_StaleAfter p \<le> 0) PeerStaleInvalid"

definition validateMapping :: "MappingConfig \<Rightarrow> config_problem list" where
  "validateMapping m =
     problem (mac_DefaultState m \<notin> {StateIgnore, StateMonitor, StatePlay}) (DefaultStateInvalid (mac_DefaultState m)) @
     problem (mac_Version m \<noteq> ''flow-mode-v1'') (MappingVersionUnsupported (mac_Version m)) @
     problem (mac_Seed m = []) MappingSeedRequired @
     problem (mac_DefaultChannel m < 1 \<or> mac_DefaultChannel m > 16) MappingChannelRange @
     problem (mac_MinimumNote m > 127 \<or> mac_MaximumNote m > 127 \<or> mac_MinimumNote m > mac_MaximumNote m) MappingNoteRange @
     problem (mac_MinimumDuration m \<le> 0 \<or> mac_MaximumDuration m < mac_MinimumDuration m) MappingDurationRange"

definition validatePerformance :: "PerformanceConfig \<Rightarrow> config_problem list" where
  "validatePerformance p =
     problem (pc_PacketQueueCapacity p \<le> 0 \<or> pc_NoteQueueCapacity p \<le> 0 \<or> pc_UIQueueCapacity p \<le> 0) QueueCapacitiesInvalid @
     problem (pc_FlowRegistryCapacity p \<le> 0) RegistryCapacityInvalid @
     problem (pc_FlowTTL p \<le> 0) FlowTTLInvalid @
     problem (pc_MaximumNotesPerSecond p \<le> 0) NotesPerSecondInvalid @
     problem (pc_MaximumPolyphony p < 1 \<or> pc_MaximumPolyphony p > 128) PolyphonyInvalid @
     problem (pc_MinimumRetriggerInterval p < 0) RetriggerInvalid"

definition Config_Validate :: "config_lib \<Rightarrow> Config \<Rightarrow> config_problem list" where
  "Config_Validate lib c =
     problem (strings_TrimSpace (ic_ID (cf_Instance c)) = []) InstanceIDRequired @
     problem (ic_Role (cf_Instance c) \<notin> {RoleStandalone, RoleEdge, RoleHost}) (RoleInvalid (ic_Role (cf_Instance c))) @
     (if cc_Enabled (cf_Capture c) then
        problem (strings_TrimSpace (cc_Interface (cf_Capture c)) = []) InterfaceRequired @
        problem (cc_SnapshotLength (cf_Capture c) < 64 \<or> cc_SnapshotLength (cf_Capture c) > 65535) SnapshotLengthRange
      else []) @
     validateMapping (cf_Mapping c) @
     validatePerformance (cf_Performance c) @
     (if mdc_Enabled (cf_MIDI c) then
        problem (mdc_PollInterval (cf_MIDI c) \<le> 0) PollIntervalInvalid @
        problem (mdc_DeviceNameRegexp (cf_MIDI c) \<noteq> [] \<and> cl_regexp lib (mdc_DeviceNameRegexp (cf_MIDI c)) = None) DeviceRegexpInvalid
      else []) @
     problem (net_SplitHostPort (svc_ListenAddress (cf_Server c)) = None) ListenAddressInvalid @
     problem (svc_ReadTimeout (cf_Server c) \<le> 0 \<or> svc_WriteTimeout (cf_Server c) \<le> 0) TimeoutsInvalid @
     problem (ic_Role (cf_Instance c) = RoleEdge \<and> \<not> pec_Enabled (cf_Peer c)) EdgeNeedsPeer @
     problem (ic_Role (cf_Instance c) = RoleEdge \<and> mdc_Enabled (cf_MIDI c)) EdgeWithMIDI @
     (if pec_Enabled (cf_Peer c) then validatePeer lib (ic_Role (cf_Instance c)) (cf_Peer c) else []) @
     problem (\<not> validMetricName (cf_MetricsNamespace c)) MetricsNamespaceInvalid @
     problem (lc_Level (cf_Logging c) \<notin> {''debug'', ''info'', ''warn'', ''error''}) (LogLevelInvalid (lc_Level (cf_Logging c))) @
     problem (lc_Format (cf_Logging c) \<notin> {''text'', ''json''}) (LogFormatInvalid (lc_Format (cf_Logging c))) @
     (case FlowRules lib c of Inl e \<Rightarrow> [RulesInvalid e] | Inr _ \<Rightarrow> [])"

section \<open>Secrets (secrets.go)\<close>

definition setSeed :: "string \<Rightarrow> Config \<Rightarrow> Config" where
  "setSeed v c = c\<lparr>cf_Mapping := (cf_Mapping c)\<lparr>mac_Seed := v\<rparr>\<rparr>"

definition setPeerURL :: "string \<Rightarrow> Config \<Rightarrow> Config" where
  "setPeerURL v c = c\<lparr>cf_Peer := (cf_Peer c)\<lparr>pec_URL := v\<rparr>\<rparr>"

definition setPeerToken :: "string \<Rightarrow> Config \<Rightarrow> Config" where
  "setPeerToken v c = c\<lparr>cf_Peer := (cf_Peer c)\<lparr>pec_Token := v\<rparr>\<rparr>"

definition Redacted :: "Config \<Rightarrow> Config" where
  "Redacted c =
     (let c = (if mac_Seed (cf_Mapping c) \<noteq> [] then setSeed RedactedValue c else c);
          c = (if pec_URL (cf_Peer c) \<noteq> [] then setPeerURL RedactedURLValue c else c)
      in if pec_Token (cf_Peer c) \<noteq> [] then setPeerToken RedactedValue c else c)"

datatype secret_error =
    SeedPlaceholderRequired
  | URLPlaceholderRequired
  | TokenPlaceholderRequired
  | SeedPlaceholderUnbound
  | URLPlaceholderUnbound
  | TokenPlaceholderUnbound

definition ResolveRedacted :: "Config \<Rightarrow> Config \<Rightarrow> secret_error + Config" where
  "ResolveRedacted candidate current =
     (let seed = mac_Seed (cf_Mapping current); url = pec_URL (cf_Peer current); token = pec_Token (cf_Peer current);
          resolved = candidate
      in if seed \<noteq> [] \<and> mac_Seed (cf_Mapping resolved) \<noteq> RedactedValue then Inl SeedPlaceholderRequired
         else if url \<noteq> [] \<and> pec_URL (cf_Peer resolved) \<noteq> RedactedURLValue then Inl URLPlaceholderRequired
         else if token \<noteq> [] \<and> pec_Token (cf_Peer resolved) \<noteq> RedactedValue then Inl TokenPlaceholderRequired
         else if mac_Seed (cf_Mapping resolved) = RedactedValue \<and> seed = [] then Inl SeedPlaceholderUnbound
         else
           let resolved = (if mac_Seed (cf_Mapping resolved) = RedactedValue then setSeed seed resolved else resolved) in
           if pec_URL (cf_Peer resolved) = RedactedURLValue \<and> url = [] then Inl URLPlaceholderUnbound
           else
             let resolved = (if pec_URL (cf_Peer resolved) = RedactedURLValue then setPeerURL url resolved else resolved) in
             if pec_Token (cf_Peer resolved) = RedactedValue \<and> token = [] then Inl TokenPlaceholderUnbound
             else Inr (if pec_Token (cf_Peer resolved) = RedactedValue then setPeerToken token resolved else resolved))"

section \<open>Converted rules\<close>

text \<open>What \<open>netip.ParsePrefix\<close> promises of a prefix it returns.\<close>

definition lib_ok :: "config_lib \<Rightarrow> bool" where
  "lib_ok lib \<longleftrightarrow> (\<forall>s p. cl_ParsePrefix lib s = Some p \<longrightarrow> Prefix_wf p)"

lemma lib_okD: "lib_ok lib \<Longrightarrow> cl_ParsePrefix lib s = Some p \<Longrightarrow> Prefix_wf p"
  by (simp add: lib_ok_def)

lemma parseModeFrom_mem: "parseModeFrom k names v = Some m \<Longrightarrow> v \<in> set names"
  by (induction k names v rule: parseModeFrom.induct) (auto split: if_splits)

lemma ParseMode_musical: "ParseMode v = Some m \<Longrightarrow> validMusicalMode (Mode_String m) \<and> Mode_String m \<noteq> []"
proof -
  assume m: "ParseMode v = Some m"
  then have "v \<in> set modeNames" using parseModeFrom_mem by (simp add: ParseMode_def)
  moreover have "Mode_String m = v" using ParseMode_Some [OF m] by simp
  ultimately show ?thesis by (auto simp: validMusicalMode_def modeNames_def)
qed

lemma toAction_valid:
  assumes "toAction a = (action, [])"
  shows "validateAction action = None \<and> ac_State action = rac_State a \<and> ac_Channel action = rac_Channel a"
proof -
  have st: "rac_State a \<in> {StateIgnore, StateMonitor, StatePlay}" and ch: "\<not> rac_Channel a > 16"
    and pair: "(rac_Mode a = []) = (rac_Root a = None)"
    using assms by (simp_all add: toAction_def Let_def split: if_splits option.splits prod.splits)
  show ?thesis
  proof (cases "rac_Root a")
    case None
    then have "action = \<lparr>ac_State = rac_State a, ac_Channel = rac_Channel a, ac_Mode = [], ac_Root = 0\<rparr>"
      using assms st ch pair by (simp add: toAction_def Let_def split: if_splits)
    then show ?thesis using st ch by (simp add: validateAction_def)
  next
    case (Some tonic)
    obtain m where m: "ParseMode (rac_Mode a) = Some m" "\<not> tonic > 11" "rac_State a = StatePlay"
      using assms pair Some by (simp add: toAction_def Let_def split: if_splits option.splits)
    then have "action = \<lparr>ac_State = rac_State a, ac_Channel = rac_Channel a, ac_Mode = Mode_String m, ac_Root = tonic\<rparr>"
      using assms pair Some ch by (simp add: toAction_def Let_def split: if_splits)
    then show ?thesis using m ch ParseMode_musical [OF m(1)] by (simp add: validateAction_def)
  qed
qed

lemma toPrefix_None: "toPrefix lib cidr e = (p, []) \<Longrightarrow> p = None \<longleftrightarrow> cidr = []"
  by (auto simp: toPrefix_def split: if_splits option.splits)

lemma toPrefix_Some:
  "toPrefix lib cidr e = (Some p, []) \<Longrightarrow> \<exists>q. cl_ParsePrefix lib (strings_TrimSpace cidr) = Some q \<and> p = Prefix_Masked q"
  by (cases "cl_ParsePrefix lib (strings_TrimSpace cidr)") (simp_all add: toPrefix_def split: if_splits)

lemma toPrefix_valid: "lib_ok lib \<Longrightarrow> toPrefix lib cidr e = (Some p, []) \<Longrightarrow> Prefix_IsValid p"
  using toPrefix_Some lib_okD Prefix_Masked_wf by blast

lemma toPorts_ok: "toPorts ports e = (r, []) \<Longrightarrow> \<not> reversed r"
  by (auto simp: toPorts_def reversed_def split: option.splits if_splits)

lemma toSize_ok: "toSize sizes = (Some w, []) \<Longrightarrow> 0 \<le> sir_Minimum w \<and> sir_Minimum w \<le> sir_Maximum w"
  by (auto simp: toSize_def split: option.splits if_splits)

text \<open>The parts of a match that converted without a problem.\<close>

lemma toMatch_parts:
  assumes "toMatch lib m = (match, [])"
  shows "m_ExactFlowID match = rmc_ExactFlowID m" and "m_Protocol match = rmc_Protocol m"
    and "toPrefix lib (rmc_SourceCIDR m) RPSourceCIDR = (m_SourcePrefix match, [])"
    and "toPrefix lib (rmc_DestinationCIDR m) RPDestinationCIDR = (m_DestinationPrefix match, [])"
    and "toPorts (rmc_SourcePorts m) RPSourcePorts = (m_SourcePorts match, [])"
    and "toPorts (rmc_DestinationPorts m) RPDestinationPorts = (m_DestinationPorts match, [])"
    and "toSize (rmc_WireSize m) = (m_WireSize match, [])"
    and "requiredFlags 0 {||} 0 (rmc_RequiredTCPFlags m) = (m_RequiredTCPFlags match, [])"
    and "rmc_ExactFlowID m = [] \<or> flowIDText (rmc_ExactFlowID m)"
    and "rmc_Protocol m = [] \<or> rmc_Protocol m \<in> set protocols"
  using assms by (auto simp: toMatch_def Let_def split: prod.splits if_splits)

lemma toFlowRule_parts:
  assumes "toFlowRule lib rule = Inr r"
  shows "ru_ID r = ruc_ID rule" and "ru_Name r = ruc_Name rule" and "ru_Enabled r = ruc_Enabled rule"
    and "toAction (ruc_Action rule) = (ru_Action r, [])" and "toMatch lib (ruc_Match rule) = (ru_Match r, [])"
    and "strings_TrimSpace (ruc_ID rule) \<noteq> []"
  using assms by (auto simp: toFlowRule_def Let_def split: prod.splits if_splits)

lemma TrimSpace_Nil [simp]: "strings_TrimSpace [] = []"
proof -
  have "find (\<lambda>p. p \<noteq> [] \<and> take (length p) [] = p) ps = None" for ps :: "string list" by (induction ps) auto
  then have "stripPrefix ps [] = None" for ps by (simp add: stripPrefix_def)
  then have "trimLeft ps [] = []" for ps by (simp add: trimLeft.simps)
  then show ?thesis by (simp add: strings_TrimSpace_def)
qed

lemma toFlowRule_valid:
  assumes "lib_ok lib" and "toFlowRule lib rule = Inr r"
  shows "validateRule r = None"
proof -
  note p = toFlowRule_parts [OF assms(2)]
  note q = toMatch_parts [OF p(5)]
  have "ru_ID r \<noteq> []" using p(1,6) by auto
  moreover have "validateAction (ru_Action r) = None" using toAction_valid [OF p(4)] by simp
  moreover have "\<not> (case m_SourcePrefix (ru_Match r) of None \<Rightarrow> False | Some p \<Rightarrow> \<not> Prefix_IsValid p)"
    using q(3) toPrefix_valid [OF assms(1)] by (auto split: option.split)
  moreover have "\<not> (case m_DestinationPrefix (ru_Match r) of None \<Rightarrow> False | Some p \<Rightarrow> \<not> Prefix_IsValid p)"
    using q(4) toPrefix_valid [OF assms(1)] by (auto split: option.split)
  moreover have "\<not> reversed (m_SourcePorts (ru_Match r))" "\<not> reversed (m_DestinationPorts (ru_Match r))"
    using toPorts_ok q(5,6) by blast+
  moreover have "\<not> (case m_WireSize (ru_Match r) of None \<Rightarrow> False | Some w \<Rightarrow> sir_Minimum w < 0 \<or> sir_Minimum w > sir_Maximum w)"
    using q(7) by (auto dest!: toSize_ok split: option.split)
  moreover have "m_Protocol (ru_Match r) = [] \<or> m_Protocol (ru_Match r) \<in> set protocols" using q(2,10) by simp
  ultimately show ?thesis by (simp add: validateRule_def Let_def)
qed

lemma convertRules_ok:
  "convertRules lib index seen rules = (converted, []) \<Longrightarrow>
     list_all2 (\<lambda>rule r. toFlowRule lib rule = Inr r) rules converted \<and> distinct (map ruc_ID rules) \<and>
     (\<forall>rule \<in> set rules. fmlookup seen (ruc_ID rule) = None)"
proof (induction rules arbitrary: index seen converted)
  case (Cons rule rules)
  obtain r where r: "toFlowRule lib rule = Inr r"
    using Cons.prems by (cases "toFlowRule lib rule") (auto simp: Let_def split: prod.splits)
  have new: "fmlookup seen (ruc_ID rule) = None"
    using Cons.prems r toFlowRule_parts(6) [OF r] by (auto simp: Let_def split: prod.splits option.splits)
  obtain rest where rest: "convertRules lib (Suc index) (fmupd (ruc_ID rule) index seen) rules = (rest, [])" "converted = r # rest"
    using Cons.prems r new toFlowRule_parts(6) [OF r] by (auto simp: Let_def split: prod.splits)
  from Cons.IH [OF rest(1)] show ?case using r rest(2) new by (auto split: if_splits)
qed simp

lemma ToFlowRules_ok:
  assumes "ToFlowRules lib rules = Inr converted"
  shows "list_all2 (\<lambda>rule r. toFlowRule lib rule = Inr r) rules converted" and "distinct (map ru_ID converted)"
proof -
  have c: "convertRules lib 0 fmempty rules = (converted, [])" using assms by (auto simp: ToFlowRules_def split: prod.splits if_splits)
  show l: "list_all2 (\<lambda>rule r. toFlowRule lib rule = Inr r) rules converted" using convertRules_ok [OF c] by simp
  then have "map ru_ID converted = map ruc_ID rules"
    by (induction rule: list_all2_induct) (auto dest: toFlowRule_parts(1))
  then show "distinct (map ru_ID converted)" using convertRules_ok [OF c] by simp
qed

section \<open>What a converted match accepts\<close>

lemma requiredFlags_bits:
  "requiredFlags index seen bits flags = (result, []) \<Longrightarrow>
     (\<forall>flag \<in> set flags. flagBit flag \<noteq> None) \<and> distinct flags \<and> (\<forall>flag \<in> set flags. flag |\<notin>| seen) \<and>
     ((ev AND result) = result \<longleftrightarrow> (ev AND bits) = bits \<and> (\<forall>flag \<in> set flags. ev AND the (flagBit flag) = the (flagBit flag)))"
proof (induction index seen bits flags arbitrary: result rule: requiredFlags.induct)
  case (2 index seen bits flag flags)
  have or: "(ev AND (x OR y)) = (x OR y) \<longleftrightarrow> (ev AND x) = x \<and> (ev AND y) = y" for x y :: u8
    by (auto simp: bit_eq_iff bit_simps)
  obtain b where b: "flag |\<notin>| seen" "flagBit flag = Some b" "requiredFlags (Suc index) (finsert flag seen) (bits OR b) flags = (result, [])"
    using "2.prems" by (auto split: if_splits option.splits prod.splits)
  from "2.IH"(3) [OF b] show ?case using b or by auto
qed auto

text \<open>The traffic a configured match describes, as its documentation reads.\<close>

definition cidrAccepts :: "config_lib \<Rightarrow> string \<Rightarrow> Addr \<Rightarrow> bool" where
  "cidrAccepts lib cidr ip \<longleftrightarrow>
     cidr = [] \<or> (\<exists>p. cl_ParsePrefix lib (strings_TrimSpace cidr) = Some p \<and> Prefix_Contains p ip)"

definition describes :: "config_lib \<Rightarrow> RuleMatchConfig \<Rightarrow> Event \<Rightarrow> string \<Rightarrow> bool" where
  "describes lib m event flowID \<longleftrightarrow>
     (rmc_ExactFlowID m = [] \<or> rmc_ExactFlowID m = flowID) \<and>
     cidrAccepts lib (rmc_SourceCIDR m) (ep_Addr (ev_Source event)) \<and>
     cidrAccepts lib (rmc_DestinationCIDR m) (ep_Addr (ev_Destination event)) \<and>
     (rmc_Protocol m = [] \<or> rmc_Protocol m = ev_Protocol event) \<and>
     (\<forall>r. rmc_SourcePorts m = Some r \<longrightarrow> prc_Minimum r \<le> ep_Port (ev_Source event) \<and> ep_Port (ev_Source event) \<le> prc_Maximum r) \<and>
     (\<forall>r. rmc_DestinationPorts m = Some r \<longrightarrow>
        prc_Minimum r \<le> ep_Port (ev_Destination event) \<and> ep_Port (ev_Destination event) \<le> prc_Maximum r) \<and>
     (\<forall>r. rmc_WireSize m = Some r \<longrightarrow> szc_Minimum r \<le> ev_WireLength event \<and> ev_WireLength event \<le> szc_Maximum r) \<and>
     (\<forall>flag \<in> set (rmc_RequiredTCPFlags m). \<exists>b. flagBit flag = Some b \<and> ev_TCPFlags event AND b = b)"

lemma toPrefix_accepts:
  assumes "lib_ok lib" and "toPrefix lib cidr e = (q, [])"
  shows "\<not> (case q of None \<Rightarrow> False | Some p \<Rightarrow> \<not> Prefix_Contains p ip) \<longleftrightarrow> cidrAccepts lib cidr ip"
  using assms Prefix_Masked_Contains [of _ ip]
  by (auto simp: toPrefix_def cidrAccepts_def lib_ok_def simp del: Prefix_Contains.simps split: if_splits option.splits)

lemma toPorts_accepts:
  "toPorts ports e = (q, []) \<Longrightarrow>
     \<not> (case q of None \<Rightarrow> False | Some r \<Rightarrow> \<not> PortRange_contains r port) \<longleftrightarrow>
     (\<forall>r. ports = Some r \<longrightarrow> prc_Minimum r \<le> port \<and> port \<le> prc_Maximum r)"
  by (auto simp: toPorts_def PortRange_contains_def split: option.splits if_splits)

lemma toSize_accepts:
  "toSize sizes = (q, []) \<Longrightarrow>
     \<not> (case q of None \<Rightarrow> False | Some w \<Rightarrow> n < sir_Minimum w \<or> n > sir_Maximum w) \<longleftrightarrow>
     (\<forall>r. sizes = Some r \<longrightarrow> szc_Minimum r \<le> n \<and> n \<le> szc_Maximum r)"
  by (auto simp: toSize_def split: option.splits if_splits)

lemma matches_describes:
  assumes "lib_ok lib" and "toMatch lib m = (match, [])"
  shows "matches match event flowID \<longleftrightarrow> describes lib m event flowID"
proof -
  note q = toMatch_parts [OF assms(2)]
  have flags: "m_RequiredTCPFlags match = 0 \<or> (ev_TCPFlags event AND m_RequiredTCPFlags match) = m_RequiredTCPFlags match \<longleftrightarrow>
      (\<forall>flag \<in> set (rmc_RequiredTCPFlags m). \<exists>b. flagBit flag = Some b \<and> ev_TCPFlags event AND b = b)"
    using requiredFlags_bits [OF q(8), of "ev_TCPFlags event"] by fastforce
  show ?thesis
    unfolding matches_def describes_def flags [symmetric] toPrefix_accepts [OF assms(1) q(3), symmetric]
      toPrefix_accepts [OF assms(1) q(4), symmetric] toPorts_accepts [OF q(5), symmetric] toPorts_accepts [OF q(6), symmetric]
      toSize_accepts [OF q(7), symmetric] q(1,2) [symmetric]
    by (auto simp del: Prefix_Contains.simps)
qed

section \<open>Samples\<close>

text \<open>A library in which only one prefix and one URL parse and no pattern compiles.\<close>

definition sampleConfigLib :: config_lib where
  "sampleConfigLib = \<lparr>cl_regexp = (\<lambda>_. None),
     cl_Parse = (\<lambda>s. if s = ''ws://host'' then Some \<lparr>url_Scheme = ''ws'', url_Host = ''host'', url_User = None, url_RawQuery = [],
        url_Fragment = [], url_rest = []\<rparr> else None),
     cl_ParsePrefix = (\<lambda>s. if s = ''10.0.0.0/8'' then Some \<lparr>pfx_ip = Addr4 0x0A000000, pfx_bitsPlusOne = 9\<rparr> else None)\<rparr>"

lemma sampleConfigLib_ok: "lib_ok sampleConfigLib"
  by (simp add: lib_ok_def sampleConfigLib_def Prefix_wf_def Prefix_IsValid_def Prefix_Bits_def)

definition sampleRuleConfig :: RuleConfig where
  "sampleRuleConfig = \<lparr>ruc_ID = ''lan'', ruc_Name = ''LAN web'', ruc_Enabled = True,
     ruc_Match = \<lparr>rmc_ExactFlowID = [], rmc_SourceCIDR = ''10.0.0.0/8'', rmc_DestinationCIDR = [], rmc_Protocol = ProtocolTCP,
       rmc_SourcePorts = None, rmc_DestinationPorts = Some \<lparr>prc_Minimum = 80, prc_Maximum = 443\<rparr>, rmc_WireSize = None,
       rmc_RequiredTCPFlags = [''syn'', ''ack'']\<rparr>,
     ruc_Action = \<lparr>rac_State = StatePlay, rac_Channel = 3, rac_Mode = [], rac_Root = None\<rparr>\<rparr>"

lemma sampleRule_trim: "strings_TrimSpace ''lan'' = ''lan''" "strings_TrimSpace ''10.0.0.0/8'' = ''10.0.0.0/8''"
  by (rule TrimSpace_plain; simp add: plain_def)+

lemma sampleRules_convert: "\<exists>r. ToFlowRules sampleConfigLib [sampleRuleConfig] = Inr [r]"
  by (simp add: ToFlowRules_def toFlowRule_def sampleRuleConfig_def sampleRule_trim toAction_def toMatch_def toPrefix_def
      sampleConfigLib_def toPorts_def toSize_def protocols_def flagBit_def Let_def)

lemma default_trim: "strings_TrimSpace ''musical-packets'' = ''musical-packets''" "strings_TrimSpace ''auto'' = ''auto''"
  by (rule TrimSpace_plain; simp add: plain_def)+

lemma default_listen: "net_SplitHostPort ''127.0.0.1:8080'' = Some (''127.0.0.1'', ''8080'')"
  by code_simp

lemma default_metric: "validMetricName ''musical_packets''"
  by code_simp

text \<open>The built-in configuration is valid, whatever the library.\<close>

lemmas default_simps = Config_Validate_def Config_Default_def validateMapping_def validatePerformance_def problem_def default_trim
  default_listen default_metric [simplified] RoleStandalone_def RoleEdge_def FlowRules_def ToFlowRules_def minute_def second_def
  millisecond_def microsecond_def

lemma Config_Default_valid: "Config_Validate lib Config_Default = []"
  by (simp add: default_simps)

section \<open>Properties\<close>



text \<open>
  Redaction hides the secrets and loses nothing. Resolving a redacted configuration against the active
  one gives the active one back; two configurations that differ only in the values of secrets that are set
  have the same redacted form; and whatever a client submits, a set secret is never replaced by the
  client's value.
\<close>

theorem Redaction_roundtrip:
  "ResolveRedacted (Redacted c) c = Inr c \<and>
   (seed \<noteq> [] \<and> url \<noteq> [] \<and> token \<noteq> [] \<and> mac_Seed (cf_Mapping c) \<noteq> [] \<and> pec_URL (cf_Peer c) \<noteq> [] \<and> pec_Token (cf_Peer c) \<noteq> [] \<longrightarrow>
      Redacted (setPeerToken token (setPeerURL url (setSeed seed c))) = Redacted c) \<and>
   (\<forall>resolved. ResolveRedacted candidate c = Inr resolved \<longrightarrow>
      (mac_Seed (cf_Mapping c) \<noteq> [] \<longrightarrow> mac_Seed (cf_Mapping resolved) = mac_Seed (cf_Mapping c)) \<and>
      (pec_URL (cf_Peer c) \<noteq> [] \<longrightarrow> pec_URL (cf_Peer resolved) = pec_URL (cf_Peer c)) \<and>
      (pec_Token (cf_Peer c) \<noteq> [] \<longrightarrow> pec_Token (cf_Peer resolved) = pec_Token (cf_Peer c)))"
proof (intro conjI impI allI)
  show "ResolveRedacted (Redacted c) c = Inr c"
    by (simp add: ResolveRedacted_def Redacted_def setSeed_def setPeerURL_def setPeerToken_def RedactedValue_def
        RedactedURLValue_def Let_def)
next
  assume "seed \<noteq> [] \<and> url \<noteq> [] \<and> token \<noteq> [] \<and> mac_Seed (cf_Mapping c) \<noteq> [] \<and> pec_URL (cf_Peer c) \<noteq> [] \<and> pec_Token (cf_Peer c) \<noteq> []"
  then show "Redacted (setPeerToken token (setPeerURL url (setSeed seed c))) = Redacted c"
    by (simp add: Redacted_def setSeed_def setPeerURL_def setPeerToken_def Let_def)
next
  fix resolved
  assume r: "ResolveRedacted candidate c = Inr resolved"
  note defs = ResolveRedacted_def setSeed_def setPeerURL_def setPeerToken_def Let_def
  show "mac_Seed (cf_Mapping resolved) = mac_Seed (cf_Mapping c)" if "mac_Seed (cf_Mapping c) \<noteq> []"
    using r that by (auto simp: defs split: if_splits)
  show "pec_URL (cf_Peer resolved) = pec_URL (cf_Peer c)" if "pec_URL (cf_Peer c) \<noteq> []"
    using r that by (auto simp: defs split: if_splits)
  show "pec_Token (cf_Peer resolved) = pec_Token (cf_Peer c)" if "pec_Token (cf_Peer c) \<noteq> []"
    using r that by (auto simp: defs split: if_splits)
qed

theorem Redaction_roundtrip_witness:
  "ResolveRedacted (Redacted Config_Default) Config_Default = Inr Config_Default \<and>
   Redacted Config_Default \<noteq> Config_Default"
  using Redaction_roundtrip [of Config_Default] by (simp add: Redacted_def Config_Default_def setSeed_def RedactedValue_def Let_def)

end
