(* ===== verification/Repository.thy ===== *)
theory Repository
  imports Config
begin

text \<open>
  internal/config/load.go and repository.go: strict decoding and canonical encoding of the configuration,
  and the file repository that replaces it by compare-and-swap and rolls a change back. gopkg.in/yaml.v3
  is an argument. The operating system is the configuration file, the temporary file beside it, and the
  answers of the system calls; what programs that ignore the advisory lock do to the file is an argument
  too. A nil error is an empty list, \<open>errors.Join\<close> concatenates.
\<close>

section \<open>Decoding and encoding (load.go)\<close>

text \<open>
  What the YAML decoder makes of a document: the configuration it overlays on the given one, the end of
  an empty input, or an error; and what follows the document.
\<close>

datatype yaml_result = YamlOK Config | YamlEOF | YamlError string
datatype yaml_trailing = TrailingEOF | TrailingDocument | TrailingError string

record yaml_lib =
  yl_config :: config_lib
  yl_Decode :: "Config \<Rightarrow> bytes \<Rightarrow> yaml_result"
  yl_Trailing :: "bytes \<Rightarrow> yaml_trailing"
  yl_Encode :: "Config \<Rightarrow> string + bytes"

type_synonym Revision = string

datatype repo_error =
    Conflict Revision Revision
  | DecodeConfig string
  | MultipleDocuments
  | DecodeTrailing string
  | ValidateConfig "config_problem list"
  | EncodeConfig string
  | ConfigSize nat
  | SymlinkUnsupported
  | NotRegular
  | FileChanged
  | ModePermits u32
  | ModeChanged u32 u32
  | ForeignChange
  | CallFailed string string
  | ContextError string

definition config_Decode :: "yaml_lib \<Rightarrow> bytes \<Rightarrow> repo_error list + Config" where
  "config_Decode lib contents =
     (let trailing = (\<lambda>c. case yl_Trailing lib contents of
            TrailingDocument \<Rightarrow> Inl [MultipleDocuments]
          | TrailingError e \<Rightarrow> Inl [DecodeTrailing e]
          | TrailingEOF \<Rightarrow>
              let problems = Config_Validate (yl_config lib) c
              in if problems \<noteq> [] then Inl [ValidateConfig problems] else Inr c)
      in case yl_Decode lib Config_Default contents of
           YamlError e \<Rightarrow> Inl [DecodeConfig e]
         | YamlEOF \<Rightarrow> trailing Config_Default
         | YamlOK c \<Rightarrow> trailing c)"

definition config_Encode :: "yaml_lib \<Rightarrow> Config \<Rightarrow> repo_error list + bytes" where
  "config_Encode lib c =
     (let problems = Config_Validate (yl_config lib) c
      in if problems \<noteq> [] then Inl [ValidateConfig problems]
         else case yl_Encode lib c of Inl e \<Rightarrow> Inl [EncodeConfig e] | Inr output \<Rightarrow> Inr output)"

section \<open>State (repository.go)\<close>

definition MaximumBytes :: nat where "MaximumBytes = 1048576"

definition digest :: "bytes \<Rightarrow> Revision" where
  "digest contents = hex_EncodeToString (sha256_Sum256 contents)"

record ConfigSnapshot =
  cs_Config :: Config
  cs_Revision :: Revision
  cs_contents :: bytes
  cs_mode :: u32

record Change =
  ch_Before :: ConfigSnapshot
  ch_After :: ConfigSnapshot
  ch_Warning :: "repo_error list"
  ch_provenance :: nat
  ch_beforeContents :: bytes
  ch_beforeMode :: u32
  ch_afterRevision :: Revision
  ch_afterMode :: u32
  ch_changed :: bool

datatype file_kind = RegularFile | SymbolicLink | OtherFile

record config_file =
  fl_kind :: file_kind
  fl_contents :: bytes
  fl_mode :: u32
  fl_inode :: nat

record disk =
  dk_file :: "config_file option"
  dk_temp :: "(bytes \<times> u32) option"
  dk_inode :: nat

text \<open>The answers of the system to one reading, and what other programs did before it and while it opened.\<close>

record read_io =
  ri_before :: "config_file option \<Rightarrow> config_file option"
  ri_lstat :: "string option"
  ri_between :: "config_file option \<Rightarrow> config_file option"
  ri_open :: "string option"
  ri_read :: "string option"

datatype flock_answer = Locked | WouldBlock | FlockError string

text \<open>
  The answers to one mutation, in the order of the calls. The context is done with \<open>mu_cancel\<close> when the
  answers of \<open>flock\<close> run out; \<open>mu_race\<close> is what others do between the last check and the rename.
\<close>

record mutation_io =
  mu_ctxLock :: "string option"
  mu_openLock :: "string option"
  mu_flock :: "flock_answer list"
  mu_cancel :: string
  mu_closeLock :: "string option"
  mu_read :: read_io
  mu_ctxCommit :: "string option"
  mu_createTemp :: "string option"
  mu_write :: "string option"
  mu_partial :: bytes
  mu_chmod :: "string option"
  mu_sync :: "string option"
  mu_close :: "string option"
  mu_remove :: "string option"
  mu_ctxClosed :: "string option"
  mu_recheck :: read_io
  mu_ctxRename :: "string option"
  mu_race :: "config_file option \<Rightarrow> config_file option"
  mu_rename :: "string option"
  mu_syncDirectory :: "string option"
  mu_release :: "string option"

definition failed :: "string \<Rightarrow> string option \<Rightarrow> repo_error list" where
  "failed call answer = (case answer of None \<Rightarrow> [] | Some e \<Rightarrow> [CallFailed call e])"

definition ctxErr :: "string option \<Rightarrow> repo_error list" where
  "ctxErr answer = (case answer of None \<Rightarrow> [] | Some e \<Rightarrow> [ContextError e])"

section \<open>Reading\<close>

definition checkRevision :: "Revision \<Rightarrow> Revision \<Rightarrow> repo_error list" where
  "checkRevision expected actual = (if expected = actual then [] else [Conflict expected actual])"

definition writableMode :: "u32 \<Rightarrow> u32" where
  "writableMode mode = mode AND 0x1FF"

definition validateReplacementMode :: "u32 \<Rightarrow> repo_error list" where
  "validateReplacementMode mode = (let permissions = mode AND 0x1FF in if permissions AND 0x3F \<noteq> 0 then [ModePermits permissions] else [])"

definition repo_snapshot :: "yaml_lib \<Rightarrow> bytes \<Rightarrow> u32 \<Rightarrow> repo_error list + ConfigSnapshot" where
  "repo_snapshot lib contents mode =
     (if length contents > MaximumBytes then Inl [ConfigSize (length contents)]
      else case config_Decode lib contents of
        Inl e \<Rightarrow> Inl e
      | Inr c \<Rightarrow> Inr \<lparr>cs_Config = c, cs_Revision = digest contents, cs_contents = contents, cs_mode = writableMode mode\<rparr>)"

definition repo_read :: "yaml_lib \<Rightarrow> read_io \<Rightarrow> disk \<Rightarrow> (repo_error list + ConfigSnapshot) \<times> disk" where
  "repo_read lib io disk0 =
     (let disk = disk0\<lparr>dk_file := ri_before io (dk_file disk0)\<rparr> in
      case (ri_lstat io, dk_file disk) of
        (Some e, _) \<Rightarrow> (Inl [CallFailed ''lstat'' e], disk)
      | (None, None) \<Rightarrow> (Inl [CallFailed ''lstat'' ''file does not exist''], disk)
      | (None, Some info) \<Rightarrow>
        if fl_kind info = SymbolicLink then (Inl [SymlinkUnsupported], disk)
        else if fl_kind info \<noteq> RegularFile then (Inl [NotRegular], disk)
        else
          let disk = disk\<lparr>dk_file := ri_between io (dk_file disk)\<rparr> in
          case (ri_open io, dk_file disk) of
            (Some e, _) \<Rightarrow> (Inl [CallFailed ''open'' e], disk)
          | (None, None) \<Rightarrow> (Inl [CallFailed ''open'' ''file does not exist''], disk)
          | (None, Some opened) \<Rightarrow>
            let contents = take (MaximumBytes + 1) (fl_contents opened) in
            if ri_read io \<noteq> None then (Inl (failed ''read'' (ri_read io)), disk)
            else if fl_kind opened \<noteq> RegularFile \<or> fl_inode info \<noteq> fl_inode opened then (Inl [FileChanged], disk)
            else if length contents > MaximumBytes then (Inl [ConfigSize (length contents)], disk)
            else (repo_snapshot lib contents (fl_mode opened), disk))"

definition Repository_Read :: "yaml_lib \<Rightarrow> read_io \<Rightarrow> disk \<Rightarrow> (repo_error list + ConfigSnapshot) \<times> disk" where
  "Repository_Read lib io disk = repo_read lib io disk"

section \<open>Mutations\<close>

text \<open>\<open>acquireLock\<close>: the loop that retries while the lock is held elsewhere.\<close>

fun lockLoop :: "mutation_io \<Rightarrow> flock_answer list \<Rightarrow> repo_error list" where
  "lockLoop io [] = ContextError (mu_cancel io) # failed ''close'' (mu_closeLock io)"
| "lockLoop io (Locked # answers) = []"
| "lockLoop io (FlockError e # answers) = CallFailed ''flock'' e # failed ''close'' (mu_closeLock io)"
| "lockLoop io (WouldBlock # answers) = lockLoop io answers"

definition acquireLock :: "mutation_io \<Rightarrow> repo_error list" where
  "acquireLock io =
     (if mu_ctxLock io \<noteq> None then ctxErr (mu_ctxLock io)
      else if mu_openLock io \<noteq> None then failed ''open lock'' (mu_openLock io)
      else lockLoop io (mu_flock io))"

definition repo_change :: "nat \<Rightarrow> ConfigSnapshot \<Rightarrow> ConfigSnapshot \<Rightarrow> repo_error list \<Rightarrow> Change" where
  "repo_change provenance before after warning =
     \<lparr>ch_Before = before, ch_After = after, ch_Warning = warning, ch_provenance = provenance,
      ch_beforeContents = cs_contents before, ch_beforeMode = cs_mode before, ch_afterRevision = cs_Revision after,
      ch_afterMode = cs_mode after, ch_changed = (cs_Revision before \<noteq> cs_Revision after \<or> cs_mode before \<noteq> cs_mode after)\<rparr>"

text \<open>The deferred cleanup of \<open>commit\<close> when it did not rename: close the file if it is open and remove it.\<close>

definition commitAbort :: "mutation_io \<Rightarrow> bool \<Rightarrow> repo_error list \<Rightarrow> disk \<Rightarrow> (repo_error list + Change) \<times> disk" where
  "commitAbort io isClosed errs disk =
     (let errs = errs @ (if isClosed then [] else failed ''close'' (mu_close io))
      in case mu_remove io of
           Some e \<Rightarrow> (Inl (errs @ [CallFailed ''remove'' e]), disk)
         | None \<Rightarrow> (Inl errs, disk\<lparr>dk_temp := None\<rparr>))"

definition installFile :: "disk \<Rightarrow> disk" where
  "installFile disk =
     (case dk_temp disk of
        None \<Rightarrow> disk
      | Some (contents, mode) \<Rightarrow>
        disk\<lparr>dk_file := Some \<lparr>fl_kind = RegularFile, fl_contents = contents, fl_mode = mode, fl_inode = dk_inode disk\<rparr>,
             dk_temp := None, dk_inode := Suc (dk_inode disk)\<rparr>)"

text \<open>From the second reading on: check that the file is still the expected one, then rename.\<close>

definition commitRename ::
  "yaml_lib \<Rightarrow> mutation_io \<Rightarrow> nat \<Rightarrow> ConfigSnapshot \<Rightarrow> Revision \<Rightarrow> ConfigSnapshot \<Rightarrow> disk \<Rightarrow> (repo_error list + Change) \<times> disk" where
  "commitRename lib io provenance before expected target disk0 =
     (case repo_read lib (mu_recheck io) disk0 of
        (Inl e, disk) \<Rightarrow> commitAbort io True e disk
      | (Inr latest, disk) \<Rightarrow>
        if checkRevision expected (cs_Revision latest) \<noteq> [] then commitAbort io True (checkRevision expected (cs_Revision latest)) disk
        else if cs_mode latest \<noteq> cs_mode before then commitAbort io True [ModeChanged (cs_mode before) (cs_mode latest)] disk
        else if mu_ctxRename io \<noteq> None then commitAbort io True (ctxErr (mu_ctxRename io)) disk
        else
          let disk = disk\<lparr>dk_file := mu_race io (dk_file disk)\<rparr> in
          if mu_rename io \<noteq> None then commitAbort io True (failed ''rename'' (mu_rename io)) disk
          else (Inr (repo_change provenance latest target (failed ''sync directory'' (mu_syncDirectory io))), installFile disk))"

definition commit ::
  "yaml_lib \<Rightarrow> mutation_io \<Rightarrow> nat \<Rightarrow> ConfigSnapshot \<Rightarrow> Revision \<Rightarrow> ConfigSnapshot \<Rightarrow> disk \<Rightarrow> (repo_error list + Change) \<times> disk" where
  "commit lib io provenance before expected target disk0 =
     (if mu_ctxCommit io \<noteq> None then (Inl (ctxErr (mu_ctxCommit io)), disk0)
      else if mu_createTemp io \<noteq> None then (Inl (failed ''create temporary'' (mu_createTemp io)), disk0)
      else if mu_write io \<noteq> None
      then commitAbort io False (failed ''write'' (mu_write io)) (disk0\<lparr>dk_temp := Some (mu_partial io, 0x180)\<rparr>)
      else
        let disk = disk0\<lparr>dk_temp := Some (cs_contents target, 0x180)\<rparr> in
        if mu_chmod io \<noteq> None then commitAbort io False (failed ''chmod'' (mu_chmod io)) disk
        else
          let disk = disk\<lparr>dk_temp := Some (cs_contents target, cs_mode target)\<rparr> in
          if mu_sync io \<noteq> None then commitAbort io False (failed ''sync'' (mu_sync io)) disk
          else if mu_close io \<noteq> None then commitAbort io True (failed ''close'' (mu_close io)) disk
          else if mu_ctxClosed io \<noteq> None then commitAbort io True (ctxErr (mu_ctxClosed io)) disk
          else commitRename lib io provenance before expected target disk)"

text \<open>The deferred release of the lock: a problem after a committed change is a warning, otherwise an error.\<close>

definition finishMutation :: "mutation_io \<Rightarrow> repo_error list + Change \<Rightarrow> repo_error list + Change" where
  "finishMutation io result =
     (let release = failed ''release lock'' (mu_release io) in
      if release = [] then result
      else case result of
        Inl errs \<Rightarrow> Inl (errs @ release)
      | Inr change \<Rightarrow> if ch_changed change then Inr (change\<lparr>ch_Warning := ch_Warning change @ release\<rparr>) else Inl release)"

text \<open>The bodies of the two mutations under the lock.\<close>

definition replaceLocked ::
  "yaml_lib \<Rightarrow> mutation_io \<Rightarrow> nat \<Rightarrow> Revision \<Rightarrow> Config \<Rightarrow> disk \<Rightarrow> (repo_error list + Change) \<times> disk" where
  "replaceLocked lib io provenance expected configuration disk0 =
     (case repo_read lib (mu_read io) disk0 of
        (Inl e, disk) \<Rightarrow> (Inl e, disk)
      | (Inr current, disk) \<Rightarrow>
        if checkRevision expected (cs_Revision current) \<noteq> [] then (Inl (checkRevision expected (cs_Revision current)), disk)
        else case config_Encode lib configuration of
          Inl e \<Rightarrow> (Inl e, disk)
        | Inr contents \<Rightarrow>
          if length contents > MaximumBytes then (Inl [ConfigSize (length contents)], disk)
          else case config_Encode lib (cs_Config current) of
            Inl e \<Rightarrow> (Inl e, disk)
          | Inr currentCanonical \<Rightarrow>
            if contents = currentCanonical then (Inr (repo_change provenance current current []), disk)
            else if validateReplacementMode (cs_mode current) \<noteq> [] then (Inl (validateReplacementMode (cs_mode current)), disk)
            else case repo_snapshot lib contents (cs_mode current) of
              Inl e \<Rightarrow> (Inl e, disk)
            | Inr target \<Rightarrow> commit lib io provenance current expected target disk)"

definition rollbackLocked ::
  "yaml_lib \<Rightarrow> mutation_io \<Rightarrow> nat \<Rightarrow> Change \<Rightarrow> disk \<Rightarrow> (repo_error list + Change) \<times> disk" where
  "rollbackLocked lib io provenance change disk0 =
     (if ch_provenance change \<noteq> provenance then (Inl [ForeignChange], disk0)
      else case repo_read lib (mu_read io) disk0 of
        (Inl e, disk) \<Rightarrow> (Inl e, disk)
      | (Inr current, disk) \<Rightarrow>
        if checkRevision (ch_afterRevision change) (cs_Revision current) \<noteq> []
        then (Inl (checkRevision (ch_afterRevision change) (cs_Revision current)), disk)
        else if cs_mode current \<noteq> ch_afterMode change then (Inl [ModeChanged (ch_afterMode change) (cs_mode current)], disk)
        else if cs_contents current = ch_beforeContents change \<and> cs_mode current = ch_beforeMode change
        then (Inr (repo_change provenance current current []), disk)
        else if validateReplacementMode (cs_mode current) \<noteq> [] then (Inl (validateReplacementMode (cs_mode current)), disk)
        else if validateReplacementMode (ch_beforeMode change) \<noteq> [] then (Inl (validateReplacementMode (ch_beforeMode change)), disk)
        else case repo_snapshot lib (ch_beforeContents change) (ch_beforeMode change) of
          Inl e \<Rightarrow> (Inl e, disk)
        | Inr target \<Rightarrow> commit lib io provenance current (ch_afterRevision change) target disk)"

definition underLock :: "mutation_io \<Rightarrow> (disk \<Rightarrow> (repo_error list + Change) \<times> disk) \<Rightarrow> disk \<Rightarrow> (repo_error list + Change) \<times> disk" where
  "underLock io body disk =
     (if acquireLock io \<noteq> [] then (Inl (acquireLock io), disk)
      else let (result, disk) = body disk in (finishMutation io result, disk))"

definition ReplaceContext ::
  "yaml_lib \<Rightarrow> mutation_io \<Rightarrow> nat \<Rightarrow> Revision \<Rightarrow> Config \<Rightarrow> disk \<Rightarrow> (repo_error list + Change) \<times> disk" where
  "ReplaceContext lib io provenance expected configuration disk =
     underLock io (replaceLocked lib io provenance expected configuration) disk"

definition RollbackContext ::
  "yaml_lib \<Rightarrow> mutation_io \<Rightarrow> nat \<Rightarrow> Change \<Rightarrow> disk \<Rightarrow> (repo_error list + Change) \<times> disk" where
  "RollbackContext lib io provenance change disk = underLock io (rollbackLocked lib io provenance change) disk"

section \<open>What a mutation does to the file\<close>

text \<open>Only programs that respect the lock touch the file, and its mode has no bits beyond the permissions.\<close>

definition cooperative :: "mutation_io \<Rightarrow> bool" where
  "cooperative io \<longleftrightarrow> mu_race io = id \<and> ri_before (mu_read io) = id \<and> ri_between (mu_read io) = id \<and>
     ri_before (mu_recheck io) = id \<and> ri_between (mu_recheck io) = id"

lemma repo_read_quiet:
  assumes "ri_before io = id" and "ri_between io = id" and "repo_read lib io disk = (result, disk')"
  shows "disk' = disk"
  using assms by (auto simp: repo_read_def Let_def split: option.splits if_splits)

lemma repo_read_Inr:
  assumes "repo_read lib io disk = (Inr snapshot, disk')"
  shows "\<exists>file. dk_file disk' = Some file \<and> fl_kind file = RegularFile \<and> cs_contents snapshot = fl_contents file \<and>
    cs_Revision snapshot = digest (fl_contents file) \<and> cs_mode snapshot = writableMode (fl_mode file) \<and>
    config_Decode lib (fl_contents file) = Inr (cs_Config snapshot) \<and> length (fl_contents file) \<le> MaximumBytes"
proof -
  obtain cfile where f: "dk_file disk' = Some cfile" "fl_kind cfile = RegularFile"
    "length (take (MaximumBytes + 1) (fl_contents cfile)) \<le> MaximumBytes"
    "repo_snapshot lib (take (MaximumBytes + 1) (fl_contents cfile)) (fl_mode cfile) = Inr snapshot"
    using assms by (auto simp: repo_read_def Let_def split: option.splits if_splits)
  have "length (fl_contents cfile) \<le> MaximumBytes" using f(3) by simp
  then have t: "take (MaximumBytes + 1) (fl_contents cfile) = fl_contents cfile" by simp
  show ?thesis using f unfolding t by (auto simp: repo_snapshot_def split: if_splits sum.splits)
qed

lemma repo_snapshot_Inr:
  "repo_snapshot lib contents mode = Inr s \<Longrightarrow> cs_contents s = contents \<and> cs_Revision s = digest contents \<and>
     cs_mode s = writableMode mode \<and> config_Decode lib contents = Inr (cs_Config s) \<and> length contents \<le> MaximumBytes"
  by (auto simp: repo_snapshot_def split: if_splits sum.splits)

lemma writableMode_idem [simp]: "writableMode (writableMode m) = writableMode m"
  by (simp add: writableMode_def and.assoc)

lemma config_Decode_valid: "config_Decode lib contents = Inr c \<Longrightarrow> Config_Validate (yl_config lib) c = []"
  by (auto simp: config_Decode_def Let_def split: yaml_result.splits yaml_trailing.splits if_splits)

lemma commitAbort_file: "commitAbort io b errs disk = (result, disk') \<Longrightarrow> (\<exists>e. result = Inl e) \<and> dk_file disk' = dk_file disk"
  by (auto simp: commitAbort_def Let_def split: option.splits)

text \<open>A commit either leaves the file alone or installs the target over the file that it checked last.\<close>

definition installed :: "yaml_lib \<Rightarrow> nat \<Rightarrow> ConfigSnapshot \<Rightarrow> Revision \<Rightarrow> ConfigSnapshot \<Rightarrow> disk \<Rightarrow> Change \<Rightarrow> disk \<Rightarrow> bool" where
  "installed lib provenance before expected target disk change disk' \<longleftrightarrow>
     (\<exists>file inode. dk_file disk = Some file \<and> digest (fl_contents file) = expected \<and> writableMode (fl_mode file) = cs_mode before \<and>
        is_ok (config_Decode lib (fl_contents file)) \<and> length (fl_contents file) \<le> MaximumBytes \<and>
        ch_beforeContents change = fl_contents file \<and> ch_beforeMode change = cs_mode before \<and>
        ch_provenance change = provenance \<and> ch_After change = target \<and>
        ch_afterRevision change = cs_Revision target \<and> ch_afterMode change = cs_mode target \<and>
        ch_changed change = (expected \<noteq> cs_Revision target \<or> cs_mode before \<noteq> cs_mode target) \<and>
        dk_file disk' = Some \<lparr>fl_kind = RegularFile, fl_contents = cs_contents target, fl_mode = cs_mode target, fl_inode = inode\<rparr>)"

lemma commitRename_spec:
  assumes "cooperative io" and temp: "dk_temp disk = Some (cs_contents target, cs_mode target)"
    and "commitRename lib io provenance before expected target disk = (result, disk')"
  shows "(\<exists>e. result = Inl e) \<and> dk_file disk' = dk_file disk \<or> (\<exists>change. result = Inr change \<and> installed lib provenance before expected target disk change disk')"
proof -
  obtain r d where r: "repo_read lib (mu_recheck io) disk = (r, d)" by force
  have d: "d = disk" using repo_read_quiet [OF _ _ r] assms(1) by (simp add: cooperative_def)
  show ?thesis
  proof (cases r)
    case (Inl e)
    then show ?thesis using assms(3) r d commitAbort_file [of io True e disk result disk'] by (simp add: commitRename_def)
  next
    case (Inr latest)
    let ?abort = "\<exists>errs. commitAbort io True errs disk = (result, disk')"
    have "?abort \<or> (checkRevision expected (cs_Revision latest) = [] \<and> cs_mode latest = cs_mode before \<and>
        result = Inr (repo_change provenance latest target (failed ''sync directory'' (mu_syncDirectory io))) \<and> disk' = installFile disk)"
      using assms(1,3) r Inr unfolding d by (auto simp: commitRename_def cooperative_def split: if_splits)
    moreover have "(\<exists>change. result = Inr change \<and> installed lib provenance before expected target disk change disk')"
      if "checkRevision expected (cs_Revision latest) = []" "cs_mode latest = cs_mode before"
        "result = Inr (repo_change provenance latest target (failed ''sync directory'' (mu_syncDirectory io)))" "disk' = installFile disk"
      using repo_read_Inr [of lib "mu_recheck io" disk latest d] r Inr d that temp
      by (auto simp: installed_def repo_change_def installFile_def checkRevision_def split: if_splits)
    ultimately show ?thesis using commitAbort_file by metis
  qed
qed

lemma commit_spec:
  assumes "cooperative io" and "commit lib io provenance before expected target disk = (result, disk')"
  shows "(\<exists>e. result = Inl e) \<and> dk_file disk' = dk_file disk \<or> (\<exists>change. result = Inr change \<and> installed lib provenance before expected target disk change disk')"
proof -
  let ?d = "disk\<lparr>dk_temp := Some (cs_contents target, cs_mode target)\<rparr>"
  consider "(\<exists>e. result = Inl e) \<and> disk' = disk"
    | b errs t where "commitAbort io b errs (disk\<lparr>dk_temp := t\<rparr>) = (result, disk')"
    | "commitRename lib io provenance before expected target ?d = (result, disk')"
    using assms(2) by (auto simp: commit_def Let_def split: if_splits)
  then show ?thesis
  proof cases
    case 3
    then show ?thesis using commitRename_spec [OF assms(1) _ 3] by (simp add: installed_def)
  qed (use commitAbort_file in fastforce)+
qed

lemma finishMutation_cases:
  "finishMutation io result = Inl e \<Longrightarrow> (\<exists>errs. result = Inl errs) \<or> (\<exists>change. result = Inr change \<and> \<not> ch_changed change)"
  "finishMutation io result = Inr change \<Longrightarrow> \<exists>warning. result = Inr (change\<lparr>ch_Warning := warning\<rparr>)"
  by (auto simp: finishMutation_def Let_def split: if_splits sum.splits) (metis Change.surjective Change.update_convs(3))+

text \<open>What the caller of a mutation can rely on, with the contents and mode before and after.\<close>

definition durable :: "disk \<Rightarrow> (Revision \<times> u32) option" where
  "durable disk = map_option (\<lambda>file. (digest (fl_contents file), writableMode (fl_mode file))) (dk_file disk)"

definition holds :: "yaml_lib \<Rightarrow> ConfigSnapshot \<Rightarrow> disk \<Rightarrow> bool" where
  "holds lib snapshot disk \<longleftrightarrow> (\<exists>cfile. dk_file disk = Some cfile \<and> fl_kind cfile = RegularFile \<and> cs_contents snapshot = fl_contents cfile \<and>
     cs_Revision snapshot = digest (fl_contents cfile) \<and> cs_mode snapshot = writableMode (fl_mode cfile) \<and>
     config_Decode lib (fl_contents cfile) = Inr (cs_Config snapshot) \<and> length (fl_contents cfile) \<le> MaximumBytes)"

lemma replaceLocked_spec:
  assumes coop: "cooperative io" and run: "replaceLocked lib io provenance expected c disk = (result, disk')"
  shows "(\<exists>e. result = Inl e) \<and> dk_file disk' = dk_file disk \<or>
    (\<exists>current. result = Inr (repo_change provenance current current []) \<and> disk' = disk \<and> cs_Revision current = expected \<and>
       holds lib current disk) \<or>
    (\<exists>change before target contents. result = Inr change \<and> installed lib provenance before expected target disk change disk' \<and>
       config_Encode lib c = Inr contents \<and> repo_snapshot lib contents (cs_mode before) = Inr target \<and>
       validateReplacementMode (cs_mode before) = [])"
proof -
  obtain r d where r: "repo_read lib (mu_read io) disk = (r, d)" by force
  have d: "d = disk" using repo_read_quiet [OF _ _ r] coop by (simp add: cooperative_def)
  show ?thesis
  proof (cases "\<exists>current contents canonical target. r = Inr current \<and> checkRevision expected (cs_Revision current) = [] \<and>
      config_Encode lib c = Inr contents \<and> length contents \<le> MaximumBytes \<and> config_Encode lib (cs_Config current) = Inr canonical \<and>
      (contents = canonical \<or> validateReplacementMode (cs_mode current) = [] \<and> repo_snapshot lib contents (cs_mode current) = Inr target)")
    case False
    then have "(\<exists>e. result = Inl e) \<and> disk' = disk"
      using run r d by (auto simp: replaceLocked_def split: sum.splits if_splits)
    then show ?thesis by simp
  next
    case True
    then obtain current contents canonical target where t: "r = Inr current" "checkRevision expected (cs_Revision current) = []"
      "config_Encode lib c = Inr contents" "length contents \<le> MaximumBytes" "config_Encode lib (cs_Config current) = Inr canonical"
      "contents = canonical \<or> validateReplacementMode (cs_mode current) = [] \<and> repo_snapshot lib contents (cs_mode current) = Inr target"
      by blast
    have f: "holds lib current disk" using repo_read_Inr [of lib "mu_read io" disk current d] r t(1) d by (simp add: holds_def)
    show ?thesis
    proof (cases "contents = canonical")
      case True
      then have "result = Inr (repo_change provenance current current [])" "disk' = disk"
        using run r d t by (auto simp: replaceLocked_def)
      then show ?thesis using f t(2) by (auto simp: checkRevision_def split: if_splits)
    next
      case False
      then have "commit lib io provenance current expected target disk = (result, disk')"
        using run r d t by (auto simp: replaceLocked_def)
      from commit_spec [OF coop this] t False show ?thesis by blast
    qed
  qed
qed

lemma rollbackLocked_spec:
  assumes coop: "cooperative io" and run: "rollbackLocked lib io provenance change disk = (result, disk')"
  shows "(\<exists>e. result = Inl e) \<and> dk_file disk' = dk_file disk \<or>
    (\<exists>back. result = Inr back \<and> disk' = disk \<and> \<not> ch_changed back \<and> ch_afterRevision back = ch_afterRevision change \<and>
       (\<exists>file. dk_file disk = Some file \<and> fl_contents file = ch_beforeContents change \<and> writableMode (fl_mode file) = ch_beforeMode change)) \<or>
    (\<exists>back before target. result = Inr back \<and> installed lib provenance before (ch_afterRevision change) target disk back disk' \<and>
       repo_snapshot lib (ch_beforeContents change) (ch_beforeMode change) = Inr target)"
proof -
  obtain r d where r: "repo_read lib (mu_read io) disk = (r, d)" by force
  have d: "d = disk" using repo_read_quiet [OF _ _ r] coop by (simp add: cooperative_def)
  show ?thesis
  proof (cases "\<exists>current target. ch_provenance change = provenance \<and> r = Inr current \<and>
      checkRevision (ch_afterRevision change) (cs_Revision current) = [] \<and>
      (cs_contents current = ch_beforeContents change \<and> cs_mode current = ch_beforeMode change \<or>
       commit lib io provenance current (ch_afterRevision change) target disk = (result, disk') \<and>
       repo_snapshot lib (ch_beforeContents change) (ch_beforeMode change) = Inr target)")
    case False
    then have "(\<exists>e. result = Inl e) \<and> disk' = disk"
      using run r d by (auto simp: rollbackLocked_def split: sum.splits if_splits)
    then show ?thesis by simp
  next
    case True
    then obtain current target where t: "ch_provenance change = provenance" "r = Inr current"
      "checkRevision (ch_afterRevision change) (cs_Revision current) = []"
      "cs_contents current = ch_beforeContents change \<and> cs_mode current = ch_beforeMode change \<or>
       commit lib io provenance current (ch_afterRevision change) target disk = (result, disk') \<and>
       repo_snapshot lib (ch_beforeContents change) (ch_beforeMode change) = Inr target"
      by blast
    obtain cfile where f: "dk_file disk = Some cfile" "cs_contents current = fl_contents cfile" "cs_mode current = writableMode (fl_mode cfile)"
      using repo_read_Inr [of lib "mu_read io" disk current d] r t(2) d by auto
    show ?thesis
    proof (cases "cs_contents current = ch_beforeContents change \<and> cs_mode current = ch_beforeMode change")
      case True
      then have "result = Inr (repo_change provenance current current []) \<or> (\<exists>e. result = Inl e)" "disk' = disk"
        using run r d t by (auto simp: rollbackLocked_def split: if_splits)
      then show ?thesis using f t(3) True by (auto simp: repo_change_def checkRevision_def split: if_splits)
    next
      case False
      then show ?thesis using commit_spec [OF coop] t(4) by blast
    qed
  qed
qed


section \<open>A system without faults\<close>

definition calm :: "read_io \<Rightarrow> bool" where
  "calm io \<longleftrightarrow> ri_before io = id \<and> ri_lstat io = None \<and> ri_between io = id \<and> ri_open io = None \<and> ri_read io = None"

definition faultless :: "mutation_io \<Rightarrow> bool" where
  "faultless io \<longleftrightarrow> mu_ctxLock io = None \<and> mu_openLock io = None \<and> Locked \<in> set (mu_flock io) \<and>
     (\<forall>e. FlockError e \<notin> set (mu_flock io)) \<and> calm (mu_read io) \<and> mu_ctxCommit io = None \<and> mu_createTemp io = None \<and>
     mu_write io = None \<and> mu_chmod io = None \<and> mu_sync io = None \<and> mu_close io = None \<and> mu_ctxClosed io = None \<and>
     calm (mu_recheck io) \<and> mu_ctxRename io = None \<and> mu_race io = id \<and> mu_rename io = None \<and> mu_release io = None"

lemma faultless_cooperative: "faultless io \<Longrightarrow> cooperative io"
  by (simp add: faultless_def cooperative_def calm_def)

lemma lockLoop_acquires: "Locked \<in> set answers \<Longrightarrow> \<forall>e. FlockError e \<notin> set answers \<Longrightarrow> lockLoop io answers = []"
  by (induction io answers rule: lockLoop.induct) auto

lemma calm_read:
  assumes "calm io" and "dk_file disk = Some cfile" and "fl_kind cfile = RegularFile" and "length (fl_contents cfile) \<le> MaximumBytes"
    and "config_Decode lib (fl_contents cfile) = Inr c"
  shows "repo_read lib io disk = (Inr \<lparr>cs_Config = c, cs_Revision = digest (fl_contents cfile), cs_contents = fl_contents cfile,
    cs_mode = writableMode (fl_mode cfile)\<rparr>, disk)"
  using assms by (simp add: calm_def repo_read_def repo_snapshot_def Let_def)

text \<open>The file that a change leaves behind, on which the change can be undone.\<close>

definition undoable :: "yaml_lib \<Rightarrow> nat \<Rightarrow> Change \<Rightarrow> disk \<Rightarrow> bool" where
  "undoable lib provenance change disk \<longleftrightarrow>
     (\<exists>cfile. dk_file disk = Some cfile \<and> fl_kind cfile = RegularFile \<and> length (fl_contents cfile) \<le> MaximumBytes \<and>
        is_ok (config_Decode lib (fl_contents cfile)) \<and> digest (fl_contents cfile) = ch_afterRevision change \<and>
        writableMode (fl_mode cfile) = ch_afterMode change \<and>
        (fl_contents cfile = ch_beforeContents change \<and> ch_afterMode change = ch_beforeMode change \<or>
         validateReplacementMode (ch_afterMode change) = [] \<and> validateReplacementMode (ch_beforeMode change) = [])) \<and>
     ch_provenance change = provenance \<and> is_ok (config_Decode lib (ch_beforeContents change)) \<and>
     length (ch_beforeContents change) \<le> MaximumBytes \<and> writableMode (ch_beforeMode change) = ch_beforeMode change"

lemma rollback_succeeds:
  assumes fault: "faultless io" and undo: "undoable lib provenance change disk"
  shows "\<exists>back disk' cfile. RollbackContext lib io provenance change disk = (Inr back, disk') \<and> dk_file disk' = Some cfile \<and>
    fl_contents cfile = ch_beforeContents change \<and> writableMode (fl_mode cfile) = ch_beforeMode change"
proof -
  obtain cfile c cb where f: "dk_file disk = Some cfile" "fl_kind cfile = RegularFile" "length (fl_contents cfile) \<le> MaximumBytes"
    "config_Decode lib (fl_contents cfile) = Inr c" "digest (fl_contents cfile) = ch_afterRevision change"
    "writableMode (fl_mode cfile) = ch_afterMode change" and v: "fl_contents cfile = ch_beforeContents change \<and> ch_afterMode change = ch_beforeMode change \<or>
       validateReplacementMode (ch_afterMode change) = [] \<and> validateReplacementMode (ch_beforeMode change) = []" and cb: "config_Decode lib (ch_beforeContents change) = Inr cb"
    using undo by (auto simp: undoable_def is_ok_iff)
  have lock: "acquireLock io = []" using fault lockLoop_acquires by (simp add: acquireLock_def faultless_def)
  have calm: "calm (mu_read io)" "calm (mu_recheck io)" using fault by (simp_all add: faultless_def)
  let ?cur = "\<lparr>cs_Config = c, cs_Revision = ch_afterRevision change, cs_contents = fl_contents cfile, cs_mode = ch_afterMode change\<rparr>"
  let ?target = "\<lparr>cs_Config = cb, cs_Revision = digest (ch_beforeContents change), cs_contents = ch_beforeContents change,
    cs_mode = ch_beforeMode change\<rparr>"
  have read: "repo_read lib (mu_read io) disk = (Inr ?cur, disk)" using calm_read [OF calm(1) f(1-4)] f(5,6) by simp
  have snap: "repo_snapshot lib (ch_beforeContents change) (ch_beforeMode change) = Inr ?target"
    using undo cb by (simp add: repo_snapshot_def undoable_def)
  have fin: "finishMutation io result = result" for result using fault by (simp add: finishMutation_def faultless_def failed_def)
  show ?thesis
  proof (cases "fl_contents cfile = ch_beforeContents change \<and> ch_afterMode change = ch_beforeMode change")
    case True
    then have "RollbackContext lib io provenance change disk = (Inr (repo_change provenance ?cur ?cur []), disk)"
      using undo lock fin by (simp add: RollbackContext_def underLock_def rollbackLocked_def read checkRevision_def undoable_def)
    then show ?thesis using f True by auto
  next
    case False
    let ?d = "disk\<lparr>dk_temp := Some (ch_beforeContents change, ch_beforeMode change)\<rparr>"
    have again: "repo_read lib (mu_recheck io) ?d = (Inr ?cur, ?d)" using calm_read [OF calm(2), of ?d cfile] f by simp
    have "rollbackLocked lib io provenance change disk = commit lib io provenance ?cur (ch_afterRevision change) ?target disk"
      using undo v False by (auto simp: rollbackLocked_def read snap checkRevision_def undoable_def)
    also have "\<dots> = commitRename lib io provenance ?cur (ch_afterRevision change) ?target ?d"
      using fault by (simp add: commit_def faultless_def Let_def)
    also have "\<dots> = (Inr (repo_change provenance ?cur ?target (failed ''sync directory'' (mu_syncDirectory io))), installFile ?d)"
      using fault by (simp add: commitRename_def again checkRevision_def faultless_def Let_def)
    finally show ?thesis using undo lock fin by (simp add: RollbackContext_def underLock_def installFile_def undoable_def)
  qed
qed

lemma installed_undoable:
  assumes i: "installed lib provenance before expected target disk change disk'"
    and s: "repo_snapshot lib contents (cs_mode before) = Inr target" and v: "validateReplacementMode (cs_mode before) = []"
  shows "undoable lib provenance change disk'"
proof -
  have m: "writableMode (cs_mode before) = cs_mode before" using i unfolding installed_def by (metis writableMode_idem)
  have t: "cs_contents target = contents" "cs_Revision target = digest contents" "cs_mode target = cs_mode before"
    "is_ok (config_Decode lib contents)" "length contents \<le> MaximumBytes"
    using repo_snapshot_Inr [OF s] m by (auto simp: is_ok_iff)
  show ?thesis using i t m v by (auto simp: installed_def undoable_def)
qed

lemma unchanged_undoable: "holds lib current disk \<Longrightarrow> undoable lib provenance (repo_change provenance current current w) disk"
  by (auto simp: holds_def undoable_def repo_change_def is_ok_iff)

lemma undoable_warning [simp]: "undoable lib provenance (change\<lparr>ch_Warning := w\<rparr>) disk = undoable lib provenance change disk"
  by (simp add: undoable_def)

lemma installed_warning [simp]:
  "installed lib provenance before expected target disk (change\<lparr>ch_Warning := w\<rparr>) disk' =
   installed lib provenance before expected target disk change disk'"
  by (simp add: installed_def)

text \<open>The outcomes of a replacement.\<close>

lemma ReplaceContext_cases:
  assumes coop: "cooperative io" and run: "ReplaceContext lib io provenance expected c disk = (result, disk')"
  obtains (refused) e where "result = Inl e" "durable disk' = durable disk"
  | (same) current where "result = Inr (repo_change provenance current current [])" "disk' = disk" "cs_Revision current = expected"
      "holds lib current disk"
  | (replaced) change before target contents where "result = Inr change" "installed lib provenance before expected target disk change disk'"
      "config_Encode lib c = Inr contents" "repo_snapshot lib contents (cs_mode before) = Inr target"
      "validateReplacementMode (cs_mode before) = []"
proof (cases "acquireLock io = []")
  case False
  then show ?thesis using run refused by (auto simp: ReplaceContext_def underLock_def)
next
  case True
  obtain r where r: "replaceLocked lib io provenance expected c disk = (r, disk')" "result = finishMutation io r"
    using run True by (auto simp: ReplaceContext_def underLock_def split: prod.splits)
  have unchanged: "durable disk' = durable disk"
    if "r = Inr change" "\<not> ch_changed change" "installed lib provenance before expected target disk change disk'"
      "repo_snapshot lib contents (cs_mode before) = Inr target" for change before target contents
  proof -
    have "writableMode (cs_mode before) = cs_mode before" using that(3) unfolding installed_def by (metis writableMode_idem)
    then show ?thesis using that repo_snapshot_Inr [OF that(4)] by (auto simp: installed_def durable_def)
  qed
  show ?thesis
  proof (cases result)
    case (Inl e)
    then have "(\<exists>errs. r = Inl errs) \<or> (\<exists>change. r = Inr change \<and> \<not> ch_changed change)" using finishMutation_cases(1) r(2) by metis
    then have "durable disk' = durable disk"
      using replaceLocked_spec [OF coop r(1)] unchanged by (auto simp: durable_def)
    then show ?thesis using refused Inl by blast
  next
    case (Inr change)
    then obtain w where w: "r = Inr (change\<lparr>ch_Warning := w\<rparr>)" using finishMutation_cases(2) r(2) by metis
    have "\<not> ch_changed ch \<Longrightarrow> r = Inr ch \<Longrightarrow> result = Inr ch" for ch
      using r(2) Inr by (auto simp: finishMutation_def Let_def split: if_splits)
    then have "result = Inr (repo_change provenance cur cur [])" if "r = Inr (repo_change provenance cur cur [])" for cur
      using that by (simp add: repo_change_def)
    with replaceLocked_spec [OF coop r(1)] w show ?thesis using same replaced [OF Inr] by (auto simp: Inr)
  qed
qed

text \<open>What a mutation answers, whatever other programs do to the file.\<close>

lemma digest_nonempty [simp]: "digest contents \<noteq> []"
proof -
  have "length (digest contents) = 64" by (simp add: digest_def)
  then show ?thesis by force
qed

lemma commit_After: "commit lib io provenance before expected target disk = (Inr change, disk') \<Longrightarrow> ch_After change = target"
  by (auto simp: commit_def commitRename_def commitAbort_def repo_change_def Let_def split: if_splits sum.splits option.splits prod.splits)

lemma replaceLocked_After:
  assumes "replaceLocked lib io provenance expected c disk = (Inr change, disk')"
  obtains contents where "config_Encode lib c = Inr contents" "cs_Revision (ch_After change) \<noteq> []"
    "Config_Validate (yl_config lib) (cs_Config (ch_After change)) = []"
    "config_Decode lib contents = Inr (cs_Config (ch_After change)) \<or> config_Encode lib (cs_Config (ch_After change)) = Inr contents"
proof -
  obtain current d contents canonical where r: "repo_read lib (mu_read io) disk = (Inr current, d)" "config_Encode lib c = Inr contents"
    "config_Encode lib (cs_Config current) = Inr canonical"
    and t: "contents = canonical \<and> ch_After change = current \<or>
      (\<exists>target. repo_snapshot lib contents (cs_mode current) = Inr target \<and> commit lib io provenance current expected target d = (Inr change, disk'))"
    using assms by (auto simp: replaceLocked_def repo_change_def split: sum.splits if_splits prod.splits)
  from t show ?thesis
  proof
    assume same: "contents = canonical \<and> ch_After change = current"
    then show ?thesis using that [of contents] r repo_read_Inr [OF r(1)] config_Decode_valid by auto
  next
    assume "\<exists>target. repo_snapshot lib contents (cs_mode current) = Inr target \<and> commit lib io provenance current expected target d = (Inr change, disk')"
    then obtain target where "repo_snapshot lib contents (cs_mode current) = Inr target" "ch_After change = target"
      using commit_After by blast
    then show ?thesis using that [of contents] r repo_snapshot_Inr config_Decode_valid by fastforce
  qed
qed

lemma ReplaceContext_After:
  assumes "ReplaceContext lib io provenance expected c disk = (Inr change, disk')"
  obtains contents where "config_Encode lib c = Inr contents" "cs_Revision (ch_After change) \<noteq> []"
    "Config_Validate (yl_config lib) (cs_Config (ch_After change)) = []"
    "config_Decode lib contents = Inr (cs_Config (ch_After change)) \<or> config_Encode lib (cs_Config (ch_After change)) = Inr contents"
proof -
  obtain r where r: "replaceLocked lib io provenance expected c disk = (r, disk')" "finishMutation io r = Inr change"
    using assms by (auto simp: ReplaceContext_def underLock_def split: if_splits prod.splits)
  obtain w where "r = Inr (change\<lparr>ch_Warning := w\<rparr>)" using finishMutation_cases(2) [OF r(2)] by blast
  with r(1) show ?thesis using replaceLocked_After [of lib io provenance expected c disk "change\<lparr>ch_Warning := w\<rparr>" disk'] that by auto
qed

lemma RollbackContext_revision:
  assumes coop: "cooperative io" and run: "RollbackContext lib io provenance change disk = (Inr back, disk')"
  shows "map_option fst (durable disk') = Some (digest (ch_beforeContents change))"
proof -
  obtain r where r: "rollbackLocked lib io provenance change disk = (r, disk')" "finishMutation io r = Inr back"
    using run by (auto simp: RollbackContext_def underLock_def split: if_splits prod.splits)
  obtain w where "r = Inr (back\<lparr>ch_Warning := w\<rparr>)" using finishMutation_cases(2) [OF r(2)] by blast
  with rollbackLocked_spec [OF coop r(1)] show ?thesis
    using repo_snapshot_Inr by (auto simp: durable_def installed_def)
qed

text \<open>
  What the repository relies on in the YAML library: the canonical encoding of a valid configuration reads
  back as that configuration.
\<close>

definition yaml_roundtrip :: "yaml_lib \<Rightarrow> bool" where
  "yaml_roundtrip lib \<longleftrightarrow> (\<forall>c contents. Config_Validate (yl_config lib) c = [] \<longrightarrow> yl_Encode lib c = Inr contents \<longrightarrow>
     yl_Decode lib Config_Default contents = YamlOK c \<and> yl_Trailing lib contents = TrailingEOF)"

lemma roundtrip_Decode: "yaml_roundtrip lib \<Longrightarrow> config_Encode lib c = Inr contents \<Longrightarrow> config_Decode lib contents = Inr c"
  by (auto simp: yaml_roundtrip_def config_Encode_def config_Decode_def Let_def split: if_splits sum.splits)

section \<open>Samples\<close>

definition quietRead :: read_io where
  "quietRead = \<lparr>ri_before = id, ri_lstat = None, ri_between = id, ri_open = None, ri_read = None\<rparr>"

definition quietMutation :: mutation_io where
  "quietMutation = \<lparr>mu_ctxLock = None, mu_openLock = None, mu_flock = [WouldBlock, Locked], mu_cancel = [], mu_closeLock = None,
     mu_read = quietRead, mu_ctxCommit = None, mu_createTemp = None, mu_write = None, mu_partial = [], mu_chmod = None,
     mu_sync = None, mu_close = None, mu_remove = None, mu_ctxClosed = None, mu_recheck = quietRead, mu_ctxRename = None,
     mu_race = id, mu_rename = None, mu_syncDirectory = None, mu_release = None\<rparr>"

lemma quietMutation_faultless: "faultless quietMutation"
  by (simp add: faultless_def calm_def quietMutation_def quietRead_def)

text \<open>Documents of one byte: the defaults, the defaults with the traffic ignored, and the redacted defaults.\<close>

definition quietConfig :: Config where
  "quietConfig = Config_Default\<lparr>cf_Mapping := (cf_Mapping Config_Default)\<lparr>mac_DefaultState := StateIgnore\<rparr>\<rparr>"

definition sampleYaml :: yaml_lib where
  "sampleYaml = \<lparr>yl_config = sampleConfigLib, yl_Decode = (\<lambda>_ contents. if contents = [0] then YamlOK Config_Default
       else if contents = [2] then YamlOK (Redacted Config_Default) else YamlOK quietConfig),
     yl_Trailing = (\<lambda>_. TrailingEOF), yl_Encode = (\<lambda>c. if c = quietConfig then Inr [1] else if c = Config_Default then Inr [0]
       else if c = Redacted Config_Default then Inr [2] else Inl ''unsupported'')\<rparr>"

lemma quietConfig_differs: "Config_Default \<noteq> quietConfig"
proof
  assume "Config_Default = quietConfig"
  then have "mac_DefaultState (cf_Mapping Config_Default) = mac_DefaultState (cf_Mapping quietConfig)" by simp
  then show False by (simp add: quietConfig_def Config_Default_def state_defs)
qed

lemma quietConfig_valid: "Config_Validate lib quietConfig = []"
  by (simp add: quietConfig_def default_simps)

lemma sampleYaml_roundtrip: "yaml_roundtrip sampleYaml"
  by (auto simp: yaml_roundtrip_def sampleYaml_def split: if_splits)

definition sampleDisk :: disk where
  "sampleDisk = \<lparr>dk_file = Some \<lparr>fl_kind = RegularFile, fl_contents = [0], fl_mode = 0x180, fl_inode = 7\<rparr>, dk_temp = None, dk_inode = 8\<rparr>"

lemma sampleReplace:
  "\<exists>change disk'. ReplaceContext sampleYaml quietMutation 1 (digest [0]) quietConfig sampleDisk = (Inr change, disk') \<and>
     ch_After change = \<lparr>cs_Config = quietConfig, cs_Revision = digest [1], cs_contents = [1], cs_mode = 0x180\<rparr>"
proof -
  have dec: "config_Decode sampleYaml [0] = Inr Config_Default" "config_Decode sampleYaml [1] = Inr quietConfig"
    by (simp_all add: config_Decode_def sampleYaml_def Config_Default_valid quietConfig_valid)
  have enc: "config_Encode sampleYaml quietConfig = Inr [1]" "config_Encode sampleYaml Config_Default = Inr [0]"
    by (simp_all add: config_Encode_def sampleYaml_def Config_Default_valid quietConfig_valid quietConfig_differs)
  show ?thesis
    by (simp add: ReplaceContext_def underLock_def acquireLock_def quietMutation_def quietRead_def replaceLocked_def repo_read_def
        sampleDisk_def repo_snapshot_def dec enc checkRevision_def validateReplacementMode_def writableMode_def commit_def
        commitRename_def installFile_def repo_change_def finishMutation_def failed_def MaximumBytes_def Let_def)
qed

section \<open>Properties\<close>



text \<open>
  A committed change can be undone exactly: right after a successful replacement, rolling
  it back on a system without faults succeeds and restores the very bytes and permissions that were
  replaced, also where those were not the canonical encoding.
\<close>

theorem Rollback_restores:
  assumes "cooperative io1" and "ReplaceContext lib io1 provenance expected c disk = (Inr change, disk1)" and "faultless io2"
  shows "\<exists>back disk2 cfile cfile2. RollbackContext lib io2 provenance change disk1 = (Inr back, disk2) \<and> dk_file disk = Some cfile \<and>
    dk_file disk2 = Some cfile2 \<and> fl_contents cfile2 = fl_contents cfile \<and> writableMode (fl_mode cfile2) = writableMode (fl_mode cfile)"
  using assms(1,2)
proof (cases rule: ReplaceContext_cases)
  case (replaced ch before target contents)
  then have ch: "ch = change" by simp
  have undo: "undoable lib provenance change disk1" using installed_undoable [OF replaced(2,4,5)] ch by simp
  obtain cfile where "dk_file disk = Some cfile" "ch_beforeContents change = fl_contents cfile" "ch_beforeMode change = writableMode (fl_mode cfile)"
    using replaced(2) ch by (auto simp: installed_def)
  then show ?thesis using rollback_succeeds [OF assms(3) undo] by metis
next
  case (same current)
  then have ch: "change = repo_change provenance current current []" "disk1 = disk" by simp_all
  then have undo: "undoable lib provenance change disk1" using unchanged_undoable [OF same(4)] by simp
  obtain cfile where "dk_file disk = Some cfile" "ch_beforeContents change = fl_contents cfile" "ch_beforeMode change = writableMode (fl_mode cfile)"
    using same(4) ch by (auto simp: holds_def repo_change_def)
  then show ?thesis using rollback_succeeds [OF assms(3) undo] by metis
qed simp

theorem Rollback_restores_witness:
  "\<exists>change disk1 back disk2 cfile2. ReplaceContext sampleYaml quietMutation 1 (digest [0]) quietConfig sampleDisk = (Inr change, disk1) \<and>
     RollbackContext sampleYaml quietMutation 1 change disk1 = (Inr back, disk2) \<and> dk_file disk2 = Some cfile2 \<and> fl_contents cfile2 = [0]"
proof -
  obtain change disk1 where r: "ReplaceContext sampleYaml quietMutation 1 (digest [0]) quietConfig sampleDisk = (Inr change, disk1)"
    using sampleReplace by blast
  from Rollback_restores [OF faultless_cooperative [OF quietMutation_faultless] r quietMutation_faultless] r
  show ?thesis by (auto simp: sampleDisk_def)
qed

end
