(* ===== verification/Policy.thy ===== *)
theory Policy
  imports Repository
begin

text \<open>
  internal/app/policy.go: the controller that validates, persists and publishes the runtime policy, with
  its states, the staging of changes for the next start, and the temporary overlay. The durable repository
  is the interface the code declares, a record of its operations on a state of any type. Every operation
  holds the controller's lock, so it is one step; the answers of \<open>ctx.Err\<close> are an argument. Warnings and
  errors are kept as values instead of texts. \<open>Clone\<close> and the detached copies are identities on values;
  \<open>reflect.DeepEqual\<close> is equality, which does not tell a nil from an empty slice.
\<close>

section \<open>State\<close>

datatype ControllerState = StateReady | StateRestartPending | StateOutOfSync | StateDurabilityUncertain | StateDegraded

datatype policy_warning =
    NoWarning
  | FileRevision Revision Revision
  | Unverified "repo_error list" "repo_error list + Revision" Revision
  | SavedForRestart "repo_error list"
  | DurabilityWarning "repo_error list"
  | DiffersAfterFailure
  | ApplyAndRollback string "repo_error list"

record policySnapshot =
  ps_revision :: Revision
  ps_configuration :: Config
  ps_pendingRevision :: Revision
  ps_pendingConfiguration :: "Config option"
  ps_selector :: Selector
  ps_overlay :: Overlay
  ps_state :: ControllerState
  ps_warning :: policy_warning

text \<open>The durable boundary (\<open>ConfigRepository\<close>).\<close>

record 'd ConfigRepository =
  cr_Read :: "'d \<Rightarrow> (repo_error list + ConfigSnapshot) \<times> 'd"
  cr_Replace :: "Revision \<Rightarrow> Config \<Rightarrow> 'd \<Rightarrow> (repo_error list + Change) \<times> 'd"
  cr_Rollback :: "Change \<Rightarrow> 'd \<Rightarrow> (repo_error list + Change) \<times> 'd"

text \<open>\<open>co_apply\<close> is the publication, which stores the snapshot unless it answers with an error.\<close>

record 'd Controller =
  co_current :: policySnapshot
  co_repository :: "'d ConfigRepository option"
  co_safety :: "(Rule list \<Rightarrow> Rule list) option"
  co_apply :: "policySnapshot \<Rightarrow> string option"

datatype compile_error = BuildRules "rules_problem list" | InitializeSelector selector_error

datatype policy_error =
    ContextRequired
  | ContextErr string
  | ReadRuntime "repo_error list"
  | InMemory "repo_error list"
  | PolicyInvalid "config_problem list"
  | PolicyCompile compile_error
  | DegradedError policy_warning
  | RestartPendingError
  | RestartNotRequiredError
  | RestartRequiredError "string list"
  | PendingConfigNotFoundError
  | PolicyConflict Revision Revision
  | ReconcileRead "repo_error list"
  | MutationRequired
  | MutationFailed string
  | ReadOnlyError
  | PersistFailed "repo_error list"
  | PublishFailed string "repo_error list" "repo_error list"
  | PolicyStateError ControllerState
  | OverlaySize nat int
  | OverlayFlowID
  | NilRepository

text \<open>\<open>NilRepository\<close> stands for the nil dereference of a call on a repository that is not there.\<close>

definition noOverlay :: Overlay where
  "noOverlay = \<lparr>ov_Muted = {||}, ov_Soloed = {||}\<rparr>"

section \<open>Compiling and classifying\<close>

definition compileSelector :: "config_lib \<Rightarrow> Config \<Rightarrow> (Rule list \<Rightarrow> Rule list) option \<Rightarrow> compile_error + Selector" where
  "compileSelector lib c safety =
     (case FlowRules lib c of
        Inl e \<Rightarrow> Inl (BuildRules e)
      | Inr persistent \<Rightarrow>
        let pinned = filter (\<lambda>rule. m_ExactFlowID (ru_Match rule) \<noteq> []) persistent;
            user = filter (\<lambda>rule. \<not> m_ExactFlowID (ru_Match rule) \<noteq> []) persistent;
            safetyRules = (case safety of None \<Rightarrow> [] | Some f \<Rightarrow> f persistent)
        in case NewSelector \<lparr>sc_Seed = mac_Seed (cf_Mapping c),
               sc_Default = \<lparr>ac_State = mac_DefaultState (cf_Mapping c), ac_Channel = mac_DefaultChannel (cf_Mapping c), ac_Mode = [], ac_Root = 0\<rparr>,
               sc_SafetyRules = safetyRules, sc_PinnedRules = pinned, sc_UserRules = user\<rparr> of
             Inl e \<Rightarrow> Inl (InitializeSelector e)
           | Inr selector \<Rightarrow> Inr selector)"

record Validation =
  va_HotFields :: "string list"
  va_RestartRequiredFields :: "string list"

definition appendIfChanged :: "string \<Rightarrow> 'a \<Rightarrow> 'a \<Rightarrow> string list" where
  "appendIfChanged path before after = (if before = after then [] else [path])"

definition restartFields :: "Config \<Rightarrow> Config \<Rightarrow> string list" where
  "restartFields c d = concat
     [appendIfChanged ''instance.id'' (ic_ID (cf_Instance c)) (ic_ID (cf_Instance d)),
      appendIfChanged ''instance.role'' (ic_Role (cf_Instance c)) (ic_Role (cf_Instance d)),
      appendIfChanged ''capture.enabled'' (cc_Enabled (cf_Capture c)) (cc_Enabled (cf_Capture d)),
      appendIfChanged ''capture.interface'' (cc_Interface (cf_Capture c)) (cc_Interface (cf_Capture d)),
      appendIfChanged ''capture.bpf'' (cc_BPF (cf_Capture c)) (cc_BPF (cf_Capture d)),
      appendIfChanged ''capture.snapshot_length'' (cc_SnapshotLength (cf_Capture c)) (cc_SnapshotLength (cf_Capture d)),
      appendIfChanged ''capture.promiscuous'' (cc_Promiscuous (cf_Capture c)) (cc_Promiscuous (cf_Capture d)),
      appendIfChanged ''mapping.version'' (mac_Version (cf_Mapping c)) (mac_Version (cf_Mapping d)),
      appendIfChanged ''mapping.seed'' (mac_Seed (cf_Mapping c)) (mac_Seed (cf_Mapping d)),
      appendIfChanged ''mapping.minimum_note'' (mac_MinimumNote (cf_Mapping c)) (mac_MinimumNote (cf_Mapping d)),
      appendIfChanged ''mapping.maximum_note'' (mac_MaximumNote (cf_Mapping c)) (mac_MaximumNote (cf_Mapping d)),
      appendIfChanged ''mapping.minimum_duration'' (mac_MinimumDuration (cf_Mapping c)) (mac_MinimumDuration (cf_Mapping d)),
      appendIfChanged ''mapping.maximum_duration'' (mac_MaximumDuration (cf_Mapping c)) (mac_MaximumDuration (cf_Mapping d)),
      appendIfChanged ''performance.packet_queue_capacity'' (pc_PacketQueueCapacity (cf_Performance c)) (pc_PacketQueueCapacity (cf_Performance d)),
      appendIfChanged ''performance.note_queue_capacity'' (pc_NoteQueueCapacity (cf_Performance c)) (pc_NoteQueueCapacity (cf_Performance d)),
      appendIfChanged ''performance.ui_queue_capacity'' (pc_UIQueueCapacity (cf_Performance c)) (pc_UIQueueCapacity (cf_Performance d)),
      appendIfChanged ''performance.flow_registry_capacity'' (pc_FlowRegistryCapacity (cf_Performance c)) (pc_FlowRegistryCapacity (cf_Performance d)),
      appendIfChanged ''performance.flow_ttl'' (pc_FlowTTL (cf_Performance c)) (pc_FlowTTL (cf_Performance d)),
      appendIfChanged ''performance.maximum_notes_per_second'' (pc_MaximumNotesPerSecond (cf_Performance c)) (pc_MaximumNotesPerSecond (cf_Performance d)),
      appendIfChanged ''performance.maximum_polyphony'' (pc_MaximumPolyphony (cf_Performance c)) (pc_MaximumPolyphony (cf_Performance d)),
      appendIfChanged ''performance.minimum_retrigger_interval'' (pc_MinimumRetriggerInterval (cf_Performance c)) (pc_MinimumRetriggerInterval (cf_Performance d)),
      appendIfChanged ''midi.enabled'' (mdc_Enabled (cf_MIDI c)) (mdc_Enabled (cf_MIDI d)),
      appendIfChanged ''midi.exact_device_name'' (mdc_ExactDeviceName (cf_MIDI c)) (mdc_ExactDeviceName (cf_MIDI d)),
      appendIfChanged ''midi.device_name_regexp'' (mdc_DeviceNameRegexp (cf_MIDI c)) (mdc_DeviceNameRegexp (cf_MIDI d)),
      appendIfChanged ''midi.poll_interval'' (mdc_PollInterval (cf_MIDI c)) (mdc_PollInterval (cf_MIDI d)),
      appendIfChanged ''server.listen_address'' (svc_ListenAddress (cf_Server c)) (svc_ListenAddress (cf_Server d)),
      appendIfChanged ''server.read_timeout'' (svc_ReadTimeout (cf_Server c)) (svc_ReadTimeout (cf_Server d)),
      appendIfChanged ''server.write_timeout'' (svc_WriteTimeout (cf_Server c)) (svc_WriteTimeout (cf_Server d)),
      appendIfChanged ''peer.enabled'' (pec_Enabled (cf_Peer c)) (pec_Enabled (cf_Peer d)),
      appendIfChanged ''peer.url'' (pec_URL (cf_Peer c)) (pec_URL (cf_Peer d)),
      appendIfChanged ''peer.token'' (pec_Token (cf_Peer c)) (pec_Token (cf_Peer d)),
      appendIfChanged ''peer.queue_capacity'' (pec_QueueCapacity (cf_Peer c)) (pec_QueueCapacity (cf_Peer d)),
      appendIfChanged ''peer.maximum_connections'' (pec_MaximumConnections (cf_Peer c)) (pec_MaximumConnections (cf_Peer d)),
      appendIfChanged ''peer.recent_ttl'' (pec_RecentTTL (cf_Peer c)) (pec_RecentTTL (cf_Peer d)),
      appendIfChanged ''peer.reconnect_base'' (pec_ReconnectBase (cf_Peer c)) (pec_ReconnectBase (cf_Peer d)),
      appendIfChanged ''peer.reconnect_limit'' (pec_ReconnectLimit (cf_Peer c)) (pec_ReconnectLimit (cf_Peer d)),
      appendIfChanged ''peer.stale_after'' (pec_StaleAfter (cf_Peer c)) (pec_StaleAfter (cf_Peer d)),
      appendIfChanged ''metrics.namespace'' (cf_MetricsNamespace c) (cf_MetricsNamespace d),
      appendIfChanged ''logging.level'' (lc_Level (cf_Logging c)) (lc_Level (cf_Logging d)),
      appendIfChanged ''logging.format'' (lc_Format (cf_Logging c)) (lc_Format (cf_Logging d))]"

definition hotFields :: "Config \<Rightarrow> Config \<Rightarrow> string list" where
  "hotFields c d = concat
     [appendIfChanged ''mapping.default_state'' (mac_DefaultState (cf_Mapping c)) (mac_DefaultState (cf_Mapping d)),
      appendIfChanged ''mapping.default_channel'' (mac_DefaultChannel (cf_Mapping c)) (mac_DefaultChannel (cf_Mapping d)),
      appendIfChanged ''rules'' (cf_Rules c) (cf_Rules d)]"

text \<open>The candidate with the hot fields of the current configuration.\<close>

definition withoutHot :: "Config \<Rightarrow> Config \<Rightarrow> Config" where
  "withoutHot current candidate =
     candidate\<lparr>cf_Mapping := (cf_Mapping candidate)\<lparr>mac_DefaultState := mac_DefaultState (cf_Mapping current),
        mac_DefaultChannel := mac_DefaultChannel (cf_Mapping current)\<rparr>, cf_Rules := cf_Rules current\<rparr>"

definition classifyChanges :: "Config \<Rightarrow> Config \<Rightarrow> Validation" where
  "classifyChanges current candidate =
     (let hot = hotFields current candidate;
          restart = restartFields current candidate;
          restart = (if restart = [] \<and> current \<noteq> withoutHot current candidate then restart @ [''unclassified''] else restart)
      in \<lparr>va_HotFields = sort hot, va_RestartRequiredFields = sort restart\<rparr>)"

definition validateCandidate :: "config_lib \<Rightarrow> (Rule list \<Rightarrow> Rule list) option \<Rightarrow> Config \<Rightarrow> Config \<Rightarrow> policy_error + Validation" where
  "validateCandidate lib safety current candidate =
     (if Config_Validate lib candidate \<noteq> [] then Inl (PolicyInvalid (Config_Validate lib candidate))
      else case compileSelector lib candidate safety of
        Inl e \<Rightarrow> Inl (PolicyCompile e)
      | Inr _ \<Rightarrow> Inr (classifyChanges current candidate))"

section \<open>The store and the controller\<close>

definition controller_Validate :: "config_lib \<Rightarrow> 'd Controller \<Rightarrow> Config \<Rightarrow> policy_error + Validation" where
  "controller_Validate lib controller candidate =
     validateCandidate lib (co_safety controller) (ps_configuration (co_current controller)) candidate"

definition policy_Evaluate :: "policySnapshot \<Rightarrow> Event \<Rightarrow> event_error + Selection" where
  "policy_Evaluate snapshot event = Evaluate (ps_selector snapshot) event (ps_overlay snapshot)"

definition publish :: "policySnapshot \<Rightarrow> 'd Controller \<Rightarrow> 'd Controller" where
  "publish snapshot controller = controller\<lparr>co_current := snapshot\<rparr>"

definition snapshotWithStatus :: "policySnapshot \<Rightarrow> ControllerState \<Rightarrow> policy_warning \<Rightarrow> policySnapshot" where
  "snapshotWithStatus current state warning = current\<lparr>ps_state := state, ps_warning := warning\<rparr>"

definition newController ::
  "yaml_lib \<Rightarrow> Config \<Rightarrow> 'd ConfigRepository option \<Rightarrow> (Rule list \<Rightarrow> Rule list) option \<Rightarrow> 'd \<Rightarrow> (policy_error + 'd Controller) \<times> 'd" where
  "newController lib configuration repository safety d =
     (let (authoritative, d) = (case repository of
            Some repo \<Rightarrow> (case cr_Read repo d of
                (Inl e, d) \<Rightarrow> (Inl (ReadRuntime e), d)
              | (Inr snapshot, d) \<Rightarrow> (Inr (cs_Config snapshot, cs_Revision snapshot), d))
          | None \<Rightarrow> (case config_Encode lib configuration of
                Inl e \<Rightarrow> (Inl (InMemory e), d)
              | Inr contents \<Rightarrow> (Inr (configuration, digest contents), d)))
      in case authoritative of
           Inl e \<Rightarrow> (Inl e, d)
         | Inr (configuration, revision) \<Rightarrow>
           if Config_Validate (yl_config lib) configuration \<noteq> [] then (Inl (PolicyInvalid (Config_Validate (yl_config lib) configuration)), d)
           else case compileSelector (yl_config lib) configuration safety of
             Inl e \<Rightarrow> (Inl (PolicyCompile e), d)
           | Inr selector \<Rightarrow>
             (Inr \<lparr>co_current = \<lparr>ps_revision = revision, ps_configuration = configuration, ps_pendingRevision = [],
                 ps_pendingConfiguration = None, ps_selector = selector, ps_overlay = noOverlay, ps_state = StateReady, ps_warning = NoWarning\<rparr>,
               co_repository = repository, co_safety = safety, co_apply = (\<lambda>_. None)\<rparr>, d))"

record Document =
  do_Config :: Config
  do_Revision :: Revision
  do_Writable :: bool
  do_State :: ControllerState
  do_Warning :: policy_warning

definition Current :: "'d Controller \<Rightarrow> Document" where
  "Current controller =
     (let snapshot = co_current controller in
      \<lparr>do_Config = ps_configuration snapshot, do_Revision = ps_revision snapshot, do_Writable = (co_repository controller \<noteq> None),
       do_State = ps_state snapshot, do_Warning = ps_warning snapshot\<rparr>)"

definition Pending :: "'d Controller \<Rightarrow> (Config \<times> Revision) option" where
  "Pending controller =
     (let s = co_current controller in
      if ps_state s \<noteq> StateRestartPending \<or> ps_pendingRevision s = [] then None
      else map_option (\<lambda>c. (c, ps_pendingRevision s)) (ps_pendingConfiguration s))"

text \<open>\<open>errors.As\<close> with a conflict: the first one among the joined errors.\<close>

fun asConflict :: "repo_error list \<Rightarrow> (Revision \<times> Revision) option" where
  "asConflict [] = None"
| "asConflict (Conflict expected actual # errs) = Some (expected, actual)"
| "asConflict (_ # errs) = asConflict errs"

definition markPersistenceUncertainty ::
  "'d ConfigRepository \<Rightarrow> policySnapshot \<Rightarrow> repo_error list \<Rightarrow> 'd Controller \<Rightarrow> 'd \<Rightarrow> 'd Controller \<times> 'd" where
  "markPersistenceUncertainty repo current persistErr controller d =
     (let (stored, d) = cr_Read repo d;
          expectedDurable = (if ps_state current = StateRestartPending \<and> ps_pendingRevision current \<noteq> []
                             then ps_pendingRevision current else ps_revision current)
      in case stored of
           Inr snapshot \<Rightarrow>
             if cs_Revision snapshot = expectedDurable then (controller, d)
             else (publish (snapshotWithStatus current StateOutOfSync
                     (Unverified persistErr (Inr (cs_Revision snapshot)) expectedDurable)) controller, d)
         | Inl e \<Rightarrow> (publish (snapshotWithStatus current StateOutOfSync (Unverified persistErr (Inl e) expectedDurable)) controller, d))"

text \<open>What every failed replacement does: publish that the file is out of step, or verify it.\<close>

definition replaceFailed ::
  "'d ConfigRepository \<Rightarrow> policySnapshot \<Rightarrow> Revision \<Rightarrow> repo_error list \<Rightarrow> 'd Controller \<Rightarrow> 'd \<Rightarrow> 'd Controller \<times> 'd" where
  "replaceFailed repo current durableRevision err controller d =
     (case asConflict err of
        Some (_, actual) \<Rightarrow>
          (if actual \<noteq> durableRevision
           then publish (snapshotWithStatus current StateOutOfSync (FileRevision actual durableRevision)) controller else controller, d)
      | None \<Rightarrow> markPersistenceUncertainty repo current err controller d)"

definition applyFailed ::
  "'d ConfigRepository \<Rightarrow> policySnapshot \<Rightarrow> Change \<Rightarrow> string \<Rightarrow> 'd Controller \<Rightarrow> 'd \<Rightarrow> policy_error \<times> 'd Controller \<times> 'd" where
  "applyFailed repo current change applyErr controller d =
     (if \<not> ch_changed change then
        (PublishFailed applyErr [] [],
         if cs_Revision (ch_After change) \<noteq> ps_revision current \<or> cs_Config (ch_After change) \<noteq> ps_configuration current
         then publish (snapshotWithStatus current StateOutOfSync DiffersAfterFailure) controller else controller, d)
      else case cr_Rollback repo change d of
        (Inl e, d) \<Rightarrow> (PublishFailed applyErr e [],
          publish (snapshotWithStatus current StateDegraded (ApplyAndRollback applyErr e)) controller, d)
      | (Inr back, d) \<Rightarrow>
        if ch_Warning back \<noteq> []
        then (PublishFailed applyErr [] (ch_Warning back),
              publish (snapshotWithStatus current StateDurabilityUncertain (DurabilityWarning (ch_Warning back))) controller, d)
        else (PublishFailed applyErr [] [], publish (snapshotWithStatus current StateReady NoWarning) controller, d))"

text \<open>The answers of the context: whether it is nil, and its error at the three places it is asked.\<close>

record txn_context =
  tc_nil :: bool
  tc_enter :: "string option"
  tc_built :: "string option"
  tc_persist :: "string option"

definition ctx_fails :: "string option \<Rightarrow> bool" where
  "ctx_fails answer \<longleftrightarrow> answer \<noteq> None"

text \<open>The document a candidate is built from: the active one, or the durable one of an explicit reconciliation.\<close>

definition transactBase ::
  "'d Controller \<Rightarrow> Revision \<Rightarrow> 'd \<Rightarrow> (policy_error + Config) \<times> 'd Controller \<times> 'd" where
  "transactBase controller expected d =
     (let current = co_current controller in
      if ps_state current \<noteq> StateOutOfSync then (Inr (ps_configuration current), controller, d)
      else case co_repository controller of
        None \<Rightarrow> (Inl NilRepository, controller, d)
      | Some repo \<Rightarrow>
        (case cr_Read repo d of
           (Inl e, d) \<Rightarrow> (Inl (ReconcileRead e), controller, d)
         | (Inr stored, d) \<Rightarrow>
           if cs_Revision stored \<noteq> expected
           then (Inl (PolicyConflict expected (cs_Revision stored)),
                 publish (snapshotWithStatus current StateOutOfSync (FileRevision (cs_Revision stored) (ps_revision current))) controller, d)
           else (Inr (cs_Config stored), controller, d)))"

definition nextSnapshot :: "Change \<Rightarrow> Selector \<Rightarrow> policySnapshot \<Rightarrow> policySnapshot" where
  "nextSnapshot change selector current =
     \<lparr>ps_revision = cs_Revision (ch_After change), ps_configuration = cs_Config (ch_After change),
      ps_pendingRevision = [], ps_pendingConfiguration = None, ps_selector = selector, ps_overlay = ps_overlay current,
      ps_state = (if ch_Warning change \<noteq> [] then StateDurabilityUncertain else StateReady),
      ps_warning = (if ch_Warning change \<noteq> [] then DurabilityWarning (ch_Warning change) else NoWarning)\<rparr>"

text \<open>From the replacement on: persist the candidate, then publish it with its selector.\<close>

definition transactPersist ::
  "'d ConfigRepository \<Rightarrow> Revision \<Rightarrow> Config \<Rightarrow> Selector \<Rightarrow> 'd Controller \<Rightarrow> 'd \<Rightarrow> policy_error option \<times> 'd Controller \<times> 'd" where
  "transactPersist repo expected candidate selector controller d =
     (let current = co_current controller in
      case cr_Replace repo expected candidate d of
        (Inl err, d) \<Rightarrow>
          let (controller, d) = replaceFailed repo current (ps_revision current) err controller d in (Some (PersistFailed err), controller, d)
      | (Inr change, d) \<Rightarrow>
        if \<not> ch_changed change \<and> cs_Revision (ch_After change) = ps_revision current \<and>
           cs_Config (ch_After change) = ps_configuration current \<and> ps_state current \<noteq> StateOutOfSync
        then (None, controller, d)
        else
          let nxt = nextSnapshot change selector current
          in case co_apply controller nxt of
               Some e \<Rightarrow> (case applyFailed repo current change e controller d of (err, controller, d) \<Rightarrow> (Some err, controller, d))
             | None \<Rightarrow> (None, publish nxt controller, d))"

definition transactContext ::
  "config_lib \<Rightarrow> txn_context \<Rightarrow> Revision \<Rightarrow> (Config \<Rightarrow> string + Config) \<Rightarrow> 'd Controller \<Rightarrow> 'd \<Rightarrow> policy_error option \<times> 'd Controller \<times> 'd" where
  "transactContext lib ctx expected build controller d =
     (let current = co_current controller in
      if tc_nil ctx then (Some ContextRequired, controller, d)
      else if ctx_fails (tc_enter ctx) then (Some (ContextErr (the (tc_enter ctx))), controller, d)
      else if ps_state current = StateDegraded then (Some (DegradedError (ps_warning current)), controller, d)
      else if ps_state current = StateRestartPending then (Some RestartPendingError, controller, d)
      else if ps_state current \<noteq> StateOutOfSync \<and> expected \<noteq> ps_revision current
      then (Some (PolicyConflict expected (ps_revision current)), controller, d)
      else case transactBase controller expected d of
        (Inl e, controller, d) \<Rightarrow> (Some e, controller, d)
      | (Inr base, controller, d) \<Rightarrow>
        (case build base of
           Inl e \<Rightarrow> (Some (MutationFailed e), controller, d)
         | Inr candidate \<Rightarrow>
           if ctx_fails (tc_built ctx) then (Some (ContextErr (the (tc_built ctx))), controller, d)
           else case validateCandidate lib (co_safety controller) (ps_configuration current) candidate of
             Inl e \<Rightarrow> (Some e, controller, d)
           | Inr classification \<Rightarrow>
             if va_RestartRequiredFields classification \<noteq> []
             then (Some (RestartRequiredError (va_RestartRequiredFields classification)), controller, d)
             else case compileSelector lib candidate (co_safety controller) of
               Inl e \<Rightarrow> (Some (PolicyCompile e), controller, d)
             | Inr selector \<Rightarrow>
               (case co_repository controller of
                  None \<Rightarrow> (Some (if expected \<noteq> ps_revision current then PolicyConflict expected (ps_revision current) else ReadOnlyError),
                           controller, d)
                | Some repo \<Rightarrow>
                  if ctx_fails (tc_persist ctx) then (Some (ContextErr (the (tc_persist ctx))), controller, d)
                  else transactPersist repo expected candidate selector controller d)))"

definition UpdateContext ::
  "config_lib \<Rightarrow> txn_context \<Rightarrow> Revision \<Rightarrow> Config \<Rightarrow> 'd Controller \<Rightarrow> 'd \<Rightarrow> policy_error option \<times> 'd Controller \<times> 'd" where
  "UpdateContext lib ctx expected candidate controller d = transactContext lib ctx expected (\<lambda>_. Inr candidate) controller d"

definition MutateContext ::
  "config_lib \<Rightarrow> txn_context \<Rightarrow> Revision \<Rightarrow> (Config \<Rightarrow> string + Config) option \<Rightarrow> 'd Controller \<Rightarrow> 'd \<Rightarrow> policy_error option \<times> 'd Controller \<times> 'd" where
  "MutateContext lib ctx expected mutation controller d =
     (case mutation of
        None \<Rightarrow> (Some MutationRequired, controller, d)
      | Some build \<Rightarrow> transactContext lib ctx expected build controller d)"

section \<open>Staging for the next start\<close>

definition StageRestartContext ::
  "config_lib \<Rightarrow> txn_context \<Rightarrow> Revision \<Rightarrow> Config \<Rightarrow> 'd Controller \<Rightarrow> 'd \<Rightarrow> policy_error option \<times> 'd Controller \<times> 'd" where
  "StageRestartContext lib ctx expected candidate controller d =
     (let current = co_current controller;
          durableRevision = (if ps_state current = StateRestartPending then ps_pendingRevision current else ps_revision current)
      in if tc_nil ctx then (Some ContextRequired, controller, d)
         else if ctx_fails (tc_enter ctx) then (Some (ContextErr (the (tc_enter ctx))), controller, d)
         else if ps_state current = StateDegraded then (Some (DegradedError (ps_warning current)), controller, d)
         else if ps_state current \<noteq> StateReady \<and> ps_state current \<noteq> StateRestartPending
         then (Some (PolicyStateError (ps_state current)), controller, d)
         else if expected \<noteq> durableRevision then (Some (PolicyConflict expected durableRevision), controller, d)
         else case validateCandidate lib (co_safety controller) (ps_configuration current) candidate of
           Inl e \<Rightarrow> (Some e, controller, d)
         | Inr classification \<Rightarrow>
           if va_RestartRequiredFields classification = [] then (Some RestartNotRequiredError, controller, d)
           else case co_repository controller of
             None \<Rightarrow> (Some ReadOnlyError, controller, d)
           | Some repo \<Rightarrow>
             if ctx_fails (tc_persist ctx) then (Some (ContextErr (the (tc_persist ctx))), controller, d)
             else case cr_Replace repo durableRevision candidate d of
               (Inl err, d) \<Rightarrow>
                 let (controller, d) = replaceFailed repo current durableRevision err controller d in (Some (PersistFailed err), controller, d)
             | (Inr change, d) \<Rightarrow>
               (None, publish ((snapshotWithStatus current StateRestartPending (SavedForRestart (ch_Warning change)))
                   \<lparr>ps_pendingRevision := cs_Revision (ch_After change), ps_pendingConfiguration := Some (cs_Config (ch_After change))\<rparr>)
                   controller, d))"

definition CancelRestartContext ::
  "txn_context \<Rightarrow> Revision \<Rightarrow> 'd Controller \<Rightarrow> 'd \<Rightarrow> policy_error option \<times> 'd Controller \<times> 'd" where
  "CancelRestartContext ctx expected controller d =
     (let current = co_current controller in
      if tc_nil ctx then (Some ContextRequired, controller, d)
      else if ctx_fails (tc_enter ctx) then (Some (ContextErr (the (tc_enter ctx))), controller, d)
      else if ps_state current \<noteq> StateRestartPending \<or> ps_pendingRevision current = [] then (Some PendingConfigNotFoundError, controller, d)
      else if expected \<noteq> ps_pendingRevision current then (Some (PolicyConflict expected (ps_pendingRevision current)), controller, d)
      else case co_repository controller of
        None \<Rightarrow> (Some NilRepository, controller, d)
      | Some repo \<Rightarrow>
        (case cr_Replace repo (ps_pendingRevision current) (ps_configuration current) d of
           (Inl err, d) \<Rightarrow>
             let (controller, d) = replaceFailed repo current (ps_pendingRevision current) err controller d in (Some (PersistFailed err), controller, d)
         | (Inr change, d) \<Rightarrow>
           (None, publish ((snapshotWithStatus current (if ch_Warning change \<noteq> [] then StateDurabilityUncertain else StateReady)
                (if ch_Warning change \<noteq> [] then DurabilityWarning (ch_Warning change) else NoWarning))
               \<lparr>ps_revision := cs_Revision (ch_After change), ps_pendingRevision := [], ps_pendingConfiguration := None\<rparr>) controller, d)))"

section \<open>The overlay and the safety rules\<close>

definition maximumOverlayFlows :: int where "maximumOverlayFlows = 10000"

definition validateOverlaySet :: "string fset \<Rightarrow> int \<Rightarrow> policy_error option" where
  "validateOverlaySet values limit =
     (if int (fcard values) > limit then Some (OverlaySize (fcard values) limit)
      else if fBall values flowIDText then None else Some OverlayFlowID)"

definition replaceOverlay ::
  "txn_context \<Rightarrow> string fset \<Rightarrow> string fset \<Rightarrow> bool \<Rightarrow> 'd Controller \<Rightarrow> policy_error option \<times> 'd Controller" where
  "replaceOverlay ctx muted soloed replaceMute controller =
     (let current = co_current controller in
      if tc_nil ctx then (Some ContextRequired, controller)
      else if ctx_fails (tc_enter ctx) then (Some (ContextErr (the (tc_enter ctx))), controller)
      else if ps_state current \<noteq> StateReady \<and> ps_state current \<noteq> StateRestartPending
      then (Some (PolicyStateError (ps_state current)), controller)
      else
        let limit = min (pc_FlowRegistryCapacity (cf_Performance (ps_configuration current))) maximumOverlayFlows;
            values = (if replaceMute then muted else soloed)
        in case validateOverlaySet values limit of
             Some e \<Rightarrow> (Some e, controller)
           | None \<Rightarrow>
             let nxt = (snapshotWithStatus current (ps_state current) (ps_warning current))
                   \<lparr>ps_overlay := (if replaceMute then (ps_overlay current)\<lparr>ov_Muted := muted\<rparr>
                                  else (ps_overlay current)\<lparr>ov_Soloed := soloed\<rparr>)\<rparr>
             in if ctx_fails (tc_persist ctx) then (Some (ContextErr (the (tc_persist ctx))), controller)
                else (None, publish nxt controller))"

definition configureSafety :: "config_lib \<Rightarrow> (Rule list \<Rightarrow> Rule list) \<Rightarrow> 'd Controller \<Rightarrow> compile_error option \<times> 'd Controller" where
  "configureSafety lib safety controller =
     (let current = co_current controller in
      case compileSelector lib (ps_configuration current) (Some safety) of
        Inl e \<Rightarrow> (Some e, controller)
      | Inr selector \<Rightarrow>
        (None, publish (current\<lparr>ps_selector := selector, ps_pendingRevision := [], ps_pendingConfiguration := None\<rparr>)
           (controller\<lparr>co_safety := Some safety\<rparr>)))"

section \<open>The file repository as the durable boundary\<close>

text \<open>
  The state of the file repository: the disk, and the answers of the system to the readings and mutations
  that are still to come.
\<close>

record repo_world =
  rw_disk :: disk
  rw_reads :: "nat \<Rightarrow> read_io"
  rw_mutations :: "nat \<Rightarrow> mutation_io"

definition nextRead :: "repo_world \<Rightarrow> disk \<Rightarrow> repo_world" where
  "nextRead w disk = w\<lparr>rw_disk := disk, rw_reads := (\<lambda>n. rw_reads w (Suc n))\<rparr>"

definition nextMutation :: "repo_world \<Rightarrow> disk \<Rightarrow> repo_world" where
  "nextMutation w disk = w\<lparr>rw_disk := disk, rw_mutations := (\<lambda>n. rw_mutations w (Suc n))\<rparr>"

definition fileRepository :: "yaml_lib \<Rightarrow> nat \<Rightarrow> repo_world ConfigRepository" where
  "fileRepository lib provenance =
     \<lparr>cr_Read = (\<lambda>w. let (result, disk) = Repository_Read lib (rw_reads w 0) (rw_disk w) in (result, nextRead w disk)),
      cr_Replace = (\<lambda>expected c w.
        let (result, disk) = ReplaceContext lib (rw_mutations w 0) provenance expected c (rw_disk w) in (result, nextMutation w disk)),
      cr_Rollback = (\<lambda>change w.
        let (result, disk) = RollbackContext lib (rw_mutations w 0) provenance change (rw_disk w) in (result, nextMutation w disk))\<rparr>"

section \<open>Classification\<close>

lemma appendIfChanged_Nil [simp]: "appendIfChanged path before after = [] \<longleftrightarrow> before = after"
  by (simp add: appendIfChanged_def)

lemma appendIfChanged_mem [simp]: "p \<in> set (appendIfChanged path before after) \<longleftrightarrow> p = path \<and> before \<noteq> after"
  by (auto simp: appendIfChanged_def)

text \<open>Two records are equal when their fields are.\<close>

lemma InstanceConfig_eq_iff: "(c :: InstanceConfig) = d \<longleftrightarrow>
  ic_ID c = ic_ID d \<and> ic_Role c = ic_Role d"
  by (cases c; cases d) simp

lemma CaptureConfig_eq_iff: "(c :: CaptureConfig) = d \<longleftrightarrow>
  cc_Enabled c = cc_Enabled d \<and> cc_Interface c = cc_Interface d \<and> cc_BPF c = cc_BPF d \<and>
  cc_SnapshotLength c = cc_SnapshotLength d \<and> cc_Promiscuous c = cc_Promiscuous d"
  by (cases c; cases d) simp

lemma MappingConfig_eq_iff: "(c :: MappingConfig) = d \<longleftrightarrow>
  mac_Version c = mac_Version d \<and> mac_Seed c = mac_Seed d \<and> mac_DefaultState c = mac_DefaultState d \<and>
  mac_DefaultChannel c = mac_DefaultChannel d \<and> mac_MinimumNote c = mac_MinimumNote d \<and> mac_MaximumNote c = mac_MaximumNote d \<and>
  mac_MinimumDuration c = mac_MinimumDuration d \<and> mac_MaximumDuration c = mac_MaximumDuration d"
  by (cases c; cases d) simp

lemma PerformanceConfig_eq_iff: "(c :: PerformanceConfig) = d \<longleftrightarrow>
  pc_PacketQueueCapacity c = pc_PacketQueueCapacity d \<and> pc_NoteQueueCapacity c = pc_NoteQueueCapacity d \<and> pc_UIQueueCapacity c = pc_UIQueueCapacity d \<and>
  pc_FlowRegistryCapacity c = pc_FlowRegistryCapacity d \<and> pc_FlowTTL c = pc_FlowTTL d \<and> pc_MaximumNotesPerSecond c = pc_MaximumNotesPerSecond d \<and>
  pc_MaximumPolyphony c = pc_MaximumPolyphony d \<and> pc_MinimumRetriggerInterval c = pc_MinimumRetriggerInterval d"
  by (cases c; cases d) simp

lemma MIDIConfig_eq_iff: "(c :: MIDIConfig) = d \<longleftrightarrow>
  mdc_Enabled c = mdc_Enabled d \<and> mdc_ExactDeviceName c = mdc_ExactDeviceName d \<and> mdc_DeviceNameRegexp c = mdc_DeviceNameRegexp d \<and>
  mdc_PollInterval c = mdc_PollInterval d"
  by (cases c; cases d) simp

lemma ServerConfig_eq_iff: "(c :: ServerConfig) = d \<longleftrightarrow>
  svc_ListenAddress c = svc_ListenAddress d \<and> svc_ReadTimeout c = svc_ReadTimeout d \<and> svc_WriteTimeout c = svc_WriteTimeout d"
  by (cases c; cases d) simp

lemma PeerConfig_eq_iff: "(c :: PeerConfig) = d \<longleftrightarrow>
  pec_Enabled c = pec_Enabled d \<and> pec_URL c = pec_URL d \<and> pec_Token c = pec_Token d \<and>
  pec_QueueCapacity c = pec_QueueCapacity d \<and> pec_MaximumConnections c = pec_MaximumConnections d \<and> pec_RecentTTL c = pec_RecentTTL d \<and>
  pec_ReconnectBase c = pec_ReconnectBase d \<and> pec_ReconnectLimit c = pec_ReconnectLimit d \<and> pec_StaleAfter c = pec_StaleAfter d"
  by (cases c; cases d) simp

lemma LoggingConfig_eq_iff: "(c :: LoggingConfig) = d \<longleftrightarrow>
  lc_Level c = lc_Level d \<and> lc_Format c = lc_Format d"
  by (cases c; cases d) simp

lemma Config_eq_iff: "(c :: Config) = d \<longleftrightarrow>
  cf_Instance c = cf_Instance d \<and> cf_Capture c = cf_Capture d \<and> cf_Mapping c = cf_Mapping d \<and>
  cf_Performance c = cf_Performance d \<and> cf_MIDI c = cf_MIDI d \<and> cf_Server c = cf_Server d \<and>
  cf_Peer c = cf_Peer d \<and> cf_MetricsNamespace c = cf_MetricsNamespace d \<and> cf_Logging c = cf_Logging d \<and>
  cf_Rules c = cf_Rules d"
  by (cases c; cases d) simp

lemmas config_eq_iffs = InstanceConfig_eq_iff CaptureConfig_eq_iff MappingConfig_eq_iff PerformanceConfig_eq_iff MIDIConfig_eq_iff ServerConfig_eq_iff PeerConfig_eq_iff LoggingConfig_eq_iff Config_eq_iff

lemma restartFields_Nil: "restartFields c d = [] \<longleftrightarrow> c = withoutHot c d"
  unfolding restartFields_def withoutHot_def config_eq_iffs by simp

lemma sort_Nil_iff [simp]: "sort xs = [] \<longleftrightarrow> xs = []"
  by (metis set_empty set_sort)

lemma classifyChanges_eq:
  "classifyChanges c d = \<lparr>va_HotFields = sort (hotFields c d), va_RestartRequiredFields = sort (restartFields c d)\<rparr>"
  by (auto simp: classifyChanges_def Let_def restartFields_Nil)

lemma validateCandidate_Inr:
  "validateCandidate lib safety current candidate = Inr v \<longleftrightarrow> Config_Validate lib candidate = [] \<and>
     (\<exists>selector. compileSelector lib candidate safety = Inr selector) \<and> v = classifyChanges current candidate"
  by (auto simp: validateCandidate_def split: sum.splits)

section \<open>What the operations do to the policy\<close>

lemma snapshotWithStatus_same [simp]: "snapshotWithStatus s (ps_state s) (ps_warning s) = s"
  by (simp add: snapshotWithStatus_def)

lemma snapshotWithStatus_sel [simp]:
  "ps_revision (snapshotWithStatus s st w) = ps_revision s" "ps_configuration (snapshotWithStatus s st w) = ps_configuration s"
  "ps_pendingRevision (snapshotWithStatus s st w) = ps_pendingRevision s" "ps_selector (snapshotWithStatus s st w) = ps_selector s"
  "ps_pendingConfiguration (snapshotWithStatus s st w) = ps_pendingConfiguration s" "ps_overlay (snapshotWithStatus s st w) = ps_overlay s"
  "ps_state (snapshotWithStatus s st w) = st" "ps_warning (snapshotWithStatus s st w) = w"
  by (simp_all add: snapshotWithStatus_def)

lemma publish_sel [simp]:
  "co_current (publish s c) = s" "co_repository (publish s c) = co_repository c" "co_safety (publish s c) = co_safety c"
  "co_apply (publish s c) = co_apply c" "publish (co_current c) c = c"
  by (simp_all add: publish_def)

text \<open>A controller whose policy is kept, with another status at most.\<close>

definition kept :: "ControllerState set \<Rightarrow> 'd Controller \<Rightarrow> 'd Controller \<Rightarrow> bool" where
  "kept states controller controller' \<longleftrightarrow>
     (\<exists>st w. controller' = publish (snapshotWithStatus (co_current controller) st w) controller \<and>
        (st = ps_state (co_current controller) \<or> st \<in> states))"

lemma kept_refl [simp, intro]: "kept states controller controller"
  unfolding kept_def by (metis publish_sel(5) snapshotWithStatus_same)

lemma kept_publish [intro]: "st \<in> states \<Longrightarrow> current = co_current controller \<Longrightarrow>
    kept states controller (publish (snapshotWithStatus current st w) controller)"
  unfolding kept_def by blast

lemma kept_sel:
  "kept states controller controller' \<Longrightarrow> co_repository controller' = co_repository controller \<and> co_safety controller' = co_safety controller \<and>
     co_apply controller' = co_apply controller \<and> ps_revision (co_current controller') = ps_revision (co_current controller) \<and>
     ps_configuration (co_current controller') = ps_configuration (co_current controller) \<and>
     ps_selector (co_current controller') = ps_selector (co_current controller) \<and>
     ps_overlay (co_current controller') = ps_overlay (co_current controller)"
  by (auto simp: kept_def)

definition readAtMost :: "'d ConfigRepository option \<Rightarrow> 'd \<Rightarrow> 'd \<Rightarrow> bool" where
  "readAtMost repository d d' \<longleftrightarrow> d' = d \<or> (\<exists>repo result. repository = Some repo \<and> cr_Read repo d = (result, d'))"

lemma readAtMost_refl [simp, intro]: "readAtMost repository d d"
  by (simp add: readAtMost_def)

lemma replaceFailed_kept:
  assumes "replaceFailed repo current revision err controller d = (controller', d')" and "current = co_current controller"
  shows "kept {StateOutOfSync} controller controller'" and "readAtMost (Some repo) d d'"
  using assms by (auto simp: replaceFailed_def markPersistenceUncertainty_def readAtMost_def Let_def
      split: option.splits prod.splits if_splits sum.splits)

lemma applyFailed_kept:
  assumes "applyFailed repo current change e controller d = (err, controller', d')" and "current = co_current controller"
  shows "kept {StateOutOfSync, StateDegraded, StateDurabilityUncertain, StateReady} controller controller'"
  using assms by (auto simp: applyFailed_def split: prod.splits if_splits sum.splits)

lemma transactBase_Inl:
  assumes "transactBase controller expected d = (Inl e, controller', d')"
  shows "kept {StateOutOfSync} controller controller'" and "readAtMost (co_repository controller) d d'"
  using assms by (auto simp: transactBase_def readAtMost_def Let_def split: option.splits prod.splits if_splits sum.splits)

lemma transactBase_Inr:
  assumes "transactBase controller expected d = (Inr base, controller', d')"
  shows "controller' = controller" and "readAtMost (co_repository controller) d d'"
    and "ps_state (co_current controller) = StateOutOfSync \<or> base = ps_configuration (co_current controller)"
  using assms by (auto simp: transactBase_def readAtMost_def Let_def split: option.splits prod.splits if_splits sum.splits)

text \<open>A transaction stops before it persists anything, or persists a valid candidate that changes hot fields only.\<close>

lemma transactContext_cases:
  assumes "transactContext lib ctx expected build controller d = (err, controller', d')"
  obtains (stopped) e where "err = Some e" "kept {StateOutOfSync} controller controller'" "readAtMost (co_repository controller) d d'"
  | (persisted) repo candidate selector d1 base where "co_repository controller = Some repo" "readAtMost (Some repo) d d1"
      "ps_state (co_current controller) = StateOutOfSync \<or> expected = ps_revision (co_current controller)"
      "ps_state (co_current controller) \<notin> {StateDegraded, StateRestartPending}"
      "Config_Validate lib candidate = []" "restartFields (ps_configuration (co_current controller)) candidate = []"
      "compileSelector lib candidate (co_safety controller) = Inr selector"
      "transactPersist repo expected candidate selector controller d1 = (err, controller', d')" "build base = Inr candidate"
      "ps_state (co_current controller) = StateOutOfSync \<or> base = ps_configuration (co_current controller)"
proof (cases "err \<noteq> None \<and> kept {StateOutOfSync} controller controller' \<and> readAtMost (co_repository controller) d d'")
  case True
  then show ?thesis using stopped by blast
next
  case False
  obtain result controller1 d1 where base: "transactBase controller expected d = (result, controller1, d1)" by (metis prod_cases3)
  obtain b where b: "result = Inr b" using assms False transactBase_Inl [of controller expected d _ controller1 d1] base
    by (cases result) (auto simp: transactContext_def Let_def split: if_splits)
  have c1: "controller1 = controller" "readAtMost (co_repository controller) d d1"
    "ps_state (co_current controller) = StateOutOfSync \<or> b = ps_configuration (co_current controller)" using transactBase_Inr [of controller expected d b] base b by auto
  show ?thesis using assms False base b c1 persisted
    by (auto simp: transactContext_def validateCandidate_Inr classifyChanges_eq Let_def split: if_splits sum.splits option.splits)
qed

lemma transactPersist_cases:
  assumes "transactPersist repo expected candidate selector controller d = (err, controller', d')"
  obtains (refused) e errs d2 where "err = Some e" "cr_Replace repo expected candidate d = (Inl errs, d2)"
      "kept {StateOutOfSync} controller controller'" "readAtMost (Some repo) d2 d'"
  | (unchanged) change where "err = None" "cr_Replace repo expected candidate d = (Inr change, d')" "\<not> ch_changed change"
      "controller' = controller" "cs_Revision (ch_After change) = ps_revision (co_current controller)"
      "cs_Config (ch_After change) = ps_configuration (co_current controller)" "ps_state (co_current controller) \<noteq> StateOutOfSync"
  | (unpublished) e change d2 f where "err = Some e" "cr_Replace repo expected candidate d = (Inr change, d2)"
      "co_apply controller (nextSnapshot change selector (co_current controller)) = Some f"
      "applyFailed repo (co_current controller) change f controller d2 = (e, controller', d')"
  | (published) change where "err = None" "cr_Replace repo expected candidate d = (Inr change, d')"
      "controller' = publish (nextSnapshot change selector (co_current controller)) controller"
proof -
  obtain result d2 where r: "cr_Replace repo expected candidate d = (result, d2)" by force
  show ?thesis
  proof (cases result)
    case (Inl errs)
    then show ?thesis using assms r refused replaceFailed_kept [of repo "co_current controller" _ errs controller d2]
      by (auto simp: transactPersist_def Let_def split: prod.splits)
  next
    case (Inr change)
    then show ?thesis using assms r unchanged unpublished published
      by (auto simp: transactPersist_def Let_def split: prod.splits if_splits option.splits)
  qed
qed

lemma Stage_cases:
  assumes "StageRestartContext lib ctx expected candidate controller d = (err, controller', d')"
  obtains (stopped) e where "err = Some e" "controller' = controller" "d' = d"
  | (refused) e repo errs rev d2 where "err = Some e" "co_repository controller = Some repo"
      "cr_Replace repo rev candidate d = (Inl errs, d2)" "kept {StateOutOfSync} controller controller'" "readAtMost (Some repo) d2 d'"
  | (staged) repo change rev w where "err = None" "co_repository controller = Some repo" "cr_Replace repo rev candidate d = (Inr change, d')"
      "Config_Validate lib candidate = []" "restartFields (ps_configuration (co_current controller)) candidate \<noteq> []"
      "controller' = publish ((snapshotWithStatus (co_current controller) StateRestartPending w)
         \<lparr>ps_pendingRevision := cs_Revision (ch_After change), ps_pendingConfiguration := Some (cs_Config (ch_After change))\<rparr>) controller"
proof (cases "err \<noteq> None \<and> controller' = controller \<and> d' = d")
  case True
  then show ?thesis using stopped by blast
next
  case False
  let ?rev = "if ps_state (co_current controller) = StateRestartPending then ps_pendingRevision (co_current controller) else ps_revision (co_current controller)"
  obtain repo where repo: "co_repository controller = Some repo"
    and v: "Config_Validate lib candidate = []" "restartFields (ps_configuration (co_current controller)) candidate \<noteq> []"
    using assms False by (auto simp: StageRestartContext_def validateCandidate_Inr classifyChanges_eq Let_def split: if_splits sum.splits option.splits)
  obtain result d2 where r: "cr_Replace repo ?rev candidate d = (result, d2)" by force
  show ?thesis
  proof (cases result)
    case (Inl errs)
    then show ?thesis using assms False repo r refused [of _ repo ?rev errs d2] replaceFailed_kept [of repo "co_current controller" _ errs controller d2]
      by (auto simp: StageRestartContext_def Let_def split: prod.splits if_splits sum.splits)
  next
    case (Inr change)
    then show ?thesis using assms False repo r staged [of repo ?rev change] v
      by (auto simp: StageRestartContext_def Let_def split: prod.splits if_splits sum.splits)
  qed
qed

lemma Cancel_cases:
  assumes "CancelRestartContext ctx expected controller d = (err, controller', d')"
  obtains (stopped) e where "err = Some e" "controller' = controller" "d' = d"
  | (refused) e repo errs rev d2 where "err = Some e" "co_repository controller = Some repo"
      "cr_Replace repo rev (ps_configuration (co_current controller)) d = (Inl errs, d2)" "kept {StateOutOfSync} controller controller'"
      "readAtMost (Some repo) d2 d'"
  | (cancelled) repo change rev st w where "err = None" "co_repository controller = Some repo"
      "cr_Replace repo rev (ps_configuration (co_current controller)) d = (Inr change, d')" "st \<in> {StateReady, StateDurabilityUncertain}"
      "controller' = publish ((snapshotWithStatus (co_current controller) st w)
         \<lparr>ps_revision := cs_Revision (ch_After change), ps_pendingRevision := [], ps_pendingConfiguration := None\<rparr>) controller"
proof (cases "err \<noteq> None \<and> controller' = controller \<and> d' = d")
  case True
  then show ?thesis using stopped by blast
next
  case False
  let ?rev = "ps_pendingRevision (co_current controller)"
  obtain repo where repo: "co_repository controller = Some repo"
    using assms False by (auto simp: CancelRestartContext_def Let_def split: if_splits option.splits)
  obtain result d2 where r: "cr_Replace repo ?rev (ps_configuration (co_current controller)) d = (result, d2)" by force
  show ?thesis
  proof (cases result)
    case (Inl errs)
    then show ?thesis using assms False repo r refused [of _ repo ?rev errs d2] replaceFailed_kept [of repo "co_current controller" _ errs controller d2]
      by (auto simp: CancelRestartContext_def Let_def split: prod.splits if_splits)
  next
    case (Inr change)
    then show ?thesis using assms False repo r cancelled [of repo ?rev change]
      by (auto simp: CancelRestartContext_def Let_def split: prod.splits if_splits)
  qed
qed

end
