(* ===== verification/Policy_Spec.thy ===== *)
theory Policy_Spec
  imports Policy
begin

text \<open>
  What the policy controller guarantees over any sequence of its operations: the active policy stays
  coherent, and it stays in step with the durable configuration. The contract of the durable boundary is
  stated as two locales, which the file repository of theory Repository satisfies.
\<close>

section \<open>Sequences of operations\<close>

datatype policy_op =
    OpUpdate txn_context Revision Config
  | OpMutate txn_context Revision "Config \<Rightarrow> string + Config"
  | OpStage txn_context Revision Config
  | OpCancel txn_context Revision
  | OpMute txn_context "string fset"
  | OpSolo txn_context "string fset"

fun policy_step :: "config_lib \<Rightarrow> policy_op \<Rightarrow> 'd Controller \<Rightarrow> 'd \<Rightarrow> policy_error option \<times> 'd Controller \<times> 'd" where
  "policy_step lib (OpUpdate ctx expected candidate) c d = UpdateContext lib ctx expected candidate c d"
| "policy_step lib (OpMutate ctx expected mutation) c d = MutateContext lib ctx expected (Some mutation) c d"
| "policy_step lib (OpStage ctx expected candidate) c d = StageRestartContext lib ctx expected candidate c d"
| "policy_step lib (OpCancel ctx expected) c d = CancelRestartContext ctx expected c d"
| "policy_step lib (OpMute ctx muted) c d = (case replaceOverlay ctx muted {||} True c of (err, c) \<Rightarrow> (err, c, d))"
| "policy_step lib (OpSolo ctx soloed) c d = (case replaceOverlay ctx {||} soloed False c of (err, c) \<Rightarrow> (err, c, d))"

fun policy_run :: "config_lib \<Rightarrow> policy_op list \<Rightarrow> 'd Controller \<Rightarrow> 'd \<Rightarrow> 'd Controller \<times> 'd" where
  "policy_run lib [] c d = (c, d)"
| "policy_run lib (op # ops) c d = (case policy_step lib op c d of (_, c, d) \<Rightarrow> policy_run lib ops c d)"

section \<open>Coherence\<close>

definition overlayBound :: "Config \<Rightarrow> int" where
  "overlayBound c = min (pc_FlowRegistryCapacity (cf_Performance c)) maximumOverlayFlows"

definition overlaySet_ok :: "Config \<Rightarrow> string fset \<Rightarrow> bool" where
  "overlaySet_ok c values \<longleftrightarrow> int (fcard values) \<le> overlayBound c \<and> fBall values flowIDText"

text \<open>
  The active configuration is valid, the selector is the one it compiles to, the overlay is bounded and names
  flows, and a pending configuration is a valid one that does need a restart.
\<close>

definition coherent :: "config_lib \<Rightarrow> 'd Controller \<Rightarrow> bool" where
  "coherent lib controller \<longleftrightarrow>
     (let s = co_current controller; c = ps_configuration s in
      Config_Validate lib c = [] \<and> compileSelector lib c (co_safety controller) = Inr (ps_selector s) \<and>
      overlaySet_ok c (ov_Muted (ps_overlay s)) \<and> overlaySet_ok c (ov_Soloed (ps_overlay s)) \<and>
      (ps_state s = StateRestartPending \<longrightarrow>
         ps_pendingRevision s \<noteq> [] \<and>
         (\<exists>p. ps_pendingConfiguration s = Some p \<and> Config_Validate lib p = [] \<and> restartFields c p \<noteq> [])))"

lemma coherent_kept: "coherent lib controller \<Longrightarrow> kept states controller controller' \<Longrightarrow> StateRestartPending \<notin> states \<Longrightarrow> coherent lib controller'"
  by (auto simp: coherent_def kept_def Let_def)

lemma hot_Performance: "restartFields c d = [] \<Longrightarrow> cf_Performance d = cf_Performance c"
  unfolding restartFields_Nil by (drule arg_cong [where f = cf_Performance]) (simp add: withoutHot_def)

lemma replaceOverlay_cases:
  assumes "replaceOverlay ctx muted soloed b controller = (err, controller')"
  obtains (refused) e where "err = Some e" "controller' = controller"
  | (replaced) overlay where "err = None" "controller' = publish ((co_current controller)\<lparr>ps_overlay := overlay\<rparr>) controller"
      "overlay = (if b then (ps_overlay (co_current controller))\<lparr>ov_Muted := muted\<rparr> else (ps_overlay (co_current controller))\<lparr>ov_Soloed := soloed\<rparr>)"
      "overlaySet_ok (ps_configuration (co_current controller)) (if b then muted else soloed)"
  using assms by (auto simp: replaceOverlay_def validateOverlaySet_def overlaySet_ok_def overlayBound_def linorder_not_less Let_def split: if_splits)

lemma coherent_overlay:
  assumes "coherent lib controller" and "replaceOverlay ctx muted soloed b controller = (err, controller')"
  shows "coherent lib controller'"
  using assms(2,1) by (cases rule: replaceOverlay_cases) (auto simp: coherent_def Let_def)

lemma transactContext_fixed:
  assumes "transactContext lib ctx expected build controller d = (err, controller', d')"
  shows "co_repository controller' = co_repository controller \<and> co_safety controller' = co_safety controller \<and> co_apply controller' = co_apply controller"
  using assms
proof (cases rule: transactContext_cases)
  case (persisted repo candidate selector d1 base)
  from persisted(8) show ?thesis
  proof (cases rule: transactPersist_cases)
    case (unpublished e change d2 f)
    then show ?thesis using kept_sel [OF applyFailed_kept [OF unpublished(4) refl]] by simp
  qed (auto dest: kept_sel)
qed (auto dest: kept_sel)

text \<open>No operation replaces the repository, the safety rules or the publication of a controller.\<close>

lemma policy_step_fixed:
  assumes "policy_step lib op controller d = (err, controller', d')"
  shows "co_repository controller' = co_repository controller \<and> co_safety controller' = co_safety controller \<and> co_apply controller' = co_apply controller"
proof (cases op)
  case (OpStage ctx expected candidate)
  with assms have "StageRestartContext lib ctx expected candidate controller d = (err, controller', d')" by simp
  then show ?thesis by (cases rule: Stage_cases) (auto dest: kept_sel)
next
  case (OpCancel ctx expected)
  with assms have "CancelRestartContext ctx expected controller d = (err, controller', d')" by simp
  then show ?thesis by (cases rule: Cancel_cases) (auto dest: kept_sel)
next
  case (OpMute ctx muted)
  then obtain e where "replaceOverlay ctx muted {||} True controller = (e, controller')" using assms by (auto split: prod.splits)
  then show ?thesis by (cases rule: replaceOverlay_cases) auto
next
  case (OpSolo ctx soloed)
  then obtain e where "replaceOverlay ctx {||} soloed False controller = (e, controller')" using assms by (auto split: prod.splits)
  then show ?thesis by (cases rule: replaceOverlay_cases) auto
qed (use assms in \<open>auto simp: UpdateContext_def MutateContext_def dest!: transactContext_fixed\<close>)

lemma policy_run_fixed:
  assumes "policy_run lib ops controller d = (controller', d')"
  shows "co_repository controller' = co_repository controller \<and> co_safety controller' = co_safety controller \<and> co_apply controller' = co_apply controller"
  using assms
proof (induction ops arbitrary: controller d)
  case (Cons op ops)
  obtain err c1 d1 where s: "policy_step lib op controller d = (err, c1, d1)" by (metis prod_cases3)
  then show ?case using Cons.IH [of c1 d1] Cons.prems policy_step_fixed [OF s] by simp
qed simp

section \<open>The contract of the durable boundary\<close>

text \<open>
  What a repository answers: the configuration it reports as stored is valid, has a revision, and, where
  stored documents read back exactly, is the one it was given.
\<close>

locale policy_repository =
  fixes lib :: config_lib and repo :: "'d ConfigRepository" and exact :: bool
  assumes replace_config: "exact \<Longrightarrow> cr_Replace repo e c d = (Inr change, d') \<Longrightarrow> cs_Config (ch_After change) = c"
    and replace_valid: "cr_Replace repo e c d = (Inr change, d') \<Longrightarrow> Config_Validate lib (cs_Config (ch_After change)) = []"
    and replace_revision: "cr_Replace repo e c d = (Inr change, d') \<Longrightarrow> cs_Revision (ch_After change) \<noteq> []"
begin

lemma coherent_transact:
  assumes exact and co: "coherent lib controller" and repo: "co_repository controller = Some repo"
    and run: "transactContext lib ctx expected build controller d = (err, controller', d')"
  shows "coherent lib controller'"
  using run
proof (cases rule: transactContext_cases)
  case (stopped e)
  then show ?thesis using coherent_kept [OF co] by blast
next
  case (persisted r candidate selector d1 base)
  then have r: "r = repo" using repo by simp
  from persisted(8) show ?thesis
  proof (cases rule: transactPersist_cases)
    case (unpublished e change d2 f)
    then show ?thesis using coherent_kept [OF co applyFailed_kept] by simp
  next
    case (published change)
    then have "cs_Config (ch_After change) = candidate" using replace_config [OF assms(1)] r by blast
    then show ?thesis using published co persisted hot_Performance [OF persisted(6)]
      by (auto simp: coherent_def nextSnapshot_def overlaySet_ok_def overlayBound_def Let_def)
  qed (use coherent_kept [OF co] co in auto)
qed

lemma coherent_stage:
  assumes exact and co: "coherent lib controller" and repo: "co_repository controller = Some repo"
    and run: "StageRestartContext lib ctx expected candidate controller d = (err, controller', d')"
  shows "coherent lib controller'"
  using run
proof (cases rule: Stage_cases)
  case (staged r change rev w)
  then show ?thesis using repo co replace_config [OF assms(1)] replace_revision by (auto simp: coherent_def Let_def)
qed (use coherent_kept [OF co] co in auto)

lemma coherent_cancel:
  assumes co: "coherent lib controller" and run: "CancelRestartContext ctx expected controller d = (err, controller', d')"
  shows "coherent lib controller'"
  using run
proof (cases rule: Cancel_cases)
  case (cancelled r change rev st w)
  then show ?thesis using co by (auto simp: coherent_def Let_def)
qed (use coherent_kept [OF co] co in auto)


lemma coherent_step:
  assumes exact and "coherent lib controller" and "co_repository controller = Some repo"
    and "policy_step lib op controller d = (err, controller', d')"
  shows "coherent lib controller'"
proof (cases op)
  case (OpUpdate ctx expected candidate)
  then show ?thesis using coherent_transact [OF assms(1-3)] assms(4) by (auto simp: UpdateContext_def)
next
  case (OpMutate ctx expected mutation)
  then show ?thesis using coherent_transact [OF assms(1-3)] assms(4) by (auto simp: MutateContext_def)
next
  case (OpStage ctx expected candidate)
  then show ?thesis using coherent_stage [OF assms(1-3)] assms(4) by auto
next
  case (OpCancel ctx expected)
  then show ?thesis using coherent_cancel [OF assms(2)] assms(4) by auto
qed (use assms coherent_overlay in \<open>auto split: prod.splits\<close>)

lemma coherent_run:
  assumes exact and "coherent lib controller" and "co_repository controller = Some repo"
    and "policy_run lib ops controller d = (controller', d')"
  shows "coherent lib controller' \<and> co_repository controller' = Some repo"
  using assms(2-)
proof (induction ops arbitrary: controller d)
  case (Cons op ops)
  obtain err c1 d1 where s: "policy_step lib op controller d = (err, c1, d1)" by (metis prod_cases3)
  show ?case using Cons.IH [of c1 d1] Cons.prems s coherent_step [OF assms(1) Cons.prems(1,2) s] policy_step_fixed [OF s] by simp
qed simp

end

text \<open>In the states that say so, the repository holds the revision that the controller names.\<close>

definition inStep :: "('d \<Rightarrow> Revision option) \<Rightarrow> 'd Controller \<Rightarrow> 'd \<Rightarrow> bool" where
  "inStep stored controller d \<longleftrightarrow> (let s = co_current controller in
     (ps_state s \<in> {StateReady, StateDurabilityUncertain} \<longrightarrow> stored d = Some (ps_revision s)) \<and>
     (ps_state s = StateRestartPending \<longrightarrow> stored d = Some (ps_pendingRevision s)))"

text \<open>
  A repository that nobody else writes to: \<open>stored\<close> is the revision it holds, which only a successful
  replacement or rollback changes.
\<close>

locale quiet_repository = policy_repository lib repo exact
  for lib :: config_lib and repo :: "'d ConfigRepository" and exact +
  fixes trusted :: "'d \<Rightarrow> bool" and stored :: "'d \<Rightarrow> Revision option"
  assumes read_quiet: "trusted d \<Longrightarrow> cr_Read repo d = (result, d') \<Longrightarrow> trusted d' \<and> stored d' = stored d"
    and read_revision: "trusted d \<Longrightarrow> cr_Read repo d = (Inr snapshot, d') \<Longrightarrow> stored d' = Some (cs_Revision snapshot)"
    and replace_trusted: "trusted d \<Longrightarrow> cr_Replace repo e c d = (answer, d') \<Longrightarrow> trusted d'"
    and replace_Inl: "trusted d \<Longrightarrow> cr_Replace repo e c d = (Inl errs, d') \<Longrightarrow> stored d' = stored d"
    and replace_Inr: "trusted d \<Longrightarrow> cr_Replace repo e c d = (Inr change, d') \<Longrightarrow>
      stored d = Some e \<and> stored d' = Some (cs_Revision (ch_After change))"
    and rollback_Inr: "trusted d \<Longrightarrow> cr_Replace repo e c d = (Inr change, d1) \<Longrightarrow> cr_Rollback repo change d1 = (Inr reverted, d2) \<Longrightarrow>
      trusted d2 \<and> stored d2 = Some e"
begin

lemma readAtMost_quiet: "readAtMost (Some repo) d d' \<Longrightarrow> trusted d \<Longrightarrow> trusted d' \<and> stored d' = stored d"
  unfolding readAtMost_def using read_quiet by blast

lemma inStep_kept:
  "inStep stored controller d \<Longrightarrow> kept states controller controller' \<Longrightarrow> states \<subseteq> {StateOutOfSync, StateDegraded} \<Longrightarrow> stored d' = stored d \<Longrightarrow> inStep stored controller' d'"
  by (auto simp: inStep_def kept_def Let_def)

lemma inStep_transact:
  assumes t: "trusted d" and i: "inStep stored controller d" and c: "co_repository controller = Some repo" "\<And>s. co_apply controller s = None"
    and run: "transactContext lib ctx expected build controller d = (err, controller', d')"
  shows "trusted d' \<and> inStep stored controller' d'"
  using run
proof (cases rule: transactContext_cases)
  case (stopped e)
  then show ?thesis using readAtMost_quiet t inStep_kept [OF i stopped(2)] c(1) by auto
next
  case (persisted r candidate selector d1 base)
  have r: "r = repo" and d1: "trusted d1" "stored d1 = stored d" using persisted(1,2) c(1) readAtMost_quiet t by auto
  from persisted(8) show ?thesis unfolding r
  proof (cases rule: transactPersist_cases)
    case (refused e errs d2)
    have "trusted d2" "stored d2 = stored d" using replace_trusted replace_Inl refused(2) d1 by metis+
    then show ?thesis using readAtMost_quiet [OF refused(4)] inStep_kept [OF i refused(3)] by auto
  next
    case (unchanged change)
    then show ?thesis using replace_trusted [OF d1(1)] replace_Inr [OF d1(1)] persisted(4) by (auto simp: inStep_def Let_def)
  next
    case (published change)
    then show ?thesis using replace_trusted [OF d1(1)] replace_Inr [OF d1(1)] by (auto simp: inStep_def nextSnapshot_def Let_def)
  qed (simp add: c)
qed

lemma inStep_stage:
  assumes t: "trusted d" and i: "inStep stored controller d" and c: "co_repository controller = Some repo"
    and run: "StageRestartContext lib ctx expected candidate controller d = (err, controller', d')"
  shows "trusted d' \<and> inStep stored controller' d'"
  using run
proof (cases rule: Stage_cases)
  case (refused e r errs rev d2)
  have "trusted d2" "stored d2 = stored d" using replace_trusted replace_Inl refused(2,3) c t by (metis option.inject)+
  then show ?thesis using readAtMost_quiet refused(2,5) inStep_kept [OF i refused(4)] c by auto
next
  case (staged r change rev w)
  then show ?thesis using replace_trusted [OF t] replace_Inr [OF t] c by (auto simp: inStep_def Let_def)
qed (use t i in auto)

lemma inStep_cancel:
  assumes t: "trusted d" and i: "inStep stored controller d" and c: "co_repository controller = Some repo"
    and run: "CancelRestartContext ctx expected controller d = (err, controller', d')"
  shows "trusted d' \<and> inStep stored controller' d'"
  using run
proof (cases rule: Cancel_cases)
  case (refused e r errs rev d2)
  have "trusted d2" "stored d2 = stored d" using replace_trusted replace_Inl refused(2,3) c t by (metis option.inject)+
  then show ?thesis using readAtMost_quiet refused(2,5) inStep_kept [OF i refused(4)] c by auto
next
  case (cancelled r change rev st w)
  then show ?thesis using replace_trusted [OF t] replace_Inr [OF t] c by (auto simp: inStep_def Let_def)
qed (use t i in auto)

lemma inStep_overlay:
  "inStep stored controller d \<Longrightarrow> replaceOverlay ctx muted soloed b controller = (err, controller') \<Longrightarrow> inStep stored controller' d"
  by (erule replaceOverlay_cases) (auto simp: inStep_def Let_def)

lemma inStep_step:
  assumes "trusted d" and "inStep stored controller d" and "co_repository controller = Some repo" and "\<And>s. co_apply controller s = None"
    and "policy_step lib op controller d = (err, controller', d')"
  shows "trusted d' \<and> inStep stored controller' d'"
proof (cases op)
  case (OpUpdate ctx expected candidate)
  then show ?thesis using inStep_transact [OF assms(1-4)] assms(5) by (auto simp: UpdateContext_def)
next
  case (OpMutate ctx expected mutation)
  then show ?thesis using inStep_transact [OF assms(1-4)] assms(5) by (auto simp: MutateContext_def)
next
  case (OpStage ctx expected candidate)
  then show ?thesis using inStep_stage [OF assms(1-3)] assms(5) by auto
next
  case (OpCancel ctx expected)
  then show ?thesis using inStep_cancel [OF assms(1-3)] assms(5) by auto
qed (use assms inStep_overlay in \<open>auto split: prod.splits\<close>)

lemma inStep_run:
  assumes "trusted d" and "inStep stored controller d" and "co_repository controller = Some repo" and "\<And>s. co_apply controller s = None"
    and "policy_run lib ops controller d = (controller', d')"
  shows "trusted d' \<and> inStep stored controller' d'"
  using assms
proof (induction ops arbitrary: controller d)
  case (Cons op ops)
  obtain err c1 d1 where s: "policy_step lib op controller d = (err, c1, d1)" by (metis prod_cases3)
  show ?case using Cons.IH [of d1 c1] Cons.prems s inStep_step [OF Cons.prems(1-4) s] policy_step_fixed [OF s] by simp
qed simp

end

section \<open>The file repository satisfies the contract\<close>

interpretation disk: policy_repository "yl_config lib" "fileRepository lib provenance" "yaml_roundtrip lib" for lib provenance
proof
  fix e c d change d'
  assume run: "cr_Replace (fileRepository lib provenance) e c d = (Inr change, d')"
  then obtain disk' where "ReplaceContext lib (rw_mutations d 0) provenance e c (rw_disk d) = (Inr change, disk')"
    by (auto simp: fileRepository_def split: prod.splits)
  then obtain contents where r: "config_Encode lib c = Inr contents" "cs_Revision (ch_After change) \<noteq> []"
    "Config_Validate (yl_config lib) (cs_Config (ch_After change)) = []"
    "config_Decode lib contents = Inr (cs_Config (ch_After change)) \<or> config_Encode lib (cs_Config (ch_After change)) = Inr contents"
    by (rule ReplaceContext_After)
  show "Config_Validate (yl_config lib) (cs_Config (ch_After change)) = []" "cs_Revision (ch_After change) \<noteq> []" using r by auto
  show "cs_Config (ch_After change) = c" if "yaml_roundtrip lib"
    using r(1,4) roundtrip_Decode [OF that] by (metis sum.inject(2))
qed

text \<open>Only programs that take the lock touch the file, and none does while the controller runs.\<close>

definition quietWorld :: "repo_world \<Rightarrow> bool" where
  "quietWorld w \<longleftrightarrow> (\<forall>n. cooperative (rw_mutations w n)) \<and> (\<forall>n. ri_before (rw_reads w n) = id \<and> ri_between (rw_reads w n) = id)"

definition storedRevision :: "repo_world \<Rightarrow> Revision option" where
  "storedRevision w = map_option fst (durable (rw_disk w))"

lemma quietWorld_next [simp]: "quietWorld w \<Longrightarrow> quietWorld (nextRead w disk)" "quietWorld w \<Longrightarrow> quietWorld (nextMutation w disk)"
  by (auto simp: quietWorld_def nextRead_def nextMutation_def)

lemma storedRevision_next [simp]:
  "storedRevision (nextRead w disk) = map_option fst (durable disk)" "storedRevision (nextMutation w disk) = map_option fst (durable disk)"
  by (auto simp: storedRevision_def nextRead_def nextMutation_def)

lemma Replace_revisions:
  assumes "cooperative io" and "ReplaceContext lib io provenance e c disk = (Inr change, disk')"
  shows "map_option fst (durable disk) = Some e \<and> digest (ch_beforeContents change) = e \<and>
    map_option fst (durable disk') = Some (cs_Revision (ch_After change))"
  using assms
proof (cases rule: ReplaceContext_cases)
  case (same current)
  then show ?thesis by (auto simp: durable_def holds_def repo_change_def)
next
  case (replaced ch before target contents)
  then show ?thesis using repo_snapshot_Inr [OF replaced(4)] by (auto simp: durable_def installed_def)
qed simp

interpretation disk: quiet_repository "yl_config lib" "fileRepository lib provenance" "yaml_roundtrip lib" quietWorld storedRevision
  for lib provenance
proof
  fix d d' result
  assume q: "quietWorld d" and r: "cr_Read (fileRepository lib provenance) d = (result, d')"
  obtain disk' where rd: "repo_read lib (rw_reads d 0) (rw_disk d) = (result, disk')" "d' = nextRead d disk'"
    using r by (auto simp: fileRepository_def Repository_Read_def split: prod.splits)
  have "disk' = rw_disk d" using repo_read_quiet [OF _ _ rd(1)] q by (simp add: quietWorld_def)
  then show "quietWorld d' \<and> storedRevision d' = storedRevision d" using q rd(2) by (simp add: storedRevision_def [of d])
next
  fix d d' snapshot
  assume "quietWorld d" and r: "cr_Read (fileRepository lib provenance) d = (Inr snapshot, d')"
  obtain disk' where rd: "repo_read lib (rw_reads d 0) (rw_disk d) = (Inr snapshot, disk')" "d' = nextRead d disk'"
    using r by (auto simp: fileRepository_def Repository_Read_def split: prod.splits)
  then show "storedRevision d' = Some (cs_Revision snapshot)" using repo_read_Inr [OF rd(1)] by (auto simp: durable_def)
next
  fix d d' e c answer
  assume "quietWorld d" and "cr_Replace (fileRepository lib provenance) e c d = (answer, d')"
  then show "quietWorld d'" by (auto simp: fileRepository_def split: prod.splits)
next
  fix d d' e c errs
  assume q: "quietWorld d" and r: "cr_Replace (fileRepository lib provenance) e c d = (Inl errs, d')"
  obtain disk' where rd: "ReplaceContext lib (rw_mutations d 0) provenance e c (rw_disk d) = (Inl errs, disk')" "d' = nextMutation d disk'"
    using r by (auto simp: fileRepository_def split: prod.splits)
  have "durable disk' = durable (rw_disk d)"
    using ReplaceContext_cases [OF _ rd(1)] q by (auto simp: quietWorld_def)
  then show "storedRevision d' = storedRevision d" using rd(2) by (simp add: storedRevision_def [of d])
next
  fix d d' e c change
  assume q: "quietWorld d" and r: "cr_Replace (fileRepository lib provenance) e c d = (Inr change, d')"
  obtain disk' where rd: "ReplaceContext lib (rw_mutations d 0) provenance e c (rw_disk d) = (Inr change, disk')" "d' = nextMutation d disk'"
    using r by (auto simp: fileRepository_def split: prod.splits)
  then show "storedRevision d = Some e \<and> storedRevision d' = Some (cs_Revision (ch_After change))"
    using Replace_revisions [OF _ rd(1)] q by (simp add: quietWorld_def storedRevision_def [of d])
next
  fix d d1 d2 e c change reverted
  assume q: "quietWorld d" and r: "cr_Replace (fileRepository lib provenance) e c d = (Inr change, d1)"
    and b: "cr_Rollback (fileRepository lib provenance) change d1 = (Inr reverted, d2)"
  obtain disk1 where rd: "ReplaceContext lib (rw_mutations d 0) provenance e c (rw_disk d) = (Inr change, disk1)" "d1 = nextMutation d disk1"
    using r by (auto simp: fileRepository_def split: prod.splits)
  have q1: "quietWorld d1" using q rd(2) by simp
  obtain disk2 where bd: "RollbackContext lib (rw_mutations d1 0) provenance change (rw_disk d1) = (Inr reverted, disk2)" "d2 = nextMutation d1 disk2"
    using b by (auto simp: fileRepository_def split: prod.splits)
  have "cooperative (rw_mutations d 0)" "cooperative (rw_mutations d1 0)" using q q1 by (simp_all add: quietWorld_def)
  then show "quietWorld d2 \<and> storedRevision d2 = Some e"
    using Replace_revisions [OF _ rd(1)] RollbackContext_revision [OF _ bd(1)] q1 bd(2) by simp
qed

section \<open>Starting\<close>

lemma withoutHot_invol: "withoutHot candidate (withoutHot current candidate) = candidate"
  by (simp add: withoutHot_def)

lemma newController_ok:
  assumes "newController lib c0 (Some repo) safety d = (Inr controller, d')"
  shows "\<exists>snapshot. cr_Read repo d = (Inr snapshot, d') \<and> Config_Validate (yl_config lib) (cs_Config snapshot) = [] \<and>
    compileSelector (yl_config lib) (cs_Config snapshot) safety = Inr (ps_selector (co_current controller)) \<and>
    ps_configuration (co_current controller) = cs_Config snapshot \<and> ps_revision (co_current controller) = cs_Revision snapshot \<and>
    ps_state (co_current controller) = StateReady \<and> ps_overlay (co_current controller) = noOverlay \<and>
    co_repository controller = Some repo \<and> co_safety controller = safety \<and> (\<forall>s. co_apply controller s = None)"
  using assms by (auto simp: newController_def Let_def split: prod.splits sum.splits if_splits)

lemma Config_Validate_capacity: "Config_Validate lib c = [] \<Longrightarrow> 0 < pc_FlowRegistryCapacity (cf_Performance c)"
  by (auto simp: Config_Validate_def validatePerformance_def problem_def Let_def split: if_splits)

lemma noOverlay_ok: "Config_Validate lib c = [] \<Longrightarrow> overlaySet_ok c (ov_Muted noOverlay) \<and> overlaySet_ok c (ov_Soloed noOverlay)"
  using Config_Validate_capacity [of lib c] by (simp add: noOverlay_def overlaySet_ok_def overlayBound_def maximumOverlayFlows_def fcard.rep_eq)

lemma newController_coherent:
  assumes "newController lib c0 (Some repo) safety d = (Inr controller, d')"
  shows "coherent (yl_config lib) controller"
  using newController_ok [OF assms] noOverlay_ok by (auto simp: coherent_def Let_def)

lemma compileSelector_inv: "compileSelector lib c safety = Inr s \<Longrightarrow> Selector_inv s"
  by (auto simp: compileSelector_def NewSelector_iff configured_def Let_def split: sum.splits)

lemma coherent_decides:
  assumes "coherent lib controller" and "Event_Validate event = None"
  shows "\<exists>sel. policy_Evaluate (co_current controller) event = Inr sel \<and> selection_ok sel"
  using assms Evaluate_ok [OF compileSelector_inv assms(2) refl] by (metis coherent_def policy_Evaluate_def)

section \<open>Samples\<close>

definition sampleWorld :: repo_world where
  "sampleWorld = \<lparr>rw_disk = sampleDisk, rw_reads = (\<lambda>_. quietRead), rw_mutations = (\<lambda>_. quietMutation)\<rparr>"

lemma sampleWorld_quiet: "quietWorld sampleWorld"
  using faultless_cooperative [OF quietMutation_faultless] by (simp add: quietWorld_def sampleWorld_def quietRead_def)

definition background :: txn_context where
  "background = \<lparr>tc_nil = False, tc_enter = None, tc_built = None, tc_persist = None\<rparr>"

definition plainSelector :: "State \<Rightarrow> Selector" where
  "plainSelector state = \<lparr>sl_seed = ''musical-packets'',
     sl_defaultAction = \<lparr>ac_State = state, ac_Channel = 1, ac_Mode = [], ac_Root = 0\<rparr>, sl_safetyRules = [], sl_pinnedRules = [], sl_userRules = []\<rparr>"

lemma sample_compile:
  "compileSelector lib Config_Default None = Inr (plainSelector StateMonitor)" "compileSelector lib quietConfig None = Inr (plainSelector StateIgnore)"
  by (simp_all add: compileSelector_def quietConfig_def Config_Default_def FlowRules_def ToFlowRules_def NewSelector_def validateGroup.simps
      validateAction_def plainSelector_def state_defs)

lemma sampleYaml_config: "yl_config sampleYaml = sampleConfigLib"
  by (simp add: sampleYaml_def)

definition sampleController :: "repo_world Controller" where
  "sampleController = \<lparr>co_current = \<lparr>ps_revision = digest [0], ps_configuration = Config_Default, ps_pendingRevision = [],
       ps_pendingConfiguration = None, ps_selector = plainSelector StateMonitor, ps_overlay = noOverlay, ps_state = StateReady, ps_warning = NoWarning\<rparr>,
     co_repository = Some (fileRepository sampleYaml 1), co_safety = None, co_apply = (\<lambda>_. None)\<rparr>"

lemma sampleController_sel [simp]:
  "ps_revision (co_current sampleController) = digest [0]" "ps_configuration (co_current sampleController) = Config_Default"
  "ps_state (co_current sampleController) = StateReady" "co_repository sampleController = Some (fileRepository sampleYaml 1)"
  "co_safety sampleController = None" "co_apply sampleController s = None"
  by (simp_all add: sampleController_def)

lemma sampleWorld_next: "nextRead sampleWorld sampleDisk = sampleWorld"
  by (simp add: nextRead_def sampleWorld_def)

lemma sampleRead: "cr_Read (fileRepository sampleYaml 1) sampleWorld =
   (Inr \<lparr>cs_Config = Config_Default, cs_Revision = digest [0], cs_contents = [0], cs_mode = 0x180\<rparr>, sampleWorld)"
proof -
  have "config_Decode sampleYaml [0] = Inr Config_Default" by (simp add: config_Decode_def sampleYaml_def Config_Default_valid)
  then have "repo_read sampleYaml quietRead sampleDisk =
      (Inr \<lparr>cs_Config = Config_Default, cs_Revision = digest [0], cs_contents = [0], cs_mode = 0x180\<rparr>, sampleDisk)"
    by (simp add: repo_read_def quietRead_def sampleDisk_def repo_snapshot_def MaximumBytes_def writableMode_def Let_def)
  then show ?thesis
    using sampleWorld_next by (simp add: fileRepository_def Repository_Read_def sampleWorld_def)
qed

lemma sampleStart: "newController sampleYaml c0 (Some (fileRepository sampleYaml 1)) None sampleWorld = (Inr sampleController, sampleWorld)"
  by (simp add: newController_def sampleRead Config_Default_valid sample_compile sampleController_def del: One_nat_def)

lemma sampleUpdate:
  "\<exists>w2 change. UpdateContext sampleConfigLib background (digest [0]) quietConfig sampleController sampleWorld =
     (None, publish (nextSnapshot change (plainSelector StateIgnore) (co_current sampleController)) sampleController, w2) \<and>
     cs_Revision (ch_After change) = digest [1]"
proof -
  obtain change disk' where r: "ReplaceContext sampleYaml quietMutation 1 (digest [0]) quietConfig sampleDisk = (Inr change, disk')"
    "ch_After change = \<lparr>cs_Config = quietConfig, cs_Revision = digest [1], cs_contents = [1], cs_mode = 0x180\<rparr>"
    using sampleReplace by blast
  have rep: "cr_Replace (fileRepository sampleYaml 1) (digest [0]) quietConfig sampleWorld = (Inr change, nextMutation sampleWorld disk')"
    using r by (simp add: fileRepository_def sampleWorld_def)
  have restart: "restartFields Config_Default quietConfig = []"
    unfolding restartFields_Nil by (simp add: withoutHot_def quietConfig_def)
  have val: "validateCandidate sampleConfigLib None Config_Default quietConfig = Inr (classifyChanges Config_Default quietConfig)"
    by (simp add: validateCandidate_def quietConfig_valid sample_compile)
  have "UpdateContext sampleConfigLib background (digest [0]) quietConfig sampleController sampleWorld =
      transactPersist (fileRepository sampleYaml 1) (digest [0]) quietConfig (plainSelector StateIgnore) sampleController sampleWorld"
    by (simp add: UpdateContext_def transactContext_def background_def ctx_fails_def transactBase_def val classifyChanges_eq restart
        sample_compile Let_def del: One_nat_def)
  moreover have "transactPersist (fileRepository sampleYaml 1) (digest [0]) quietConfig (plainSelector StateIgnore) sampleController sampleWorld =
      (None, publish (nextSnapshot change (plainSelector StateIgnore) (co_current sampleController)) sampleController, nextMutation sampleWorld disk')"
    using r(2) quietConfig_differs [symmetric] by (simp add: transactPersist_def rep Let_def del: One_nat_def)
  ultimately show ?thesis using r(2) by auto
qed

text \<open>The outcome of any transaction on the file repository, for updates and mutations alike.\<close>

lemma transact_outcome:
  assumes "yaml_roundtrip lib" and "quietWorld w" and co: "coherent (yl_config lib) controller"
    and repo: "co_repository controller = Some (fileRepository lib provenance)"
    and run: "transactContext (yl_config lib) ctx expected build controller w = (err, controller', w')"
  shows "let s = co_current controller; s' = co_current controller' in
    ps_overlay s' = ps_overlay s \<and>
    (case err of
       Some _ \<Rightarrow> ps_revision s' = ps_revision s \<and> ps_configuration s' = ps_configuration s \<and> ps_selector s' = ps_selector s
     | None \<Rightarrow> storedRevision w = Some expected \<and> storedRevision w' = Some (ps_revision s') \<and>
         (\<exists>base. build base = Inr (ps_configuration s') \<and> (ps_state s = StateOutOfSync \<or> base = ps_configuration s)) \<and>
         Config_Validate (yl_config lib) (ps_configuration s') = [] \<and>
         compileSelector (yl_config lib) (ps_configuration s') (co_safety controller) = Inr (ps_selector s') \<and>
         withoutHot (ps_configuration s) (ps_configuration s') = ps_configuration s)"
  using run
proof (cases rule: transactContext_cases)
  case (stopped e)
  then show ?thesis by (auto simp: Let_def dest: kept_sel)
next
  case (persisted r cand selector w1 base)
  have r: "r = fileRepository lib provenance" using persisted(1) repo by simp
  have w1: "quietWorld w1" "storedRevision w1 = storedRevision w" using disk.readAtMost_quiet persisted(2) assms(2) r by metis+
  have hot: "withoutHot (ps_configuration (co_current controller)) cand = ps_configuration (co_current controller)"
    using persisted(6) by (simp add: restartFields_Nil)
  have stored: "storedRevision w = Some expected \<and> storedRevision w' = Some (cs_Revision (ch_After change)) \<and> cs_Config (ch_After change) = cand"
    if "cr_Replace r expected cand w1 = (Inr change, w')" for change
    using disk.replace_Inr [OF w1(1)] disk.replace_config [OF assms(1)] that w1(2) r by metis
  have base: "\<exists>base. build base = Inr cand \<and> (ps_state (co_current controller) = StateOutOfSync \<or> base = ps_configuration (co_current controller))"
    using persisted(9,10) by blast
  from persisted(8) show ?thesis
  proof (cases rule: transactPersist_cases)
    case (unchanged change)
    have "cand = ps_configuration (co_current controller)" using stored [OF unchanged(2)] unchanged by simp
    then show ?thesis using stored [OF unchanged(2)] unchanged hot co base by (simp add: coherent_def Let_def)
  next
    case (unpublished e change d2 f)
    then show ?thesis using kept_sel [OF applyFailed_kept [OF unpublished(4) refl]] by (simp add: Let_def)
  next
    case (published change)
    then show ?thesis using stored [OF published(2)] hot persisted(5,7) base by (simp add: nextSnapshot_def Let_def)
  qed (auto simp: Let_def dest: kept_sel)
qed

section \<open>Properties\<close>

text \<open>
  The classifier of configuration changes is complete. A candidate needs no restart exactly when it is the
  current configuration with other mapping defaults or rules, nothing else; when neither a hot field nor a
  restart field is reported, the two configurations are the same; the fallback for unclassified fields
  never speaks, so every field of the schema is classified.
\<close>

theorem classifyChanges_complete:
  "(va_RestartRequiredFields (classifyChanges current candidate) = [] \<longleftrightarrow>
      candidate = current\<lparr>cf_Mapping := (cf_Mapping current)\<lparr>mac_DefaultState := mac_DefaultState (cf_Mapping candidate),
        mac_DefaultChannel := mac_DefaultChannel (cf_Mapping candidate)\<rparr>, cf_Rules := cf_Rules candidate\<rparr>) \<and>
   (va_RestartRequiredFields (classifyChanges current candidate) = [] \<and> va_HotFields (classifyChanges current candidate) = [] \<longleftrightarrow>
      current = candidate) \<and>
   ''unclassified'' \<notin> set (va_RestartRequiredFields (classifyChanges current candidate))"
proof (intro conjI)
  have r: "va_RestartRequiredFields (classifyChanges current candidate) = [] \<longleftrightarrow> current = withoutHot current candidate"
    by (simp add: classifyChanges_eq restartFields_Nil)
  show "va_RestartRequiredFields (classifyChanges current candidate) = [] \<longleftrightarrow>
      candidate = current\<lparr>cf_Mapping := (cf_Mapping current)\<lparr>mac_DefaultState := mac_DefaultState (cf_Mapping candidate),
        mac_DefaultChannel := mac_DefaultChannel (cf_Mapping candidate)\<rparr>, cf_Rules := cf_Rules candidate\<rparr>"
    unfolding r withoutHot_def [of candidate current, symmetric] by (metis withoutHot_invol)
  show "va_RestartRequiredFields (classifyChanges current candidate) = [] \<and> va_HotFields (classifyChanges current candidate) = [] \<longleftrightarrow>
      current = candidate"
  proof -
    have "withoutHot current candidate = candidate" if "hotFields current candidate = []"
      using that by (simp add: hotFields_def withoutHot_def)
    moreover have "withoutHot candidate candidate = candidate" "hotFields candidate candidate = []"
      by (simp_all add: withoutHot_def hotFields_def)
    ultimately show ?thesis unfolding r by (auto simp: classifyChanges_eq)
  qed
  show "''unclassified'' \<notin> set (va_RestartRequiredFields (classifyChanges current candidate))"
    by (simp add: classifyChanges_eq restartFields_def)
qed

text \<open>
  C17. The active policy stays coherent over any sequence of updates, mutations, staged restarts and overlay
  changes, whatever the system and other programs do to the configuration file: the active configuration is
  valid, the selector that judges packets is the one compiled from exactly that configuration, every valid
  packet gets a decision, the overlay stays within its limit and names flows, and a pending configuration
  is a valid one that needs a restart. It is assumed of the YAML library that a canonical document reads
  back as it was written.
\<close>

theorem Policy_coherent:
  assumes "yaml_roundtrip lib"
    and start: "newController lib c0 (Some (fileRepository lib provenance)) safety w = (Inr controller, w1)"
    and run: "policy_run (yl_config lib) ops controller w1 = (controller', w2)"
  shows "let s = co_current controller'; c = ps_configuration s in
    Config_Validate (yl_config lib) c = [] \<and> compileSelector (yl_config lib) c safety = Inr (ps_selector s) \<and>
    (\<forall>event. Event_Validate event = None \<longrightarrow> (\<exists>sel. policy_Evaluate s event = Inr sel \<and> selection_ok sel)) \<and>
    overlaySet_ok c (ov_Muted (ps_overlay s)) \<and> overlaySet_ok c (ov_Soloed (ps_overlay s)) \<and>
    (ps_state s = StateRestartPending \<longrightarrow>
       (\<exists>p rev. Pending controller' = Some (p, rev) \<and> Config_Validate (yl_config lib) p = [] \<and>
          va_RestartRequiredFields (classifyChanges c p) \<noteq> []))"
proof -
  have repo: "co_repository controller = Some (fileRepository lib provenance)" using newController_ok [OF start] by auto
  have safety: "co_safety controller = safety" using newController_ok [OF start] by auto
  have co: "coherent (yl_config lib) controller'" using disk.coherent_run [OF assms(1) newController_coherent [OF start] repo run] by simp
  have "co_safety controller' = safety" using policy_run_fixed [OF run] safety by simp
  then show ?thesis using co coherent_decides [OF co] by (auto simp: coherent_def Pending_def classifyChanges_eq Let_def)
qed

theorem Policy_coherent_witness:
  "\<exists>controller' w2. policy_run sampleConfigLib [OpUpdate background (digest [0]) quietConfig] sampleController sampleWorld = (controller', w2) \<and>
     ps_revision (co_current controller') = digest [1] \<and>
     compileSelector sampleConfigLib (ps_configuration (co_current controller')) None = Inr (ps_selector (co_current controller'))"
proof -
  obtain w2 change where u: "policy_run sampleConfigLib [OpUpdate background (digest [0]) quietConfig] sampleController sampleWorld =
      (publish (nextSnapshot change (plainSelector StateIgnore) (co_current sampleController)) sampleController, w2)"
    "cs_Revision (ch_After change) = digest [1]"
    using sampleUpdate by auto
  show ?thesis using Policy_coherent [OF sampleYaml_roundtrip sampleStart, unfolded sampleYaml_config, OF u(1)] u
    by (auto simp: Let_def nextSnapshot_def)
qed

text \<open>
  C16. The controller never claims more than the disk holds. When nobody else writes the file, then after any
  sequence of operations and whatever system calls fail in them, in the states ready and durability
  uncertain the file holds the revision of the active policy, and in the state restart pending it holds the
  revision reported as pending.
\<close>

theorem Policy_in_step:
  assumes "quietWorld w" and start: "newController lib c0 (Some (fileRepository lib provenance)) safety w = (Inr controller, w1)"
    and run: "policy_run (yl_config lib) ops controller w1 = (controller', w2)"
  shows "case do_State (Current controller') of
      StateReady \<Rightarrow> storedRevision w2 = Some (do_Revision (Current controller'))
    | StateDurabilityUncertain \<Rightarrow> storedRevision w2 = Some (do_Revision (Current controller'))
    | StateRestartPending \<Rightarrow> storedRevision w2 = Some (ps_pendingRevision (co_current controller'))
    | _ \<Rightarrow> True"
proof -
  obtain snapshot where n: "cr_Read (fileRepository lib provenance) w = (Inr snapshot, w1)"
    "ps_revision (co_current controller) = cs_Revision snapshot" "ps_state (co_current controller) = StateReady"
    "co_repository controller = Some (fileRepository lib provenance)" "\<And>s. co_apply controller s = None"
    using newController_ok [OF start] by auto
  have "quietWorld w1" "storedRevision w1 = Some (cs_Revision snapshot)"
    using disk.read_quiet [OF assms(1) n(1)] disk.read_revision [OF assms(1) n(1)] by auto
  then have "inStep storedRevision controller' w2"
    using disk.inStep_run [OF _ _ n(4,5) run] n(2,3) by (simp add: inStep_def)
  then show ?thesis by (auto simp: inStep_def Current_def Let_def split: ControllerState.splits)
qed

theorem Policy_in_step_witness:
  "\<exists>controller' w2. policy_run sampleConfigLib [OpUpdate background (digest [0]) quietConfig] sampleController sampleWorld = (controller', w2) \<and>
     storedRevision w2 = Some (digest [1])"
proof -
  obtain w2 change where u: "policy_run sampleConfigLib [OpUpdate background (digest [0]) quietConfig] sampleController sampleWorld =
      (publish (nextSnapshot change (plainSelector StateIgnore) (co_current sampleController)) sampleController, w2)"
    "cs_Revision (ch_After change) = digest [1]"
    using sampleUpdate by auto
  show ?thesis using Policy_in_step [OF sampleWorld_quiet sampleStart, unfolded sampleYaml_config, OF u(1)] u
    by (auto simp: Current_def nextSnapshot_def split: if_splits)
qed

text \<open>
  C15. An update is all or nothing. With nobody else writing the file, an update that succeeds found the
  expected revision on disk; afterwards the disk holds the revision of the active policy, the active
  configuration is the candidate, packets are judged by the selector compiled from it, the overlay is kept,
  and only rules and mapping defaults differ from before. An update that fails, for whatever reason,
  keeps the active revision, configuration, selector and overlay.
\<close>

theorem Update_atomic:
  assumes "yaml_roundtrip lib" and "quietWorld w" and "coherent (yl_config lib) controller"
    and "co_repository controller = Some (fileRepository lib provenance)"
    and "UpdateContext (yl_config lib) ctx expected candidate controller w = (err, controller', w')"
  shows "let s = co_current controller; s' = co_current controller' in
    ps_overlay s' = ps_overlay s \<and>
    (case err of
       Some _ \<Rightarrow> ps_revision s' = ps_revision s \<and> ps_configuration s' = ps_configuration s \<and> ps_selector s' = ps_selector s
     | None \<Rightarrow> storedRevision w = Some expected \<and> storedRevision w' = Some (ps_revision s') \<and> ps_configuration s' = candidate \<and>
         compileSelector (yl_config lib) candidate (co_safety controller) = Inr (ps_selector s') \<and>
         withoutHot (ps_configuration s) candidate = ps_configuration s)"
  using transact_outcome [OF assms(1-4) assms(5) [unfolded UpdateContext_def]] by (auto simp: Let_def split: option.splits)

theorem Update_atomic_witness:
  "\<exists>controller' w'. UpdateContext sampleConfigLib background (digest [0]) quietConfig sampleController sampleWorld = (None, controller', w') \<and>
     storedRevision sampleWorld = Some (digest [0]) \<and> storedRevision w' = Some (digest [1]) \<and> ps_configuration (co_current controller') = quietConfig"
proof -
  obtain w2 change where u: "UpdateContext sampleConfigLib background (digest [0]) quietConfig sampleController sampleWorld =
      (None, publish (nextSnapshot change (plainSelector StateIgnore) (co_current sampleController)) sampleController, w2)"
    "cs_Revision (ch_After change) = digest [1]"
    using sampleUpdate by auto
  have co: "coherent sampleConfigLib sampleController" using newController_coherent [OF sampleStart] sampleYaml_config by simp
  show ?thesis
    using Update_atomic [of sampleYaml, unfolded sampleYaml_config, OF sampleYaml_roundtrip sampleWorld_quiet co sampleController_sel(4) u(1)] u
    by (simp add: Let_def nextSnapshot_def)
qed

section \<open>Two transitions that lose track\<close>

text \<open>
  Neither happens in production, where publishing cannot fail and the safety rules are configured before any
  request. When an explicit reconciliation persists its candidate, fails to publish it and rolls it back,
  the controller leaves the state out of sync although the file holds the revision it held before, which is
  not the active one.
\<close>

lemma reconcile_rollback_desync:
  assumes "quietWorld w" and replace: "cr_Replace (fileRepository lib provenance) expected c w = (Inr change, w1)" and "ch_changed change"
    and rollback: "cr_Rollback (fileRepository lib provenance) change w1 = (Inr reverted, w2)"
    and "ps_state (co_current controller) = StateOutOfSync" and "expected \<noteq> ps_revision (co_current controller)"
  shows "\<exists>e controller'. applyFailed (fileRepository lib provenance) (co_current controller) change f controller w1 = (e, controller', w2) \<and>
    do_State (Current controller') \<in> {StateReady, StateDurabilityUncertain} \<and> storedRevision w2 \<noteq> Some (do_Revision (Current controller'))"
  using assms disk.rollback_Inr [OF assms(1) replace rollback] by (auto simp: applyFailed_def Current_def Let_def)

text \<open>
  Configuring the safety rules while a restart is pending forgets the pending document but not the state:
  the pending restart can then be neither read nor cancelled, and every update is refused.
\<close>

lemma configureSafety_forgets_pending:
  assumes "configureSafety lib safety controller = (None, controller')" and "ps_state (co_current controller) = StateRestartPending"
  shows "Pending controller' = None" and "CancelRestartContext background expected controller' d = (Some PendingConfigNotFoundError, controller', d)"
    and "UpdateContext lib background expected candidate controller' d = (Some RestartPendingError, controller', d)"
proof -
  obtain selector where c: "controller' = publish ((co_current controller)\<lparr>ps_selector := selector, ps_pendingRevision := [],
      ps_pendingConfiguration := None\<rparr>) (controller\<lparr>co_safety := Some safety\<rparr>)"
    using assms(1) by (auto simp: configureSafety_def Let_def split: sum.splits)
  show "Pending controller' = None" by (simp add: c Pending_def)
  show "CancelRestartContext background expected controller' d = (Some PendingConfigNotFoundError, controller', d)"
    by (simp add: c CancelRestartContext_def background_def ctx_fails_def)
  show "UpdateContext lib background expected candidate controller' d = (Some RestartPendingError, controller', d)"
    using assms(2) by (simp add: c UpdateContext_def transactContext_def background_def ctx_fails_def)
qed

end
