(* ===== verification/Container_Heap.thy ===== *)
theory Container_Heap
  imports Prelude
begin

text \<open>
  Go's container/heap over its five-method interface, and the interface as a locale. The algorithms
  \<open>up\<close>, \<open>down\<close>, \<open>Push\<close>, \<open>Pop\<close> and \<open>Fix\<close> are the library's, written over the methods \<open>Len\<close>, \<open>Less\<close>,
  \<open>Swap\<close>, \<open>Push\<close> and \<open>Pop\<close> of a heap state. The locale \<open>heap_interface\<close> states what a client's methods
  promise about an abstract list of references; inside it the algorithms are shown to act on that
  list as on a plain array heap, so that every client gets the heap order from one proof.
\<close>

section \<open>The library's algorithms\<close>

function heap_up :: "('h \<Rightarrow> nat \<Rightarrow> nat \<Rightarrow> bool) \<Rightarrow> ('h \<Rightarrow> nat \<Rightarrow> nat \<Rightarrow> 'h) \<Rightarrow> 'h \<Rightarrow> nat \<Rightarrow> 'h" where
  "heap_up lt swap h j =
     (let i = (j - 1) div 2 in
      if i = j \<or> \<not> lt h j i then h else heap_up lt swap (swap h i j) i)"
  by pat_completeness auto
termination
  by (relation "measure (\<lambda>(lt, swap, h, j). j)") auto

function heap_down :: "('h \<Rightarrow> nat \<Rightarrow> nat \<Rightarrow> bool) \<Rightarrow> ('h \<Rightarrow> nat \<Rightarrow> nat \<Rightarrow> 'h) \<Rightarrow> 'h \<Rightarrow> nat \<Rightarrow> nat \<Rightarrow> 'h \<times> nat" where
  "heap_down lt swap h i n =
     (let j1 = 2 * i + 1 in
      if j1 \<ge> n then (h, i)
      else let j = (if j1 + 1 < n \<and> lt h (j1 + 1) j1 then j1 + 1 else j1) in
           if \<not> lt h j i then (h, i) else heap_down lt swap (swap h i j) j n)"
  by pat_completeness auto
termination
  by (relation "measure (\<lambda>(lt, swap, h, i, n). n - i)") (auto split: if_splits)

declare heap_up.simps [simp del] heap_down.simps [simp del]

definition heap_Push where
  "heap_Push len lt swap push h x =
     (let h' = push h x in heap_up lt swap h' (len h' - 1))"

definition heap_Pop where
  "heap_Pop len lt swap pop h =
     (let n = len h - 1; h1 = swap h 0 n; h2 = fst (heap_down lt swap h1 0 n) in pop h2)"

definition heap_Fix where
  "heap_Fix len lt swap h i =
     (let (h', i') = heap_down lt swap h i (len h) in
      if i' > i then h' else heap_up lt swap h' i)"

section \<open>Array heaps over lists\<close>

definition list_swap :: "'a list \<Rightarrow> nat \<Rightarrow> nat \<Rightarrow> 'a list" where
  "list_swap xs i j = xs[i := xs ! j, j := xs ! i]"

definition list_less :: "('a \<Rightarrow> 'k::linorder) \<Rightarrow> 'a list \<Rightarrow> nat \<Rightarrow> nat \<Rightarrow> bool" where
  "list_less key xs i j \<longleftrightarrow> key (xs ! i) < key (xs ! j)"

abbreviation list_up :: "('a \<Rightarrow> 'k::linorder) \<Rightarrow> 'a list \<Rightarrow> nat \<Rightarrow> 'a list" where
  "list_up key \<equiv> heap_up (list_less key) list_swap"

abbreviation list_down :: "('a \<Rightarrow> 'k::linorder) \<Rightarrow> 'a list \<Rightarrow> nat \<Rightarrow> nat \<Rightarrow> 'a list \<times> nat" where
  "list_down key \<equiv> heap_down (list_less key) list_swap"

abbreviation par :: "nat \<Rightarrow> nat" where
  "par c \<equiv> (c - 1) div 2"

text \<open>The first \<open>n\<close> slots are in heap order; and the same with one slot exempt.\<close>

definition heap_to :: "('a \<Rightarrow> 'k::linorder) \<Rightarrow> 'a list \<Rightarrow> nat \<Rightarrow> bool" where
  "heap_to key xs n \<longleftrightarrow> (\<forall>c. 0 < c \<longrightarrow> c < n \<longrightarrow> key (xs ! par c) \<le> key (xs ! c))"

abbreviation is_heap :: "('a \<Rightarrow> 'k::linorder) \<Rightarrow> 'a list \<Rightarrow> bool" where
  "is_heap key xs \<equiv> heap_to key xs (length xs)"

definition heap_but_up :: "('a \<Rightarrow> 'k::linorder) \<Rightarrow> 'a list \<Rightarrow> nat \<Rightarrow> bool" where
  "heap_but_up key xs j \<longleftrightarrow>
     (\<forall>c. 0 < c \<longrightarrow> c < length xs \<longrightarrow>
        (c \<noteq> j \<longrightarrow> key (xs ! par c) \<le> key (xs ! c)) \<and>
        (par c = j \<longrightarrow> 0 < j \<longrightarrow> key (xs ! par j) \<le> key (xs ! c)))"

definition heap_but_down :: "('a \<Rightarrow> 'k::linorder) \<Rightarrow> 'a list \<Rightarrow> nat \<Rightarrow> nat \<Rightarrow> bool" where
  "heap_but_down key xs n i \<longleftrightarrow>
     (\<forall>c. 0 < c \<longrightarrow> c < n \<longrightarrow>
        (par c \<noteq> i \<longrightarrow> key (xs ! par c) \<le> key (xs ! c)) \<and>
        (par c = i \<longrightarrow> 0 < i \<longrightarrow> key (xs ! par i) \<le> key (xs ! c)))"

lemma length_list_swap [simp]: "length (list_swap xs i j) = length xs"
  by (simp add: list_swap_def)

lemma nth_list_swap:
  "i < length xs \<Longrightarrow> j < length xs \<Longrightarrow> k < length xs \<Longrightarrow>
   list_swap xs i j ! k = (if k = j then xs ! i else if k = i then xs ! j else xs ! k)"
  by (simp add: list_swap_def nth_list_update)

lemma mset_list_swap [simp]:
  "i < length xs \<Longrightarrow> j < length xs \<Longrightarrow> mset (list_swap xs i j) = mset xs"
  unfolding list_swap_def by (rule mset_swap) simp_all

lemma par_less: "0 < c \<Longrightarrow> par c < c"
  by simp

lemma par_child: "par (2 * i + 1) = i" "par (2 * i + 1 + 1) = i"
  by simp_all

lemma par_eq: "0 < c \<Longrightarrow> par c = i \<Longrightarrow> c = 2 * i + 1 \<or> c = 2 * i + 2"
  by arith

lemma list_up_mset: "j < length xs \<Longrightarrow> mset (list_up key xs j) = mset xs"
proof (induction "list_less key" "list_swap :: 'a list \<Rightarrow> nat \<Rightarrow> nat \<Rightarrow> 'a list" xs j rule: heap_up.induct)
  case (1 xs j)
  have "par j < length xs" using "1.prems" by simp
  then show ?case
    using 1 by (subst heap_up.simps) (simp add: Let_def)
qed

lemma length_list_up [simp]: "j < length xs \<Longrightarrow> length (list_up key xs j) = length xs"
  by (metis list_up_mset size_mset)

lemma heap_but_up_step:
  assumes h: "heap_but_up key xs j" and j: "0 < j" "j < length xs"
    and lt: "key (xs ! j) < key (xs ! par j)"
  shows "heap_but_up key (list_swap xs (par j) j) (par j)"
  unfolding heap_but_up_def
proof (intro allI impI)
  fix c assume c: "0 < c" "c < length (list_swap xs (par j) j)"
  let ?ys = "list_swap xs (par j) j"
  from c have cl: "c < length xs" by simp
  have pj: "par j < j" using j by simp
  have pc: "par c < c" using c by simp
  have nth: "?ys ! k = (if k = j then xs ! par j else if k = par j then xs ! j else xs ! k)"
    if "k < length xs" for k
    using nth_list_swap [of "par j" xs j k] that j pj by simp
  from h have A: "0 < d \<Longrightarrow> d < length xs \<Longrightarrow> d \<noteq> j \<Longrightarrow> key (xs ! par d) \<le> key (xs ! d)"
    and B: "0 < d \<Longrightarrow> d < length xs \<Longrightarrow> par d = j \<Longrightarrow> key (xs ! par j) \<le> key (xs ! d)" for d
    using j by (auto simp: heap_but_up_def)
  show "(c \<noteq> par j \<longrightarrow> key (?ys ! par c) \<le> key (?ys ! c)) \<and>
        (par c = par j \<longrightarrow> 0 < par j \<longrightarrow> key (?ys ! par (par j)) \<le> key (?ys ! c))"
  proof (intro conjI impI)
    assume ne: "c \<noteq> par j"
    consider "c = j" | "c \<noteq> j" "par c = j" | "c \<noteq> j" "par c \<noteq> j" "par c = par j"
      | "c \<noteq> j" "par c \<noteq> j" "par c \<noteq> par j" by blast
    then show "key (?ys ! par c) \<le> key (?ys ! c)"
      using nth [of c] nth [of "par c"] cl pc pj lt ne A [of c] B [of c] c
      by cases auto
  next
    assume e: "par c = par j" and p: "0 < par j"
    have "key (xs ! par (par j)) \<le> key (xs ! par j)"
      using A [of "par j"] p pj j by simp
    moreover have "c \<noteq> j \<Longrightarrow> key (xs ! par j) \<le> key (xs ! c)"
      using A [of c] c cl e by simp
    moreover have "c \<noteq> par j" using e pc by auto
    moreover have "par (par j) < par j" using p by simp
    ultimately show "key (?ys ! par (par j)) \<le> key (?ys ! c)"
      using nth [of c] nth [of "par (par j)"] cl pj j by fastforce
  qed
qed

lemma heap_but_up_done:
  "heap_but_up key xs j \<Longrightarrow> par j = j \<or> \<not> key (xs ! j) < key (xs ! par j) \<Longrightarrow> is_heap key xs"
  unfolding heap_but_up_def heap_to_def by (metis linorder_not_less par_less less_irrefl)

lemma list_up_heap: "heap_but_up key xs j \<Longrightarrow> j < length xs \<Longrightarrow> is_heap key (list_up key xs j)"
proof (induction "list_less key" "list_swap :: 'a list \<Rightarrow> nat \<Rightarrow> nat \<Rightarrow> 'a list" xs j rule: heap_up.induct)
  case (1 xs j)
  show ?case
  proof (cases "par j = j \<or> \<not> list_less key xs j (par j)")
    case True
    then have "list_up key xs j = xs" by (subst heap_up.simps) (auto simp: Let_def)
    with True show ?thesis
      using heap_but_up_done [OF "1.prems"(1)] by (auto simp: list_less_def)
  next
    case False
    then have j: "0 < j" and lt: "key (xs ! j) < key (xs ! par j)"
      by (auto simp: list_less_def intro: gr0I)
    have "heap_but_up key (list_swap xs (par j) j) (par j)"
      by (rule heap_but_up_step [OF "1.prems"(1) j "1.prems"(2) lt])
    moreover have "par j < length (list_swap xs (par j) j)" using "1.prems"(2) by simp
    ultimately have "is_heap key (list_up key (list_swap xs (par j) j) (par j))"
      by (rule "1.hyps" [OF refl False])
    moreover have "list_up key xs j = list_up key (list_swap xs (par j) j) (par j)"
      using False by (subst heap_up.simps) (simp add: Let_def)
    ultimately show ?thesis by simp
  qed
qed

definition min_child :: "('h \<Rightarrow> nat \<Rightarrow> nat \<Rightarrow> bool) \<Rightarrow> 'h \<Rightarrow> nat \<Rightarrow> nat \<Rightarrow> nat" where
  "min_child lt h i n = (if 2 * i + 1 + 1 < n \<and> lt h (2 * i + 1 + 1) (2 * i + 1) then 2 * i + 1 + 1 else 2 * i + 1)"

lemma heap_down_unfold:
  "heap_down lt swap h i n =
     (if 2 * i + 1 \<ge> n \<or> \<not> lt h (min_child lt h i n) i then (h, i)
      else heap_down lt swap (swap h i (min_child lt h i n)) (min_child lt h i n) n)"
  by (subst heap_down.simps) (simp add: Let_def min_child_def)

lemma min_child_bounds: "2 * i + 1 < n \<Longrightarrow> i < min_child lt h i n \<and> min_child lt h i n < n"
  by (auto simp: min_child_def)

lemma min_child_par [simp]: "(min_child lt h i n - Suc 0) div 2 = i"
  by (simp add: min_child_def)

lemma min_child_least:
  "0 < c \<Longrightarrow> c < n \<Longrightarrow> par c = i \<Longrightarrow> key (xs ! min_child (list_less key) xs i n) \<le> key (xs ! c)"
  using par_eq [of c i] by (auto simp: min_child_def list_less_def)

lemma heap_down_induct:
  assumes "\<And>h i. (2 * i + 1 < n \<Longrightarrow> lt h (min_child lt h i n) i \<Longrightarrow>
      P (swap h i (min_child lt h i n)) (min_child lt h i n)) \<Longrightarrow> P h i"
  shows "P h i"
proof (induction "n - i" arbitrary: h i rule: less_induct)
  case less
  show ?case
  proof (rule assms)
    assume "2 * i + 1 < n" "lt h (min_child lt h i n) i"
    then show "P (swap h i (min_child lt h i n)) (min_child lt h i n)"
      using min_child_bounds [of i n lt h] by (intro less) auto
  qed
qed

lemma heap_but_down_step:
  assumes h: "heap_but_down key xs n i" and n: "n \<le> length xs" "2 * i + 1 < n"
    and j: "j = min_child (list_less key) xs i n" and lt: "key (xs ! j) < key (xs ! i)"
  shows "heap_but_down key (list_swap xs i j) n j"
  unfolding heap_but_down_def
proof (intro allI impI)
  fix c assume c: "0 < c" "c < n"
  let ?ys = "list_swap xs i j"
  have b: "i < j" "j < n" "par j = i" using min_child_bounds [of i n "list_less key" xs] n(2) j by auto
  have pc: "par c < c" using c by simp
  have nth: "?ys ! k = (if k = j then xs ! i else if k = i then xs ! j else xs ! k)" if "k < n" for k
    using nth_list_swap [of i xs j k] that b n by simp
  from h have A: "0 < d \<Longrightarrow> d < n \<Longrightarrow> par d \<noteq> i \<Longrightarrow> key (xs ! par d) \<le> key (xs ! d)"
    and B: "0 < d \<Longrightarrow> d < n \<Longrightarrow> par d = i \<Longrightarrow> 0 < i \<Longrightarrow> key (xs ! par i) \<le> key (xs ! d)" for d
    by (auto simp: heap_but_down_def)
  have least: "par c = i \<Longrightarrow> key (xs ! j) \<le> key (xs ! c)"
    unfolding j by (rule min_child_least) (use c in auto)
  show "(par c \<noteq> j \<longrightarrow> key (?ys ! par c) \<le> key (?ys ! c)) \<and>
        (par c = j \<longrightarrow> 0 < j \<longrightarrow> key (?ys ! par j) \<le> key (?ys ! c))"
  proof (intro conjI impI)
    assume ne: "par c \<noteq> j"
    show "key (?ys ! par c) \<le> key (?ys ! c)"
    proof (cases "par c = i")
      case True
      then show ?thesis using nth [of c] nth [of "par c"] c pc b lt least ne by (cases "c = j") auto
    next
      case False
      then have "c \<noteq> j" using b by auto
      then show ?thesis
        using nth [of c] nth [of "par c"] c pc False ne A [of c] B [of j] b by (cases "c = i") auto
    qed
  next
    assume e: "par c = j"
    then have "key (xs ! j) \<le> key (xs ! c)" using A [of c] c b by auto
    moreover have "c \<noteq> j" "c \<noteq> i" using e pc b by auto
    ultimately show "key (?ys ! par j) \<le> key (?ys ! c)"
      using nth [of c] nth [of i] c b by simp
  qed
qed

lemma heap_but_down_done:
  assumes "heap_but_down key xs n i"
    and "2 * i + 1 \<ge> n \<or> \<not> key (xs ! min_child (list_less key) xs i n) < key (xs ! i)"
  shows "heap_to key xs n"
  unfolding heap_to_def
proof (intro allI impI)
  fix c assume c: "0 < c" "c < n"
  show "key (xs ! par c) \<le> key (xs ! c)"
  proof (cases "par c = i")
    case True
    then have "2 * i + 1 < n" using c par_eq [of c i] by auto
    then show ?thesis using True assms(2) min_child_least [OF c True, of key xs] by auto
  next
    case False
    then show ?thesis using assms(1) c by (auto simp: heap_but_down_def)
  qed
qed

text \<open>What \<open>down\<close> does to the list: a permutation of the first \<open>n\<close> slots that restores heap order.\<close>

lemma list_down_frame:
  "n \<le> length xs \<Longrightarrow> length (fst (list_down key xs i n)) = length xs \<and>
     (\<forall>k. n \<le> k \<longrightarrow> k < length xs \<longrightarrow> fst (list_down key xs i n) ! k = xs ! k) \<and>
     mset (fst (list_down key xs i n)) = mset xs \<and> i \<le> snd (list_down key xs i n)"
proof (induction xs i rule: heap_down_induct [where lt = "list_less key" and swap = list_swap and n = n])
  case (1 xs i)
  show ?case
  proof (cases "2 * i + 1 < n \<and> list_less key xs (min_child (list_less key) xs i n) i")
    case True
    let ?j = "min_child (list_less key) xs i n"
    have b: "i < ?j" "?j < n" using True min_child_bounds [of i n "list_less key" xs] by simp_all
    have IH: "length (fst (list_down key (list_swap xs i ?j) ?j n)) = length xs \<and>
      (\<forall>k. n \<le> k \<longrightarrow> k < length xs \<longrightarrow> fst (list_down key (list_swap xs i ?j) ?j n) ! k = list_swap xs i ?j ! k) \<and>
      mset (fst (list_down key (list_swap xs i ?j) ?j n)) = mset xs \<and> ?j \<le> snd (list_down key (list_swap xs i ?j) ?j n)"
      using 1 True b by simp
    have "list_swap xs i ?j ! k = xs ! k" if "n \<le> k" "k < length xs" for k
      using nth_list_swap [of i xs ?j k] that b "1.prems" by auto
    then show ?thesis
      using True IH b by (subst (1 2 3 4) heap_down_unfold) auto
  next
    case False
    then show ?thesis by (subst (1 2 3 4) heap_down_unfold) auto
  qed
qed

lemma list_down_heap:
  "n \<le> length xs \<Longrightarrow> heap_but_down key xs n i \<Longrightarrow> heap_to key (fst (list_down key xs i n)) n"
proof (induction xs i rule: heap_down_induct [where lt = "list_less key" and swap = list_swap and n = n])
  case (1 xs i)
  show ?case
  proof (cases "2 * i + 1 < n \<and> list_less key xs (min_child (list_less key) xs i n) i")
    case True
    then have "key (xs ! min_child (list_less key) xs i n) < key (xs ! i)"
      using list_less_def by blast
    with True show ?thesis
      using 1 heap_but_down_step [OF "1.prems"(2,1) _ refl] by (subst heap_down_unfold) simp
  next
    case False
    then have "list_down key xs i n = (xs, i)" by (subst heap_down_unfold) auto
    moreover have "heap_to key xs n"
      using False heap_but_down_done [OF "1.prems"(2)] by (auto simp: list_less_def)
    ultimately show ?thesis by simp
  qed
qed

lemma is_heap_root: "heap_to key xs n \<Longrightarrow> k < n \<Longrightarrow> key (xs ! 0) \<le> key (xs ! k)"
proof (induction k rule: less_induct)
  case (less k)
  show ?case
  proof (cases "k = 0")
    case False
    then have "key (xs ! 0) \<le> key (xs ! par k)" using less by (intro less.IH) auto
    also have "\<dots> \<le> key (xs ! k)" using less.prems False by (simp add: heap_to_def)
    finally show ?thesis .
  qed simp
qed

lemma list_up_on_heap: "is_heap key xs \<Longrightarrow> j < length xs \<Longrightarrow> list_up key xs j = xs"
  by (subst heap_up.simps) (auto simp: Let_def list_less_def heap_to_def not_less)

section \<open>Push, Pop and Fix on lists\<close>

lemma list_push_heap:
  assumes "is_heap key xs"
  shows "is_heap key (list_up key (xs @ [x]) (length xs))"
proof (rule list_up_heap)
  show "heap_but_up key (xs @ [x]) (length xs)"
    unfolding heap_but_up_def
  proof (intro allI impI)
    fix c assume c: "0 < c" "c < length (xs @ [x])"
    have "par c < c" using c by simp
    then show "(c \<noteq> length xs \<longrightarrow> key ((xs @ [x]) ! par c) \<le> key ((xs @ [x]) ! c)) \<and>
        (par c = length xs \<longrightarrow> 0 < length xs \<longrightarrow> key ((xs @ [x]) ! par (length xs)) \<le> key ((xs @ [x]) ! c))"
      using assms c by (auto simp: heap_to_def nth_append)
  qed
qed simp

text \<open>\<open>Pop\<close> exchanges the root with the last slot, sifts the rest and hands out the last slot.\<close>

lemma list_pop_heap:
  assumes h: "is_heap key xs" and ne: "xs \<noteq> []"
    and ys: "ys = fst (list_down key (list_swap xs 0 (length xs - 1)) 0 (length xs - 1))"
  shows "last ys = xs ! 0" and "is_heap key (butlast ys)"
    and "mset (butlast ys) = mset xs - {# xs ! 0 #}" and "length ys = length xs"
proof -
  let ?n = "length xs - 1"
  let ?zs = "list_swap xs 0 ?n"
  have n: "?n < length xs" "0 < length xs" using ne by auto
  have frame: "length ys = length xs" "ys ! ?n = ?zs ! ?n" "mset ys = mset xs"
    using list_down_frame [of ?n ?zs key 0] n by (auto simp: ys)
  show len: "length ys = length xs" by (rule frame)
  have ysne: "ys \<noteq> []" using frame n by auto
  show last: "last ys = xs ! 0"
    using frame n ysne nth_list_swap [of 0 xs ?n ?n] by (simp add: last_conv_nth)
  have "heap_but_down key ?zs ?n 0"
    unfolding heap_but_down_def
  proof (intro allI impI)
    fix c assume c: "0 < c" "c < ?n"
    then have "par c < ?n" by simp
    then show "(par c \<noteq> 0 \<longrightarrow> key (?zs ! par c) \<le> key (?zs ! c)) \<and>
        (par c = 0 \<longrightarrow> 0 < (0::nat) \<longrightarrow> key (?zs ! par 0) \<le> key (?zs ! c))"
      using h c n nth_list_swap [of 0 xs ?n c] nth_list_swap [of 0 xs ?n "par c"]
      by (auto simp: heap_to_def)
  qed
  then have "heap_to key ys ?n"
    unfolding ys by (intro list_down_heap) simp_all
  then show "is_heap key (butlast ys)"
    by (auto simp: heap_to_def nth_butlast len)
  have "mset (butlast ys) + {# last ys #} = mset ys"
    using arg_cong [OF append_butlast_last_id [OF ysne], of mset] by simp
  then show "mset (butlast ys) = mset xs - {# xs ! 0 #}"
    using frame(3) last by (metis add_diff_cancel_right')
qed

text \<open>\<open>Fix\<close> after the key of slot \<open>i\<close> has grown: the sift down suffices and the sift up does nothing.\<close>

lemma list_fix_heap:
  assumes "heap_but_down key xs (length xs) i" and "i < length xs"
  shows "is_heap key (heap_Fix length (list_less key) list_swap xs i)"
    and "mset (heap_Fix length (list_less key) list_swap xs i) = mset xs"
proof -
  obtain ys j where d: "list_down key xs i (length xs) = (ys, j)" by force
  have ys: "is_heap key ys" "length ys = length xs" "mset ys = mset xs"
    using list_down_heap [OF order_refl assms(1)] list_down_frame [of "length xs" xs key i] d by auto
  then have "list_up key ys i = ys" using assms(2) by (simp add: list_up_on_heap)
  then have "heap_Fix length (list_less key) list_swap xs i = ys"
    by (simp add: heap_Fix_def d)
  with ys show "is_heap key (heap_Fix length (list_less key) list_swap xs i)"
    and "mset (heap_Fix length (list_less key) list_swap xs i) = mset xs" by simp_all
qed

lemma heap_key_grown:
  assumes h: "is_heap key xs" and i: "i < length xs" and d: "distinct xs"
    and up: "key (xs ! i) \<le> key' (xs ! i)" and same: "\<And>x. x \<noteq> xs ! i \<Longrightarrow> key' x = key x"
  shows "heap_but_down key' xs (length xs) i"
  unfolding heap_but_down_def
proof (intro allI impI)
  fix c assume c: "0 < c" "c < length xs"
  have pc: "par c < c" using c by simp
  have eq: "key' (xs ! k) = key (xs ! k)" if "k < length xs" "k \<noteq> i" for k
    using same that d i by (metis nth_eq_iff_index_eq)
  have A: "key (xs ! par k) \<le> key (xs ! k)" if "0 < k" "k < length xs" for k
    using h that by (simp add: heap_to_def)
  show "(par c \<noteq> i \<longrightarrow> key' (xs ! par c) \<le> key' (xs ! c)) \<and>
        (par c = i \<longrightarrow> 0 < i \<longrightarrow> key' (xs ! par i) \<le> key' (xs ! c))"
  proof (intro conjI impI)
    assume "par c \<noteq> i"
    then show "key' (xs ! par c) \<le> key' (xs ! c)"
      using A [OF c] eq [of "par c"] eq [of c] up c pc by (cases "c = i") auto
  next
    assume p: "par c = i" and i0: "0 < i"
    have "par i < i" using i0 by simp
    then have "key' (xs ! par i) = key (xs ! par i)" using eq [of "par i"] i by simp
    also have "\<dots> \<le> key (xs ! i)" using A [OF i0 i] .
    also have "\<dots> \<le> key (xs ! c)" using A [OF c] p by simp
    also have "\<dots> = key' (xs ! c)" using eq [of c] c p pc by simp
    finally show "key' (xs ! par i) \<le> key' (xs ! c)" .
  qed
qed

lemma heap_replace_root:
  assumes "is_heap key xs"
  shows "heap_but_down key (xs[0 := x]) (length (xs[0 := x])) 0"
  unfolding heap_but_down_def
proof (intro allI impI)
  fix c assume c: "0 < c" "c < length (xs[0 := x])"
  show "(par c \<noteq> 0 \<longrightarrow> key (xs[0 := x] ! par c) \<le> key (xs[0 := x] ! c)) \<and>
        (par c = 0 \<longrightarrow> 0 < (0::nat) \<longrightarrow> key (xs[0 := x] ! par 0) \<le> key (xs[0 := x] ! c))"
    using assms c by (auto simp: heap_to_def nth_list_update)
qed

text \<open>The reversed order, for heaps that keep the greatest key at the root.\<close>

datatype 'a desc = Desc (ascending: 'a)

instantiation desc :: (linorder) linorder
begin

definition less_eq_desc :: "'a desc \<Rightarrow> 'a desc \<Rightarrow> bool" where
  "less_eq_desc a b \<longleftrightarrow> ascending b \<le> ascending a"

definition less_desc :: "'a desc \<Rightarrow> 'a desc \<Rightarrow> bool" where
  "less_desc a b \<longleftrightarrow> ascending b < ascending a"

instance
  by standard (auto simp: less_eq_desc_def less_desc_def desc.expand)

end

lemma Desc_simps [simp]: "Desc a \<le> Desc b \<longleftrightarrow> b \<le> a" "Desc a < Desc b \<longleftrightarrow> b < a"
  by (simp_all add: less_eq_desc_def less_desc_def)

section \<open>The interface\<close>

text \<open>
  \<open>elems h\<close> is the array of references a heap state holds and \<open>key h\<close> the sort key that \<open>Less\<close> compares.
  The laws are what the heap algorithms rely on; \<open>fresh\<close> is the client's condition for pushing.
\<close>

locale heap_interface =
  fixes len :: "'h \<Rightarrow> nat"
    and lt :: "'h \<Rightarrow> nat \<Rightarrow> nat \<Rightarrow> bool"
    and swap :: "'h \<Rightarrow> nat \<Rightarrow> nat \<Rightarrow> 'h"
    and push :: "'h \<Rightarrow> 'x \<Rightarrow> 'h"
    and pop :: "'h \<Rightarrow> 'x \<times> 'h"
    and elems :: "'h \<Rightarrow> 'x list"
    and key :: "'h \<Rightarrow> 'x \<Rightarrow> 'k::linorder"
    and invar :: "'h \<Rightarrow> bool"
    and fresh :: "'h \<Rightarrow> 'x \<Rightarrow> bool"
  assumes len_elems: "invar h \<Longrightarrow> len h = length (elems h)"
    and lt_key: "invar h \<Longrightarrow> i < len h \<Longrightarrow> j < len h \<Longrightarrow>
      lt h i j \<longleftrightarrow> key h (elems h ! i) < key h (elems h ! j)"
    and swap_elems: "invar h \<Longrightarrow> i < len h \<Longrightarrow> j < len h \<Longrightarrow> elems (swap h i j) = list_swap (elems h) i j"
    and swap_key: "invar h \<Longrightarrow> i < len h \<Longrightarrow> j < len h \<Longrightarrow> key (swap h i j) = key h"
    and swap_invar: "invar h \<Longrightarrow> i < len h \<Longrightarrow> j < len h \<Longrightarrow> invar (swap h i j)"
    and push_elems: "invar h \<Longrightarrow> fresh h x \<Longrightarrow> elems (push h x) = elems h @ [x]"
    and push_key: "invar h \<Longrightarrow> fresh h x \<Longrightarrow> key (push h x) = key h"
    and push_invar: "invar h \<Longrightarrow> fresh h x \<Longrightarrow> invar (push h x)"
    and pop_elem: "invar h \<Longrightarrow> elems h \<noteq> [] \<Longrightarrow> fst (pop h) = last (elems h)"
    and pop_elems: "invar h \<Longrightarrow> elems h \<noteq> [] \<Longrightarrow> elems (snd (pop h)) = butlast (elems h)"
    and pop_key: "invar h \<Longrightarrow> elems h \<noteq> [] \<Longrightarrow> key (snd (pop h)) = key h"
    and pop_invar: "invar h \<Longrightarrow> elems h \<noteq> [] \<Longrightarrow> invar (snd (pop h))"
begin

text \<open>The algorithms simulate the list algorithms, keep the keys and keep the client's invariant.\<close>

lemma up_sim:
  "invar h \<Longrightarrow> j < len h \<Longrightarrow>
     invar (heap_up lt swap h j) \<and> key (heap_up lt swap h j) = key h \<and>
     elems (heap_up lt swap h j) = list_up (key h) (elems h) j"
proof (induction j arbitrary: h rule: less_induct)
  case (less j)
  have pj: "par j < len h" using less.prems by simp
  have same: "lt h j (par j) \<longleftrightarrow> list_less (key h) (elems h) j (par j)"
    using lt_key [OF less.prems pj] by (simp add: list_less_def)
  show ?case
  proof (cases "par j = j \<or> \<not> lt h j (par j)")
    case True
    then have "heap_up lt swap h j = h" "list_up (key h) (elems h) j = elems h"
      using same by (subst heap_up.simps, auto simp: Let_def)+
    then show ?thesis using less.prems by simp
  next
    case False
    let ?h = "swap h (par j) j"
    have h: "invar ?h" "key ?h = key h" "elems ?h = list_swap (elems h) (par j) j"
      using less.prems pj by (simp_all add: swap_invar swap_key swap_elems)
    have l: "len ?h = len h" using h less.prems by (simp add: len_elems)
    have lt_par: "par j < j" using False by (cases j) auto
    have "heap_up lt swap h j = heap_up lt swap ?h (par j)"
      "list_up (key h) (elems h) j = list_up (key h) (list_swap (elems h) (par j) j) (par j)"
      using False same by (subst heap_up.simps, simp add: Let_def)+
    then show ?thesis using less.IH [OF lt_par h(1)] pj h l by simp
  qed
qed

lemma down_sim:
  "invar h \<Longrightarrow> n \<le> len h \<Longrightarrow>
     invar (fst (heap_down lt swap h i n)) \<and> key (fst (heap_down lt swap h i n)) = key h \<and>
     elems (fst (heap_down lt swap h i n)) = fst (list_down (key h) (elems h) i n) \<and>
     snd (heap_down lt swap h i n) = snd (list_down (key h) (elems h) i n)"
proof (induction h i rule: heap_down_induct [where lt = lt and swap = swap and n = n])
  case (1 h i)
  have same: "lt h a b \<longleftrightarrow> list_less (key h) (elems h) a b" if "a < n" "b < n" for a b
    using lt_key [OF "1.prems"(1), of a b] that "1.prems"(2) by (simp add: list_less_def)
  show ?case
  proof (cases "2 * i + 1 < n")
    case True
    let ?j = "min_child lt h i n"
    have j: "i < ?j" "?j < n" using min_child_bounds [OF True, of lt h] by simp_all
    have j_eq: "min_child (list_less (key h)) (elems h) i n = ?j"
      using same [of "2 * i + 1 + 1" "2 * i + 1"] True by (auto simp: min_child_def)
    show ?thesis
    proof (cases "lt h ?j i")
      case less: True
      let ?h = "swap h i ?j"
      have h: "invar ?h" "key ?h = key h" "elems ?h = list_swap (elems h) i ?j"
        using "1.prems" j by (simp_all add: swap_invar swap_key swap_elems)
      have "n \<le> len ?h" using h "1.prems" by (simp add: len_elems)
      note IH = "1.IH" [OF True less h(1) this]
      have "heap_down lt swap h i n = heap_down lt swap ?h ?j n"
        "list_down (key h) (elems h) i n = list_down (key h) (list_swap (elems h) i ?j) ?j n"
        using True less same [of ?j i] j j_eq by (subst heap_down_unfold, simp)+
      then show ?thesis using IH h by simp
    next
      case False
      then have "heap_down lt swap h i n = (h, i)" "list_down (key h) (elems h) i n = (elems h, i)"
        using True same [of ?j i] j j_eq by (subst heap_down_unfold, simp)+
      then show ?thesis using "1.prems" by simp
    qed
  next
    case False
    then have "heap_down lt swap h i n = (h, i)" "list_down (key h) (elems h) i n = (elems h, i)"
      by (subst heap_down_unfold, simp)+
    then show ?thesis using "1.prems" by simp
  qed
qed

text \<open>The contract of the three entry points, for any client state.\<close>

lemma Push_correct:
  assumes "invar h" "fresh h x" "is_heap (key h) (elems h)"
    and "h' = heap_Push len lt swap push h x"
  shows "invar h'" and "key h' = key h" and "is_heap (key h') (elems h')"
    and "mset (elems h') = add_mset x (mset (elems h))"
proof -
  have p: "invar (push h x)" "key (push h x) = key h" "elems (push h x) = elems h @ [x]"
    using assms by (simp_all add: push_invar push_key push_elems)
  then have l: "len (push h x) - 1 = length (elems h)" "len (push h x) - 1 < len (push h x)"
    by (simp_all add: len_elems)
  note sim = up_sim [OF p(1) l(2)]
  have h': "h' = heap_up lt swap (push h x) (len (push h x) - 1)"
    by (simp add: assms(4) heap_Push_def Let_def)
  show "invar h'" "key h' = key h" using sim p(2) by (simp_all add: h')
  have e: "elems h' = list_up (key h) (elems h @ [x]) (length (elems h))"
    using sim p l(1) by (simp add: h')
  show "is_heap (key h') (elems h')"
    unfolding e \<open>key h' = key h\<close> by (rule list_push_heap [OF assms(3)])
  show "mset (elems h') = add_mset x (mset (elems h))"
    unfolding e by (simp add: list_up_mset)
qed

lemma Pop_correct:
  assumes "invar h" "elems h \<noteq> []" "is_heap (key h) (elems h)"
    and "heap_Pop len lt swap pop h = (x, h')"
  shows "x = elems h ! 0" and "invar h'" and "key h' = key h" and "is_heap (key h') (elems h')"
    and "mset (elems h') = mset (elems h) - {# x #}"
    and "\<And>y. y \<in> set (elems h) \<Longrightarrow> key h x \<le> key h y"
proof -
  let ?n = "len h - 1"
  have len: "len h = length (elems h)" using assms(1) by (rule len_elems)
  then have n: "0 < len h" "?n < len h" using assms(2) by simp_all
  let ?h1 = "swap h 0 ?n"
  have h1: "invar ?h1" "key ?h1 = key h" "elems ?h1 = list_swap (elems h) 0 ?n"
    using assms(1) n by (simp_all add: swap_invar swap_key swap_elems)
  have "?n \<le> len ?h1" using h1 len by (simp add: len_elems)
  note sim = down_sim [OF h1(1) this, of 0]
  let ?h2 = "fst (heap_down lt swap ?h1 0 ?n)"
  have h2: "invar ?h2" "key ?h2 = key h"
    "elems ?h2 = fst (list_down (key h) (list_swap (elems h) 0 (length (elems h) - 1)) 0 (length (elems h) - 1))"
    using sim h1 len by simp_all
  note lp = list_pop_heap [OF assms(3,2) h2(3)]
  have ne: "elems ?h2 \<noteq> []" using lp(4) assms(2) by auto
  have pop: "pop ?h2 = (x, h')" using assms(4) by (simp add: heap_Pop_def Let_def)
  show x: "x = elems h ! 0" using pop_elem [OF h2(1) ne] pop lp(1) by simp
  show "invar h'" using pop_invar [OF h2(1) ne] pop by simp
  show k: "key h' = key h" using pop_key [OF h2(1) ne] pop h2(2) by simp
  have e: "elems h' = butlast (elems ?h2)" using pop_elems [OF h2(1) ne] pop by simp
  show "is_heap (key h') (elems h')" unfolding e k by (rule lp(2))
  show "mset (elems h') = mset (elems h) - {# x #}" unfolding e x by (rule lp(3))
  fix y assume "y \<in> set (elems h)"
  then obtain i where "i < length (elems h)" "elems h ! i = y" by (auto simp: in_set_conv_nth)
  then show "key h x \<le> key h y" using is_heap_root [OF assms(3)] x by auto
qed

lemma Fix_correct:
  assumes "invar h" "i < len h" "heap_but_down (key h) (elems h) (length (elems h)) i"
    and "h' = heap_Fix len lt swap h i"
  shows "invar h'" and "key h' = key h" and "is_heap (key h') (elems h')"
    and "mset (elems h') = mset (elems h)"
proof -
  have len: "len h = length (elems h)" using assms(1) by (rule len_elems)
  obtain g j where d: "heap_down lt swap h i (len h) = (g, j)" by force
  note sim = down_sim [OF assms(1) order_refl, of i]
  have g: "invar g" "key g = key h" "elems g = fst (list_down (key h) (elems h) i (length (elems h)))"
    "j = snd (list_down (key h) (elems h) i (length (elems h)))"
    using sim d len by simp_all
  have lg: "i < len g"
    using g list_down_frame [of "length (elems h)" "elems h" "key h" i] assms(2) len
    by (simp add: len_elems)
  note usim = up_sim [OF g(1) lg]
  have h': "h' = (if j > i then g else heap_up lt swap g i)"
    using assms(4) d by (simp add: heap_Fix_def)
  show "invar h'" "key h' = key h" using g usim by (simp_all add: h')
  obtain ys j' where ld: "list_down (key h) (elems h) i (length (elems h)) = (ys, j')" by force
  have e: "elems h' = heap_Fix length (list_less (key h)) list_swap (elems h) i"
    using usim g ld by (simp add: h' heap_Fix_def)
  have i: "i < length (elems h)" using assms(2) len by simp
  show "is_heap (key h') (elems h')"
    unfolding \<open>key h' = key h\<close> e by (rule list_fix_heap(1) [OF assms(3) i])
  show "mset (elems h') = mset (elems h)"
    unfolding e by (rule list_fix_heap(2) [OF assms(3) i])
qed

end

end
