(* ===== verification/Registry.thy ===== *)
theory Registry
  imports FlowKey Container_Heap
begin

text \<open>
  internal/flow/registry.go: the bounded registry of observed flows, a map from flow identifiers to
  entries together with a heap of the entries ordered by last activity. The Go heap slice and the Go
  map share entries by pointer; here the heap holds references, the flow identifiers, and the map is
  the store they point into, so an update through either is seen by both.
\<close>

section \<open>Data\<close>

record Snapshot =
  sn_ID :: string
  sn_Key :: Key
  sn_FirstSeen :: time
  sn_LastSeen :: time
  sn_Packets :: u64
  sn_Bytes :: u64
  sn_PacketsAToB :: u64
  sn_PacketsBToA :: u64
  sn_LastEvent :: Event

record registryEntry =
  re_snapshot :: Snapshot
  re_heapIndex :: int

record RegistryConfig =
  rc_Seed :: string
  rc_Capacity :: int
  rc_TTL :: duration

record Registry =
  rg_seed :: string
  rg_capacity :: int
  rg_ttl :: duration
  rg_flows :: "(string, registryEntry) fmap"
  rg_oldest :: "string list"

record ObserveResult =
  or_Flow :: Snapshot
  or_PreviousLastSeen :: time
  or_Created :: bool
  or_Evicted :: "Snapshot option"

datatype registry_error =
    SeedRequired
  | CapacityNotPositive
  | TTLNotPositive
  | InvalidEvent event_error
  | TimestampRequired

definition NewRegistry :: "RegistryConfig \<Rightarrow> registry_error + Registry" where
  "NewRegistry c =
     (if rc_Seed c = [] then Inl SeedRequired
      else if rc_Capacity c \<le> 0 then Inl CapacityNotPositive
      else if rc_TTL c \<le> 0 then Inl TTLNotPositive
      else Inr \<lparr>rg_seed = rc_Seed c, rg_capacity = rc_Capacity c, rg_ttl = rc_TTL c,
                rg_flows = fmempty, rg_oldest = []\<rparr>)"

section \<open>The heap of entries (entryHeap)\<close>

definition re_setIndex :: "Registry \<Rightarrow> string \<Rightarrow> int \<Rightarrow> Registry" where
  "re_setIndex r ref i =
     (case fmlookup (rg_flows r) ref of
        None \<Rightarrow> r
      | Some e \<Rightarrow> r\<lparr>rg_flows := fmupd ref (e\<lparr>re_heapIndex := i\<rparr>) (rg_flows r)\<rparr>)"

definition entrySnapshot :: "Registry \<Rightarrow> string \<Rightarrow> Snapshot" where
  "entrySnapshot r ref = re_snapshot (the (fmlookup (rg_flows r) ref))"

definition entryHeap_Len :: "Registry \<Rightarrow> nat" where
  "entryHeap_Len r = length (rg_oldest r)"

definition entryHeap_Less :: "Registry \<Rightarrow> nat \<Rightarrow> nat \<Rightarrow> bool" where
  "entryHeap_Less r i j =
     (let a = entrySnapshot r (rg_oldest r ! i); b = entrySnapshot r (rg_oldest r ! j) in
      if sn_LastSeen a = sn_LastSeen b then sn_ID a < sn_ID b
      else sn_LastSeen a < sn_LastSeen b)"

definition entryHeap_Swap :: "Registry \<Rightarrow> nat \<Rightarrow> nat \<Rightarrow> Registry" where
  "entryHeap_Swap r i j =
     (let r1 = r\<lparr>rg_oldest := list_swap (rg_oldest r) i j\<rparr>;
          r2 = re_setIndex r1 (rg_oldest r1 ! i) (int i)
      in re_setIndex r2 (rg_oldest r1 ! j) (int j))"

definition entryHeap_Push :: "Registry \<Rightarrow> string \<Rightarrow> Registry" where
  "entryHeap_Push r ref =
     (let r1 = re_setIndex r ref (int (length (rg_oldest r)))
      in r1\<lparr>rg_oldest := rg_oldest r1 @ [ref]\<rparr>)"

definition entryHeap_Pop :: "Registry \<Rightarrow> string \<times> Registry" where
  "entryHeap_Pop r =
     (let ref = last (rg_oldest r); r1 = re_setIndex r ref (-1)
      in (ref, r1\<lparr>rg_oldest := butlast (rg_oldest r1)\<rparr>))"

abbreviation oldest_Push :: "Registry \<Rightarrow> string \<Rightarrow> Registry" where
  "oldest_Push \<equiv> heap_Push entryHeap_Len entryHeap_Less entryHeap_Swap entryHeap_Push"

abbreviation oldest_Pop :: "Registry \<Rightarrow> string \<times> Registry" where
  "oldest_Pop \<equiv> heap_Pop entryHeap_Len entryHeap_Less entryHeap_Swap entryHeap_Pop"

abbreviation oldest_Fix :: "Registry \<Rightarrow> nat \<Rightarrow> Registry" where
  "oldest_Fix \<equiv> heap_Fix entryHeap_Len entryHeap_Less entryHeap_Swap"

section \<open>Operations\<close>

definition setSnapshot :: "Registry \<Rightarrow> string \<Rightarrow> Snapshot \<Rightarrow> Registry" where
  "setSnapshot r ref s =
     (case fmlookup (rg_flows r) ref of
        None \<Rightarrow> r
      | Some e \<Rightarrow> r\<lparr>rg_flows := fmupd ref (e\<lparr>re_snapshot := s\<rparr>) (rg_flows r)\<rparr>)"

definition deleteFlow :: "Registry \<Rightarrow> string \<Rightarrow> Registry" where
  "deleteFlow r ref = r\<lparr>rg_flows := fmdrop ref (rg_flows r)\<rparr>"

text \<open>The counters and timestamps of \<open>update\<close> before the heap is told, and the newest event after.\<close>

definition countPacket :: "Snapshot \<Rightarrow> Event \<Rightarrow> Direction \<Rightarrow> Snapshot" where
  "countPacket s event direction =
     (let s1 = s\<lparr>sn_Packets := sn_Packets s + 1, sn_Bytes := sn_Bytes s + of_int (ev_WireLength event)\<rparr>;
          s2 = (if direction = DirectionAToB then s1\<lparr>sn_PacketsAToB := sn_PacketsAToB s1 + 1\<rparr>
                else s1\<lparr>sn_PacketsBToA := sn_PacketsBToA s1 + 1\<rparr>);
          s3 = (if ev_CapturedAt event < sn_FirstSeen s2 then s2\<lparr>sn_FirstSeen := ev_CapturedAt event\<rparr> else s2)
      in s3)"

definition Registry_update :: "Registry \<Rightarrow> string \<Rightarrow> Event \<Rightarrow> Direction \<Rightarrow> Registry" where
  "Registry_update r ref event direction =
     (let s = countPacket (entrySnapshot r ref) event direction;
          r1 = setSnapshot r ref s;
          r2 = (if ev_CapturedAt event > sn_LastSeen s
                then oldest_Fix (setSnapshot r1 ref (s\<lparr>sn_LastSeen := ev_CapturedAt event\<rparr>))
                       (nat (re_heapIndex (the (fmlookup (rg_flows r1) ref))))
                else r1)
      in if \<not> ev_CapturedAt event < ev_CapturedAt (sn_LastEvent (entrySnapshot r2 ref))
         then setSnapshot r2 ref ((entrySnapshot r2 ref)\<lparr>sn_LastEvent := event\<rparr>)
         else r2)"

definition newSnapshot :: "string \<Rightarrow> Key \<Rightarrow> Event \<Rightarrow> Direction \<Rightarrow> Snapshot" where
  "newSnapshot ident key event direction =
     \<lparr>sn_ID = ident, sn_Key = key, sn_FirstSeen = ev_CapturedAt event, sn_LastSeen = ev_CapturedAt event,
      sn_Packets = 1, sn_Bytes = of_int (ev_WireLength event),
      sn_PacketsAToB = (if direction = DirectionAToB then 1 else 0),
      sn_PacketsBToA = (if direction = DirectionAToB then 0 else 1), sn_LastEvent = event\<rparr>"

definition evictOldest :: "Registry \<Rightarrow> Registry \<times> Snapshot option" where
  "evictOldest r =
     (if int (map_len (rg_flows r)) \<ge> rg_capacity r
      then let (ref, r1) = oldest_Pop r
           in (deleteFlow r1 (sn_ID (entrySnapshot r1 ref)), Some (entrySnapshot r1 ref))
      else (r, None))"

definition insertFlow :: "Registry \<Rightarrow> string \<Rightarrow> Snapshot \<Rightarrow> Registry" where
  "insertFlow r ident s =
     oldest_Push (r\<lparr>rg_flows := fmupd ident \<lparr>re_snapshot = s, re_heapIndex = -1\<rparr> (rg_flows r)\<rparr>) ident"

definition Registry_Observe :: "Registry \<Rightarrow> Event \<Rightarrow> (registry_error + ObserveResult) \<times> Registry" where
  "Registry_Observe r event =
     (case Event_Validate event of
        Some e \<Rightarrow> (Inl (InvalidEvent e), r)
      | None \<Rightarrow>
        if time_IsZero (ev_CapturedAt event) then (Inl TimestampRequired, r)
        else
          let (key, direction) = Canonicalize event; ident = Key_ID key (rg_seed r) in
          case fmlookup (rg_flows r) ident of
            Some existing \<Rightarrow>
              let previous = sn_LastSeen (re_snapshot existing);
                  r1 = Registry_update r ident event direction
              in (Inr \<lparr>or_Flow = entrySnapshot r1 ident, or_PreviousLastSeen = previous,
                       or_Created = False, or_Evicted = None\<rparr>, r1)
          | None \<Rightarrow>
              let (r1, evicted) = evictOldest r;
                  r2 = insertFlow r1 ident (newSnapshot ident key event direction)
              in (Inr \<lparr>or_Flow = entrySnapshot r2 ident, or_PreviousLastSeen = 0,
                       or_Created = True, or_Evicted = evicted\<rparr>, r2))"

definition Registry_Get :: "Registry \<Rightarrow> string \<Rightarrow> Snapshot option" where
  "Registry_Get r ident = map_option re_snapshot (fmlookup (rg_flows r) ident)"

definition Registry_Len :: "Registry \<Rightarrow> nat" where
  "Registry_Len r = map_len (rg_flows r)"

section \<open>Frame lemmas of the heap methods\<close>

lemma re_setIndex_frame [simp]:
  "rg_oldest (re_setIndex r ref i) = rg_oldest r" "rg_seed (re_setIndex r ref i) = rg_seed r"
  "rg_capacity (re_setIndex r ref i) = rg_capacity r" "rg_ttl (re_setIndex r ref i) = rg_ttl r"
  "entrySnapshot (re_setIndex r ref i) x = entrySnapshot r x"
  "Registry_Get (re_setIndex r ref i) x = Registry_Get r x"
  by (auto simp: re_setIndex_def entrySnapshot_def Registry_Get_def split: option.splits)

lemma re_setIndex_lookup:
  "fmlookup (rg_flows (re_setIndex r ref i)) x =
     (if x = ref then map_option (re_heapIndex_update (\<lambda>_. i)) (fmlookup (rg_flows r) x)
      else fmlookup (rg_flows r) x)"
  by (auto simp: re_setIndex_def split: option.splits)

lemma entryHeap_Swap_frame [simp]:
  "rg_oldest (entryHeap_Swap r i j) = list_swap (rg_oldest r) i j"
  "rg_seed (entryHeap_Swap r i j) = rg_seed r" "rg_capacity (entryHeap_Swap r i j) = rg_capacity r"
  "rg_ttl (entryHeap_Swap r i j) = rg_ttl r" "entrySnapshot (entryHeap_Swap r i j) x = entrySnapshot r x"
  "Registry_Get (entryHeap_Swap r i j) x = Registry_Get r x"
  by (simp_all add: entryHeap_Swap_def Let_def) (simp_all add: entrySnapshot_def Registry_Get_def)

lemma oldest_up_frame:
  "length (rg_oldest (heap_up entryHeap_Less entryHeap_Swap r j)) = length (rg_oldest r) \<and>
   rg_seed (heap_up entryHeap_Less entryHeap_Swap r j) = rg_seed r \<and>
   rg_capacity (heap_up entryHeap_Less entryHeap_Swap r j) = rg_capacity r \<and>
   rg_ttl (heap_up entryHeap_Less entryHeap_Swap r j) = rg_ttl r \<and>
   Registry_Get (heap_up entryHeap_Less entryHeap_Swap r j) = Registry_Get r"
proof (induction j arbitrary: r rule: less_induct)
  case (less j)
  show ?case
  proof (cases "par j = j \<or> \<not> entryHeap_Less r j (par j)")
    case True
    then have "heap_up entryHeap_Less entryHeap_Swap r j = r"
      by (subst heap_up.simps) (auto simp: Let_def)
    then show ?thesis by simp
  next
    case False
    then have "par j < j" by (cases j) auto
    moreover have "heap_up entryHeap_Less entryHeap_Swap r j =
        heap_up entryHeap_Less entryHeap_Swap (entryHeap_Swap r (par j) j) (par j)"
      using False by (subst heap_up.simps) (simp add: Let_def)
    ultimately show ?thesis using less.IH [of "par j" "entryHeap_Swap r (par j) j"] by auto
  qed
qed

lemma oldest_down_frame:
  "length (rg_oldest (fst (heap_down entryHeap_Less entryHeap_Swap r i n))) = length (rg_oldest r) \<and>
   rg_seed (fst (heap_down entryHeap_Less entryHeap_Swap r i n)) = rg_seed r \<and>
   rg_capacity (fst (heap_down entryHeap_Less entryHeap_Swap r i n)) = rg_capacity r \<and>
   rg_ttl (fst (heap_down entryHeap_Less entryHeap_Swap r i n)) = rg_ttl r \<and>
   Registry_Get (fst (heap_down entryHeap_Less entryHeap_Swap r i n)) = Registry_Get r"
proof (induction r i rule: heap_down_induct [where lt = entryHeap_Less and swap = entryHeap_Swap and n = n])
  case (1 r i)
  show ?case
  proof (cases "2 * i + 1 \<ge> n \<or> \<not> entryHeap_Less r (min_child entryHeap_Less r i n) i")
    case True
    then have "heap_down entryHeap_Less entryHeap_Swap r i n = (r, i)"
      by (subst heap_down_unfold) simp
    then show ?thesis by simp
  next
    case False
    let ?j = "min_child entryHeap_Less r i n"
    have "heap_down entryHeap_Less entryHeap_Swap r i n =
        heap_down entryHeap_Less entryHeap_Swap (entryHeap_Swap r i ?j) ?j n"
      using False by (subst heap_down_unfold) simp
    then show ?thesis using False 1 by auto
  qed
qed

lemma Registry_Get_oldest [simp]: "Registry_Get (r\<lparr>rg_oldest := xs\<rparr>) = Registry_Get r"
  by (simp add: Registry_Get_def fun_eq_iff)

lemma Registry_Get_Pop: "Registry_Get (snd (entryHeap_Pop r)) = Registry_Get r"
  by (simp add: entryHeap_Pop_def Let_def fun_eq_iff)

lemma oldest_Pop_frame:
  "length (rg_oldest (snd (oldest_Pop r))) = length (rg_oldest r) - 1 \<and>
   rg_seed (snd (oldest_Pop r)) = rg_seed r \<and> rg_capacity (snd (oldest_Pop r)) = rg_capacity r \<and>
   rg_ttl (snd (oldest_Pop r)) = rg_ttl r \<and> Registry_Get (snd (oldest_Pop r)) = Registry_Get r"
  using oldest_down_frame [of "entryHeap_Swap r 0 (entryHeap_Len r - 1)" 0 "entryHeap_Len r - 1"]
    Registry_Get_Pop
  by (auto simp: heap_Pop_def Let_def entryHeap_Pop_def)

text \<open>The loop of \<open>Expire\<close>: pop while the least recent entry is not after the cutoff.\<close>

function expireLoop :: "Registry \<Rightarrow> time \<Rightarrow> Snapshot list \<Rightarrow> Snapshot list \<times> Registry" where
  "expireLoop r cutoff expired =
     (if rg_oldest r = [] then (expired, r)
      else if sn_LastSeen (entrySnapshot r (rg_oldest r ! 0)) > cutoff then (expired, r)
      else let (ref, r1) = oldest_Pop r; s = entrySnapshot r1 ref
           in expireLoop (deleteFlow r1 (sn_ID s)) cutoff (expired @ [s]))"
  by pat_completeness auto
termination
proof (relation "measure (\<lambda>(r, cutoff, expired). length (rg_oldest r))")
  fix r cutoff expired x ref r1 s
  assume "rg_oldest r \<noteq> []" "x = oldest_Pop r" "(ref, r1) = x"
  then have "length (rg_oldest r1) = length (rg_oldest r) - 1" "0 < length (rg_oldest r)"
    using oldest_Pop_frame [of r] by (metis snd_conv, simp)
  then show "((deleteFlow r1 (sn_ID s), cutoff, expired @ [s]), r, cutoff, expired)
      \<in> measure (\<lambda>(r, cutoff, expired). length (rg_oldest r))"
    by (simp add: deleteFlow_def)
qed simp

declare expireLoop.simps [simp del]

definition Registry_Expire :: "Registry \<Rightarrow> time \<Rightarrow> Snapshot list \<times> Registry" where
  "Registry_Expire r now = expireLoop r (now - rg_ttl r) []"

section \<open>The entry heap as a heap interface\<close>

definition entryKey :: "Registry \<Rightarrow> string \<Rightarrow> time \<times> string" where
  "entryKey r ref = (sn_LastSeen (entrySnapshot r ref), sn_ID (entrySnapshot r ref))"

definition oldest_wf :: "Registry \<Rightarrow> bool" where
  "oldest_wf r \<longleftrightarrow>
     distinct (rg_oldest r) \<and>
     (\<forall>i < length (rg_oldest r). \<exists>e. fmlookup (rg_flows r) (rg_oldest r ! i) = Some e \<and>
        re_heapIndex e = int i \<and> sn_ID (re_snapshot e) = rg_oldest r ! i)"

definition oldest_fresh :: "Registry \<Rightarrow> string \<Rightarrow> bool" where
  "oldest_fresh r ref \<longleftrightarrow>
     ref \<notin> set (rg_oldest r) \<and> (\<exists>e. fmlookup (rg_flows r) ref = Some e \<and> sn_ID (re_snapshot e) = ref)"

lemma oldest_wf_Swap:
  assumes "oldest_wf r" "i < length (rg_oldest r)" "j < length (rg_oldest r)"
  shows "oldest_wf (entryHeap_Swap r i j)"
proof -
  let ?ys = "list_swap (rg_oldest r) i j"
  have d: "distinct ?ys"
    using assms unfolding oldest_wf_def list_swap_def by (simp add: distinct_swap)
  have idx: "\<exists>e. fmlookup (rg_flows (entryHeap_Swap r i j)) (?ys ! k) = Some e \<and> re_heapIndex e = int k \<and>
      sn_ID (re_snapshot e) = ?ys ! k" if k: "k < length (rg_oldest r)" for k
  proof -
    define m where "m = (if k = j then i else if k = i then j else k)"
    have m: "m < length (rg_oldest r)" "?ys ! k = rg_oldest r ! m"
      using nth_list_swap [OF assms(2,3) k] assms k by (auto simp: m_def)
    obtain e where e: "fmlookup (rg_flows r) (rg_oldest r ! m) = Some e" "re_heapIndex e = int m"
      "sn_ID (re_snapshot e) = rg_oldest r ! m"
      using assms(1) m(1) unfolding oldest_wf_def by blast
    have ne: "?ys ! k = ?ys ! i \<longleftrightarrow> k = i" "?ys ! k = ?ys ! j \<longleftrightarrow> k = j"
      using d assms(2,3) k by (simp_all add: nth_eq_iff_index_eq)
    have "fmlookup (rg_flows (entryHeap_Swap r i j)) (?ys ! k) =
        Some (if k = j then e\<lparr>re_heapIndex := int j\<rparr> else if k = i then e\<lparr>re_heapIndex := int i\<rparr> else e)"
      using ne e(1) m(2) by (auto simp: entryHeap_Swap_def Let_def re_setIndex_lookup)
    then show ?thesis using e m by (auto simp: m_def split: if_splits)
  qed
  show ?thesis unfolding oldest_wf_def using d idx by simp
qed

lemma entryHeap_Less_key:
  "entryHeap_Less r i j \<longleftrightarrow> entryKey r (rg_oldest r ! i) < entryKey r (rg_oldest r ! j)"
  by (auto simp: entryHeap_Less_def entryKey_def Let_def)

lemma entryKey_cong: "(\<And>x. entrySnapshot r x = entrySnapshot r' x) \<Longrightarrow> entryKey r = entryKey r'"
  by (simp add: entryKey_def fun_eq_iff)

lemma entrySnapshot_oldest [simp]: "entrySnapshot (r\<lparr>rg_oldest := xs\<rparr>) = entrySnapshot r"
  by (simp add: entrySnapshot_def fun_eq_iff)

interpretation oh: heap_interface
  entryHeap_Len entryHeap_Less entryHeap_Swap entryHeap_Push entryHeap_Pop
  rg_oldest entryKey oldest_wf oldest_fresh
proof (unfold_locales, goal_cases)
  case (5 h i j)
  then show ?case by (auto simp: entryHeap_Len_def intro: oldest_wf_Swap)
next
  case (8 h x)
  then show ?case
    by (fastforce simp: entryHeap_Push_def Let_def oldest_wf_def oldest_fresh_def re_setIndex_lookup
        nth_append in_set_conv_nth less_Suc_eq)
next
  case (12 h)
  then have last: "last (rg_oldest h) = rg_oldest h ! (length (rg_oldest h) - 1)"
    by (simp add: last_conv_nth)
  have "rg_oldest h ! i \<noteq> last (rg_oldest h)" if "i < length (rg_oldest h) - 1" for i
    using 12 that unfolding last by (simp add: oldest_wf_def nth_eq_iff_index_eq)
  with 12 show ?case
    by (auto simp: entryHeap_Pop_def Let_def oldest_wf_def re_setIndex_lookup nth_butlast distinct_butlast)
qed (auto simp: entryHeap_Len_def entryHeap_Less_key entryHeap_Push_def entryHeap_Pop_def Let_def
    intro: entryKey_cong)

section \<open>The invariant\<close>

text \<open>What a stored snapshot says about its flow.\<close>

definition snapshot_ok :: "string \<Rightarrow> string \<Rightarrow> Snapshot \<Rightarrow> bool" where
  "snapshot_ok seed ident s \<longleftrightarrow>
     sn_ID s = ident \<and> sn_FirstSeen s \<le> sn_LastSeen s \<and> sn_Packets s = sn_PacketsAToB s + sn_PacketsBToA s \<and>
     ev_CapturedAt (sn_LastEvent s) = sn_LastSeen s \<and> Event_Validate (sn_LastEvent s) = None \<and>
     Key_ID (sn_Key s) seed = ident \<and> Key_ID (fst (Canonicalize (sn_LastEvent s))) seed = ident"

text \<open>Map and heap agree, the heap is ordered by last activity, and every entry is consistent.\<close>

definition registry_core :: "Registry \<Rightarrow> bool" where
  "registry_core r \<longleftrightarrow>
     oldest_wf r \<and> set (rg_oldest r) = fset (fmdom (rg_flows r)) \<and> is_heap (entryKey r) (rg_oldest r) \<and>
     (\<forall>ident s. Registry_Get r ident = Some s \<longrightarrow> snapshot_ok (rg_seed r) ident s)"

definition Registry_inv :: "Registry \<Rightarrow> bool" where
  "Registry_inv r \<longleftrightarrow>
     registry_core r \<and> rg_seed r \<noteq> [] \<and> 0 < rg_ttl r \<and> 0 < rg_capacity r \<and>
     int (Registry_Len r) \<le> rg_capacity r"

lemma Registry_Get_dom: "x \<in> fset (fmdom (rg_flows r)) \<longleftrightarrow> (\<exists>s. Registry_Get r x = Some s)"
  by (auto simp: Registry_Get_def fmlookup_dom_iff)

lemma entrySnapshot_Get: "Registry_Get r x = Some s \<Longrightarrow> entrySnapshot r x = s"
  by (auto simp: Registry_Get_def entrySnapshot_def)

lemma registry_core_oldest: "registry_core r \<Longrightarrow> x \<in> set (rg_oldest r) \<longleftrightarrow> (\<exists>s. Registry_Get r x = Some s)"
  by (simp add: registry_core_def Registry_Get_dom)

lemma Registry_Len_oldest: "registry_core r \<Longrightarrow> Registry_Len r = length (rg_oldest r)"
  unfolding registry_core_def oldest_wf_def Registry_Len_def by (intro map_len_keys) auto

lemma NewRegistry_inv: "NewRegistry c = Inr r \<Longrightarrow> Registry_inv r \<and> Registry_Get r = Map.empty"
  by (auto simp: NewRegistry_def Registry_inv_def registry_core_def oldest_wf_def heap_to_def Registry_Len_def
      Registry_Get_def split: if_splits)

subsection \<open>Removing the least recent flow\<close>

lemma oldest_wf_delete:
  assumes "oldest_wf r" "ref \<notin> set (rg_oldest r)"
  shows "oldest_wf (deleteFlow r ref)"
  unfolding oldest_wf_def
proof (intro conjI allI impI)
  show "distinct (rg_oldest (deleteFlow r ref))"
    using assms(1) by (simp add: oldest_wf_def deleteFlow_def)
  fix i assume i: "i < length (rg_oldest (deleteFlow r ref))"
  then have "rg_oldest r ! i \<noteq> ref" using assms(2) nth_mem by (fastforce simp: deleteFlow_def)
  with assms(1) i show "\<exists>e. fmlookup (rg_flows (deleteFlow r ref)) (rg_oldest (deleteFlow r ref) ! i) = Some e \<and>
      re_heapIndex e = int i \<and> sn_ID (re_snapshot e) = rg_oldest (deleteFlow r ref) ! i"
    by (simp add: oldest_wf_def deleteFlow_def)
qed

lemma is_heap_cong: "(\<And>x. x \<in> set xs \<Longrightarrow> key x = key' x) \<Longrightarrow> is_heap key xs \<longleftrightarrow> is_heap key' xs"
  unfolding heap_to_def by (intro all_cong1 imp_cong refl) (simp only: nth_mem less_trans [OF par_less])

text \<open>Pop the heap, then delete the popped entry from the map: one step of eviction and of expiry.\<close>

lemma popOldest_correct:
  assumes core: "registry_core r" and ne: "rg_oldest r \<noteq> []"
    and pop: "oldest_Pop r = (ref, r1)" and r2: "r2 = deleteFlow r1 (sn_ID (entrySnapshot r1 ref))"
  shows "registry_core r2" and "ref = rg_oldest r ! 0" and "Registry_Get r ref = Some (entrySnapshot r1 ref)"
    and "Registry_Get r2 = (Registry_Get r)(ref := None)"
    and "\<And>x s. Registry_Get r x = Some s \<Longrightarrow> entryKey r ref \<le> (sn_LastSeen s, sn_ID s)"
    and "rg_seed r2 = rg_seed r" "rg_capacity r2 = rg_capacity r" "rg_ttl r2 = rg_ttl r"
    and "length (rg_oldest r2) = length (rg_oldest r) - 1"
proof -
  have h: "oldest_wf r" "is_heap (entryKey r) (rg_oldest r)" and dom: "set (rg_oldest r) = fset (fmdom (rg_flows r))"
    and ok: "\<And>x s. Registry_Get r x = Some s \<Longrightarrow> snapshot_ok (rg_seed r) x s"
    using core by (auto simp: registry_core_def)
  note p = oh.Pop_correct [OF h(1) ne h(2) pop]
  note fr = oldest_Pop_frame [of r, unfolded pop snd_conv]
  show ref: "ref = rg_oldest r ! 0" by (rule p(1))
  have "ref \<in> set (rg_oldest r)" using ref ne by simp
  then obtain s0 where s0: "Registry_Get r ref = Some s0" using registry_core_oldest [OF core] by auto
  then have "Registry_Get r1 ref = Some s0" using fr by simp
  then have es: "entrySnapshot r1 ref = s0" by (rule entrySnapshot_Get)
  show "Registry_Get r ref = Some (entrySnapshot r1 ref)" using s0 es by simp
  have id0: "sn_ID s0 = ref" using ok [OF s0] by (simp add: snapshot_ok_def)
  have r2': "r2 = deleteFlow r1 ref" using r2 es id0 by simp
  show get: "Registry_Get r2 = (Registry_Get r)(ref := None)"
    using fr by (auto simp: r2' deleteFlow_def Registry_Get_def fun_eq_iff)
  show seed: "rg_seed r2 = rg_seed r" "rg_capacity r2 = rg_capacity r" "rg_ttl r2 = rg_ttl r"
    "length (rg_oldest r2) = length (rg_oldest r) - 1"
    using fr by (simp_all add: r2' deleteFlow_def)
  have old: "rg_oldest r2 = rg_oldest r1" by (simp add: r2' deleteFlow_def)
  have ms: "mset (rg_oldest r1) = mset (rg_oldest r) - {# ref #}" by (rule p(5))
  have d: "distinct (rg_oldest r)" using h(1) by (simp add: oldest_wf_def)
  have set1: "set (rg_oldest r1) = set (rg_oldest r) - {ref}"
    using ms d by (metis mset_remove1 set_mset_mset set_remove1_eq)
  have "oldest_wf r2" unfolding r2' by (rule oldest_wf_delete [OF p(2)]) (simp add: set1)
  moreover have "set (rg_oldest r2) = fset (fmdom (rg_flows r2))"
    unfolding old set1 dom by (auto simp: Registry_Get_dom get split: if_splits)
  moreover have "is_heap (entryKey r2) (rg_oldest r2)"
  proof -
    have "entryKey r2 x = entryKey r1 x" if "x \<in> set (rg_oldest r1)" for x
      using that set1 by (auto simp: entryKey_def entrySnapshot_def r2' deleteFlow_def)
    then show ?thesis using p(4) unfolding old by (subst is_heap_cong) auto
  qed
  moreover have "snapshot_ok (rg_seed r2) x s" if "Registry_Get r2 x = Some s" for x s
    using that ok seed by (auto simp: get split: if_splits)
  ultimately show "registry_core r2" by (simp add: registry_core_def)
  fix x s assume xs: "Registry_Get r x = Some s"
  then have "x \<in> set (rg_oldest r)" using registry_core_oldest [OF core] by auto
  then have "entryKey r ref \<le> entryKey r x" by (rule p(6))
  then show "entryKey r ref \<le> (sn_LastSeen s, sn_ID s)"
    using entrySnapshot_Get [OF xs] by (simp add: entryKey_def)
qed

end
