(* ===== verification/Registry_Spec.thy ===== *)
theory Registry_Spec
  imports Registry
begin

text \<open>
  What the operations of internal/flow/registry.go do, seen through \<open>Get\<close>: an observation updates or
  creates exactly one flow, a full registry evicts exactly its least recently active flow, expiry
  removes exactly the flows idle for the retention time, and every operation keeps the invariant that
  ties the map, the heap and the stored snapshots together.
\<close>

section \<open>Inserting a flow\<close>

lemma oldest_Push_frame:
  "Registry_Get (oldest_Push r x) = Registry_Get r \<and> rg_seed (oldest_Push r x) = rg_seed r \<and>
   rg_capacity (oldest_Push r x) = rg_capacity r \<and> rg_ttl (oldest_Push r x) = rg_ttl r"
proof -
  have "Registry_Get (entryHeap_Push r x) = Registry_Get r"
    by (simp add: entryHeap_Push_def Let_def fun_eq_iff)
  then show ?thesis
    using oldest_up_frame [of "entryHeap_Push r x" "entryHeap_Len (entryHeap_Push r x) - 1"]
    by (simp add: heap_Push_def Let_def entryHeap_Push_def)
qed

lemma insertFlow_correct:
  assumes core: "registry_core r" and new: "Registry_Get r ident = None"
    and ok: "snapshot_ok (rg_seed r) ident s" and r': "r' = insertFlow r ident s"
  shows "registry_core r'" and "Registry_Get r' = (Registry_Get r)(ident \<mapsto> s)"
    and "rg_seed r' = rg_seed r" "rg_capacity r' = rg_capacity r" "rg_ttl r' = rg_ttl r"
proof -
  define r1 where "r1 = r\<lparr>rg_flows := fmupd ident \<lparr>re_snapshot = s, re_heapIndex = -1\<rparr> (rg_flows r)\<rparr>"
  have r'1: "r' = oldest_Push r1 ident" by (simp add: r' insertFlow_def r1_def)
  have get1: "Registry_Get r1 = (Registry_Get r)(ident \<mapsto> s)"
    by (simp add: r1_def Registry_Get_def fun_eq_iff)
  have notin: "ident \<notin> set (rg_oldest r)" using registry_core_oldest [OF core] new by simp
  have old1: "rg_oldest r1 = rg_oldest r" by (simp add: r1_def)
  have "rg_oldest r ! i \<noteq> ident" if "i < length (rg_oldest r)" for i
    using notin nth_mem [OF that] by auto
  then have wf: "oldest_wf r1" using core by (auto simp: registry_core_def oldest_wf_def r1_def)
  have fresh: "oldest_fresh r1 ident"
    using notin ok by (auto simp: oldest_fresh_def r1_def snapshot_ok_def)
  have "entryKey r1 x = entryKey r x" if "x \<in> set (rg_oldest r)" for x
    using that notin by (auto simp: entryKey_def entrySnapshot_def r1_def)
  then have "is_heap (entryKey r1) (rg_oldest r)"
    using core by (subst is_heap_cong [of _ _ "entryKey r"]) (auto simp: registry_core_def)
  then have heap: "is_heap (entryKey r1) (rg_oldest r1)" by (simp add: old1)
  note p = oh.Push_correct [OF wf fresh heap r'1]
  note fr = oldest_Push_frame [of r1 ident, folded r'1]
  show get: "Registry_Get r' = (Registry_Get r)(ident \<mapsto> s)" using fr get1 by simp
  show fields: "rg_seed r' = rg_seed r" "rg_capacity r' = rg_capacity r" "rg_ttl r' = rg_ttl r"
    using fr by (simp_all add: r1_def)
  have "set (rg_oldest r') = insert ident (set (rg_oldest r))"
    using p(4) old1 by (metis set_mset_add_mset_insert set_mset_mset)
  then have "set (rg_oldest r') = fset (fmdom (rg_flows r'))"
    using registry_core_oldest [OF core] by (auto simp: Registry_Get_dom get split: if_splits)
  moreover have "snapshot_ok (rg_seed r') x t" if "Registry_Get r' x = Some t" for x t
    using that core ok fields by (auto simp: get registry_core_def split: if_splits)
  ultimately show "registry_core r'" using p(1,3) by (simp add: registry_core_def)
qed

section \<open>Updating a flow\<close>

text \<open>The flow after one more packet, as a function of the flow before.\<close>

definition advance :: "Snapshot \<Rightarrow> Event \<Rightarrow> Direction \<Rightarrow> Snapshot" where
  "advance s event direction =
     (let t = countPacket s event direction in
      t\<lparr>sn_LastSeen := max (sn_LastSeen s) (ev_CapturedAt event),
        sn_LastEvent := (if ev_CapturedAt event < ev_CapturedAt (sn_LastEvent s) then sn_LastEvent s else event)\<rparr>)"

lemma countPacket_frame [simp]:
  "sn_ID (countPacket s e d) = sn_ID s" "sn_Key (countPacket s e d) = sn_Key s"
  "sn_LastSeen (countPacket s e d) = sn_LastSeen s" "sn_LastEvent (countPacket s e d) = sn_LastEvent s"
  "sn_FirstSeen (countPacket s e d) = min (sn_FirstSeen s) (ev_CapturedAt e)"
  "sn_Packets (countPacket s e d) = sn_Packets s + 1"
  "sn_Bytes (countPacket s e d) = sn_Bytes s + of_int (ev_WireLength e)"
  "sn_PacketsAToB (countPacket s e d) = sn_PacketsAToB s + (if d = DirectionAToB then 1 else 0)"
  "sn_PacketsBToA (countPacket s e d) = sn_PacketsBToA s + (if d = DirectionAToB then 0 else 1)"
  by (simp_all add: countPacket_def Let_def min_def)

lemma advance_ok:
  assumes "snapshot_ok seed ident s" "Event_Validate event = None"
    and "Key_ID (fst (Canonicalize event)) seed = ident"
  shows "snapshot_ok seed ident (advance s event d)"
  using assms by (auto simp: snapshot_ok_def advance_def Let_def)

lemma setSnapshot_frame [simp]:
  "rg_oldest (setSnapshot r ref s) = rg_oldest r" "rg_seed (setSnapshot r ref s) = rg_seed r"
  "rg_capacity (setSnapshot r ref s) = rg_capacity r" "rg_ttl (setSnapshot r ref s) = rg_ttl r"
  by (simp_all add: setSnapshot_def split: option.splits)

lemma setSnapshot_lookup:
  "fmlookup (rg_flows (setSnapshot r ref s)) x =
     (if x = ref then map_option (re_snapshot_update (\<lambda>_. s)) (fmlookup (rg_flows r) x)
      else fmlookup (rg_flows r) x)"
  by (auto simp: setSnapshot_def split: option.splits)

lemma setSnapshot_Get:
  "Registry_Get r ref \<noteq> None \<Longrightarrow> Registry_Get (setSnapshot r ref s) = (Registry_Get r)(ref \<mapsto> s)"
  by (auto simp: Registry_Get_def setSnapshot_lookup fun_eq_iff)

lemma setSnapshot_wf: "oldest_wf r \<Longrightarrow> sn_ID s = ref \<Longrightarrow> oldest_wf (setSnapshot r ref s)"
  by (fastforce simp: oldest_wf_def setSnapshot_lookup)

text \<open>The heap half of the invariant, which the intermediate states of \<open>update\<close> satisfy too.\<close>

definition registry_heap :: "Registry \<Rightarrow> bool" where
  "registry_heap r \<longleftrightarrow>
     oldest_wf r \<and> set (rg_oldest r) = fset (fmdom (rg_flows r)) \<and> is_heap (entryKey r) (rg_oldest r)"

lemma registry_core_iff:
  "registry_core r \<longleftrightarrow>
     registry_heap r \<and> (\<forall>ident s. Registry_Get r ident = Some s \<longrightarrow> snapshot_ok (rg_seed r) ident s)"
  by (auto simp: registry_core_def registry_heap_def)

lemma registry_heap_oldest: "registry_heap r \<Longrightarrow> x \<in> set (rg_oldest r) \<longleftrightarrow> (\<exists>s. Registry_Get r x = Some s)"
  by (simp add: registry_heap_def Registry_Get_dom)

lemma oldest_wf_ID: "oldest_wf r \<Longrightarrow> x \<in> set (rg_oldest r) \<Longrightarrow> sn_ID (entrySnapshot r x) = x"
  by (force simp: oldest_wf_def in_set_conv_nth entrySnapshot_def)

lemma entryKey_setSnapshot:
  assumes "registry_heap r" "x \<in> set (rg_oldest r)" "sn_ID s = ref" "Registry_Get r ref \<noteq> None"
  shows "entryKey (setSnapshot r ref s) x = (if x = ref then (sn_LastSeen s, ref) else entryKey r x)"
proof -
  obtain t where t: "Registry_Get r x = Some t" using assms(1,2) registry_heap_oldest [of r x] by blast
  have "Registry_Get (setSnapshot r ref s) x = Some (if x = ref then s else t)"
    using t setSnapshot_Get [OF assms(4), of s] by simp
  then show ?thesis
    using entrySnapshot_Get [OF t] entrySnapshot_Get [of "setSnapshot r ref s"] assms(3)
    by (simp add: entryKey_def)
qed

lemma setSnapshot_dom: "fmdom (rg_flows (setSnapshot r ref s)) = fmdom (rg_flows r)"
  by (auto simp: setSnapshot_def fmlookup_dom_iff split: option.splits)

text \<open>Storing a snapshot with the same sort key keeps the heap.\<close>

lemma setSnapshot_heap:
  assumes h: "registry_heap r" and s0: "Registry_Get r ref = Some s0" and s: "sn_ID s = ref"
    and key: "sn_LastSeen s = sn_LastSeen s0"
  shows "registry_heap (setSnapshot r ref s)"
proof -
  have "ref \<in> set (rg_oldest r)" using registry_heap_oldest [OF h, of ref] s0 by blast
  then have "entryKey r ref = (sn_LastSeen s, ref)"
    using oldest_wf_ID [of r ref] h key entrySnapshot_Get [OF s0] by (simp add: registry_heap_def entryKey_def)
  then have "entryKey (setSnapshot r ref s) x = entryKey r x" if "x \<in> set (rg_oldest r)" for x
    using entryKey_setSnapshot [OF h that s] s0 by simp
  then have "is_heap (entryKey (setSnapshot r ref s)) (rg_oldest r)"
    using h by (subst is_heap_cong [of _ _ "entryKey r"]) (auto simp: registry_heap_def)
  then show ?thesis using h setSnapshot_wf [OF _ s] by (simp add: registry_heap_def setSnapshot_dom)
qed

text \<open>Raising a flow's last activity and fixing its heap slot.\<close>

lemma oldest_Fix_frame:
  "Registry_Get (oldest_Fix r i) = Registry_Get r \<and> rg_seed (oldest_Fix r i) = rg_seed r \<and>
   rg_capacity (oldest_Fix r i) = rg_capacity r \<and> rg_ttl (oldest_Fix r i) = rg_ttl r"
  using oldest_down_frame [of r i "entryHeap_Len r"] oldest_up_frame
  by (auto simp: heap_Fix_def split: prod.splits)

lemma Fix_heap:
  assumes h: "registry_heap r" and s0: "Registry_Get r ref = Some s0" and s: "sn_ID s = ref"
    and key: "sn_LastSeen s0 \<le> sn_LastSeen s"
    and i: "i = nat (re_heapIndex (the (fmlookup (rg_flows r) ref)))"
  shows "registry_heap (oldest_Fix (setSnapshot r ref s) i)"
proof -
  let ?r = "setSnapshot r ref s"
  have mem: "ref \<in> set (rg_oldest r)" using registry_heap_oldest [OF h, of ref] s0 by blast
  then obtain k where k: "k < length (rg_oldest r)" "rg_oldest r ! k = ref" by (auto simp: in_set_conv_nth)
  have wf: "oldest_wf r" and d: "distinct (rg_oldest r)" using h by (auto simp: registry_heap_def oldest_wf_def)
  have ik: "i = k" using wf k i by (force simp: oldest_wf_def)
  have wf': "oldest_wf ?r" by (rule setSnapshot_wf [OF wf s])
  have kr: "entryKey r ref = (sn_LastSeen s0, ref)"
    using oldest_wf_ID [OF wf mem] entrySnapshot_Get [OF s0] by (simp add: entryKey_def)
  have "heap_but_down (entryKey ?r) (rg_oldest r) (length (rg_oldest r)) i"
  proof (rule heap_key_grown [where key = "entryKey r"])
    show "is_heap (entryKey r) (rg_oldest r)" using h by (simp add: registry_heap_def)
    show "i < length (rg_oldest r)" "distinct (rg_oldest r)" using ik k d by simp_all
    show "entryKey r (rg_oldest r ! i) \<le> entryKey ?r (rg_oldest r ! i)"
      using entryKey_setSnapshot [OF h mem s] s0 key ik k kr by simp
    show "entryKey ?r x = entryKey r x" if "x \<noteq> rg_oldest r ! i" for x
      using that ik k by (simp add: entryKey_def entrySnapshot_def setSnapshot_lookup)
  qed
  then have but: "heap_but_down (entryKey ?r) (rg_oldest ?r) (length (rg_oldest ?r)) i" by simp
  have "i < entryHeap_Len ?r" using ik k by (simp add: entryHeap_Len_def)
  note f = oh.Fix_correct [OF wf' this but refl]
  have "set (rg_oldest (oldest_Fix ?r i)) = set (rg_oldest r)" using f(4) by (metis setSnapshot_frame(1) set_mset_mset)
  moreover have "fset (fmdom (rg_flows (oldest_Fix ?r i))) = fset (fmdom (rg_flows r))"
    using oldest_Fix_frame [of ?r i] setSnapshot_dom [of r ref s]
    by (auto simp: Registry_Get_dom set_eq_iff)
  ultimately show ?thesis using f(1,3) h by (simp add: registry_heap_def)
qed

lemma Registry_update_correct:
  assumes core: "registry_core r" and s0: "Registry_Get r ref = Some s0"
    and ev: "Event_Validate event = None" "Key_ID (fst (Canonicalize event)) (rg_seed r) = ref"
    and r': "r' = Registry_update r ref event d"
  shows "registry_core r'" and "Registry_Get r' = (Registry_Get r)(ref \<mapsto> advance s0 event d)"
    and "rg_seed r' = rg_seed r" "rg_capacity r' = rg_capacity r" "rg_ttl r' = rg_ttl r"
proof -
  have ok0: "snapshot_ok (rg_seed r) ref s0" and h: "registry_heap r"
    using core s0 by (auto simp: registry_core_iff)
  have id0: "sn_ID s0 = ref" and last0: "ev_CapturedAt (sn_LastEvent s0) = sn_LastSeen s0"
    using ok0 by (auto simp: snapshot_ok_def)
  define s where "s = countPacket s0 event d"
  define r1 where "r1 = setSnapshot r ref s"
  have h1: "registry_heap r1" unfolding r1_def by (rule setSnapshot_heap [OF h s0]) (simp_all add: s_def id0)
  have get1: "Registry_Get r1 = (Registry_Get r)(ref \<mapsto> s)" unfolding r1_def using s0 by (simp add: setSnapshot_Get)
  have r'1: "r' = (let r2 = (if sn_LastSeen s0 < ev_CapturedAt event
                then oldest_Fix (setSnapshot r1 ref (s\<lparr>sn_LastSeen := ev_CapturedAt event\<rparr>))
                       (nat (re_heapIndex (the (fmlookup (rg_flows r1) ref))))
                else r1)
      in if \<not> ev_CapturedAt event < ev_CapturedAt (sn_LastEvent (entrySnapshot r2 ref))
         then setSnapshot r2 ref ((entrySnapshot r2 ref)\<lparr>sn_LastEvent := event\<rparr>) else r2)"
    by (simp add: r' Registry_update_def Let_def r1_def s_def entrySnapshot_Get [OF s0])
  define s2 where "s2 = s\<lparr>sn_LastSeen := max (sn_LastSeen s0) (ev_CapturedAt event)\<rparr>"
  obtain r2 where h2: "registry_heap r2" and get2: "Registry_Get r2 = (Registry_Get r)(ref \<mapsto> s2)"
    and f2: "rg_seed r2 = rg_seed r" "rg_capacity r2 = rg_capacity r" "rg_ttl r2 = rg_ttl r"
    and r'2: "r' = (if \<not> ev_CapturedAt event < ev_CapturedAt (sn_LastEvent (entrySnapshot r2 ref))
         then setSnapshot r2 ref ((entrySnapshot r2 ref)\<lparr>sn_LastEvent := event\<rparr>) else r2)"
  proof (cases "sn_LastSeen s0 < ev_CapturedAt event")
    case True
    let ?i = "nat (re_heapIndex (the (fmlookup (rg_flows r1) ref)))"
    let ?r = "oldest_Fix (setSnapshot r1 ref (s\<lparr>sn_LastSeen := ev_CapturedAt event\<rparr>)) ?i"
    have eq: "s2 = s\<lparr>sn_LastSeen := ev_CapturedAt event\<rparr>" using True by (simp add: s2_def)
    have "registry_heap ?r"
      by (rule Fix_heap [OF h1, of _ s]) (use True get1 in \<open>simp_all add: s_def id0\<close>)
    moreover have "Registry_Get ?r = (Registry_Get r)(ref \<mapsto> s2)"
      using oldest_Fix_frame get1 by (simp add: setSnapshot_Get eq)
    ultimately show thesis
      using True oldest_Fix_frame r'1 by (intro that [of ?r]) (simp_all add: r1_def Let_def)
  next
    case False
    then have "s2 = s" by (simp add: s2_def s_def max_absorb1)
    then show thesis using False r'1 h1 get1 by (intro that [of r1]) (simp_all add: r1_def Let_def)
  qed
  have es: "entrySnapshot r2 ref = s2" by (rule entrySnapshot_Get) (simp add: get2)
  let ?t = "advance s0 event d"
  have "registry_heap r' \<and> Registry_Get r' = (Registry_Get r)(ref \<mapsto> ?t) \<and>
      rg_seed r' = rg_seed r \<and> rg_capacity r' = rg_capacity r \<and> rg_ttl r' = rg_ttl r"
  proof (cases "ev_CapturedAt event < sn_LastSeen s0")
    case True
    then have "?t = s2" by (simp add: advance_def Let_def s2_def s_def last0)
    then show ?thesis using True r'2 es h2 get2 f2 by (simp add: s2_def s_def last0)
  next
    case False
    then have t: "?t = s2\<lparr>sn_LastEvent := event\<rparr>" by (simp add: advance_def Let_def s2_def s_def last0)
    have "registry_heap (setSnapshot r2 ref ?t)"
      by (rule setSnapshot_heap [OF h2, of _ s2]) (simp_all add: get2 t s2_def s_def id0)
    then show ?thesis using False r'2 es t get2 f2 by (simp add: s2_def s_def last0 setSnapshot_Get)
  qed
  then show get: "Registry_Get r' = (Registry_Get r)(ref \<mapsto> ?t)"
    and fields: "rg_seed r' = rg_seed r" "rg_capacity r' = rg_capacity r" "rg_ttl r' = rg_ttl r"
    and core': "registry_core r'"
    using core advance_ok [OF ok0 ev] by (auto simp: registry_core_iff)
qed

section \<open>Observing a packet\<close>

lemma Registry_Len_card: "Registry_Len r = card (dom (Registry_Get r))"
proof -
  have "dom (Registry_Get r) = fset (fmdom (rg_flows r))" by (auto simp: Registry_Get_dom)
  then show ?thesis by (simp add: Registry_Len_def map_len_def fcard.rep_eq)
qed

lemma finite_Registry_Get [simp]: "finite (dom (Registry_Get r))"
proof -
  have "dom (Registry_Get r) = fset (fmdom (rg_flows r))" by (auto simp: Registry_Get_dom)
  then show ?thesis by simp
qed

text \<open>The flow that eviction picks: the least recently active one, the smaller identifier first.\<close>

definition least_recent :: "Registry \<Rightarrow> Snapshot \<Rightarrow> bool" where
  "least_recent r v \<longleftrightarrow>
     Registry_Get r (sn_ID v) = Some v \<and>
     (\<forall>x s. Registry_Get r x = Some s \<longrightarrow> (sn_LastSeen v, sn_ID v) \<le> (sn_LastSeen s, sn_ID s))"

lemma evictOldest_full:
  assumes core: "registry_core r" and full: "rg_capacity r \<le> int (Registry_Len r)" "0 < rg_capacity r"
    and ev: "evictOldest r = (r', evicted)"
  shows "registry_core r'"
    and "\<exists>v. evicted = Some v \<and> least_recent r v \<and> Registry_Get r' = (Registry_Get r)(sn_ID v := None)"
    and "rg_seed r' = rg_seed r" "rg_capacity r' = rg_capacity r" "rg_ttl r' = rg_ttl r"
proof -
  obtain ref r1 where pop: "oldest_Pop r = (ref, r1)" by force
  have ne: "rg_oldest r \<noteq> []" using full Registry_Len_oldest [OF core] by auto
  have r': "r' = deleteFlow r1 (sn_ID (entrySnapshot r1 ref))" and evd: "evicted = Some (entrySnapshot r1 ref)"
    using ev full pop by (simp_all add: evictOldest_def Registry_Len_def)
  note p = popOldest_correct [OF core ne pop r']
  show "registry_core r'" "rg_seed r' = rg_seed r" "rg_capacity r' = rg_capacity r" "rg_ttl r' = rg_ttl r"
    by (fact p)+
  let ?v = "entrySnapshot r1 ref"
  have id: "sn_ID ?v = ref" using core p(3) by (auto simp: registry_core_def snapshot_ok_def)
  have "entryKey r ref = (sn_LastSeen ?v, sn_ID ?v)" using entrySnapshot_Get [OF p(3)] by (simp add: entryKey_def)
  then have "least_recent r ?v" using p(3,5) id unfolding least_recent_def by metis
  then show "\<exists>v. evicted = Some v \<and> least_recent r v \<and> Registry_Get r' = (Registry_Get r)(sn_ID v := None)"
    using evd p(4) id by auto
qed

lemma evictOldest_space: "int (Registry_Len r) < rg_capacity r \<Longrightarrow> evictOldest r = (r, None)"
  by (simp add: evictOldest_def Registry_Len_def)

lemma newSnapshot_ok:
  assumes "Event_Validate event = None" "Canonicalize event = (key, d)" "ident = Key_ID key seed"
  shows "snapshot_ok seed ident (newSnapshot ident key event d)"
  using assms by (simp add: snapshot_ok_def newSnapshot_def)

lemma Observe_invalid:
  "Event_Validate event = Some e \<Longrightarrow> Registry_Observe r event = (Inl (InvalidEvent e), r)"
  "Event_Validate event = None \<Longrightarrow> ev_CapturedAt event = 0 \<Longrightarrow> Registry_Observe r event = (Inl TimestampRequired, r)"
  by (simp_all add: Registry_Observe_def time_IsZero_def)

lemma Observe_existing:
  assumes inv: "Registry_inv r" and ev: "Event_Validate event = None" "ev_CapturedAt event \<noteq> 0"
    and key: "Canonicalize event = (key, d)" and ident: "ident = Key_ID key (rg_seed r)"
    and s: "Registry_Get r ident = Some s" and obs: "Registry_Observe r event = (res, r')"
  shows "res = Inr \<lparr>or_Flow = advance s event d, or_PreviousLastSeen = sn_LastSeen s, or_Created = False,
           or_Evicted = None\<rparr>"
    and "Registry_Get r' = (Registry_Get r)(ident \<mapsto> advance s event d)" and "Registry_inv r'"
    and "rg_seed r' = rg_seed r" and "rg_capacity r' = rg_capacity r"
proof -
  have core: "registry_core r" using inv by (simp add: Registry_inv_def)
  obtain e where e: "fmlookup (rg_flows r) ident = Some e" "re_snapshot e = s"
    using s by (auto simp: Registry_Get_def)
  have r': "r' = Registry_update r ident event d"
    and res: "res = Inr \<lparr>or_Flow = entrySnapshot r' ident, or_PreviousLastSeen = sn_LastSeen s, or_Created = False,
           or_Evicted = None\<rparr>"
    using obs ev key e ident by (auto simp: Registry_Observe_def time_IsZero_def Let_def)
  note u = Registry_update_correct [OF core s ev(1) _ r']
  have k: "Key_ID (fst (Canonicalize event)) (rg_seed r) = ident" by (simp add: key ident)
  show get: "Registry_Get r' = (Registry_Get r)(ident \<mapsto> advance s event d)" by (rule u(2) [OF k])
  show "rg_seed r' = rg_seed r" "rg_capacity r' = rg_capacity r" by (rule u [OF k])+
  have "entrySnapshot r' ident = advance s event d" by (rule entrySnapshot_Get) (simp add: get)
  then show "res = Inr \<lparr>or_Flow = advance s event d, or_PreviousLastSeen = sn_LastSeen s, or_Created = False,
           or_Evicted = None\<rparr>" using res by simp
  have "dom (Registry_Get r') = dom (Registry_Get r)" using get s by auto
  then show "Registry_inv r'" using inv u [OF k] by (simp add: Registry_inv_def Registry_Len_card)
qed

lemma Observe_new:
  assumes inv: "Registry_inv r" and ev: "Event_Validate event = None" "ev_CapturedAt event \<noteq> 0"
    and key: "Canonicalize event = (key, d)" and ident: "ident = Key_ID key (rg_seed r)"
    and s: "Registry_Get r ident = None" and evict: "evictOldest r = (r1, evicted)"
    and r1: "registry_core r1" "rg_seed r1 = rg_seed r" "rg_capacity r1 = rg_capacity r" "rg_ttl r1 = rg_ttl r"
    and get1: "Registry_Get r1 \<subseteq>\<^sub>m Registry_Get r" and len1: "int (Registry_Len r1) < rg_capacity r"
    and obs: "Registry_Observe r event = (res, r')"
  shows "res = Inr \<lparr>or_Flow = newSnapshot ident key event d, or_PreviousLastSeen = 0, or_Created = True,
           or_Evicted = evicted\<rparr>"
    and "Registry_Get r' = (Registry_Get r1)(ident \<mapsto> newSnapshot ident key event d)" and "Registry_inv r'"
    and "rg_seed r' = rg_seed r" and "rg_capacity r' = rg_capacity r"
proof -
  let ?s = "newSnapshot ident key event d"
  have e: "fmlookup (rg_flows r) ident = None" using s by (simp add: Registry_Get_def)
  have r': "r' = insertFlow r1 ident ?s"
    and res: "res = Inr \<lparr>or_Flow = entrySnapshot r' ident, or_PreviousLastSeen = 0, or_Created = True,
           or_Evicted = evicted\<rparr>"
    using obs ev key e ident evict by (auto simp: Registry_Observe_def time_IsZero_def Let_def)
  have none: "Registry_Get r1 ident = None"
    using get1 s by (metis domIff map_le_implies_dom_le subsetD)
  have ok: "snapshot_ok (rg_seed r1) ident ?s"
    using newSnapshot_ok [OF ev(1) key ident] r1 by simp
  note i = insertFlow_correct [OF r1(1) none ok r']
  show "Registry_Get r' = (Registry_Get r1)(ident \<mapsto> ?s)" by (fact i)
  then have "entrySnapshot r' ident = ?s" by (intro entrySnapshot_Get) simp
  then show "res = Inr \<lparr>or_Flow = ?s, or_PreviousLastSeen = 0, or_Created = True, or_Evicted = evicted\<rparr>"
    using res by simp
  show "rg_seed r' = rg_seed r" "rg_capacity r' = rg_capacity r" using i r1 by simp_all
  have "Registry_Len r' \<le> Suc (Registry_Len r1)"
    using i(2) by (simp add: Registry_Len_card card_insert_if)
  then show "Registry_inv r'" using inv i r1 len1 by (simp add: Registry_inv_def)
qed

lemma evict_frees:
  assumes inv: "Registry_inv r" and ev: "evictOldest r = (r1, evicted)"
  shows "registry_core r1" "rg_seed r1 = rg_seed r" "rg_capacity r1 = rg_capacity r" "rg_ttl r1 = rg_ttl r"
    and "Registry_Get r1 \<subseteq>\<^sub>m Registry_Get r" and "int (Registry_Len r1) < rg_capacity r"
proof -
  have core: "registry_core r" and cap: "0 < rg_capacity r" "int (Registry_Len r) \<le> rg_capacity r"
    using inv by (auto simp: Registry_inv_def)
  have "registry_core r1 \<and> rg_seed r1 = rg_seed r \<and> rg_capacity r1 = rg_capacity r \<and> rg_ttl r1 = rg_ttl r \<and>
    Registry_Get r1 \<subseteq>\<^sub>m Registry_Get r \<and> int (Registry_Len r1) < rg_capacity r"
  proof (cases "int (Registry_Len r) < rg_capacity r")
    case True
    then show ?thesis using evictOldest_space [OF True] ev core by simp
  next
    case False
    note f = evictOldest_full [OF core _ cap(1) ev]
    obtain v where v: "least_recent r v" "Registry_Get r1 = (Registry_Get r)(sn_ID v := None)"
      using f(2) False by auto
    have "sn_ID v \<in> dom (Registry_Get r)" using v(1) by (auto simp: least_recent_def)
    then have "0 < Registry_Len r" "Registry_Len r1 = Registry_Len r - 1"
      using v(2) by (auto simp: Registry_Len_card card_gt_0_iff)
    then show ?thesis using f False v(2) cap by (auto simp: map_le_def)
  qed
  then show "registry_core r1" "rg_seed r1 = rg_seed r" "rg_capacity r1 = rg_capacity r" "rg_ttl r1 = rg_ttl r"
    "Registry_Get r1 \<subseteq>\<^sub>m Registry_Get r" "int (Registry_Len r1) < rg_capacity r" by blast+
qed

lemma Observe_inv:
  assumes inv: "Registry_inv r" and obs: "Registry_Observe r event = (res, r')"
  shows "Registry_inv r' \<and> rg_capacity r' = rg_capacity r"
proof (cases "Event_Validate event = None \<and> ev_CapturedAt event \<noteq> 0")
  case False
  then have "r' = r" using obs Observe_invalid [of event] by (cases "Event_Validate event") auto
  then show ?thesis using inv by simp
next
  case True
  obtain key d where key: "Canonicalize event = (key, d)" by force
  obtain r1 evicted where ev: "evictOldest r = (r1, evicted)" by force
  show ?thesis
  proof (cases "Registry_Get r (Key_ID key (rg_seed r))")
    case None
    show ?thesis using Observe_new [OF inv _ _ key refl None ev evict_frees [OF inv ev] obs] True by simp
  next
    case (Some s)
    show ?thesis using Observe_existing [OF inv _ _ key refl Some obs] True by simp
  qed
qed

section \<open>Expiry\<close>

definition expired_at :: "Registry \<Rightarrow> time \<Rightarrow> Snapshot set" where
  "expired_at r cutoff = {s. sn_LastSeen s \<le> cutoff \<and> (\<exists>x. Registry_Get r x = Some s)}"

lemma expireLoop_correct:
  "registry_core r \<Longrightarrow> expireLoop r cutoff acc = (ex, r') \<Longrightarrow>
     registry_core r' \<and> rg_seed r' = rg_seed r \<and> rg_capacity r' = rg_capacity r \<and> rg_ttl r' = rg_ttl r \<and>
     Registry_Get r' = (\<lambda>x. case Registry_Get r x of None \<Rightarrow> None
        | Some s \<Rightarrow> if sn_LastSeen s \<le> cutoff then None else Some s) \<and>
     (\<exists>new. ex = acc @ new \<and> set new = expired_at r cutoff \<and> distinct new \<and>
        sorted (map (\<lambda>s. (sn_LastSeen s, sn_ID s)) new))"
proof (induction r cutoff acc rule: expireLoop.induct)
  case (1 r cutoff acc)
  let ?key = "\<lambda>s. (sn_LastSeen s, sn_ID s)"
  have root: "entryKey r (rg_oldest r ! 0) \<le> ?key s"
    if "Registry_Get r x = Some s" "rg_oldest r \<noteq> []" for x s
  proof -
    have "x \<in> set (rg_oldest r)" using registry_core_oldest [OF "1.prems"(1), of x] that by blast
    then have "entryKey r (rg_oldest r ! 0) \<le> entryKey r x"
      using "1.prems"(1) by (auto simp: registry_core_def in_set_conv_nth intro: is_heap_root)
    then show ?thesis using entrySnapshot_Get [OF that(1)] by (simp add: entryKey_def)
  qed
  show ?case
  proof (cases "rg_oldest r = [] \<or> sn_LastSeen (entrySnapshot r (rg_oldest r ! 0)) > cutoff")
    case True
    then have "expireLoop r cutoff acc = (acc, r)" by (subst expireLoop.simps) auto
    then have stop: "ex = acc" "r' = r" using "1.prems"(2) by simp_all
    have none: "cutoff < sn_LastSeen s" if "Registry_Get r x = Some s" for x s
    proof (cases "rg_oldest r = []")
      case True
      then show ?thesis using registry_core_oldest [OF "1.prems"(1), of x] that by auto
    next
      case False
      then show ?thesis using root [OF that False] True by (auto simp: entryKey_def)
    qed
    then have "expired_at r cutoff = {}" by (fastforce simp: expired_at_def)
    moreover have "Registry_Get r = (\<lambda>x. case Registry_Get r x of None \<Rightarrow> None
        | Some s \<Rightarrow> if sn_LastSeen s \<le> cutoff then None else Some s)"
      using none by (force simp: fun_eq_iff split: option.splits)
    ultimately show ?thesis using stop "1.prems"(1) by auto
  next
    case False
    obtain ref r1 where pop: "oldest_Pop r = (ref, r1)" by force
    define s where "s = entrySnapshot r1 ref"
    define r2 where "r2 = deleteFlow r1 (sn_ID s)"
    have ne: "rg_oldest r \<noteq> []" using False by simp
    note p = popOldest_correct [OF "1.prems"(1) ne pop r2_def [unfolded s_def]]
    have s: "Registry_Get r ref = Some s" using p(3) by (simp add: s_def)
    have idu: "sn_ID t = x" if "Registry_Get r x = Some t" for x t
      using that "1.prems"(1) by (auto simp: registry_core_def snapshot_ok_def)
    have id: "sn_ID s = ref" by (rule idu [OF s])
    have le: "sn_LastSeen s \<le> cutoff" using False p(2) entrySnapshot_Get [OF s] by simp
    have step: "expireLoop r2 cutoff (acc @ [s]) = (ex, r')"
      using "1.prems"(2) False pop by (subst (asm) expireLoop.simps) (simp add: Let_def s_def r2_def)
    have guard: "\<not> sn_LastSeen (entrySnapshot r (rg_oldest r ! 0)) > cutoff" using False by simp
    have IH: "registry_core r' \<and> rg_seed r' = rg_seed r2 \<and> rg_capacity r' = rg_capacity r2 \<and> rg_ttl r' = rg_ttl r2 \<and>
       Registry_Get r' = (\<lambda>x. case Registry_Get r2 x of None \<Rightarrow> None
          | Some s \<Rightarrow> if sn_LastSeen s \<le> cutoff then None else Some s) \<and>
       (\<exists>new. ex = (acc @ [s]) @ new \<and> set new = expired_at r2 cutoff \<and> distinct new \<and> sorted (map ?key new))"
      using "1.IH" [OF ne guard pop [symmetric] refl s_def] p(1) step by (simp add: r2_def)
    then obtain new where new: "ex = acc @ s # new" "set new = expired_at r2 cutoff" "distinct new"
      "sorted (map ?key new)" by auto
    have ex2: "expired_at r2 cutoff = expired_at r cutoff - {s}"
      using s id idu by (auto simp: expired_at_def p(4) split: if_splits) (metis option.inject)
    have "\<forall>t \<in> set new. ?key s \<le> ?key t"
      using p(5) entrySnapshot_Get [OF s] new(2) ex2 by (auto simp: expired_at_def entryKey_def)
    moreover have "s \<in> expired_at r cutoff" using le s by (auto simp: expired_at_def)
    ultimately have new': "set (s # new) = expired_at r cutoff" "distinct (s # new)" "sorted (map ?key (s # new))"
      using new ex2 by auto
    have get: "Registry_Get r' = (\<lambda>x. case Registry_Get r x of None \<Rightarrow> None
        | Some s \<Rightarrow> if sn_LastSeen s \<le> cutoff then None else Some s)"
      using IH p(4) s le by (auto simp: fun_eq_iff split: option.splits)
    show ?thesis
      using IH p(6-8) get new(1) new' by (metis)
  qed
qed

lemma Registry_Expire_correct:
  assumes inv: "Registry_inv r" and ex: "Registry_Expire r now = (expired, r')"
  shows "Registry_inv r'" and "rg_capacity r' = rg_capacity r"
    and "Registry_Get r' = (\<lambda>x. case Registry_Get r x of None \<Rightarrow> None
      | Some s \<Rightarrow> if sn_LastSeen s \<le> now - rg_ttl r then None else Some s)"
    and "set expired = expired_at r (now - rg_ttl r)" and "distinct expired"
    and "sorted (map (\<lambda>s. (sn_LastSeen s, sn_ID s)) expired)"
proof -
  have "registry_core r" using inv by (simp add: Registry_inv_def)
  note e = expireLoop_correct [OF this ex [unfolded Registry_Expire_def]]
  then show get: "Registry_Get r' = (\<lambda>x. case Registry_Get r x of None \<Rightarrow> None
      | Some s \<Rightarrow> if sn_LastSeen s \<le> now - rg_ttl r then None else Some s)"
    and "set expired = expired_at r (now - rg_ttl r)" "distinct expired"
    "sorted (map (\<lambda>s. (sn_LastSeen s, sn_ID s)) expired)" by auto
  show "rg_capacity r' = rg_capacity r" using e by simp
  have "dom (Registry_Get r') \<subseteq> dom (Registry_Get r)" by (auto simp: get split: option.splits)
  then have "Registry_Len r' \<le> Registry_Len r" by (simp add: Registry_Len_card card_mono)
  then show "Registry_inv r'" using inv e by (simp add: Registry_inv_def)
qed

section \<open>Histories\<close>

text \<open>Any sequence of observations and expiries applied to a registry.\<close>

datatype registry_op = Observe Event | Expire time

fun registry_step :: "Registry \<Rightarrow> registry_op \<Rightarrow> Registry" where
  "registry_step r (Observe event) = snd (Registry_Observe r event)"
| "registry_step r (Expire now) = snd (Registry_Expire r now)"

lemma registry_step_inv:
  "Registry_inv r \<Longrightarrow> Registry_inv (registry_step r op) \<and> rg_capacity (registry_step r op) = rg_capacity r"
  using Observe_inv [OF _ prod.collapse [symmetric]] Registry_Expire_correct(1,2) [OF _ prod.collapse [symmetric]]
  by (cases op) simp_all

lemma registry_run_inv:
  "Registry_inv r \<Longrightarrow>
     Registry_inv (foldl registry_step r ops) \<and> rg_capacity (foldl registry_step r ops) = rg_capacity r"
  by (induction ops arbitrary: r) (simp_all add: registry_step_inv)

lemma NewRegistry_capacity: "NewRegistry c = Inr r \<Longrightarrow> rg_capacity r = rc_Capacity c"
  by (auto simp: NewRegistry_def split: if_splits)

text \<open>An empty registry for one flow, on which the properties are applied.\<close>

definition sampleRegistry :: Registry where
  "sampleRegistry = \<lparr>rg_seed = ''seed'', rg_capacity = 1, rg_ttl = 3, rg_flows = fmempty, rg_oldest = []\<rparr>"

lemma sampleRegistry_new: "NewRegistry \<lparr>rc_Seed = ''seed'', rc_Capacity = 1, rc_TTL = 3\<rparr> = Inr sampleRegistry"
  by (simp add: NewRegistry_def sampleRegistry_def)

lemma sampleRegistry_inv: "Registry_inv sampleRegistry"
  using NewRegistry_inv [OF sampleRegistry_new] by simp

lemma sampleObserved:
  "\<exists>ident s. Registry_Get (snd (Registry_Observe sampleRegistry sampleEvent)) = [ident \<mapsto> s] \<and>
     sn_LastSeen s = 5 \<and> Registry_inv (snd (Registry_Observe sampleRegistry sampleEvent))"
proof -
  obtain key d where k: "Canonicalize sampleEvent = (key, d)" by force
  let ?ident = "Key_ID key (rg_seed sampleRegistry)"
  obtain res r' where obs: "Registry_Observe sampleRegistry sampleEvent = (res, r')" by force
  have empty: "Registry_Get sampleRegistry = Map.empty" using NewRegistry_inv [OF sampleRegistry_new] by simp
  have "evictOldest sampleRegistry = (sampleRegistry, None)"
    by (rule evictOldest_space) (simp add: sampleRegistry_def Registry_Len_def)
  from Observe_new [OF sampleRegistry_inv _ _ k refl _ this evict_frees [OF sampleRegistry_inv this] obs]
  have "Registry_Get r' = [?ident \<mapsto> newSnapshot ?ident key sampleEvent d]" "Registry_inv r'"
    using empty sampleEvent_valid by simp_all
  moreover have "sn_LastSeen (newSnapshot ?ident key sampleEvent d) = 5"
    by (simp add: newSnapshot_def sampleEvent_valid)
  ultimately show ?thesis using obs by (metis snd_conv)
qed

section \<open>Properties\<close>

text \<open>
  C18. Every history keeps the registry's invariant: starting from a registry that \<open>NewRegistry\<close>
  accepts, after any sequence of \<open>Observe\<close> and \<open>Expire\<close> calls the heap slice and the flow map hold the
  same entries, each entry's heap index is its slot, the slice is a min-heap by last activity, every
  stored snapshot is consistent with its key, and there are never more flows than the capacity.
\<close>

theorem Registry_invariant:
  assumes "NewRegistry c = Inr r0" and "r = foldl registry_step r0 ops"
  shows "Registry_inv r \<and> int (Registry_Len r) \<le> rc_Capacity c \<and>
    (\<forall>i < length (rg_oldest r). \<exists>e. fmlookup (rg_flows r) (rg_oldest r ! i) = Some e \<and> re_heapIndex e = int i) \<and>
    is_heap (entryKey r) (rg_oldest r) \<and> set (rg_oldest r) = dom (Registry_Get r)"
proof -
  have inv: "Registry_inv r" and cap: "rg_capacity r = rc_Capacity c"
    using registry_run_inv [of r0 ops] NewRegistry_inv [OF assms(1)] NewRegistry_capacity [OF assms(1)] assms(2)
    by simp_all
  moreover have "set (rg_oldest r) = dom (Registry_Get r)"
    using inv registry_core_oldest [of r] by (auto simp: Registry_inv_def)
  ultimately show ?thesis by (force simp: Registry_inv_def registry_core_def oldest_wf_def)
qed

theorem Registry_invariant_witness:
  "int (Registry_Len (foldl registry_step sampleRegistry
     [Observe sampleEvent, Observe (sampleEvent\<lparr>ev_CapturedAt := 3\<rparr>), Expire 8, Observe sampleEvent])) \<le> 1"
  using Registry_invariant [OF sampleRegistry_new refl,
      of "[Observe sampleEvent, Observe (sampleEvent\<lparr>ev_CapturedAt := 3\<rparr>), Expire 8, Observe sampleEvent]"]
  by (simp del: foldl.simps)

text \<open>
  C3. What \<open>Observe\<close> does with a valid, timestamped packet. A known flow is advanced in place: its
  counters grow, its last activity is the later of the two instants, so that a late capture record
  never moves it backward, and its last event is the newest one. An unknown flow is created from the
  packet; when the registry is full, exactly the least recently active flow (the smaller identifier on
  a tie) is evicted and returned. No other flow changes, and the invariant is kept.
\<close>

theorem Registry_Observe_spec:
  assumes "Registry_inv r" and "Event_Validate event = None" and "ev_CapturedAt event \<noteq> 0"
    and "Canonicalize event = (key, d)" and "ident = Key_ID key (rg_seed r)"
  shows "\<exists>res r'. Registry_Observe r event = (Inr res, r') \<and> Registry_inv r' \<and>
    (case Registry_Get r ident of
       Some s \<Rightarrow> res = \<lparr>or_Flow = advance s event d, or_PreviousLastSeen = sn_LastSeen s,
                    or_Created = False, or_Evicted = None\<rparr> \<and>
                  Registry_Get r' = (Registry_Get r)(ident \<mapsto> advance s event d)
     | None \<Rightarrow>
         or_Flow res = newSnapshot ident key event d \<and> or_Created res \<and> or_PreviousLastSeen res = 0 \<and>
         (if int (Registry_Len r) < rg_capacity r
          then or_Evicted res = None \<and>
               Registry_Get r' = (Registry_Get r)(ident \<mapsto> newSnapshot ident key event d)
          else \<exists>v. least_recent r v \<and> or_Evicted res = Some v \<and>
               Registry_Get r' = (Registry_Get r)(sn_ID v := None, ident \<mapsto> newSnapshot ident key event d)))"
proof -
  obtain res r' where obs: "Registry_Observe r event = (res, r')" by force
  show ?thesis
  proof (cases "Registry_Get r ident")
    case (Some s)
    show ?thesis using Observe_existing [OF assms Some obs] obs Some by auto
  next
    case None
    obtain r1 evicted where ev: "evictOldest r = (r1, evicted)" by force
    note new = Observe_new [OF assms None ev evict_frees [OF assms(1) ev] obs]
    show ?thesis
    proof (cases "int (Registry_Len r) < rg_capacity r")
      case True
      then have "r1 = r" "evicted = None" using ev evictOldest_space [OF True] by simp_all
      then show ?thesis using new obs None True by simp
    next
      case False
      have "registry_core r" "0 < rg_capacity r" using assms(1) by (simp_all add: Registry_inv_def)
      then obtain v where "evicted = Some v" "least_recent r v" "Registry_Get r1 = (Registry_Get r)(sn_ID v := None)"
        using evictOldest_full(2) [of r r1 evicted] False ev by auto
      then show ?thesis using new obs None False by auto
    qed
  qed
qed

theorem Registry_Observe_spec_witness:
  "\<exists>res r'. Registry_Observe sampleRegistry sampleEvent = (Inr res, r') \<and> or_Created res \<and>
     sn_Bytes (or_Flow res) = 60 \<and> or_Evicted res = None"
proof -
  obtain key d where k: "Canonicalize sampleEvent = (key, d)" by force
  have "Registry_Get sampleRegistry = Map.empty" using NewRegistry_inv [OF sampleRegistry_new] by simp
  moreover have "Registry_Len sampleRegistry = 0" "rg_capacity sampleRegistry = 1"
    by (simp_all add: sampleRegistry_def Registry_Len_def)
  moreover have "ev_CapturedAt sampleEvent \<noteq> 0" by (simp add: sampleEvent_valid)
  ultimately show ?thesis
    using Registry_Observe_spec [OF sampleRegistry_inv sampleEvent_valid(1) _ k refl]
    by (auto simp: newSnapshot_def sampleEvent_def)
qed

text \<open>
  \<open>Expire\<close> removes exactly the flows whose last activity is at least the retention time before
  \<open>now\<close> and returns each of them once, the least recently active first; the other flows and the
  invariant are kept. The loop always ends.
\<close>

theorem Registry_Expire_spec:
  assumes "Registry_inv r"
  shows "\<exists>expired r'. Registry_Expire r now = (expired, r') \<and> Registry_inv r' \<and>
    Registry_Get r' = (\<lambda>x. case Registry_Get r x of None \<Rightarrow> None
      | Some s \<Rightarrow> if sn_LastSeen s + rg_ttl r \<le> now then None else Some s) \<and>
    set expired = {s. sn_LastSeen s + rg_ttl r \<le> now \<and> (\<exists>x. Registry_Get r x = Some s)} \<and>
    distinct expired \<and> sorted (map (\<lambda>s. (sn_LastSeen s, sn_ID s)) expired)"
proof -
  obtain expired r' where ex: "Registry_Expire r now = (expired, r')" by force
  have le: "a + rg_ttl r \<le> now \<longleftrightarrow> a \<le> now - rg_ttl r" for a by linarith
  show ?thesis
    unfolding le using Registry_Expire_correct [OF assms ex] ex by (auto simp: expired_at_def)
qed

theorem Registry_Expire_spec_witness:
  "\<exists>expired r'. Registry_Expire sampleRegistry 9 = (expired, r') \<and> expired = [] \<and> Registry_inv r'"
proof -
  have "Registry_Get sampleRegistry = Map.empty" using NewRegistry_inv [OF sampleRegistry_new] by simp
  then show ?thesis using Registry_Expire_spec [OF sampleRegistry_inv, of 9] by auto
qed

end
