(* ===== verification/Registry_Recent.thy ===== *)
theory Registry_Recent
  imports Registry_Spec
begin

text \<open>
  The bounded top-k query of internal/flow/registry.go: \<open>RecentSnapshots\<close> scans the flow map once,
  keeping the newest \<open>limit\<close> flows in a heap whose root is the least recent of them, and sorts at the
  end. Go does not fix the order in which a map is iterated, so the scan takes that order as an
  argument; the result is shown not to depend on it. The final \<open>sort.Slice\<close> is the sort by the same
  comparison, which has no ties because identifiers differ.
\<close>

section \<open>The heap of candidates (recentSnapshotHeap)\<close>

type_synonym recentSnapshotHeap = "Snapshot list"

definition snapshotBefore :: "Snapshot \<Rightarrow> Snapshot \<Rightarrow> bool" where
  "snapshotBefore left right =
     (if sn_LastSeen left = sn_LastSeen right then sn_ID left < sn_ID right
      else sn_LastSeen left > sn_LastSeen right)"

definition recent_Less :: "recentSnapshotHeap \<Rightarrow> nat \<Rightarrow> nat \<Rightarrow> bool" where
  "recent_Less h i j = snapshotBefore (h ! j) (h ! i)"

definition recent_Swap :: "recentSnapshotHeap \<Rightarrow> nat \<Rightarrow> nat \<Rightarrow> recentSnapshotHeap" where
  "recent_Swap h i j = list_swap h i j"

definition recent_Push :: "recentSnapshotHeap \<Rightarrow> Snapshot \<Rightarrow> recentSnapshotHeap" where
  "recent_Push h v = h @ [v]"

definition recent_Pop :: "recentSnapshotHeap \<Rightarrow> Snapshot \<times> recentSnapshotHeap" where
  "recent_Pop h = (last h, butlast h)"

definition recentStep :: "int \<Rightarrow> recentSnapshotHeap \<Rightarrow> Snapshot \<Rightarrow> recentSnapshotHeap" where
  "recentStep limit result candidate =
     (if int (length result) < limit then heap_Push length recent_Less recent_Swap recent_Push result candidate
      else if snapshotBefore candidate (result ! 0)
      then heap_Fix length recent_Less recent_Swap (result[0 := candidate]) 0
      else result)"

definition snapshotRank :: "Snapshot \<Rightarrow> int \<times> string" where
  "snapshotRank s = (- sn_LastSeen s, sn_ID s)"

definition RecentSnapshots :: "Registry \<Rightarrow> string list \<Rightarrow> int \<Rightarrow> Snapshot list \<times> nat" where
  "RecentSnapshots r iteration limit =
     (let total = map_len (rg_flows r) in
      if limit \<le> 0 \<or> total = 0 then ([], total)
      else let limit' = (if limit > int total then int total else limit);
               result = foldl (recentStep limit') [] (map (entrySnapshot r) iteration)
           in (sort_key snapshotRank result, total))"

definition Snapshots :: "Registry \<Rightarrow> string list \<Rightarrow> Snapshot list" where
  "Snapshots r iteration = fst (RecentSnapshots r iteration (rg_capacity r))"

section \<open>The scan keeps the newest flows\<close>

lemma snapshotBefore_rank: "snapshotBefore a b \<longleftrightarrow> snapshotRank a < snapshotRank b"
  by (auto simp: snapshotBefore_def snapshotRank_def)

abbreviation recentKey :: "recentSnapshotHeap \<Rightarrow> Snapshot \<Rightarrow> (int \<times> string) desc" where
  "recentKey h s \<equiv> Desc (snapshotRank s)"

interpretation rh: heap_interface
  length recent_Less recent_Swap recent_Push recent_Pop "\<lambda>h. h" recentKey "\<lambda>_. True" "\<lambda>_ _. True"
  by unfold_locales
    (auto simp: recent_Less_def recent_Swap_def recent_Push_def recent_Pop_def snapshotBefore_rank)

text \<open>The candidates seen so far split into the heap and a rest that comes after all of it.\<close>

definition scan_inv :: "int \<Rightarrow> recentSnapshotHeap \<Rightarrow> Snapshot multiset \<Rightarrow> bool" where
  "scan_inv limit h seen \<longleftrightarrow>
     is_heap (\<lambda>s. Desc (snapshotRank s)) h \<and> int (length h) \<le> limit \<and>
     (\<exists>rest. seen = mset h + rest \<and> (int (length h) < limit \<longrightarrow> rest = {#}) \<and>
        (\<forall>x \<in> set h. \<forall>y \<in># rest. snapshotRank x \<le> snapshotRank y))"

lemma recentStep_inv:
  assumes limit: "0 < limit" and inv: "scan_inv limit h seen"
  shows "scan_inv limit (recentStep limit h c) (add_mset c seen)"
proof -
  obtain rest where rest: "seen = mset h + rest" "int (length h) < limit \<longrightarrow> rest = {#}"
    "\<And>x y. x \<in> set h \<Longrightarrow> y \<in># rest \<Longrightarrow> snapshotRank x \<le> snapshotRank y"
    and heap: "is_heap (\<lambda>s. Desc (snapshotRank s)) h" and len: "int (length h) \<le> limit"
    using inv by (auto simp: scan_inv_def)
  show ?thesis
  proof (cases "int (length h) < limit")
    case True
    define h' where "h' = heap_Push length recent_Less recent_Swap recent_Push h c"
    note p = rh.Push_correct [OF TrueI TrueI heap h'_def]
    have "length h' = Suc (length h)" using p(4) by (metis size_add_mset size_mset)
    then show ?thesis
      using True rest p(3,4) by (auto simp: scan_inv_def recentStep_def h'_def [symmetric])
  next
    case False
    then have h0: "h \<noteq> []" "h ! 0 \<in> set h" using limit by (auto intro: nth_mem)
    have root: "snapshotRank x \<le> snapshotRank (h ! 0)" if "x \<in> set h" for x
      using is_heap_root [OF heap] that by (fastforce simp: in_set_conv_nth)
    show ?thesis
    proof (cases "snapshotBefore c (h ! 0)")
      case before: True
      define h' where "h' = heap_Fix length recent_Less recent_Swap (h[0 := c]) 0"
      have f: "is_heap (\<lambda>s. Desc (snapshotRank s)) h'" "mset h' = mset (h[0 := c])"
        using rh.Fix_correct [OF TrueI _ heap_replace_root [OF heap] h'_def] h0 by simp_all
      have ms: "mset h' + {# h ! 0 #} = add_mset c (mset h)"
        using f(2) h0 by (cases h) simp_all
      have set': "set h' \<subseteq> insert c (set h)"
        using f(2) by (metis set_mset_mset set_update_subset_insert)
      have "length h' = length h" using f(2) by (metis length_list_update size_mset)
      moreover have "snapshotRank x \<le> snapshotRank y" if "x \<in> set h'" "y \<in># add_mset (h ! 0) rest" for x y
      proof -
        have x: "snapshotRank x \<le> snapshotRank (h ! 0)" using that(1) set' root before
          by (auto simp: snapshotBefore_rank)
        have "snapshotRank (h ! 0) \<le> snapshotRank y" using that(2) rest(3) h0 by auto
        with x show ?thesis by (rule order_trans)
      qed
      moreover have "add_mset c seen = mset h' + add_mset (h ! 0) rest" using rest(1) ms by simp
      moreover have "recentStep limit h c = h'" using False before by (simp add: recentStep_def h'_def)
      ultimately show ?thesis using f(1) len False unfolding scan_inv_def by auto
    next
      case after: False
      have "snapshotRank x \<le> snapshotRank y" if "x \<in> set h" "y \<in># add_mset c rest" for x y
        using that root [of x] rest(3) after by (auto simp: snapshotBefore_rank)
      moreover have "add_mset c seen = mset h + add_mset c rest" using rest(1) by simp
      moreover have "recentStep limit h c = h" using False after by (simp add: recentStep_def)
      ultimately show ?thesis using heap len False unfolding scan_inv_def by auto
    qed
  qed
qed

lemma recentScan_inv:
  "0 < limit \<Longrightarrow> scan_inv limit h seen \<Longrightarrow> scan_inv limit (foldl (recentStep limit) h cs) (seen + mset cs)"
  using recentStep_inv by (induction cs arbitrary: h seen) force+

lemma sort_key_split:
  assumes inj: "inj_on f (set xs)" and ms: "mset xs = mset h + mset rest"
    and le: "\<And>x y. x \<in> set h \<Longrightarrow> y \<in> set rest \<Longrightarrow> f x \<le> f y"
  shows "sort_key f xs = sort_key f h @ sort_key f rest"
  by (rule sort_key_inj_key_eq [OF _ inj]) (use ms le in \<open>auto simp: sorted_append\<close>)

lemma scan_sorted:
  assumes "0 < limit" and inj: "inj_on snapshotRank (set cs)"
  shows "sort_key snapshotRank (foldl (recentStep limit) [] cs) = take (nat limit) (sort_key snapshotRank cs)"
proof -
  let ?h = "foldl (recentStep limit) [] cs"
  have "scan_inv limit [] {#}" using assms(1) by (simp add: scan_inv_def heap_to_def)
  from recentScan_inv [OF assms(1) this, of cs] obtain rest where
    rest: "mset cs = mset ?h + rest" "int (length ?h) < limit \<longrightarrow> rest = {#}"
    "\<forall>x \<in> set ?h. \<forall>y \<in># rest. snapshotRank x \<le> snapshotRank y" and len: "int (length ?h) \<le> limit"
    by (auto simp: scan_inv_def)
  obtain zs where zs: "rest = mset zs" by (metis ex_mset)
  have "sort_key snapshotRank cs = sort_key snapshotRank ?h @ sort_key snapshotRank zs"
    by (rule sort_key_split [OF inj]) (use rest zs in auto)
  then show ?thesis using rest(2) zs len by auto
qed

lemma RecentSnapshots_sorted:
  assumes inv: "Registry_inv r" and iter: "distinct iteration" "set iteration = dom (Registry_Get r)"
  shows "RecentSnapshots r iteration limit =
      (take (nat limit) (sort_key snapshotRank (map (entrySnapshot r) iteration)), Registry_Len r) \<and>
    Snapshots r iteration = sort_key snapshotRank (map (entrySnapshot r) iteration) \<and>
    set (Snapshots r iteration) = ran (Registry_Get r)"
proof -
  let ?cs = "map (entrySnapshot r) iteration"
  have total: "map_len (rg_flows r) = Registry_Len r" "Registry_Len r = length iteration"
    using distinct_card [OF iter(1)] iter(2) by (simp_all add: Registry_Len_def [symmetric] Registry_Len_card)
  have ids: "sn_ID (entrySnapshot r x) = x" if "x \<in> set iteration" for x
    using that inv iter(2) entrySnapshot_Get [of r x]
    by (auto simp: Registry_inv_def registry_core_def snapshot_ok_def)
  have inj: "inj_on snapshotRank (set ?cs)"
    by (intro inj_onI) (use ids in \<open>auto simp: snapshotRank_def\<close>)
  have main: "RecentSnapshots r iteration l = (take (nat l) (sort_key snapshotRank ?cs), Registry_Len r)" for l
  proof (cases "l \<le> 0 \<or> Registry_Len r = 0")
    case True
    then show ?thesis using total by (auto simp: RecentSnapshots_def Let_def)
  next
    case False
    define l' where "l' = (if l > int (Registry_Len r) then int (Registry_Len r) else l)"
    have "0 < l'" using False by (auto simp: l'_def)
    from scan_sorted [OF this inj] have "RecentSnapshots r iteration l =
        (take (nat l') (sort_key snapshotRank ?cs), Registry_Len r)"
      using False total(1) by (simp add: RecentSnapshots_def Let_def l'_def)
    moreover have "take (nat l') (sort_key snapshotRank ?cs) = take (nat l) (sort_key snapshotRank ?cs)"
      using total(2) by (auto simp: l'_def)
    ultimately show ?thesis by simp
  qed
  have cap: "length iteration \<le> nat (rg_capacity r)"
    using inv total(2) by (simp add: Registry_inv_def le_nat_iff)
  then have all: "Snapshots r iteration = sort_key snapshotRank ?cs"
    using main [of "rg_capacity r"] by (simp add: Snapshots_def)
  have "set ?cs = ran (Registry_Get r)"
    using iter(2) entrySnapshot_Get [of r] by (auto simp: ran_def image_iff dom_def)
  then show ?thesis using main all by simp
qed

section \<open>Properties\<close>

text \<open>
  \<open>RecentSnapshots\<close> returns the first \<open>limit\<close> flows of the whole registry sorted by most recent
  activity and then identifier, together with the number of flows, whatever order the map is iterated
  in. \<open>Snapshots\<close> returns them all.
\<close>

theorem RecentSnapshots_spec:
  assumes "Registry_inv r" and "distinct iteration" "set iteration = dom (Registry_Get r)"
  shows "RecentSnapshots r iteration limit =
      (take (nat limit) (sort_key snapshotRank (map (entrySnapshot r) iteration)), Registry_Len r) \<and>
    Snapshots r iteration = sort_key snapshotRank (map (entrySnapshot r) iteration) \<and>
    set (Snapshots r iteration) = ran (Registry_Get r)"
  using assms by (rule RecentSnapshots_sorted)

theorem RecentSnapshots_spec_witness:
  "\<exists>r ident. r = snd (Registry_Observe sampleRegistry sampleEvent) \<and> Registry_inv r \<and>
     RecentSnapshots r [ident] 7 = ([entrySnapshot r ident], 1) \<and> sn_LastSeen (entrySnapshot r ident) = 5"
proof -
  define r where "r = snd (Registry_Observe sampleRegistry sampleEvent)"
  obtain ident s where get: "Registry_Get r = [ident \<mapsto> s]" and s: "sn_LastSeen s = 5" and inv: "Registry_inv r"
    using sampleObserved unfolding r_def by blast
  have "RecentSnapshots r [ident] 7 = ([entrySnapshot r ident], 1)"
    using RecentSnapshots_spec [OF inv, of "[ident]" 7] get by (simp add: Registry_Len_card)
  moreover have "entrySnapshot r ident = s" by (rule entrySnapshot_Get) (simp add: get)
  ultimately show ?thesis using r_def inv s by blast
qed

end
