(* ===== verification/Management.thy ===== *)
theory Management
  imports Policy_Spec Registry_Recent
begin

text \<open>
  internal/app/management.go, management_rules.go and management_flows.go: the backend of the local
  management API. It hides the revisions of the configuration behind unguessable tokens, resolves redacted
  secrets, edits the ordered rules by read-modify-write transactions, replaces the mute and solo sets and
  lists the recent flows. The texts of errors are left out: an error is its kind, code, fields and the actual
  revision it reports.
\<close>

section \<open>Errors\<close>

datatype ErrorKind = ErrorInvalid | ErrorPreconditionFailed | ErrorConflict | ErrorNotFound | ErrorRateLimited | ErrorUnavailable

record BackendError =
  be_Kind :: ErrorKind
  be_Code :: string
  be_Fields :: "string list"
  be_ActualRevision :: string

text \<open>An operation fails with a backend error or passes an error on, such as that of a context.\<close>

datatype management_error = Backend BackendError | Passed string

definition backendError :: "ErrorKind \<Rightarrow> string \<Rightarrow> string list \<Rightarrow> management_error" where
  "backendError kind code names = Backend \<lparr>be_Kind = kind, be_Code = code, be_Fields = names, be_ActualRevision = []\<rparr>"

definition managementInvalid :: management_error where
  "managementInvalid = backendError ErrorInvalid ''invalid_config'' []"

definition managementRuleUnavailable :: management_error where
  "managementRuleUnavailable = backendError ErrorUnavailable ''runtime_unavailable'' []"

text \<open>The errors of a rule edit, which pass through the transaction as their code.\<close>

definition managementRuleError :: "string \<Rightarrow> management_error" where
  "managementRuleError code =
     (if code = ''rule_not_found'' then backendError ErrorNotFound code [''id'']
      else if code = ''rule_exists'' \<or> code = ''rule_id_mismatch'' then backendError ErrorConflict code [''id'']
      else if code = ''invalid_rule_order'' then backendError ErrorInvalid code [''order'']
      else backendError ErrorInvalid code [''rule''])"

section \<open>Revision tokens (managementRevisionCodec)\<close>

text \<open>HMAC-SHA-256 (crypto/hmac of Go's standard library) for keys of at most one block.\<close>

definition hmac_pad :: "8 word \<Rightarrow> bytes \<Rightarrow> bytes" where
  "hmac_pad p key = map (\<lambda>b. b XOR p) (key @ replicate (64 - length key) 0)"

definition hmac_Sum :: "bytes \<Rightarrow> bytes \<Rightarrow> bytes" where
  "hmac_Sum key msg = sha256_Sum256 (hmac_pad 0x5C key @ sha256_Sum256 (hmac_pad 0x36 key @ msg))"

definition maximumKnownManagementRevisions :: nat where "maximumKnownManagementRevisions = 256"

record managementRevisionCodec =
  mc_key :: bytes
  mc_rawByPublic :: "string \<rightharpoonup> Revision"
  mc_order :: "string list"

definition newManagementRevisionCodecWithKey :: "bytes \<Rightarrow> managementRevisionCodec" where
  "newManagementRevisionCodecWithKey key = \<lparr>mc_key = key, mc_rawByPublic = Map.empty, mc_order = []\<rparr>"

definition codec_calculate :: "managementRevisionCodec \<Rightarrow> Revision \<Rightarrow> string" where
  "codec_calculate codec raw =
     hex_EncodeToString (hmac_Sum (mc_key codec)
       (string_bytes ''go-musical-packets/management-revision/v1'' @ [0] @ string_bytes raw))"

definition codec_evict :: "managementRevisionCodec \<Rightarrow> managementRevisionCodec" where
  "codec_evict codec =
     (if length (mc_order codec) = maximumKnownManagementRevisions
      then codec\<lparr>mc_rawByPublic := (mc_rawByPublic codec)(hd (mc_order codec) := None), mc_order := tl (mc_order codec)\<rparr>
      else codec)"

definition codec_issue :: "Revision \<Rightarrow> managementRevisionCodec \<Rightarrow> string \<times> managementRevisionCodec" where
  "codec_issue raw codec =
     (if raw = [] then ([], codec)
      else
        let public = codec_calculate codec raw in
        if mc_rawByPublic codec public \<noteq> None
        then (public, codec\<lparr>mc_rawByPublic := (mc_rawByPublic codec)(public \<mapsto> raw)\<rparr>)
        else
          let codec = codec_evict codec
          in (public, codec\<lparr>mc_rawByPublic := (mc_rawByPublic codec)(public \<mapsto> raw), mc_order := mc_order codec @ [public]\<rparr>))"

definition codec_resolve :: "managementRevisionCodec \<Rightarrow> string \<Rightarrow> Revision \<Rightarrow> Revision" where
  "codec_resolve codec public active =
     (if public = codec_calculate codec active then active
      else case mc_rawByPublic codec public of None \<Rightarrow> [] | Some raw \<Rightarrow> raw)"

section \<open>The backend\<close>

text \<open>
  \<open>mb_ready\<close> is what the readiness flag holds when the operation asks. The world \<open>'d\<close> is that of the
  configuration repository.
\<close>

record 'd managementBackend =
  mb_controller :: "'d Controller"
  mb_registry :: Registry
  mb_ready :: bool
  mb_revisions :: managementRevisionCodec

text \<open>
  The context of a request: whether it is nil, its error and that of the runtime's lifecycle when they are
  asked at entry, the error of the context derived from both when it is asked, and what the transaction sees.
\<close>

record mgmt_request =
  rq_nil :: bool
  rq_Err :: "string option"
  rq_lifecycleErr :: "string option"
  rq_derivedErr :: "string option"
  rq_txn :: txn_context

text \<open>A request that was cancelled when it was set up has cancelled the derived context.\<close>

definition canceled :: string where "canceled = ''context canceled''"

definition derivedErr :: "mgmt_request \<Rightarrow> string option" where
  "derivedErr rq = (if rq_Err rq \<noteq> None then Some canceled else rq_derivedErr rq)"

definition derivedTxn :: "mgmt_request \<Rightarrow> txn_context" where
  "derivedTxn rq = (if rq_Err rq \<noteq> None then (rq_txn rq)\<lparr>tc_nil := False, tc_enter := Some canceled\<rparr> else (rq_txn rq)\<lparr>tc_nil := False\<rparr>)"

definition runtimeStopping :: "'d managementBackend \<Rightarrow> mgmt_request \<Rightarrow> bool" where
  "runtimeStopping backend rq \<longleftrightarrow> \<not> mb_ready backend \<or> rq_lifecycleErr rq \<noteq> None"

definition backend_issue :: "Revision \<Rightarrow> 'd managementBackend \<Rightarrow> string \<times> 'd managementBackend" where
  "backend_issue raw backend = (let (public, codec) = codec_issue raw (mb_revisions backend) in (public, backend\<lparr>mb_revisions := codec\<rparr>))"

record ConfigDocument =
  cd_Config :: Config
  cd_Revision :: string

definition redactedDocument :: "Config \<Rightarrow> Revision \<Rightarrow> 'd managementBackend \<Rightarrow> (management_error + ConfigDocument) \<times> 'd managementBackend" where
  "redactedDocument c revision backend =
     (let (public, backend) = backend_issue revision backend in (Inr \<lparr>cd_Config = Redacted c, cd_Revision = public\<rparr>, backend))"

record Status =
  st_State :: string
  st_Revision :: string
  st_PendingRevision :: string
  st_Writable :: bool
  st_Warned :: bool

fun stateName :: "ControllerState \<Rightarrow> string" where
  "stateName StateReady = ''ready''"
| "stateName StateRestartPending = ''restart_pending''"
| "stateName StateOutOfSync = ''out_of_sync''"
| "stateName StateDurabilityUncertain = ''durability_uncertain''"
| "stateName StateDegraded = ''degraded''"

definition backend_Status :: "mgmt_request \<Rightarrow> 'd managementBackend \<Rightarrow> (management_error + Status) \<times> 'd managementBackend" where
  "backend_Status rq backend =
     (if rq_Err rq \<noteq> None then (Inl (Passed (the (rq_Err rq))), backend)
      else
        let snapshot = co_current (mb_controller backend);
            (public, backend) = backend_issue (ps_revision snapshot) backend;
            (pending, backend) = (if ps_state snapshot = StateRestartPending then backend_issue (ps_pendingRevision snapshot) backend else ([], backend))
        in (Inr \<lparr>st_State = (if mb_ready backend then stateName (ps_state snapshot) else ''unavailable''), st_Revision = public,
                 st_PendingRevision = pending, st_Writable = (co_repository (mb_controller backend) \<noteq> None),
                 st_Warned = (\<not> mb_ready backend \<or> ps_state snapshot \<noteq> StateReady)\<rparr>, backend))"

definition backend_PendingConfig :: "mgmt_request \<Rightarrow> 'd managementBackend \<Rightarrow> (management_error + ConfigDocument) \<times> 'd managementBackend" where
  "backend_PendingConfig rq backend =
     (if rq_nil rq then (Inl managementInvalid, backend)
      else if rq_Err rq \<noteq> None then (Inl (Passed (the (rq_Err rq))), backend)
      else case Pending (mb_controller backend) of
        None \<Rightarrow> (Inl (backendError ErrorNotFound ''pending_config_not_found'' []), backend)
      | Some (c, revision) \<Rightarrow> redactedDocument c revision backend)"

definition backend_Config :: "mgmt_request \<Rightarrow> 'd managementBackend \<Rightarrow> (management_error + ConfigDocument) \<times> 'd managementBackend" where
  "backend_Config rq backend =
     (if rq_Err rq \<noteq> None then (Inl (Passed (the (rq_Err rq))), backend)
      else redactedDocument (do_Config (Current (mb_controller backend))) (do_Revision (Current (mb_controller backend))) backend)"

definition managementSecretExpansionBudget :: nat where "managementSecretExpansionBudget = 65536"

definition validateManagementSize :: "yaml_lib \<Rightarrow> Config \<Rightarrow> bool" where
  "validateManagementSize lib candidate =
     (case config_Encode lib candidate of
        Inl e \<Rightarrow> False
      | Inr contents \<Rightarrow>
        (case config_Encode lib (Redacted candidate) of
           Inl e \<Rightarrow> False
         | Inr redactedContents \<Rightarrow>
           \<not> (int (length redactedContents) > int MaximumBytes - int managementSecretExpansionBudget \<or>
              int (length contents) - int (length redactedContents) > int managementSecretExpansionBudget)))"

text \<open>The conflict among the wrapped errors, then the error that the API reports.\<close>

definition conflictOf :: "policy_error \<Rightarrow> Revision option" where
  "conflictOf e =
     (case e of
        PolicyConflict expected actual \<Rightarrow> Some actual
      | ReadRuntime errs \<Rightarrow> map_option snd (asConflict errs)
      | ReconcileRead errs \<Rightarrow> map_option snd (asConflict errs)
      | PersistFailed errs \<Rightarrow> map_option snd (asConflict errs)
      | PublishFailed _ errs warning \<Rightarrow> map_option snd (asConflict (errs @ warning))
      | _ \<Rightarrow> None)"

definition managementUpdateError :: "policy_error \<Rightarrow> 'd managementBackend \<Rightarrow> management_error \<times> 'd managementBackend" where
  "managementUpdateError e backend =
     (case conflictOf e of
        Some actual \<Rightarrow>
          let (public, backend) = backend_issue actual backend
          in (Backend \<lparr>be_Kind = ErrorPreconditionFailed, be_Code = ''revision_conflict'', be_Fields = [], be_ActualRevision = public\<rparr>, backend)
      | None \<Rightarrow>
        ((case e of
            RestartRequiredError names \<Rightarrow> backendError ErrorConflict ''restart_required'' names
          | RestartPendingError \<Rightarrow> backendError ErrorConflict ''restart_pending'' []
          | RestartNotRequiredError \<Rightarrow> backendError ErrorConflict ''restart_not_required'' []
          | PendingConfigNotFoundError \<Rightarrow> backendError ErrorNotFound ''pending_config_not_found'' []
          | ReadOnlyError \<Rightarrow> backendError ErrorConflict ''read_only'' []
          | _ \<Rightarrow> backendError ErrorUnavailable ''update_unavailable'' []), backend))"

record ManagementValidation =
  mv_Revision :: string
  mv_HotFields :: "string list"
  mv_RestartRequiredFields :: "string list"

definition backend_ValidateConfig ::
  "yaml_lib \<Rightarrow> mgmt_request \<Rightarrow> Config \<Rightarrow> 'd managementBackend \<Rightarrow> (management_error + ManagementValidation) \<times> 'd managementBackend" where
  "backend_ValidateConfig lib rq candidate backend =
     (if rq_nil rq then (Inl managementInvalid, backend)
      else if rq_Err rq \<noteq> None then (Inl (Passed (the (rq_Err rq))), backend)
      else
        let controller = mb_controller backend; current = co_current controller;
            (secretBase, validationRevision) =
              (if ps_state current = StateRestartPending \<and> ps_pendingRevision current \<noteq> []
               then (case ps_pendingConfiguration current of Some p \<Rightarrow> p | None \<Rightarrow> ps_configuration current, ps_pendingRevision current)
               else (ps_configuration current, ps_revision current))
        in case ResolveRedacted candidate secretBase of
             Inl e \<Rightarrow> (Inl managementInvalid, backend)
           | Inr resolved \<Rightarrow>
             if \<not> validateManagementSize lib resolved then (Inl managementInvalid, backend)
             else case validateCandidate (yl_config lib) (co_safety controller) (ps_configuration current) resolved of
               Inl e \<Rightarrow> (Inl managementInvalid, backend)
             | Inr validation \<Rightarrow>
               let (public, backend) = backend_issue validationRevision backend
               in (Inr \<lparr>mv_Revision = public, mv_HotFields = va_HotFields validation,
                        mv_RestartRequiredFields = va_RestartRequiredFields validation\<rparr>, backend))"

definition backend_UpdateConfig ::
  "yaml_lib \<Rightarrow> mgmt_request \<Rightarrow> string \<Rightarrow> Config \<Rightarrow> 'd managementBackend \<Rightarrow> 'd \<Rightarrow> (management_error + ConfigDocument) \<times> 'd managementBackend \<times> 'd" where
  "backend_UpdateConfig lib rq expected candidate backend d =
     (if rq_nil rq then (Inl managementInvalid, backend, d)
      else if runtimeStopping backend rq then (Inl managementRuleUnavailable, backend, d)
      else
        let current = Current (mb_controller backend);
            rawExpected = codec_resolve (mb_revisions backend) expected (do_Revision current)
        in case ResolveRedacted candidate (do_Config current) of
             Inl e \<Rightarrow> (Inl managementInvalid, backend, d)
           | Inr resolved \<Rightarrow>
             if \<not> validateManagementSize lib resolved then (Inl managementInvalid, backend, d)
             else if derivedErr rq \<noteq> None
             then (let (e, backend) = managementUpdateError (ContextErr (the (derivedErr rq))) backend in (Inl e, backend, d))
             else
               let (err, controller, d) = UpdateContext (yl_config lib) (derivedTxn rq) rawExpected resolved (mb_controller backend) d;
                   backend = backend\<lparr>mb_controller := controller\<rparr>
               in case err of
                    Some e \<Rightarrow> (let (e, backend) = managementUpdateError e backend in (Inl e, backend, d))
                  | None \<Rightarrow>
                    let (document, backend) = redactedDocument (do_Config (Current controller)) (do_Revision (Current controller)) backend
                    in (document, backend, d))"

definition backend_StageConfig ::
  "yaml_lib \<Rightarrow> mgmt_request \<Rightarrow> string \<Rightarrow> Config \<Rightarrow> 'd managementBackend \<Rightarrow> 'd \<Rightarrow> (management_error + ConfigDocument) \<times> 'd managementBackend \<times> 'd" where
  "backend_StageConfig lib rq expected candidate backend d =
     (if rq_nil rq then (Inl managementInvalid, backend, d)
      else if runtimeStopping backend rq then (Inl managementRuleUnavailable, backend, d)
      else
        let current = Current (mb_controller backend);
            secretBase = (case Pending (mb_controller backend) of Some (c, _) \<Rightarrow> c | None \<Rightarrow> do_Config current);
            rawExpected = codec_resolve (mb_revisions backend) expected (do_Revision current)
        in case ResolveRedacted candidate secretBase of
             Inl e \<Rightarrow> (Inl managementInvalid, backend, d)
           | Inr resolved \<Rightarrow>
             if \<not> validateManagementSize lib resolved then (Inl managementInvalid, backend, d)
             else if derivedErr rq \<noteq> None
             then (let (e, backend) = managementUpdateError (ContextErr (the (derivedErr rq))) backend in (Inl e, backend, d))
             else
               let (err, controller, d) = StageRestartContext (yl_config lib) (derivedTxn rq) rawExpected resolved (mb_controller backend) d;
                   backend = backend\<lparr>mb_controller := controller\<rparr>
               in case err of
                    Some e \<Rightarrow> (let (e, backend) = managementUpdateError e backend in (Inl e, backend, d))
                  | None \<Rightarrow>
                    let s = co_current controller;
                        (document, backend) = redactedDocument (the (ps_pendingConfiguration s)) (ps_pendingRevision s) backend
                    in (document, backend, d))"

definition backend_CancelPendingConfig ::
  "mgmt_request \<Rightarrow> string \<Rightarrow> 'd managementBackend \<Rightarrow> 'd \<Rightarrow> (management_error + ConfigDocument) \<times> 'd managementBackend \<times> 'd" where
  "backend_CancelPendingConfig rq expected backend d =
     (if rq_nil rq then (Inl managementInvalid, backend, d)
      else if runtimeStopping backend rq then (Inl managementRuleUnavailable, backend, d)
      else
        let current = Current (mb_controller backend);
            rawExpected = codec_resolve (mb_revisions backend) expected (do_Revision current);
            (err, controller, d) = CancelRestartContext (derivedTxn rq) rawExpected (mb_controller backend) d;
            backend = backend\<lparr>mb_controller := controller\<rparr>
        in case err of
             Some e \<Rightarrow> (let (e, backend) = managementUpdateError e backend in (Inl e, backend, d))
           | None \<Rightarrow>
             let (document, backend) = redactedDocument (do_Config (Current controller)) (do_Revision (Current controller)) backend
             in (document, backend, d))"

section \<open>Rules (management_rules.go)\<close>

record RulesDocument =
  rd_Rules :: "RuleConfig list"
  rd_Revision :: string
  rd_Writable :: bool

definition managementRulesDocument :: "Document \<Rightarrow> 'd managementBackend \<Rightarrow> RulesDocument \<times> 'd managementBackend" where
  "managementRulesDocument document backend =
     (let (public, backend) = backend_issue (do_Revision document) backend
      in (\<lparr>rd_Rules = cf_Rules (do_Config document), rd_Revision = public, rd_Writable = do_Writable document\<rparr>, backend))"

definition backend_Rules :: "mgmt_request \<Rightarrow> 'd managementBackend \<Rightarrow> (management_error + RulesDocument) \<times> 'd managementBackend" where
  "backend_Rules rq backend =
     (if rq_nil rq then (Inl (managementRuleError ''invalid_rule''), backend)
      else if rq_Err rq \<noteq> None then (Inl (Passed (the (rq_Err rq))), backend)
      else let (document, backend) = managementRulesDocument (Current (mb_controller backend)) backend in (Inr document, backend))"

text \<open>The edits, as what they make of the configuration of the transaction, or the code of their error.\<close>

definition validateManagementRules :: "yaml_lib \<Rightarrow> Config \<Rightarrow> string + Config" where
  "validateManagementRules lib candidate =
     (case ToFlowRules (yl_config lib) (cf_Rules candidate) of
        Inl e \<Rightarrow> Inl ''invalid_rule''
      | Inr _ \<Rightarrow> if validateManagementSize lib candidate then Inr candidate else Inl ''invalid_rule'')"

definition createRule :: "yaml_lib \<Rightarrow> RuleConfig \<Rightarrow> Config \<Rightarrow> string + Config" where
  "createRule lib rule candidate =
     (if \<exists>existing \<in> set (cf_Rules candidate). ruc_ID existing = ruc_ID rule then Inl ''rule_exists''
      else validateManagementRules lib (candidate\<lparr>cf_Rules := cf_Rules candidate @ [rule]\<rparr>))"

definition replaceRules :: "yaml_lib \<Rightarrow> RuleConfig list option \<Rightarrow> Config \<Rightarrow> string + Config" where
  "replaceRules lib rules candidate =
     (case rules of
        None \<Rightarrow> Inl ''invalid_rule''
      | Some rules \<Rightarrow> validateManagementRules lib (candidate\<lparr>cf_Rules := rules\<rparr>))"

text \<open>The first rule with an identifier is replaced in place, or removed by shifting the rest down.\<close>

fun replaceFirst :: "string \<Rightarrow> RuleConfig \<Rightarrow> RuleConfig list \<Rightarrow> RuleConfig list option" where
  "replaceFirst ident rule [] = None"
| "replaceFirst ident rule (existing # rules) =
     (if ruc_ID existing \<noteq> ident then map_option ((#) existing) (replaceFirst ident rule rules) else Some (rule # rules))"

fun deleteFirst :: "string \<Rightarrow> RuleConfig list \<Rightarrow> RuleConfig list option" where
  "deleteFirst ident [] = None"
| "deleteFirst ident (existing # rules) =
     (if ruc_ID existing \<noteq> ident then map_option ((#) existing) (deleteFirst ident rules) else Some rules)"

definition replaceRule :: "yaml_lib \<Rightarrow> string \<Rightarrow> RuleConfig \<Rightarrow> Config \<Rightarrow> string + Config" where
  "replaceRule lib ident rule candidate =
     (if ruc_ID rule \<noteq> ident then Inl ''rule_id_mismatch''
      else case replaceFirst ident rule (cf_Rules candidate) of
        None \<Rightarrow> Inl ''rule_not_found''
      | Some rules \<Rightarrow> validateManagementRules lib (candidate\<lparr>cf_Rules := rules\<rparr>))"

definition deleteRule :: "yaml_lib \<Rightarrow> string \<Rightarrow> Config \<Rightarrow> string + Config" where
  "deleteRule lib ident candidate =
     (case deleteFirst ident (cf_Rules candidate) of
        None \<Rightarrow> Inl ''rule_not_found''
      | Some rules \<Rightarrow> validateManagementRules lib (candidate\<lparr>cf_Rules := rules\<rparr>))"

definition rulesByID :: "RuleConfig list \<Rightarrow> string \<rightharpoonup> RuleConfig" where
  "rulesByID rules = foldl (\<lambda>m rule. m(ruc_ID rule \<mapsto> rule)) Map.empty rules"

fun reorderLoop :: "(string \<rightharpoonup> RuleConfig) \<Rightarrow> string fset \<Rightarrow> string list \<Rightarrow> RuleConfig list option" where
  "reorderLoop byID seen [] = Some []"
| "reorderLoop byID seen (ident # order) =
     (if ident |\<in>| seen then None
      else case byID ident of
        None \<Rightarrow> None
      | Some rule \<Rightarrow> map_option ((#) rule) (reorderLoop byID (finsert ident seen) order))"

definition reorderRules :: "yaml_lib \<Rightarrow> string list option \<Rightarrow> Config \<Rightarrow> string + Config" where
  "reorderRules lib order candidate =
     (case order of
        None \<Rightarrow> Inl ''invalid_rule_order''
      | Some order \<Rightarrow>
        if length order \<noteq> length (cf_Rules candidate) then Inl ''invalid_rule_order''
        else if order = [] then validateManagementRules lib candidate
        else case reorderLoop (rulesByID (cf_Rules candidate)) {||} order of
          None \<Rightarrow> Inl ''invalid_rule_order''
        | Some reordered \<Rightarrow> validateManagementRules lib (candidate\<lparr>cf_Rules := reordered\<rparr>))"

definition mutateRulesError :: "policy_error \<Rightarrow> 'd managementBackend \<Rightarrow> management_error \<times> 'd managementBackend" where
  "mutateRulesError e backend =
     (case e of MutationFailed code \<Rightarrow> (managementRuleError code, backend) | _ \<Rightarrow> managementUpdateError e backend)"

definition mutateRules ::
  "yaml_lib \<Rightarrow> mgmt_request \<Rightarrow> string \<Rightarrow> (Config \<Rightarrow> string + Config) \<Rightarrow> 'd managementBackend \<Rightarrow> 'd \<Rightarrow>
     (management_error + RulesDocument) \<times> 'd managementBackend \<times> 'd" where
  "mutateRules lib rq expected mutation backend d =
     (if rq_nil rq then (Inl (managementRuleError ''invalid_rule''), backend, d)
      else if runtimeStopping backend rq then (Inl managementRuleUnavailable, backend, d)
      else
        let current = Current (mb_controller backend);
            rawExpected = codec_resolve (mb_revisions backend) expected (do_Revision current)
        in if derivedErr rq \<noteq> None
           then (let (e, backend) = managementUpdateError (ContextErr (the (derivedErr rq))) backend in (Inl e, backend, d))
           else
             let (err, controller, d) = MutateContext (yl_config lib) (derivedTxn rq) rawExpected (Some mutation) (mb_controller backend) d;
                 backend = backend\<lparr>mb_controller := controller\<rparr>
             in case err of
                  Some e \<Rightarrow> (let (e, backend) = mutateRulesError e backend in (Inl e, backend, d))
                | None \<Rightarrow> (let (document, backend) = managementRulesDocument (Current controller) backend in (Inr document, backend, d)))"

datatype rule_edit =
    CreateRule RuleConfig
  | ReplaceRules "RuleConfig list option"
  | ReplaceRule string RuleConfig
  | DeleteRule string
  | ReorderRules "string list option"

fun ruleMutation :: "yaml_lib \<Rightarrow> rule_edit \<Rightarrow> Config \<Rightarrow> string + Config" where
  "ruleMutation lib (CreateRule rule) = createRule lib rule"
| "ruleMutation lib (ReplaceRules rules) = replaceRules lib rules"
| "ruleMutation lib (ReplaceRule ident rule) = replaceRule lib ident rule"
| "ruleMutation lib (DeleteRule ident) = deleteRule lib ident"
| "ruleMutation lib (ReorderRules order) = reorderRules lib order"

definition editRules ::
  "yaml_lib \<Rightarrow> mgmt_request \<Rightarrow> string \<Rightarrow> rule_edit \<Rightarrow> 'd managementBackend \<Rightarrow> 'd \<Rightarrow> (management_error + RulesDocument) \<times> 'd managementBackend \<times> 'd" where
  "editRules lib rq expected edit backend d = mutateRules lib rq expected (ruleMutation lib edit) backend d"

section \<open>Flows (management_flows.go)\<close>

definition maximumManagementFlowPageLimit :: int where "maximumManagementFlowPageLimit = 5000"

record FlowOverlay =
  fo_Muted :: "string list"
  fo_Soloed :: "string list"

record FlowEndpoint =
  fe_Address :: string
  fe_Port :: u16

record FlowSnapshot =
  fs_ID :: string
  fs_Protocol :: Protocol
  fs_EndpointA :: FlowEndpoint
  fs_EndpointB :: FlowEndpoint
  fs_LatestSource :: FlowEndpoint
  fs_LatestDestination :: FlowEndpoint
  fs_FirstSeen :: time
  fs_LastSeen :: time
  fs_Packets :: u64
  fs_Bytes :: u64
  fs_PacketsAToB :: u64
  fs_PacketsBToA :: u64
  fs_Muted :: bool
  fs_Soloed :: bool
  fs_State :: State
  fs_Channel :: u8
  fs_RuleID :: string
  fs_RuleTier :: string
  fs_RuleName :: string
  fs_DecisionReason :: string
  fs_MatchedPredicates :: "string list"
  fs_Mode :: string
  fs_Root :: u8
  fs_FixedIdentity :: bool

record FlowPage =
  fp_Flows :: "FlowSnapshot list"
  fp_Overlay :: FlowOverlay
  fp_Total :: nat
  fp_Limit :: int
  fp_Truncated :: bool

definition managementFlowInvalid :: "string \<Rightarrow> management_error" where
  "managementFlowInvalid code = backendError ErrorInvalid code [if code = ''invalid_flow_page'' then ''limit'' else ''flow_ids'']"

definition managementFlowUnavailable :: management_error where
  "managementFlowUnavailable = backendError ErrorUnavailable ''runtime_unavailable'' []"

definition flowRuntimeAvailable :: "mgmt_request \<Rightarrow> bool \<Rightarrow> 'd managementBackend \<Rightarrow> management_error option" where
  "flowRuntimeAvailable rq requireReadyPolicy backend =
     (if rq_Err rq \<noteq> None \<or> rq_lifecycleErr rq \<noteq> None \<or> \<not> mb_ready backend then Some managementFlowUnavailable
      else if requireReadyPolicy \<and> ps_state (co_current (mb_controller backend)) \<notin> {StateReady, StateRestartPending}
      then Some managementFlowUnavailable else None)"

definition managementFlowOverlay :: "Overlay \<Rightarrow> FlowOverlay" where
  "managementFlowOverlay overlay =
     \<lparr>fo_Muted = sorted_list_of_fset (ov_Muted overlay), fo_Soloed = sorted_list_of_fset (ov_Soloed overlay)\<rparr>"

definition managementPortRange :: "PortRangeConfig \<Rightarrow> string" where
  "managementPortRange r =
     (if prc_Minimum r = prc_Maximum r then decimal (unat (prc_Minimum r))
      else decimal (unat (prc_Minimum r)) @ ''-'' @ decimal (unat (prc_Maximum r)))"

definition intText :: "int \<Rightarrow> string" where
  "intText n = (if n < 0 then ''-'' @ decimal (nat (- n)) else decimal (nat n))"

fun joinPlus :: "string list \<Rightarrow> string" where
  "joinPlus [] = []"
| "joinPlus [x] = x"
| "joinPlus (x # xs) = x @ ''+'' @ joinPlus xs"

definition matchedPredicates :: "RuleMatchConfig \<Rightarrow> string list" where
  "matchedPredicates m = concat
     [if rmc_ExactFlowID m \<noteq> [] then [''exact flow '' @ rmc_ExactFlowID m] else [],
      if rmc_SourceCIDR m \<noteq> [] then [''source in '' @ rmc_SourceCIDR m] else [],
      if rmc_DestinationCIDR m \<noteq> [] then [''destination in '' @ rmc_DestinationCIDR m] else [],
      if rmc_Protocol m \<noteq> [] then [''protocol '' @ rmc_Protocol m] else [],
      case rmc_SourcePorts m of None \<Rightarrow> [] | Some r \<Rightarrow> [''source ports '' @ managementPortRange r],
      case rmc_DestinationPorts m of None \<Rightarrow> [] | Some r \<Rightarrow> [''destination ports '' @ managementPortRange r],
      case rmc_WireSize m of None \<Rightarrow> [] | Some r \<Rightarrow> [''wire size '' @ intText (szc_Minimum r) @ ''-'' @ intText (szc_Maximum r) @ '' bytes''],
      if rmc_RequiredTCPFlags m \<noteq> [] then [''TCP flags '' @ joinPlus (rmc_RequiredTCPFlags m)] else []]"

definition managementFlowExplanation :: "Selection \<Rightarrow> RuleConfig list \<Rightarrow> string \<times> string \<times> string list" where
  "managementFlowExplanation sel rules =
     (if sel_Tier sel = ''temporary_mute'' then ([], ''the flow is in the temporary mute set'', [])
      else if sel_Tier sel = ''temporary_solo'' then ([], ''another flow is soloed, so this flow is monitored'', [])
      else if sel_Tier sel = ''default'' then ([], ''no higher-precedence rule matched the latest packet'', [])
      else if sel_Tier sel = ''safety'' then ([], ''safety rule '' @ sel_RuleID sel @ '' matched the latest packet'', [])
      else case find (\<lambda>rule. ruc_ID rule = sel_RuleID sel) rules of
        Some rule \<Rightarrow> (ruc_Name rule, sel_Tier sel @ '' rule '' @ sel_RuleID sel @ '' matched every configured predicate'',
                      matchedPredicates (ruc_Match rule))
      | None \<Rightarrow> ([], sel_Tier sel @ '' rule '' @ sel_RuleID sel @ '' matched the latest packet'', []))"

definition flowEndpoint :: "Endpoint \<Rightarrow> FlowEndpoint" where
  "flowEndpoint e = \<lparr>fe_Address = Addr_String (ep_Addr e), fe_Port = ep_Port e\<rparr>"

definition managementFlowSnapshot ::
  "Snapshot \<Rightarrow> bool \<Rightarrow> bool \<Rightarrow> Selector \<Rightarrow> Overlay \<Rightarrow> RuleConfig list \<Rightarrow> management_error + FlowSnapshot" where
  "managementFlowSnapshot snapshot muted soloed selector overlay rules =
     (case Evaluate selector (sn_LastEvent snapshot) overlay of
        Inl e \<Rightarrow> Inl (Passed ''evaluate current policy'')
      | Inr sel \<Rightarrow>
        (case IdentityForFlowID (sn_ID snapshot) of
           None \<Rightarrow> Inl (Passed ''derive musical identity'')
         | Some identity \<Rightarrow>
           (case (if sel_Mode sel = [] then Some (fi_Mode identity, fi_Root identity)
                  else map_option (\<lambda>m. (m, sel_Root sel)) (ParseMode (sel_Mode sel))) of
              None \<Rightarrow> Inl (Passed ''derive fixed musical identity'')
            | Some (mode, rootNote) \<Rightarrow>
              let (ruleName, reason, predicates) = managementFlowExplanation sel rules in
              Inr \<lparr>fs_ID = sn_ID snapshot, fs_Protocol = key_Protocol (sn_Key snapshot),
                   fs_EndpointA = flowEndpoint (key_A (sn_Key snapshot)), fs_EndpointB = flowEndpoint (key_B (sn_Key snapshot)),
                   fs_LatestSource = flowEndpoint (ev_Source (sn_LastEvent snapshot)),
                   fs_LatestDestination = flowEndpoint (ev_Destination (sn_LastEvent snapshot)),
                   fs_FirstSeen = sn_FirstSeen snapshot, fs_LastSeen = sn_LastSeen snapshot, fs_Packets = sn_Packets snapshot,
                   fs_Bytes = sn_Bytes snapshot, fs_PacketsAToB = sn_PacketsAToB snapshot, fs_PacketsBToA = sn_PacketsBToA snapshot,
                   fs_Muted = muted, fs_Soloed = soloed, fs_State = sel_State sel, fs_Channel = sel_Channel sel,
                   fs_RuleID = sel_RuleID sel, fs_RuleTier = sel_Tier sel, fs_RuleName = ruleName, fs_DecisionReason = reason,
                   fs_MatchedPredicates = predicates, fs_Mode = Mode_String mode, fs_Root = rootNote,
                   fs_FixedIdentity = (sel_Mode sel \<noteq> [])\<rparr>)))"

fun annotateFlows :: "policySnapshot \<Rightarrow> Snapshot list \<Rightarrow> management_error + FlowSnapshot list" where
  "annotateFlows policy [] = Inr []"
| "annotateFlows policy (snapshot # snapshots) =
     (case managementFlowSnapshot snapshot (sn_ID snapshot |\<in>| ov_Muted (ps_overlay policy)) (sn_ID snapshot |\<in>| ov_Soloed (ps_overlay policy))
         (ps_selector policy) (ps_overlay policy) (cf_Rules (ps_configuration policy)) of
        Inl e \<Rightarrow> Inl e
      | Inr converted \<Rightarrow>
        (case annotateFlows policy snapshots of Inl e \<Rightarrow> Inl e | Inr rest \<Rightarrow> Inr (converted # rest)))"

text \<open>\<open>iteration\<close> is the order in which Go happens to iterate over the flow map.\<close>

definition backend_Flows :: "mgmt_request \<Rightarrow> int \<Rightarrow> string list \<Rightarrow> 'd managementBackend \<Rightarrow> management_error + FlowPage" where
  "backend_Flows rq limit iteration backend =
     (if rq_nil rq then Inl (managementFlowInvalid ''invalid_flow_page'')
      else if limit < 1 \<or> limit > maximumManagementFlowPageLimit then Inl (managementFlowInvalid ''invalid_flow_page'')
      else case flowRuntimeAvailable rq False backend of
        Some e \<Rightarrow> Inl e
      | None \<Rightarrow>
        let policy = co_current (mb_controller backend);
            (snapshots, total) = RecentSnapshots (mb_registry backend) iteration limit
        in case annotateFlows policy snapshots of
             Inl e \<Rightarrow> Inl e
           | Inr flows \<Rightarrow>
             Inr \<lparr>fp_Flows = flows, fp_Overlay = managementFlowOverlay (ps_overlay policy), fp_Total = total, fp_Limit = limit,
                  fp_Truncated = (total > length flows)\<rparr>)"

fun collectFlowIDs :: "string fset \<Rightarrow> string list \<Rightarrow> string fset option" where
  "collectFlowIDs values [] = Some values"
| "collectFlowIDs values (flowID # flowIDs) =
     (if flowID |\<in>| values then None else collectFlowIDs (finsert flowID values) flowIDs)"

definition setFlowOverlay ::
  "mgmt_request \<Rightarrow> string list option \<Rightarrow> bool \<Rightarrow> 'd managementBackend \<Rightarrow> (management_error + FlowOverlay) \<times> 'd managementBackend" where
  "setFlowOverlay rq flowIDs mute backend =
     (if rq_nil rq then (Inl (managementFlowInvalid ''invalid_flow_set''), backend)
      else case flowRuntimeAvailable rq True backend of
        Some e \<Rightarrow> (Inl e, backend)
      | None \<Rightarrow>
        (case flowIDs of
           None \<Rightarrow> (Inl (managementFlowInvalid ''invalid_flow_set''), backend)
         | Some flowIDs \<Rightarrow>
           (case collectFlowIDs {||} flowIDs of
              None \<Rightarrow> (Inl (managementFlowInvalid ''invalid_flow_set''), backend)
            | Some values \<Rightarrow>
              let (err, controller) = (if mute then replaceOverlay (derivedTxn rq) values {||} True (mb_controller backend)
                                       else replaceOverlay (derivedTxn rq) {||} values False (mb_controller backend));
                  backend = backend\<lparr>mb_controller := controller\<rparr>
              in case err of
                   None \<Rightarrow> (Inr (managementFlowOverlay (ps_overlay (co_current controller))), backend)
                 | Some (PolicyStateError _) \<Rightarrow> (Inl managementFlowUnavailable, backend)
                 | Some (ContextErr _) \<Rightarrow> (Inl managementFlowUnavailable, backend)
                 | Some _ \<Rightarrow> (Inl (managementFlowInvalid ''invalid_flow_set''), backend))))"

section \<open>What is kept\<close>

lemma backend_issue_kept:
  "backend_issue raw backend = (public, backend') \<Longrightarrow> mb_controller backend' = mb_controller backend \<and>
     mb_registry backend' = mb_registry backend \<and> mb_ready backend' = mb_ready backend"
  by (auto simp: backend_issue_def split: prod.splits)

lemma managementUpdateError_kept: "managementUpdateError e backend = (m, backend') \<Longrightarrow> mb_controller backend' = mb_controller backend"
  by (auto simp: managementUpdateError_def split: option.splits prod.splits dest: backend_issue_kept)

lemma mutateRulesError_kept: "mutateRulesError e backend = (m, backend') \<Longrightarrow> mb_controller backend' = mb_controller backend"
  by (cases e) (auto simp: mutateRulesError_def dest: managementUpdateError_kept)

lemma managementRulesDocument_kept:
  "managementRulesDocument document backend = (answer, backend') \<Longrightarrow> mb_controller backend' = mb_controller backend \<and>
     rd_Rules answer = cf_Rules (do_Config document)"
  by (auto simp: managementRulesDocument_def Let_def split: prod.splits dest: backend_issue_kept)

lemmas backend_kept = backend_issue_kept managementUpdateError_kept mutateRulesError_kept managementRulesDocument_kept

lemma mutateRules_cases:
  assumes "mutateRules lib rq expected mutation backend d = (result, backend', d')"
  obtains (stopped) e where "result = Inl e" "mb_controller backend' = mb_controller backend" "d' = d"
  | (failed) e err raw where "result = Inl e"
      "transactContext (yl_config lib) (derivedTxn rq) raw mutation (mb_controller backend) d = (Some err, mb_controller backend', d')"
  | (committed) document raw where "result = Inr document"
      "transactContext (yl_config lib) (derivedTxn rq) raw mutation (mb_controller backend) d = (None, mb_controller backend', d')"
      "rd_Rules document = cf_Rules (ps_configuration (co_current (mb_controller backend')))"
proof (cases "rq_nil rq \<or> runtimeStopping backend rq")
  case True
  then show ?thesis using assms stopped by (auto simp: mutateRules_def split: if_splits)
next
  case False
  let ?raw = "codec_resolve (mb_revisions backend) expected (do_Revision (Current (mb_controller backend)))"
  obtain err controller w where run: "transactContext (yl_config lib) (derivedTxn rq) ?raw mutation (mb_controller backend) d = (err, controller, w)"
    by (metis prod_cases3)
  show ?thesis
  proof (cases "derivedErr rq")
    case (Some e)
    then show ?thesis using assms False stopped by (auto simp: mutateRules_def Let_def split: prod.splits dest!: backend_kept)
  next
    case live: None
    show ?thesis
    proof (cases err)
      case (Some e)
      then show ?thesis using assms False live run failed
        by (auto simp: mutateRules_def MutateContext_def Let_def split: prod.splits dest!: backend_kept)
    next
      case None
      then show ?thesis
        using assms False live run committed
        by (auto simp: mutateRules_def MutateContext_def Current_def Let_def split: prod.splits dest!: backend_kept)
    qed
  qed
qed

end
