(* ===== verification/Management_Spec.thy ===== *)
theory Management_Spec
  imports Management
begin

text \<open>
  What the management backend guarantees: its table of revision tokens is bounded and translates back, rule
  edits are atomic and do exactly what they say, and the list of flows always succeeds and agrees with the
  policy that judges packets.
\<close>

section \<open>The table of tokens\<close>

definition codec_ok :: "managementRevisionCodec \<Rightarrow> bool" where
  "codec_ok codec \<longleftrightarrow> distinct (mc_order codec) \<and> set (mc_order codec) = dom (mc_rawByPublic codec) \<and>
     length (mc_order codec) \<le> maximumKnownManagementRevisions \<and>
     (\<forall>public raw. mc_rawByPublic codec public = Some raw \<longrightarrow> raw \<noteq> [] \<and> public = codec_calculate codec raw)"

lemma codec_calculate_key: "mc_key codec' = mc_key codec \<Longrightarrow> codec_calculate codec' raw = codec_calculate codec raw"
  by (simp add: codec_calculate_def)

lemma codec_evict_ok:
  assumes "codec_ok codec"
  shows "codec_ok (codec_evict codec)" and "length (mc_order (codec_evict codec)) < maximumKnownManagementRevisions"
    and "mc_key (codec_evict codec) = mc_key codec" and "mc_rawByPublic (codec_evict codec) \<subseteq>\<^sub>m mc_rawByPublic codec"
proof -
  show key: "mc_key (codec_evict codec) = mc_key codec" by (simp add: codec_evict_def)
  show sub: "mc_rawByPublic (codec_evict codec) \<subseteq>\<^sub>m mc_rawByPublic codec" by (auto simp: codec_evict_def map_le_def)
  show "length (mc_order (codec_evict codec)) < maximumKnownManagementRevisions"
    using assms by (auto simp: codec_evict_def codec_ok_def maximumKnownManagementRevisions_def)
  show "codec_ok (codec_evict codec)"
  proof (cases "length (mc_order codec) = maximumKnownManagementRevisions")
    case True
    then obtain p ps where o: "mc_order codec = p # ps" by (cases "mc_order codec") (auto simp: maximumKnownManagementRevisions_def)
    have d: "distinct (p # ps)" "set (p # ps) = dom (mc_rawByPublic codec)" using assms o by (auto simp: codec_ok_def)
    then have "set ps = dom ((mc_rawByPublic codec)(p := None))" by auto
    then show ?thesis using assms True o d codec_calculate_key [OF key]
      by (auto simp: codec_ok_def codec_evict_def split: if_splits)
  qed (use assms in \<open>simp add: codec_evict_def\<close>)
qed

lemma codec_issue_ok:
  assumes ok: "codec_ok codec" and i: "codec_issue raw codec = (public, codec')"
  shows "codec_ok codec'" and "mc_key codec' = mc_key codec"
proof -
  have "codec_ok codec' \<and> mc_key codec' = mc_key codec"
  proof (cases "raw = []")
    case True
    then show ?thesis using assms by (simp add: codec_issue_def)
  next
    case False
    show ?thesis
    proof (cases "mc_rawByPublic codec (codec_calculate codec raw) = None")
      case known: False
      then have "codec' = codec\<lparr>mc_rawByPublic := (mc_rawByPublic codec)(codec_calculate codec raw \<mapsto> raw)\<rparr>"
        using i False by (auto simp: codec_issue_def Let_def)
      then show ?thesis using ok known False codec_calculate_key [of codec' codec] by (auto simp: codec_ok_def)
    next
      case fresh: True
      let ?e = "codec_evict codec"
      have c': "codec' = ?e\<lparr>mc_rawByPublic := (mc_rawByPublic ?e)(public \<mapsto> raw), mc_order := mc_order ?e @ [public]\<rparr>"
        and p: "public = codec_calculate codec raw"
        using i False fresh by (auto simp: codec_issue_def Let_def)
      have new: "public \<notin> dom (mc_rawByPublic ?e)" using codec_evict_ok(4) [OF ok] fresh p by (metis domIff map_le_def)
      have calc: "codec_calculate codec' r = codec_calculate codec r" "codec_calculate ?e r = codec_calculate codec r" for r
        using codec_evict_ok(3) [OF ok] c' by (simp_all add: codec_calculate_def)
      show ?thesis using codec_evict_ok(1-3) [OF ok] new p False calc unfolding codec_ok_def by (auto simp: c' [unfolded p])
    qed
  qed
  then show "codec_ok codec'" "mc_key codec' = mc_key codec" by auto
qed

fun issueAll :: "Revision list \<Rightarrow> managementRevisionCodec \<Rightarrow> managementRevisionCodec" where
  "issueAll [] codec = codec"
| "issueAll (raw # raws) codec = issueAll raws (snd (codec_issue raw codec))"

text \<open>A token with at most \<open>n\<close> later tokens behind it.\<close>

definition youngerThan :: "nat \<Rightarrow> string \<Rightarrow> Revision \<Rightarrow> managementRevisionCodec \<Rightarrow> bool" where
  "youngerThan n public raw codec \<longleftrightarrow> mc_rawByPublic codec public = Some raw \<and> (\<exists>xs ys. mc_order codec = xs @ public # ys \<and> length ys \<le> n)"

lemma codec_issue_younger:
  assumes ok: "codec_ok codec" and y: "youngerThan n public raw codec" and n: "Suc n < maximumKnownManagementRevisions"
    and inj: "codec_calculate codec other = public \<Longrightarrow> other = raw"
  shows "youngerThan (Suc n) public raw (snd (codec_issue other codec))"
proof -
  obtain xs ys where o: "mc_order codec = xs @ public # ys" "length ys \<le> n" and m: "mc_rawByPublic codec public = Some raw"
    using y by (auto simp: youngerThan_def)
  show ?thesis
  proof (cases "other = [] \<or> mc_rawByPublic codec (codec_calculate codec other) \<noteq> None")
    case True
    then have "mc_order (snd (codec_issue other codec)) = mc_order codec" "mc_rawByPublic (snd (codec_issue other codec)) public = Some raw"
      using m inj by (auto simp: codec_issue_def Let_def)
    then show ?thesis using o by (auto simp: youngerThan_def intro: le_SucI)
  next
    case False
    have ne: "codec_calculate codec other \<noteq> public" using False m by auto
    have old: "\<exists>zs. mc_order (codec_evict codec) = zs @ public # ys" "mc_rawByPublic (codec_evict codec) public = Some raw"
    proof -
      have "xs \<noteq> [] \<and> hd xs \<noteq> public" if "length (mc_order codec) = maximumKnownManagementRevisions"
        using that o n ok by (cases xs) (auto simp: codec_ok_def)
      then show "\<exists>zs. mc_order (codec_evict codec) = zs @ public # ys" "mc_rawByPublic (codec_evict codec) public = Some raw"
        using o m by (auto simp: codec_evict_def)
    qed
    then obtain zs where "mc_order (snd (codec_issue other codec)) = zs @ public # (ys @ [codec_calculate codec other])"
      using False by (auto simp: codec_issue_def Let_def)
    moreover have "mc_rawByPublic (snd (codec_issue other codec)) public = Some raw"
      using False ne old(2) by (auto simp: codec_issue_def Let_def)
    ultimately show ?thesis unfolding youngerThan_def using o(2) by (metis length_append_singleton not_less_eq_eq)
  qed
qed

lemma issueAll_younger:
  assumes "codec_ok codec" and "youngerThan n public raw codec" and "n + length raws < maximumKnownManagementRevisions"
    and "\<And>other. other \<in> set raws \<Longrightarrow> codec_calculate codec other = public \<Longrightarrow> other = raw"
  shows "youngerThan (n + length raws) public raw (issueAll raws codec) \<and> codec_ok (issueAll raws codec) \<and>
    mc_key (issueAll raws codec) = mc_key codec"
  using assms
proof (induction raws arbitrary: codec n)
  case (Cons other raws)
  obtain p codec' where i: "codec_issue other codec = (p, codec')" by force
  have key: "mc_key codec' = mc_key codec" and ok: "codec_ok codec'" using codec_issue_ok [OF Cons.prems(1) i] by auto
  have "youngerThan (Suc n) public raw codec'" using codec_issue_younger [OF Cons.prems(1,2), of other] Cons.prems(3,4) i by auto
  then show ?case using Cons.IH [OF ok, of "Suc n"] Cons.prems(3,4) codec_calculate_key [OF key] key i by simp
qed simp

lemma codec_issue_fresh:
  assumes "codec_ok codec" and "raw \<noteq> []" and "mc_rawByPublic codec (codec_calculate codec raw) = None"
  shows "youngerThan 0 (codec_calculate codec raw) raw (snd (codec_issue raw codec))"
  using assms by (auto simp: youngerThan_def codec_issue_def Let_def)

section \<open>Rule edits\<close>

text \<open>What an edit makes of the ordered rules.\<close>

fun edited :: "rule_edit \<Rightarrow> RuleConfig list \<Rightarrow> RuleConfig list \<Rightarrow> bool" where
  "edited (CreateRule rule) old new \<longleftrightarrow> new = old @ [rule] \<and> ruc_ID rule \<notin> ruc_ID ` set old"
| "edited (ReplaceRules rules) old new \<longleftrightarrow> rules = Some new"
| "edited (ReplaceRule ident rule) old new \<longleftrightarrow>
     (\<exists>xs y ys. old = xs @ y # ys \<and> new = xs @ rule # ys \<and> ruc_ID y = ident \<and> ruc_ID rule = ident)"
| "edited (DeleteRule ident) old new \<longleftrightarrow> (\<exists>xs y ys. old = xs @ y # ys \<and> new = xs @ ys \<and> ruc_ID y = ident)"
| "edited (ReorderRules order) old new \<longleftrightarrow> order = Some (map ruc_ID new) \<and> mset new = mset old"

lemma replaceFirst_Some:
  "replaceFirst ident rule rules = Some new \<Longrightarrow> \<exists>xs y ys. rules = xs @ y # ys \<and> new = xs @ rule # ys \<and> ruc_ID y = ident"
proof (induction ident rule rules arbitrary: new rule: replaceFirst.induct)
  case (2 ident rule existing rules)
  then show ?case
  proof (cases "ruc_ID existing = ident")
    case True
    then show ?thesis using 2(2) by (metis append_Nil option.inject replaceFirst.simps(2))
  next
    case False
    then obtain new' where n: "replaceFirst ident rule rules = Some new'" "new = existing # new'" using 2(2) by auto
    then show ?thesis using 2(1) [OF False n(1)] by (metis append_Cons)
  qed
qed simp

lemma deleteFirst_Some:
  "deleteFirst ident rules = Some new \<Longrightarrow> \<exists>xs y ys. rules = xs @ y # ys \<and> new = xs @ ys \<and> ruc_ID y = ident"
proof (induction ident rules arbitrary: new rule: deleteFirst.induct)
  case (2 ident existing rules)
  then show ?case
  proof (cases "ruc_ID existing = ident")
    case True
    then show ?thesis using 2(2) by (metis append_Nil deleteFirst.simps(2) option.inject)
  next
    case False
    then obtain new' where n: "deleteFirst ident rules = Some new'" "new = existing # new'" using 2(2) by auto
    then show ?thesis using 2(1) [OF False n(1)] by (metis append_Cons)
  qed
qed simp

lemma rulesByID_mem: "rulesByID rules ident = Some rule \<Longrightarrow> rule \<in> set rules \<and> ruc_ID rule = ident"
proof -
  have "foldl (\<lambda>m rule. m(ruc_ID rule \<mapsto> rule)) m rules ident = Some rule \<Longrightarrow>
      m ident = Some rule \<or> rule \<in> set rules \<and> ruc_ID rule = ident" for m
    by (induction rules arbitrary: m) (fastforce split: if_splits)+
  then show "rulesByID rules ident = Some rule \<Longrightarrow> rule \<in> set rules \<and> ruc_ID rule = ident" unfolding rulesByID_def by fastforce
qed

lemma reorderLoop_Some:
  assumes "reorderLoop byID seen order = Some new"
  shows "map byID order = map Some new \<and> distinct order \<and> set order \<inter> fset seen = {}"
  using assms
proof (induction byID seen order arbitrary: new rule: reorderLoop.induct)
  case (2 byID seen ident order)
  then obtain rule new' where "ident |\<notin>| seen" "byID ident = Some rule" "reorderLoop byID (finsert ident seen) order = Some new'" "new = rule # new'"
    by (auto split: if_splits option.splits)
  then show ?case using 2(1) [of rule new'] by auto
qed simp

text \<open>As many distinct rules of the old list as the old list has are the old list in another order.\<close>

lemma reorder_mset:
  assumes loop: "reorderLoop (rulesByID old) {||} order = Some new" and len: "length order = length old" and d: "distinct (map ruc_ID old)"
  shows "map ruc_ID new = order \<and> mset new = mset old"
proof -
  have r: "map (rulesByID old) order = map Some new" "distinct order" using reorderLoop_Some [OF loop] by auto
  have l: "length new = length order" using r(1) by (metis length_map)
  have nth: "new ! k \<in> set old \<and> ruc_ID (new ! k) = order ! k" if "k < length order" for k
    using rulesByID_mem [of old "order ! k" "new ! k"] r(1) l that by (metis nth_map)
  have ids: "map ruc_ID new = order" using l nth by (auto intro: nth_equalityI)
  then have dn: "distinct new" using r(2) by (metis distinct_map)
  have "set new \<subseteq> set old" using nth l by (auto simp: in_set_conv_nth)
  moreover have "card (set new) = card (set old)" using dn d len l by (metis distinct_card distinct_map)
  ultimately have "set new = set old" by (simp add: card_subset_eq)
  then show ?thesis using ids dn d by (metis distinct_map set_eq_iff_mset_eq_distinct)
qed

lemma validateManagementRules_Inr:
  "validateManagementRules lib candidate = Inr c \<longleftrightarrow>
     c = candidate \<and> is_ok (ToFlowRules (yl_config lib) (cf_Rules c)) \<and> validateManagementSize lib c"
  by (auto simp: validateManagementRules_def is_ok_iff split: sum.splits if_splits)

lemma ruleMutation_edited:
  assumes "ruleMutation lib edit base = Inr c" and "distinct (map ruc_ID (cf_Rules base))"
  shows "edited edit (cf_Rules base) (cf_Rules c) \<and> c = base\<lparr>cf_Rules := cf_Rules c\<rparr> \<and> is_ok (ToFlowRules (yl_config lib) (cf_Rules c))"
proof (cases edit)
  case (CreateRule rule)
  then show ?thesis using assms(1) by (auto simp: createRule_def validateManagementRules_Inr split: if_splits)
next
  case (ReplaceRules rules)
  then show ?thesis using assms(1) by (auto simp: replaceRules_def validateManagementRules_Inr split: option.splits)
next
  case (ReplaceRule ident rule)
  then show ?thesis using assms(1) replaceFirst_Some
    by (auto simp: replaceRule_def validateManagementRules_Inr split: option.splits if_splits)
next
  case (DeleteRule ident)
  then show ?thesis using assms(1) deleteFirst_Some by (auto simp: deleteRule_def validateManagementRules_Inr split: option.splits)
next
  case (ReorderRules order)
  then show ?thesis using assms reorder_mset
    by (auto simp: reorderRules_def validateManagementRules_Inr split: option.splits if_splits)
qed

lemma ToFlowRules_distinct: "is_ok (ToFlowRules lib rules) \<Longrightarrow> distinct (map ruc_ID rules)"
proof -
  assume "is_ok (ToFlowRules lib rules)"
  then obtain converted where c: "ToFlowRules lib rules = Inr converted" by (auto simp: is_ok_iff)
  have "map ru_ID converted = map ruc_ID rules"
    using ToFlowRules_ok(1) [OF c] by (induction rule: list_all2_induct) (auto dest: toFlowRule_parts(1))
  then show ?thesis using ToFlowRules_ok(2) [OF c] by simp
qed

lemma compileSelector_rules: "compileSelector lib c safety = Inr s \<Longrightarrow> is_ok (ToFlowRules lib (cf_Rules c))"
  by (auto simp: compileSelector_def FlowRules_def is_ok_iff split: sum.splits)

section \<open>The list of flows\<close>

text \<open>A listed flow shows the decision of the policy on the latest packet of the flow.\<close>

definition flowShows :: "policySnapshot \<Rightarrow> Snapshot \<Rightarrow> FlowSnapshot \<Rightarrow> bool" where
  "flowShows policy snapshot shown \<longleftrightarrow>
     fs_ID shown = sn_ID snapshot \<and> fs_LastSeen shown = sn_LastSeen snapshot \<and> fs_Packets shown = sn_Packets snapshot \<and>
     fs_Muted shown = (sn_ID snapshot |\<in>| ov_Muted (ps_overlay policy)) \<and> fs_Soloed shown = (sn_ID snapshot |\<in>| ov_Soloed (ps_overlay policy)) \<and>
     (\<exists>sel. policy_Evaluate policy (sn_LastEvent snapshot) = Inr sel \<and> fs_State shown = sel_State sel \<and>
        fs_Channel shown = sel_Channel sel \<and> fs_RuleID shown = sel_RuleID sel \<and> fs_RuleTier shown = sel_Tier sel \<and>
        (sel_Mode sel \<noteq> [] \<longrightarrow> fs_Mode shown = sel_Mode sel \<and> fs_Root shown = sel_Root sel)) \<and> fs_Root shown \<le> 11"

lemma musical_ParseMode: "validMusicalMode v \<Longrightarrow> \<exists>m. ParseMode v = Some m \<and> Mode_String m = v"
proof -
  assume "validMusicalMode v"
  then have "ParseMode v \<noteq> None" by (auto simp: validMusicalMode_def ParseMode_def modeNames_def)
  then show ?thesis using ParseMode_Some by blast
qed

lemma managementFlowSnapshot_shows:
  assumes co: "coherent lib controller" and policy: "policy = co_current controller" and ok: "snapshot_ok seed ident snapshot"
  shows "\<exists>shown. managementFlowSnapshot snapshot (sn_ID snapshot |\<in>| ov_Muted (ps_overlay policy)) (sn_ID snapshot |\<in>| ov_Soloed (ps_overlay policy))
      (ps_selector policy) (ps_overlay policy) rules = Inr shown \<and> flowShows policy snapshot shown"
proof -
  obtain sel where sel: "policy_Evaluate policy (sn_LastEvent snapshot) = Inr sel" "selection_ok sel"
    using coherent_decides [OF co] ok policy by (auto simp: snapshot_ok_def)
  have id: "sn_ID snapshot = Key_ID (sn_Key snapshot) seed" using ok by (simp add: snapshot_ok_def)
  obtain identity where i: "IdentityForFlowID (sn_ID snapshot) = Some identity" "fi_Root identity \<le> 11"
    using IdentityForFlowID_Key id by metis
  obtain name reason predicates where e: "managementFlowExplanation sel rules = (name, reason, predicates)" by (metis prod_cases3)
  show ?thesis
  proof (cases "sel_Mode sel = []")
    case True
    then show ?thesis using sel i e by (auto simp: managementFlowSnapshot_def policy_Evaluate_def flowShows_def)
  next
    case False
    then obtain m where "ParseMode (sel_Mode sel) = Some m" "Mode_String m = sel_Mode sel" "sel_Root sel \<le> 11"
      using sel(2) musical_ParseMode by (auto simp: selection_ok_def)
    then show ?thesis using sel i e False by (auto simp: managementFlowSnapshot_def policy_Evaluate_def flowShows_def)
  qed
qed

lemma annotateFlows_shows:
  assumes "coherent lib controller" and "policy = co_current controller" and "\<forall>snapshot \<in> set snapshots. \<exists>ident. snapshot_ok seed ident snapshot"
  shows "\<exists>flows. annotateFlows policy snapshots = Inr flows \<and> list_all2 (flowShows policy) snapshots flows"
  using assms(3)
proof (induction snapshots)
  case (Cons snapshot snapshots)
  then obtain ident flows where "snapshot_ok seed ident snapshot" "annotateFlows policy snapshots = Inr flows"
    "list_all2 (flowShows policy) snapshots flows" by auto
  then show ?case using managementFlowSnapshot_shows [OF assms(1,2), of seed ident snapshot "cf_Rules (ps_configuration policy)"] by auto
qed simp

section \<open>Samples\<close>

definition sampleCodec :: managementRevisionCodec where "sampleCodec = newManagementRevisionCodecWithKey [1, 2, 3]"

definition sampleBackend :: "repo_world managementBackend" where
  "sampleBackend = \<lparr>mb_controller = sampleController, mb_registry = snd (Registry_Observe sampleRegistry sampleEvent), mb_ready = True,
     mb_revisions = sampleCodec\<rparr>"

definition liveRequest :: mgmt_request where
  "liveRequest = \<lparr>rq_nil = False, rq_Err = None, rq_lifecycleErr = None, rq_derivedErr = None, rq_txn = background\<rparr>"

lemma sample_encodings:
  "config_Decode sampleYaml [0] = Inr Config_Default" "config_Decode sampleYaml [2] = Inr (Redacted Config_Default)"
  "config_Encode sampleYaml Config_Default = Inr [0]" "\<exists>b. config_Encode sampleYaml (Redacted Config_Default) = Inr [b]"
  "validateManagementSize sampleYaml Config_Default"
proof -
  have valid: "Config_Validate lib (Redacted Config_Default) = []" for lib
    by (simp add: default_simps Redacted_def setSeed_def RedactedValue_def)
  show "config_Decode sampleYaml [0] = Inr Config_Default" by (simp add: config_Decode_def sampleYaml_def Config_Default_valid)
  show "config_Decode sampleYaml [2] = Inr (Redacted Config_Default)" by (simp add: config_Decode_def sampleYaml_def valid)
  show enc: "config_Encode sampleYaml Config_Default = Inr [0]"
    by (simp add: config_Encode_def sampleYaml_def Config_Default_valid quietConfig_differs)
  show red: "\<exists>b. config_Encode sampleYaml (Redacted Config_Default) = Inr [b]" by (simp add: config_Encode_def sampleYaml_def valid)
  show "validateManagementSize sampleYaml Config_Default"
    using red enc by (auto simp: validateManagementSize_def MaximumBytes_def managementSecretExpansionBudget_def)
qed

text \<open>A transaction that stores the configuration that is already stored.\<close>

lemma sample_transact:
  assumes "build Config_Default = Inr Config_Default"
  shows "transactContext sampleConfigLib background (digest [0]) build sampleController sampleWorld =
    (None, sampleController, nextMutation sampleWorld sampleDisk)"
proof -
  let ?cur = "\<lparr>cs_Config = Config_Default, cs_Revision = digest [0], cs_contents = [0], cs_mode = 0x180\<rparr>"
  have rep: "cr_Replace (fileRepository sampleYaml 1) (digest [0]) Config_Default sampleWorld =
      (Inr (repo_change 1 ?cur ?cur []), nextMutation sampleWorld sampleDisk)"
    by (simp add: fileRepository_def sampleWorld_def ReplaceContext_def underLock_def acquireLock_def quietMutation_def quietRead_def
        replaceLocked_def repo_read_def sampleDisk_def repo_snapshot_def sample_encodings checkRevision_def writableMode_def finishMutation_def
        failed_def MaximumBytes_def Let_def)
  have "restartFields Config_Default Config_Default = []" by (simp add: restartFields_Nil withoutHot_def)
  moreover have "validateCandidate sampleConfigLib None Config_Default Config_Default = Inr (classifyChanges Config_Default Config_Default)"
    by (simp add: validateCandidate_def Config_Default_valid sample_compile)
  ultimately show ?thesis
    using assms by (simp add: transactContext_def background_def ctx_fails_def transactBase_def classifyChanges_eq
        sample_compile transactPersist_def rep repo_change_def Let_def del: One_nat_def)
qed

lemma sampleEdit:
  "\<exists>document backend' d'. editRules sampleYaml liveRequest (codec_calculate sampleCodec (digest [0])) (ReplaceRules (Some []))
     sampleBackend sampleWorld = (Inr document, backend', d')"
proof -
  have same: "Config_Default\<lparr>cf_Rules := []\<rparr> = Config_Default" by (simp add: Config_Default_def)
  have "ToFlowRules (yl_config sampleYaml) [] = Inr []" by (simp add: ToFlowRules_def)
  then have mut: "ruleMutation sampleYaml (ReplaceRules (Some [])) Config_Default = Inr Config_Default"
    using sample_encodings(5) by (simp add: replaceRules_def same validateManagementRules_def) (simp add: Config_Default_def)
  have "MutateContext sampleConfigLib background (digest [0]) (Some (ruleMutation sampleYaml (ReplaceRules (Some [])))) sampleController sampleWorld =
      (None, sampleController, nextMutation sampleWorld sampleDisk)"
    using sample_transact [of "ruleMutation sampleYaml (ReplaceRules (Some []))"] mut by (simp add: MutateContext_def)
  moreover have "derivedTxn liveRequest = background" by (simp add: derivedTxn_def liveRequest_def background_def)
  ultimately show ?thesis
    by (simp add: editRules_def mutateRules_def runtimeStopping_def derivedErr_def liveRequest_def sampleBackend_def codec_resolve_def
        Current_def sampleYaml_config Let_def split: prod.splits del: ruleMutation.simps)
qed

section \<open>Properties\<close>

text \<open>
  Revision tokens translate back. The table of issued tokens stays within 256 entries and consistent, and
  a token that was newly issued for a durable revision still names it after up to 255 further issues, which
  is what an explicit reconciliation needs; a string that is neither the token of the active revision nor in the
  table names no revision. It is assumed that the message authentication code has no collision among the
  revisions involved.
\<close>

theorem Codec_roundtrip:
  assumes "codec_ok codec" and "raw \<noteq> []" and "codec_issue raw codec = (public, codec1)"
    and "mc_rawByPublic codec public = None" and "length raws < maximumKnownManagementRevisions"
    and inj: "inj_on (codec_calculate codec) (insert raw (insert active (set raws)))"
  shows "codec_resolve (issueAll raws codec1) public active = raw \<and> codec_ok (issueAll raws codec1) \<and>
    (\<forall>token. token \<noteq> codec_calculate codec active \<and> token \<notin> set (mc_order (issueAll raws codec1)) \<longrightarrow>
       codec_resolve (issueAll raws codec1) token active = [])"
proof -
  have p: "public = codec_calculate codec raw" using assms(2,3) by (auto simp: codec_issue_def Let_def split: if_splits)
  have key: "mc_key codec1 = mc_key codec" and ok: "codec_ok codec1" using codec_issue_ok [OF assms(1,3)] by auto
  have y: "youngerThan 0 public raw codec1" using codec_issue_fresh [OF assms(1,2)] assms(3,4) p by simp
  have "other = raw" if "other \<in> set raws" "codec_calculate codec1 other = public" for other
    using inj_onD [OF inj, of other raw] that p codec_calculate_key [OF key] by simp
  from issueAll_younger [OF ok y _ this] assms(5)
  have z: "youngerThan (length raws) public raw (issueAll raws codec1)" "codec_ok (issueAll raws codec1)" "mc_key (issueAll raws codec1) = mc_key codec"
    using key by auto
  have "active = raw" if "public = codec_calculate codec active" using inj_onD [OF inj, of active raw] that p by simp
  then have "codec_resolve (issueAll raws codec1) public active = raw"
    using z(1) codec_calculate_key [OF z(3)] by (auto simp: codec_resolve_def youngerThan_def)
  moreover have "codec_resolve (issueAll raws codec1) token active = []"
    if "token \<noteq> codec_calculate codec active" "token \<notin> set (mc_order (issueAll raws codec1))" for token
    using that z(2) codec_calculate_key [OF z(3)] by (auto simp: codec_resolve_def codec_ok_def domIff split: option.splits)
  ultimately show ?thesis using z(2) by blast
qed

theorem Codec_roundtrip_witness:
  "\<exists>public codec1. codec_issue ''r1'' (sampleCodec) = (public, codec1) \<and>
     codec_resolve (issueAll [''r1''] codec1) public ''r1'' = ''r1''"
proof -
  let ?c = "sampleCodec"
  obtain public codec1 where i: "codec_issue ''r1'' ?c = (public, codec1)" by force
  have "codec_ok ?c" "mc_rawByPublic ?c public = None" by (simp_all add: codec_ok_def sampleCodec_def newManagementRevisionCodecWithKey_def)
  from Codec_roundtrip [OF this(1) _ i this(2), of "[''r1'']" "''r1''"] i show ?thesis
    by (simp add: maximumKnownManagementRevisions_def)
qed



text \<open>
  C29. Listing the flows always succeeds for a live request: with a consistent registry and a coherent policy,
  whatever the iteration order of the flow map, the page holds the most recently active flows in order, at most
  as many as asked for, together with the number of all flows and whether some were left out; and what the
  page says of each flow is the decision that the active policy takes on the flow's latest packet.
\<close>

theorem Flows_total:
  assumes "coherent lib (mb_controller backend)" and inv: "Registry_inv (mb_registry backend)"
    and iter: "distinct iteration" "set iteration = dom (Registry_Get (mb_registry backend))"
    and "\<not> rq_nil rq" "rq_Err rq = None" "rq_lifecycleErr rq = None" "mb_ready backend" "1 \<le> limit" "limit \<le> 5000"
  shows "\<exists>page. backend_Flows rq limit iteration backend = Inr page \<and>
    list_all2 (flowShows (co_current (mb_controller backend)))
      (take (nat limit) (sort_key snapshotRank (map (entrySnapshot (mb_registry backend)) iteration))) (fp_Flows page) \<and>
    fp_Total page = Registry_Len (mb_registry backend) \<and> int (length (fp_Flows page)) \<le> limit \<and>
    fp_Truncated page = (int (Registry_Len (mb_registry backend)) > limit)"
proof -
  let ?r = "mb_registry backend" and ?policy = "co_current (mb_controller backend)"
  let ?all = "sort_key snapshotRank (map (entrySnapshot ?r) iteration)"
  have rec: "RecentSnapshots ?r iteration limit = (take (nat limit) ?all, Registry_Len ?r)" using RecentSnapshots_sorted [OF inv iter] by simp
  have ok: "\<exists>ident. snapshot_ok (rg_seed ?r) ident s" if s: "s \<in> set (take (nat limit) ?all)" for s
  proof -
    obtain x where x: "x \<in> dom (Registry_Get ?r)" "s = entrySnapshot ?r x" using in_set_takeD [OF s] iter(2) by auto
    then show ?thesis using inv entrySnapshot_Get [of ?r x] unfolding Registry_inv_def registry_core_def by blast
  qed
  obtain flows where f: "annotateFlows ?policy (take (nat limit) ?all) = Inr flows" "list_all2 (flowShows ?policy) (take (nat limit) ?all) flows"
    using annotateFlows_shows [OF assms(1) refl] ok by metis
  have len: "Registry_Len ?r = length iteration" using iter by (simp add: Registry_Len_card distinct_card [symmetric])
  have "length flows = min (nat limit) (Registry_Len ?r)" using list_all2_lengthD [OF f(2)] len by simp
  then show ?thesis using assms(5-) rec f by (auto simp: backend_Flows_def flowRuntimeAvailable_def maximumManagementFlowPageLimit_def)
qed

theorem Flows_total_witness:
  "\<exists>ident page. backend_Flows liveRequest 7 [ident] sampleBackend = Inr page \<and> length (fp_Flows page) = 1 \<and> fp_Total page = 1 \<and>
     \<not> fp_Truncated page"
proof -
  obtain ident s where get: "Registry_Get (mb_registry sampleBackend) = [ident \<mapsto> s]" and inv: "Registry_inv (mb_registry sampleBackend)"
    using sampleObserved by (auto simp: sampleBackend_def)
  have co: "coherent (yl_config sampleYaml) (mb_controller sampleBackend)" using newController_coherent [OF sampleStart] by (simp add: sampleBackend_def)
  have "Registry_Len (mb_registry sampleBackend) = 1" using get by (simp add: Registry_Len_card)
  moreover have "mb_ready sampleBackend" by (simp add: sampleBackend_def)
  ultimately obtain page where p: "backend_Flows liveRequest 7 [ident] sampleBackend = Inr page" "fp_Total page = 1" "\<not> fp_Truncated page"
      "list_all2 (flowShows (co_current (mb_controller sampleBackend))) [entrySnapshot (mb_registry sampleBackend) ident] (fp_Flows page)"
    using Flows_total [OF co inv, of "[ident]" liveRequest 7] get by (auto simp: liveRequest_def)
  then show ?thesis using list_all2_lengthD [OF p(4)] by auto
qed

end
