(* ===== verification/Peer_Protocol.thy ===== *)
theory Peer_Protocol
  imports Music
begin

text \<open>
  internal/peer/protocol.go: the messages between an edge and a host, their validation, the conversion of
  note events to and from their wire form, and the structural check of a received frame. The lexer of
  encoding/json is not modelled: a frame's token stream, and the values that \<open>Marshal\<close> and \<open>Decode\<close>
  exchange with bytes, are arguments; the walk over the tokens is the source's.
\<close>

section \<open>Messages\<close>

definition ProtocolVersion :: string where "ProtocolVersion = ''peer-v1''"
definition MaximumFrame :: nat where "MaximumFrame = 16384"
definition maximumDepth :: nat where "maximumDepth = 16"

definition TypeHello :: string where "TypeHello = ''hello''"
definition TypeNote :: string where "TypeNote = ''note''"
definition TypePing :: string where "TypePing = ''ping''"
definition TypePong :: string where "TypePong = ''pong''"
definition TypeError :: string where "TypeError = ''error''"

lemmas type_defs = TypeHello_def TypeNote_def TypePing_def TypePong_def TypeError_def

record Hello =
  he_InstanceID :: string
  he_Role :: string
  he_MappingVersion :: string

record PeerNote =
  pn_ID :: string
  pn_Origin :: string
  pn_Sequence :: u64
  pn_MappingVersion :: string
  pn_FlowID :: string
  pn_Mode :: string
  pn_Root :: u8
  pn_Pitch :: u8
  pn_Velocity :: u8
  pn_DurationMS :: int
  pn_Channel :: u8
  pn_CreatedAt :: time

record Heartbeat =
  hb_Nonce :: u64
  hb_SentAt :: time

record ProtocolError =
  pe_Code :: string
  pe_Detail :: string

record Message =
  msg_Type :: string
  msg_Version :: string
  msg_Hello :: "Hello option"
  msg_Note :: "PeerNote option"
  msg_Ping :: "Heartbeat option"
  msg_Pong :: "Heartbeat option"
  msg_Error :: "ProtocolError option"

datatype peer_error =
    VersionUnsupported string
  | PayloadCount
  | PayloadRequired string
  | HelloInstanceInvalid
  | HelloRoleInvalid
  | MappingUnsupported string
  | HeartbeatInvalid
  | ProtocolErrorInvalid
  | TypeUnsupported string
  | DurationInvalid
  | ModeUnknown string
  | NoteInvalid note_error
  | NoteIdentifierInvalid
  | FlowIDInvalid
  | NoteMappingUnsupported string
  | SequenceZero
  | TimingInvalid
  | FrameSizeInvalid
  | FrameNotUTF8
  | FrameTooLarge
  | MarshalFailed
  | DecodeFailed
  | DepthExceeded
  | TokenError string
  | ObjectNameInvalid
  | DuplicateName string
  | DelimiterInvalid
  | TrailingJSON

section \<open>Identifiers and events\<close>

definition strings_Trim :: "string \<Rightarrow> string \<Rightarrow> string" where
  "strings_Trim s cutset = rev (dropWhile (\<lambda>c. c \<in> set cutset) (rev (dropWhile (\<lambda>c. c \<in> set cutset) s)))"

definition strings_ContainsAny :: "string \<Rightarrow> string \<Rightarrow> bool" where
  "strings_ContainsAny s chars = (\<exists>c \<in> set s. c \<in> set chars)"

definition safeIdentifier :: "string \<Rightarrow> nat \<Rightarrow> bool" where
  "safeIdentifier v maximum \<longleftrightarrow>
     v \<noteq> [] \<and> v = strings_TrimSpace v \<and> length v \<le> maximum \<and>
     \<not> strings_ContainsAny v [CHR 0x00, CHR 0x0D, CHR 0x0A] \<and> noControl v"

definition validateEvent :: "NoteEvent \<Rightarrow> peer_error option" where
  "validateEvent event =
     (case NoteEvent_Validate event of
        Some e \<Rightarrow> Some (NoteInvalid e)
      | None \<Rightarrow>
        if \<not> safeIdentifier (ne_ID event) 256 \<or> \<not> safeIdentifier (ne_Origin event) 128 then Some NoteIdentifierInvalid
        else if length (ne_FlowID event) \<noteq> 24 \<or> strings_Trim (ne_FlowID event) hexDigits \<noteq> [] then Some FlowIDInvalid
        else if ne_MappingVersion event \<noteq> FlowModeV1 then Some (NoteMappingUnsupported (ne_MappingVersion event))
        else if ne_Sequence event = 0 then Some SequenceZero
        else if time_IsZero (ne_CreatedAt event) \<or> ne_Duration event smod millisecond \<noteq> 0 \<or>
                duration_Milliseconds (ne_Duration event) \<le> 0 then Some TimingInvalid
        else None)"

definition NoteFromEvent :: "NoteEvent \<Rightarrow> peer_error + PeerNote" where
  "NoteFromEvent event =
     (case validateEvent event of
        Some e \<Rightarrow> Inl e
      | None \<Rightarrow> Inr \<lparr>pn_ID = ne_ID event, pn_Origin = ne_Origin event, pn_Sequence = ne_Sequence event,
          pn_MappingVersion = ne_MappingVersion event, pn_FlowID = ne_FlowID event,
          pn_Mode = Mode_String (ne_Mode event), pn_Root = ne_Root event, pn_Pitch = ne_Note event,
          pn_Velocity = ne_Velocity event, pn_DurationMS = duration_Milliseconds (ne_Duration event),
          pn_Channel = ne_Channel event, pn_CreatedAt = ne_CreatedAt event\<rparr>)"

definition PeerNote_Event :: "PeerNote \<Rightarrow> peer_error + NoteEvent" where
  "PeerNote_Event note =
     (if pn_DurationMS note \<le> 0 \<or> pn_DurationMS note > maxInt64 sdiv millisecond then Inl DurationInvalid
      else case ParseMode (pn_Mode note) of
        None \<Rightarrow> Inl (ModeUnknown (pn_Mode note))
      | Some mode \<Rightarrow>
        let event = \<lparr>ne_ID = pn_ID note, ne_Origin = pn_Origin note, ne_Sequence = pn_Sequence note,
              ne_MappingVersion = pn_MappingVersion note, ne_FlowID = pn_FlowID note, ne_Mode = mode,
              ne_Root = pn_Root note, ne_Note = pn_Pitch note, ne_Velocity = pn_Velocity note,
              ne_Duration = wrap64 (pn_DurationMS note * millisecond), ne_Channel = pn_Channel note,
              ne_CreatedAt = pn_CreatedAt note\<rparr>
        in case validateEvent event of Some e \<Rightarrow> Inl e | None \<Rightarrow> Inr event)"

section \<open>Validation\<close>

definition Hello_validate :: "Hello \<Rightarrow> peer_error option" where
  "Hello_validate hello =
     (if \<not> safeIdentifier (he_InstanceID hello) 128 then Some HelloInstanceInvalid
      else if he_Role hello \<noteq> ''edge'' \<and> he_Role hello \<noteq> ''host'' then Some HelloRoleInvalid
      else if he_MappingVersion hello \<noteq> FlowModeV1 then Some (MappingUnsupported (he_MappingVersion hello))
      else None)"

definition Heartbeat_validate :: "Heartbeat \<Rightarrow> peer_error option" where
  "Heartbeat_validate heartbeat =
     (if hb_Nonce heartbeat = 0 \<or> time_IsZero (hb_SentAt heartbeat) then Some HeartbeatInvalid else None)"

definition Message_Validate :: "Message \<Rightarrow> peer_error option" where
  "Message_Validate message =
     (if msg_Version message \<noteq> ProtocolVersion then Some (VersionUnsupported (msg_Version message))
      else if length (filter id [msg_Hello message \<noteq> None, msg_Note message \<noteq> None, msg_Ping message \<noteq> None,
                                msg_Pong message \<noteq> None, msg_Error message \<noteq> None]) \<noteq> 1 then Some PayloadCount
      else if msg_Type message = TypeHello then
        (case msg_Hello message of None \<Rightarrow> Some (PayloadRequired TypeHello) | Some hello \<Rightarrow> Hello_validate hello)
      else if msg_Type message = TypeNote then
        (case msg_Note message of None \<Rightarrow> Some (PayloadRequired TypeNote)
         | Some note \<Rightarrow> (case PeerNote_Event note of Inl e \<Rightarrow> Some e | Inr _ \<Rightarrow> None))
      else if msg_Type message = TypePing then
        (case msg_Ping message of None \<Rightarrow> Some (PayloadRequired TypePing) | Some h \<Rightarrow> Heartbeat_validate h)
      else if msg_Type message = TypePong then
        (case msg_Pong message of None \<Rightarrow> Some (PayloadRequired TypePong) | Some h \<Rightarrow> Heartbeat_validate h)
      else if msg_Type message = TypeError then
        (case msg_Error message of
           None \<Rightarrow> Some ProtocolErrorInvalid
         | Some e \<Rightarrow> if \<not> safeIdentifier (pe_Code e) 64 \<or> strings_TrimSpace (pe_Detail e) = [] \<or> length (pe_Detail e) > 256
                     then Some ProtocolErrorInvalid else None)
      else Some (TypeUnsupported (msg_Type message)))"

section \<open>The structure of a frame\<close>

text \<open>
  What \<open>Decoder.Token\<close> yields: delimiters, strings, and values that are neither. The stream ends with
  \<open>io.EOF\<close> (None) or with the error that the lexer reports at that point.
\<close>

datatype json_token = TDelim char | TString string | TScalar

type_synonym json_decoder = "json_token list \<times> string option"

fun decoder_Token :: "json_decoder \<Rightarrow> (peer_error + json_token) \<times> json_decoder" where
  "decoder_Token (t # ts, e) = (Inr t, ts, e)"
| "decoder_Token ([], e) = (Inl (TokenError (case e of None \<Rightarrow> ''EOF'' | Some m \<Rightarrow> m)), [], e)"

fun decoder_More :: "json_decoder \<Rightarrow> bool" where
  "decoder_More (TDelim c # ts, e) \<longleftrightarrow> c \<noteq> CHR ''}'' \<and> c \<noteq> CHR '']''"
| "decoder_More (t # ts, e) \<longleftrightarrow> True"
| "decoder_More ([], e) \<longleftrightarrow> False"

text \<open>
  \<open>walkJSON\<close> and its two loops, as one recursion over where the walk is: at a value, among the members
  of an object whose names so far are given, or among the elements of an array. Every turn but the
  start of a loop consumes a token, so the fuel given below is never used up.
\<close>

datatype walk_place = WalkValue | WalkMembers "string list" | WalkElements

primrec walk :: "nat \<Rightarrow> walk_place \<Rightarrow> nat \<Rightarrow> json_decoder \<Rightarrow> peer_error option \<times> json_decoder" where
  "walk 0 place depth d = (Some (TokenError ''fuel''), d)"
| "walk (Suc fuel) place depth d =
     (case place of
        WalkValue \<Rightarrow>
          if depth > maximumDepth then (Some DepthExceeded, d)
          else (case decoder_Token d of
            (Inl e, d) \<Rightarrow> (Some e, d)
          | (Inr (TDelim c), d) \<Rightarrow>
              if c = CHR ''{'' then walk fuel (WalkMembers []) depth d
              else if c = CHR ''['' then walk fuel WalkElements depth d
              else (Some DelimiterInvalid, d)
          | (Inr _, d) \<Rightarrow> (None, d))
      | WalkMembers seen \<Rightarrow>
          if decoder_More d then
            (case decoder_Token d of
               (Inl e, d) \<Rightarrow> (Some e, d)
             | (Inr (TString name), d) \<Rightarrow>
                 if name \<in> set seen then (Some (DuplicateName name), d)
                 else (case walk fuel WalkValue (Suc depth) d of
                         (Some e, d) \<Rightarrow> (Some e, d)
                       | (None, d) \<Rightarrow> walk fuel (WalkMembers (name # seen)) depth d)
             | (Inr _, d) \<Rightarrow> (Some ObjectNameInvalid, d))
          else (case decoder_Token d of (Inl e, d) \<Rightarrow> (Some e, d) | (Inr _, d) \<Rightarrow> (None, d))
      | WalkElements \<Rightarrow>
          if decoder_More d then
            (case walk fuel WalkValue (Suc depth) d of
               (Some e, d) \<Rightarrow> (Some e, d)
             | (None, d) \<Rightarrow> walk fuel WalkElements depth d)
          else (case decoder_Token d of (Inl e, d) \<Rightarrow> (Some e, d) | (Inr _, d) \<Rightarrow> (None, d)))"

definition walkJSON :: "json_decoder \<Rightarrow> nat \<Rightarrow> peer_error option \<times> json_decoder" where
  "walkJSON d depth = walk (2 * length (fst d) + 2) WalkValue depth d"

text \<open>Anything left after the value is an error, whether it is another value or not lexically valid.\<close>

definition requireJSONEOF :: "json_decoder \<Rightarrow> peer_error option" where
  "requireJSONEOF d =
     (case d of
        ([], None) \<Rightarrow> None
      | ([], Some e) \<Rightarrow> Some (TokenError e)
      | (_ # _, _) \<Rightarrow> Some TrailingJSON)"

definition validateJSONNames :: "json_decoder \<Rightarrow> peer_error option" where
  "validateJSONNames d =
     (case walkJSON d 0 of
        (Some e, _) \<Rightarrow> Some e
      | (None, d) \<Rightarrow> requireJSONEOF d)"

text \<open>\<open>utf8.Valid\<close>: the well-formed byte sequences, without overlong forms and surrogates.\<close>

fun utf8_cont :: "nat \<Rightarrow> bytes \<Rightarrow> bool" where
  "utf8_cont 0 bs = True"
| "utf8_cont (Suc n) [] = False"
| "utf8_cont (Suc n) (b # bs) = (128 \<le> b \<and> b \<le> 191 \<and> utf8_cont n bs)"

definition utf8_lead :: "u8 \<Rightarrow> (nat \<times> u8 \<times> u8) option" where
  "utf8_lead b =
     (if 194 \<le> b \<and> b \<le> 223 then Some (1, 128, 191)
      else if b = 224 then Some (2, 160, 191)
      else if b = 237 then Some (2, 128, 159)
      else if 225 \<le> b \<and> b \<le> 239 then Some (2, 128, 191)
      else if b = 240 then Some (3, 144, 191)
      else if b = 244 then Some (3, 128, 143)
      else if 241 \<le> b \<and> b \<le> 243 then Some (3, 128, 191)
      else None)"

function utf8_Valid :: "bytes \<Rightarrow> bool" where
  "utf8_Valid bs =
     (case bs of
        [] \<Rightarrow> True
      | b # rest \<Rightarrow>
        if b \<le> 127 then utf8_Valid rest
        else case utf8_lead b of
          None \<Rightarrow> False
        | Some (n, lo, hi) \<Rightarrow>
            utf8_cont n rest \<and> lo \<le> hd rest \<and> hd rest \<le> hi \<and> utf8_Valid (drop n rest))"
  by pat_completeness auto
termination
  by (relation "measure length") auto

declare utf8_Valid.simps [simp del]

section \<open>Encoding and decoding\<close>

text \<open>
  \<open>Encode\<close> and \<open>Decode\<close> over the codec of encoding/json: the bytes of a message, the tokens of some
  bytes, and the message that strict unmarshalling reads with what it leaves.
\<close>

record json_codec =
  js_Marshal :: "Message \<Rightarrow> bytes option"
  js_Tokens :: "bytes \<Rightarrow> json_decoder"
  js_Decode :: "bytes \<Rightarrow> (Message \<times> json_decoder) option"

definition Encode :: "json_codec \<Rightarrow> Message \<Rightarrow> peer_error + bytes" where
  "Encode js message =
     (case Message_Validate message of
        Some e \<Rightarrow> Inl e
      | None \<Rightarrow>
        (case js_Marshal js message of
           None \<Rightarrow> Inl MarshalFailed
         | Some encoded \<Rightarrow> if length encoded > MaximumFrame then Inl FrameTooLarge else Inr encoded))"

definition Decode :: "json_codec \<Rightarrow> bytes \<Rightarrow> peer_error + Message" where
  "Decode js encoded =
     (if length encoded = 0 \<or> length encoded > MaximumFrame then Inl FrameSizeInvalid
      else if \<not> utf8_Valid encoded then Inl FrameNotUTF8
      else case validateJSONNames (js_Tokens js encoded) of
        Some e \<Rightarrow> Inl e
      | None \<Rightarrow>
        (case js_Decode js encoded of
           None \<Rightarrow> Inl DecodeFailed
         | Some (message, rest) \<Rightarrow>
           (case requireJSONEOF rest of
              Some e \<Rightarrow> Inl e
            | None \<Rightarrow> (case Message_Validate message of Some e \<Rightarrow> Inl e | None \<Rightarrow> Inr message))))"

section \<open>The walk checks the document\<close>

text \<open>A document, its tokens, and what the walk is there to ensure.\<close>

datatype json = JScalar | JString string | JArray "json list" | JObject "(string \<times> json) list"

fun json_tokens :: "json \<Rightarrow> json_token list" where
  "json_tokens JScalar = [TScalar]"
| "json_tokens (JString s) = [TString s]"
| "json_tokens (JArray xs) = TDelim CHR ''['' # concat (map json_tokens xs) @ [TDelim CHR '']'']"
| "json_tokens (JObject kvs) =
     TDelim CHR ''{'' # concat (map (\<lambda>(k, v). TString k # json_tokens v) kvs) @ [TDelim CHR ''}'']"

fun well_named :: "nat \<Rightarrow> json \<Rightarrow> bool" where
  "well_named depth JScalar \<longleftrightarrow> depth \<le> maximumDepth"
| "well_named depth (JString s) \<longleftrightarrow> depth \<le> maximumDepth"
| "well_named depth (JArray xs) \<longleftrightarrow> depth \<le> maximumDepth \<and> (\<forall>x \<in> set xs. well_named (Suc depth) x)"
| "well_named depth (JObject kvs) \<longleftrightarrow>
     depth \<le> maximumDepth \<and> distinct (map fst kvs) \<and> (\<forall>kv \<in> set kvs. well_named (Suc depth) (snd kv))"

lemma tokens_nonempty: "json_tokens j \<noteq> []"
  by (cases j) simp_all

lemma tokens_more: "decoder_More (json_tokens j @ ts, e)"
  by (cases j) simp_all

text \<open>
  The program walks over the tokens of a document in two places, here and in the management API, with different limits on the
  depth. What such a walk does on each token is a contract, under which it accepts exactly the good documents: \<open>leaf\<close> and
  \<open>nest\<close> say at which depths a scalar and an array or object are allowed.
\<close>

fun names_ok :: "(nat \<Rightarrow> bool) \<Rightarrow> (nat \<Rightarrow> bool) \<Rightarrow> nat \<Rightarrow> json \<Rightarrow> bool" where
  "names_ok leaf nest depth JScalar \<longleftrightarrow> leaf depth"
| "names_ok leaf nest depth (JString s) \<longleftrightarrow> leaf depth"
| "names_ok leaf nest depth (JArray xs) \<longleftrightarrow> nest depth \<and> (\<forall>x \<in> set xs. names_ok leaf nest (Suc depth) x)"
| "names_ok leaf nest depth (JObject kvs) \<longleftrightarrow>
     nest depth \<and> distinct (map fst kvs) \<and> (\<forall>kv \<in> set kvs. names_ok leaf nest (Suc depth) (snd kv))"

definition verdict :: "bool \<Rightarrow> json_decoder \<Rightarrow> bool \<times> json_decoder \<Rightarrow> bool" where
  "verdict good d r \<longleftrightarrow> (if good then r = (True, d) else \<not> fst r)"

definition andThen :: "bool \<times> json_decoder \<Rightarrow> (json_decoder \<Rightarrow> bool \<times> json_decoder) \<Rightarrow> bool \<times> json_decoder" where
  "andThen r f = (if fst r then f (snd r) else (False, snd r))"

lemma verdict_andThen: "verdict good d r \<Longrightarrow> (good \<Longrightarrow> verdict good' d' (f d)) \<Longrightarrow> verdict (good \<and> good') d' (andThen r f)"
  by (auto simp: verdict_def andThen_def split: if_splits)

locale token_walk =
  fixes run :: "nat \<Rightarrow> walk_place \<Rightarrow> nat \<Rightarrow> json_decoder \<Rightarrow> bool \<times> json_decoder" and leaf nest :: "nat \<Rightarrow> bool"
  assumes scalar: "t = TScalar \<or> (\<exists>s. t = TString s) \<Longrightarrow> verdict (leaf depth) (ts, e) (run (Suc fuel) WalkValue depth (t # ts, e))"
    and object: "nest depth \<Longrightarrow> run (Suc fuel) WalkValue depth (TDelim CHR ''{'' # ts, e) = run fuel (WalkMembers []) depth (ts, e)"
    and array: "nest depth \<Longrightarrow> run (Suc fuel) WalkValue depth (TDelim CHR ''['' # ts, e) = run fuel WalkElements depth (ts, e)"
    and deep: "\<not> nest depth \<Longrightarrow> \<not> fst (run (Suc fuel) WalkValue depth (TDelim c # ts, e))"
    and member: "k \<notin> set seen \<Longrightarrow> run (Suc fuel) (WalkMembers seen) depth (TString k # ts, e) =
      andThen (run fuel WalkValue (Suc depth) (ts, e)) (run fuel (WalkMembers (k # seen)) depth)"
    and repeated: "k \<in> set seen \<Longrightarrow> \<not> fst (run (Suc fuel) (WalkMembers seen) depth (TString k # ts, e))"
    and element: "decoder_More d \<Longrightarrow> run (Suc fuel) WalkElements depth d = andThen (run fuel WalkValue (Suc depth) d) (run fuel WalkElements depth)"
    and closing: "run (Suc fuel) (WalkMembers seen) depth (TDelim CHR ''}'' # ts, e) = (True, ts, e)"
      "run (Suc fuel) WalkElements depth (TDelim CHR '']'' # ts, e) = (True, ts, e)"
begin

text \<open>With enough fuel a walk accepts exactly the good tokens, and then stands behind them.\<close>

definition walks :: "walk_place \<Rightarrow> nat \<Rightarrow> json_token list \<Rightarrow> bool \<Rightarrow> bool" where
  "walks place depth ts good \<longleftrightarrow> (\<forall>fuel rest e. 2 * length ts + (if place = WalkValue then 0 else 1) \<le> fuel \<longrightarrow>
     verdict good (rest, e) (run fuel place depth (ts @ rest, e)))"

lemma walksI:
  assumes "\<And>fuel rest e. 2 * length ts + (if place = WalkValue then 0 else 1) \<le> Suc fuel \<Longrightarrow>
     verdict good (rest, e) (run (Suc fuel) place depth (ts @ rest, e))"
    and "place = WalkValue \<Longrightarrow> ts \<noteq> []"
  shows "walks place depth ts good"
  unfolding walks_def
proof (intro allI impI)
  fix fuel rest e
  assume le: "2 * length ts + (if place = WalkValue then 0 else 1) \<le> fuel"
  then have "fuel \<noteq> 0" using assms(2) by (cases ts) (auto split: if_splits)
  then show "verdict good (rest, e) (run fuel place depth (ts @ rest, e))" using assms(1) [of "fuel - 1" rest e] le by simp
qed

lemma walksD: "walks place depth ts good \<Longrightarrow> 2 * length ts + (if place = WalkValue then 0 else 1) \<le> fuel \<Longrightarrow>
    verdict good (rest, e) (run fuel place depth (ts @ rest, e))"
  by (simp add: walks_def)

lemma walks_elements:
  "(\<And>x. x \<in> set xs \<Longrightarrow> walks WalkValue (Suc depth) (json_tokens x) (names_ok leaf nest (Suc depth) x)) \<Longrightarrow>
     walks WalkElements depth (concat (map json_tokens xs) @ [TDelim CHR '']'']) (\<forall>x \<in> set xs. names_ok leaf nest (Suc depth) x)"
proof (induction xs)
  case Nil
  show ?case by (rule walksI) (simp_all add: verdict_def closing)
next
  case (Cons x xs)
  let ?ts = "concat (map json_tokens xs) @ [TDelim CHR '']'']"
  obtain n where len: "length (json_tokens x) = Suc n" using tokens_nonempty [of x] by (cases "json_tokens x") auto
  have "verdict (\<forall>y \<in> set (x # xs). names_ok leaf nest (Suc depth) y) (rest, e) (run (Suc fuel) WalkElements depth (json_tokens x @ ?ts @ rest, e))"
    if le: "2 * length (json_tokens x) \<le> fuel" "2 * length ?ts + 1 \<le> fuel" for fuel rest e
  proof -
    have v: "verdict (names_ok leaf nest (Suc depth) x) (?ts @ rest, e) (run fuel WalkValue (Suc depth) (json_tokens x @ ?ts @ rest, e))"
      by (rule walksD [OF Cons.prems]) (use le in simp_all)
    have es: "verdict (\<forall>x \<in> set xs. names_ok leaf nest (Suc depth) x) (rest, e) (run fuel WalkElements depth (?ts @ rest, e))"
      by (rule walksD [OF Cons.IH]) (use le Cons.prems in simp_all)
    show ?thesis using verdict_andThen [where f = "run fuel WalkElements depth", OF v es] by (simp add: element [OF tokens_more])
  qed
  then show ?case using len by (intro walksI) simp_all
qed

lemma walks_members:
  "(\<And>kv. kv \<in> set kvs \<Longrightarrow> walks WalkValue (Suc depth) (json_tokens (snd kv)) (names_ok leaf nest (Suc depth) (snd kv))) \<Longrightarrow>
     walks (WalkMembers seen) depth (concat (map (\<lambda>(k, v). TString k # json_tokens v) kvs) @ [TDelim CHR ''}''])
       (distinct (map fst kvs) \<and> set (map fst kvs) \<inter> set seen = {} \<and> (\<forall>kv \<in> set kvs. names_ok leaf nest (Suc depth) (snd kv)))"
proof (induction kvs arbitrary: seen)
  case Nil
  show ?case by (rule walksI) (simp_all add: verdict_def closing)
next
  case (Cons kv kvs)
  obtain k v where kv: "kv = (k, v)" by force
  let ?ts = "concat (map (\<lambda>(k, v). TString k # json_tokens v) kvs) @ [TDelim CHR ''}'']"
  let ?good = "distinct (map fst kvs) \<and> set (map fst kvs) \<inter> set (k # seen) = {} \<and> (\<forall>kv \<in> set kvs. names_ok leaf nest (Suc depth) (snd kv))"
  have eq: "(distinct (map fst (kv # kvs)) \<and> set (map fst (kv # kvs)) \<inter> set seen = {} \<and> (\<forall>kv \<in> set (kv # kvs). names_ok leaf nest (Suc depth) (snd kv))) \<longleftrightarrow>
      k \<notin> set seen \<and> names_ok leaf nest (Suc depth) v \<and> ?good" by (auto simp: kv)
  have "verdict (k \<notin> set seen \<and> names_ok leaf nest (Suc depth) v \<and> ?good) (rest, e) (run (Suc fuel) (WalkMembers seen) depth (TString k # json_tokens v @ ?ts @ rest, e))"
    if le: "2 * length (json_tokens v) \<le> fuel" "2 * length ?ts + 1 \<le> fuel" for fuel rest e
  proof (cases "k \<in> set seen")
    case False
    have vv: "verdict (names_ok leaf nest (Suc depth) v) (?ts @ rest, e) (run fuel WalkValue (Suc depth) (json_tokens v @ ?ts @ rest, e))"
      by (rule walksD) (use Cons.prems [of kv] le kv in simp_all)
    have ms: "verdict ?good (rest, e) (run fuel (WalkMembers (k # seen)) depth (?ts @ rest, e))"
      by (rule walksD [OF Cons.IH]) (use le Cons.prems in simp_all)
    show ?thesis using verdict_andThen [where f = "run fuel (WalkMembers (k # seen)) depth", OF vv ms] False by (simp add: member [OF False])
  qed (use repeated in \<open>simp add: verdict_def\<close>)
  then show ?case unfolding eq by (intro walksI) (simp_all add: kv)
qed

lemma walks_value: "walks WalkValue depth (json_tokens j) (names_ok leaf nest depth j)"
proof (induction j arbitrary: depth)
  case (JArray xs)
  have es: "walks WalkElements depth (concat (map json_tokens xs) @ [TDelim CHR '']'']) (\<forall>x \<in> set xs. names_ok leaf nest (Suc depth) x)"
    by (rule walks_elements) (rule JArray.IH)
  show ?case
    by (rule walksI) (use walksD [OF es] array deep in \<open>cases "nest depth", simp_all add: verdict_def [of False]\<close>)
next
  case (JObject kvs)
  have ms: "walks (WalkMembers []) depth (concat (map (\<lambda>(k, v). TString k # json_tokens v) kvs) @ [TDelim CHR ''}''])
      (distinct (map fst kvs) \<and> set (map fst kvs) \<inter> set [] = {} \<and> (\<forall>kv \<in> set kvs. names_ok leaf nest (Suc depth) (snd kv)))"
    by (rule walks_members) (metis JObject.IH prod.collapse snds.intros)
  show ?case
    by (rule walksI) (use walksD [OF ms] object deep in \<open>cases "nest depth", simp_all add: verdict_def [of False]\<close>)
qed (rule walksI, use scalar in simp_all)+

text \<open>The whole document, with the fuel that the callers give.\<close>

lemma walks_document: "verdict (names_ok leaf nest 0 j) ([], None) (run (2 * length (json_tokens j) + 2) WalkValue 0 (json_tokens j, None))"
  using walksD [OF walks_value [of 0 j], of "2 * length (json_tokens j) + 2" "[]" None] by simp

end

definition walked :: "peer_error option \<times> json_decoder \<Rightarrow> bool \<times> json_decoder" where
  "walked r = (fst r = None, snd r)"

interpretation peerWalk: token_walk "\<lambda>fuel place depth d. walked (walk fuel place depth d)" "\<lambda>depth. depth \<le> maximumDepth" "\<lambda>depth. depth \<le> maximumDepth"
  by unfold_locales (auto simp: verdict_def walked_def andThen_def split: prod.split option.split)

lemma well_named_names_ok: "well_named depth j \<longleftrightarrow> names_ok (\<lambda>depth. depth \<le> maximumDepth) (\<lambda>depth. depth \<le> maximumDepth) depth j"
  by (induction depth j rule: well_named.induct) auto

section \<open>Wire form of notes\<close>

lemma duration_ms:
  assumes "d smod millisecond = 0" and "0 < duration_Milliseconds d" and "d \<le> maxInt64"
  shows "duration_Milliseconds d * millisecond = d" and "duration_Milliseconds d \<le> maxInt64 sdiv millisecond"
proof -
  have pos: "0 \<le> d"
  proof (rule ccontr)
    assume "\<not> 0 \<le> d"
    then have "d sdiv millisecond \<le> 0" by (simp add: signed_divide_int_def millisecond_def)
    then show False using assms(2) by (simp add: duration_Milliseconds_def)
  qed
  have "d mod millisecond = 0" using assms(1) pos smod_nonneg [of d millisecond] by (simp add: millisecond_def)
  moreover have q: "duration_Milliseconds d = d div millisecond"
    using pos sdiv_nonneg [of d millisecond] by (simp add: duration_Milliseconds_def millisecond_def)
  ultimately show "duration_Milliseconds d * millisecond = d" by (metis add.right_neutral div_mult_mod_eq)
  show "duration_Milliseconds d \<le> maxInt64 sdiv millisecond"
    unfolding q using assms(3) sdiv_nonneg [of maxInt64 millisecond]
    by (simp add: millisecond_def maxInt64_def zdiv_mono1)
qed

lemma duration_of_ms:
  assumes "0 < n" and "n \<le> maxInt64 sdiv millisecond"
  shows "wrap64 (n * millisecond) = n * millisecond" and "duration_Milliseconds (n * millisecond) = n"
    and "(n * millisecond) smod millisecond = 0"
proof -
  have "maxInt64 sdiv millisecond = 9223372036854" using sdiv_nonneg [of maxInt64 millisecond]
    by (simp add: maxInt64_def millisecond_def)
  then have "int64 (n * millisecond)" using assms by (simp add: int64_def minInt64_def maxInt64_def millisecond_def)
  then show "wrap64 (n * millisecond) = n * millisecond" by simp
  show "duration_Milliseconds (n * millisecond) = n" "(n * millisecond) smod millisecond = 0"
    using assms(1) sdiv_nonneg [of "n * millisecond" millisecond] smod_nonneg [of "n * millisecond" millisecond]
    by (simp_all add: duration_Milliseconds_def millisecond_def)
qed

lemma validateEvent_None:
  "validateEvent e = None \<longleftrightarrow> NoteEvent_Validate e = None \<and> safeIdentifier (ne_ID e) 256 \<and> safeIdentifier (ne_Origin e) 128 \<and>
     length (ne_FlowID e) = 24 \<and> strings_Trim (ne_FlowID e) hexDigits = [] \<and> ne_MappingVersion e = FlowModeV1 \<and>
     ne_Sequence e \<noteq> 0 \<and> ne_CreatedAt e \<noteq> 0 \<and> ne_Duration e smod millisecond = 0 \<and> 0 < duration_Milliseconds (ne_Duration e)"
  by (auto simp: validateEvent_def time_IsZero_def split: option.splits)

lemma wire_reads_back:
  assumes "ne_Duration event \<le> maxInt64"
  shows "NoteFromEvent event = Inr wire \<longleftrightarrow> PeerNote_Event wire = Inr event"
proof
  assume "NoteFromEvent event = Inr wire"
  then have v: "validateEvent event = None"
    and wire: "wire = \<lparr>pn_ID = ne_ID event, pn_Origin = ne_Origin event, pn_Sequence = ne_Sequence event,
          pn_MappingVersion = ne_MappingVersion event, pn_FlowID = ne_FlowID event,
          pn_Mode = Mode_String (ne_Mode event), pn_Root = ne_Root event, pn_Pitch = ne_Note event,
          pn_Velocity = ne_Velocity event, pn_DurationMS = duration_Milliseconds (ne_Duration event),
          pn_Channel = ne_Channel event, pn_CreatedAt = ne_CreatedAt event\<rparr>"
    by (simp_all add: NoteFromEvent_def split: option.splits)
  have d: "0 < duration_Milliseconds (ne_Duration event)" "duration_Milliseconds (ne_Duration event) * millisecond = ne_Duration event"
    "duration_Milliseconds (ne_Duration event) \<le> maxInt64 sdiv millisecond"
    using v duration_ms [of "ne_Duration event"] assms by (simp_all add: validateEvent_None)
  have m: "ParseMode (Mode_String (ne_Mode event)) = Some (ne_Mode event)"
    using v by (intro ParseMode_String) (auto simp: validateEvent_None NoteEvent_Validate_None)
  have w: "wrap64 (ne_Duration event) = ne_Duration event" using duration_of_ms(1) [OF d(1,3)] by (simp add: d(2))
  have eta: "\<lparr>ne_ID = ne_ID event, ne_Origin = ne_Origin event, ne_Sequence = ne_Sequence event,
      ne_MappingVersion = ne_MappingVersion event, ne_FlowID = ne_FlowID event, ne_Mode = ne_Mode event,
      ne_Root = ne_Root event, ne_Note = ne_Note event, ne_Velocity = ne_Velocity event,
      ne_Duration = ne_Duration event, ne_Channel = ne_Channel event, ne_CreatedAt = ne_CreatedAt event\<rparr> = event"
    by (cases event) simp
  show "PeerNote_Event wire = Inr event" using v d m w by (simp add: PeerNote_Event_def wire Let_def eta)
next
  assume ev: "PeerNote_Event wire = Inr event"
  then obtain mode where d: "0 < pn_DurationMS wire" "pn_DurationMS wire \<le> maxInt64 sdiv millisecond"
    and m: "ParseMode (pn_Mode wire) = Some mode"
    and e: "event = \<lparr>ne_ID = pn_ID wire, ne_Origin = pn_Origin wire, ne_Sequence = pn_Sequence wire,
              ne_MappingVersion = pn_MappingVersion wire, ne_FlowID = pn_FlowID wire, ne_Mode = mode,
              ne_Root = pn_Root wire, ne_Note = pn_Pitch wire, ne_Velocity = pn_Velocity wire,
              ne_Duration = wrap64 (pn_DurationMS wire * millisecond), ne_Channel = pn_Channel wire,
              ne_CreatedAt = pn_CreatedAt wire\<rparr>"
    and v: "validateEvent event = None"
    by (auto simp: PeerNote_Event_def Let_def split: if_splits option.splits)
  have "Mode_String mode = pn_Mode wire" using ParseMode_Some [OF m] by simp
  then show "NoteFromEvent event = Inr wire"
    using v duration_of_ms [OF d] by (simp add: NoteFromEvent_def) (simp add: e)
qed

section \<open>Identifiers of mapped notes\<close>

lemma plain_safe:
  assumes "v \<noteq> []" "\<forall>c \<in> set v. plain c" "length v \<le> k"
  shows "safeIdentifier v k"
proof -
  have "v = strings_TrimSpace v" using assms(1,2) by (intro TrimSpace_plain [symmetric]) simp_all
  moreover have "\<not> strings_ContainsAny v [CHR 0x00, CHR 0x0D, CHR 0x0A]"
    using assms(2) by (auto simp: strings_ContainsAny_def plain_def)
  ultimately show ?thesis using assms noControl_plain by (auto simp: safeIdentifier_def)
qed

lemma plain_extend:
  assumes "safeIdentifier origin n" and "\<forall>c \<in> set s. plain c" and "s \<noteq> []" and "length origin + length s \<le> k"
  shows "safeIdentifier (origin @ s) k"
proof -
  have org: "origin \<noteq> []" "strings_TrimSpace origin = origin" "noControl origin"
    "\<not> strings_ContainsAny origin [CHR 0x00, CHR 0x0D, CHR 0x0A]"
    using assms(1) by (auto simp: safeIdentifier_def)
  have "strings_TrimSpace (origin @ s) = origin @ s"
  proof (cases s rule: rev_cases)
    case (snoc r d)
    show ?thesis
    proof (cases r)
      case Nil
      have ends: "\<forall>p \<in> set (map rev spaces). \<forall>c \<in> set p. \<not> plain c" using spaces_not_plain by simp
      have "stripPrefix (map rev spaces) ([] @ d # rev origin) = None"
        by (rule stripPrefix_extend [OF _ ends]) (use assms(2) snoc in \<open>simp_all add: stripPrefix_None\<close>)
      moreover have "stripPrefix spaces (origin @ d # []) = None"
        by (rule stripPrefix_extend [OF _ spaces_not_plain]) (use assms(2) snoc org(2) in \<open>simp_all add: TrimSpace_fixed\<close>)
      ultimately show ?thesis using snoc Nil by (simp add: TrimSpace_fixed)
    next
      case (Cons c r')
      then show ?thesis using TrimSpace_extend [OF org(2), of c d r'] assms(2) snoc by simp
    qed
  qed (use assms(3) in simp)
  moreover have "noControl (origin @ s)"
    by (rule noControl_append [OF org(3) noControl_plain [OF assms(2)]]) (use assms(2) in auto)
  moreover have "\<not> strings_ContainsAny (origin @ s) [CHR 0x00, CHR 0x0D, CHR 0x0A]"
  proof -
    have "\<not> plain c" if "c \<in> set [CHR 0x00, CHR 0x0D, CHR 0x0A]" for c using that by (auto simp: plain_def)
    then show ?thesis using org(4) assms(2) unfolding strings_ContainsAny_def set_append by blast
  qed
  ultimately show ?thesis using org(1) assms(4) by (simp add: safeIdentifier_def)
qed

lemma decimal_length: "n < 10 ^ k \<Longrightarrow> 0 < k \<Longrightarrow> length (decimal n) \<le> k"
proof (induction k arbitrary: n)
  case (Suc k)
  show ?case
  proof (cases "n < 10")
    case True
    then show ?thesis by (simp add: decimal.simps [of n])
  next
    case False
    then have "k \<noteq> 0" using Suc.prems by (cases k) auto
    moreover have "n div 10 < 10 ^ k" using Suc.prems by (simp add: less_mult_imp_div_less mult.commute)
    ultimately show ?thesis using Suc.IH [of "n div 10"] False by (simp add: decimal.simps [of n])
  qed
qed simp

lemma hexDigits_plain: "c \<in> set hexDigits \<Longrightarrow> plain c"
  by (auto simp: hexDigits_def plain_def)

lemma mapEventID_safe:
  assumes "safeIdentifier origin 128" and "set flowID \<subseteq> set hexDigits" and "length flowID = 24"
  shows "safeIdentifier (mapEventID origin flowID seq) 256"
proof -
  have "unat seq < 10 ^ 20" using unsigned_less [of seq, where 'a = nat] by simp
  then have "length (decimal (unat seq)) \<le> 20" by (rule decimal_length) simp
  moreover have "\<forall>c \<in> set ('':'' @ flowID @ '':'' @ decimal (unat seq)). plain c"
    using assms(2) hexDigits_plain decimal_digits [of _ "unat seq"] by (fastforce simp: plain_def)
  moreover have "length origin \<le> 128" using assms(1) by (simp add: safeIdentifier_def)
  ultimately show ?thesis
    using plain_extend [OF assms(1), of "'':'' @ flowID @ '':'' @ decimal (unat seq)" 256] assms(3)
    by (simp add: mapEventID_def)
qed

lemma hexDigits_Trim: "set s \<subseteq> set hexDigits \<Longrightarrow> strings_Trim s hexDigits = []"
proof -
  assume "set s \<subseteq> set hexDigits"
  then have "dropWhile (\<lambda>c. c \<in> set hexDigits) s = []" by (metis dropWhile_eq_Nil_conv subsetD)
  then show ?thesis unfolding strings_Trim_def by (simp only: rev.simps(1) dropWhile.simps(1))
qed

lemma sdiv_mult_smod: "0 \<le> (d::int) \<Longrightarrow> 0 < m \<Longrightarrow> m dvd d \<Longrightarrow> d smod m = 0 \<and> d sdiv m = d div m"
  by (simp add: smod_nonneg sdiv_nonneg)

lemma quantizedDuration_ms: "millisecond dvd lo \<Longrightarrow> millisecond dvd hi \<Longrightarrow> millisecond dvd quantizedDuration i lo hi"
  by (auto simp: quantizedDuration_def Let_def quantum_def)

section \<open>Samples\<close>

definition wireEvent :: NoteEvent where
  "wireEvent = \<lparr>ne_ID = ''edge:000102030405060708090a0b:7'', ne_Origin = ''edge'', ne_Sequence = 7,
     ne_MappingVersion = FlowModeV1, ne_FlowID = ''000102030405060708090a0b'', ne_Mode = 1, ne_Root = 2, ne_Note = 62,
     ne_Velocity = 90, ne_Duration = second, ne_Channel = 3, ne_CreatedAt = 5\<rparr>"

lemma wireEvent_safe: "safeIdentifier ''edge:000102030405060708090a0b:7'' 256" "safeIdentifier ''edge'' 128"
  by (rule plain_safe; simp add: plain_def)+

lemma wireEvent_valid: "validateEvent wireEvent = None"
proof -
  have "NoteEvent_Validate wireEvent = None"
    by (simp add: NoteEvent_Validate_None wireEvent_def Mode_Valid_def modeCount_def second_def)
  moreover have "strings_Trim ''000102030405060708090a0b'' hexDigits = []"
    by (rule hexDigits_Trim) (simp add: hexDigits_def)
  ultimately show ?thesis
    using wireEvent_safe smod_nonneg [of second millisecond] sdiv_nonneg [of second millisecond]
    by (simp add: validateEvent_None wireEvent_def duration_Milliseconds_def second_def millisecond_def)
qed

definition pongMessage :: Message where
  "pongMessage = \<lparr>msg_Type = TypePong, msg_Version = ProtocolVersion, msg_Hello = None, msg_Note = None, msg_Ping = None,
     msg_Pong = Some \<lparr>hb_Nonce = 1, hb_SentAt = 5\<rparr>, msg_Error = None\<rparr>"

definition pongCodec :: json_codec where
  "pongCodec = \<lparr>js_Marshal = (\<lambda>m. Some [123, 125]), js_Tokens = (\<lambda>b. (json_tokens (JObject [(''type'', JString ''pong'')]), None)),
     js_Decode = (\<lambda>b. Some (pongMessage, [], None))\<rparr>"

lemma pong_decodes: "Decode pongCodec [123, 125] = Inr pongMessage"
proof -
  have "utf8_Valid [123, 125]" by (simp add: utf8_Valid.simps)
  moreover have "validateJSONNames (json_tokens (JObject [(''type'', JString ''pong'')]), None) = None" by code_simp
  ultimately show ?thesis
    by (simp add: Decode_def pongCodec_def MaximumFrame_def requireJSONEOF_def Message_Validate_def pongMessage_def
        ProtocolVersion_def type_defs Heartbeat_validate_def time_IsZero_def del: json_tokens.simps)
qed

section \<open>Properties\<close>

text \<open>
  A note survives the wire unchanged: the wire form of an event that the sender's validator accepts
  reads back as exactly that event, and an event read from a wire form has exactly that wire form. In
  particular neither direction accepts what the other would reject.
\<close>

theorem PeerNote_roundtrip:
  assumes "ne_Duration event \<le> maxInt64"
  shows "NoteFromEvent event = Inr wire \<longleftrightarrow> PeerNote_Event wire = Inr event"
  by (rule wire_reads_back [OF assms])

theorem PeerNote_roundtrip_witness: "\<exists>wire. NoteFromEvent wireEvent = Inr wire \<and> PeerNote_Event wire = Inr wireEvent"
proof -
  have "ne_Duration wireEvent \<le> maxInt64" by (simp add: wireEvent_def second_def maxInt64_def)
  moreover obtain wire where "NoteFromEvent wireEvent = Inr wire" by (simp add: NoteFromEvent_def wireEvent_valid)
  ultimately show ?thesis using PeerNote_roundtrip by blast
qed

text \<open>
  C25. The structural check of a frame accepts a document exactly when no object in it repeats a member
  name and nesting does not exceed sixteen levels; the walk always ends.
\<close>

theorem validateJSONNames_correct: "validateJSONNames (json_tokens j, None) = None \<longleftrightarrow> well_named 0 j"
proof -
  have "verdict (well_named 0 j) ([], None) (walked (walkJSON (json_tokens j, None) 0))"
    using peerWalk.walks_document [of j] by (simp add: walkJSON_def well_named_names_ok)
  then show ?thesis
    by (cases "well_named 0 j") (auto simp: validateJSONNames_def requireJSONEOF_def verdict_def walked_def split: prod.splits option.splits)
qed



text \<open>
  What the mapper produces can be sent: for a mapper whose duration limits are whole milliseconds and
  whose origin is a valid instance identifier, every note it maps from a valid packet with a capture time
  and a positive sequence number passes the peer validator, and the host reads back the same note.
\<close>

theorem Mapper_notes_transmit:
  assumes new: "NewMapper c = Inr m" and scale: "mc_MinimumNote c < mc_MaximumNote c" "mc_MaximumDuration c \<le> maxInt64"
    and ms: "millisecond dvd mc_MinimumDuration c" "millisecond dvd mc_MaximumDuration c"
    and origin: "safeIdentifier (mc_Origin c) 128"
    and packet: "Event_Validate (mi_Packet input) = None" "ev_WireLength (mi_Packet input) \<le> maxInt64 - 200"
      "ev_CapturedAt (mi_Packet input) \<noteq> 0" "mi_Sequence input \<noteq> 0"
    and channel: "1 \<le> mi_Channel input" "mi_Channel input \<le> 16"
    and mode: "mi_Mode input = [] \<or> ParseMode (mi_Mode input) \<noteq> None \<and> mi_Root input \<le> 11"
  shows "\<exists>event wire. Mapper_Map m input = Inr event \<and> NoteFromEvent event = Inr wire \<and> PeerNote_Event wire = Inr event"
proof -
  obtain e where e: "Mapper_Map m input = Inr e" "NoteEvent_Validate e = None"
    "ne_Duration e = quantizedDuration (mi_InterArrival input) (mc_MinimumDuration c) (mc_MaximumDuration c)"
    "ne_FlowID e = Key_ID (fst (Canonicalize (mi_Packet input))) (mc_Seed c)" "ne_Sequence e = mi_Sequence input"
    "ne_ID e = mapEventID (mc_Origin c) (ne_FlowID e) (mi_Sequence input)"
    using Mapper_Map_ok [OF new scale(1) packet(1,2) channel mode] by metis
  have c: "mp_config m = c" "0 < mc_MinimumDuration c" "mc_MinimumDuration c \<le> mc_MaximumDuration c"
    using NewMapper_config [OF new] by simp_all
  have f: "ne_Origin e = mc_Origin c" "ne_MappingVersion e = FlowModeV1" "ne_CreatedAt e = ev_CapturedAt (mi_Packet input)"
    using e(1) c(1) unfolding Mapper_Map_def Let_def by (auto split: option.splits sum.splits if_splits prod.splits)
  have d: "0 < ne_Duration e" "ne_Duration e \<le> maxInt64" "millisecond dvd ne_Duration e"
    using quantizedDuration_range [OF c(3), of "mi_InterArrival input"] c(2) scale(2) quantizedDuration_ms [OF ms] e(3) by auto
  then have "ne_Duration e smod millisecond = 0" "0 < duration_Milliseconds (ne_Duration e)"
    using sdiv_mult_smod [of "ne_Duration e" millisecond] zdvd_imp_le [OF d(3)]
    by (auto simp: duration_Milliseconds_def millisecond_def pos_imp_zdiv_pos_iff)
  then have v: "validateEvent e = None"
    using e f packet origin mapEventID_safe [OF origin Key_ID_hex length_Key_ID] hexDigits_Trim [OF Key_ID_hex]
    by (simp add: validateEvent_None)
  obtain wire where "NoteFromEvent e = Inr wire" using v by (simp add: NoteFromEvent_def)
  then show ?thesis using e(1) wire_reads_back [OF d(2)] by blast
qed

theorem Mapper_notes_transmit_witness:
  "\<exists>event wire. Mapper_Map \<lparr>mp_config = sampleMapperConfig\<rparr> sampleMapInput = Inr event \<and> PeerNote_Event wire = Inr event"
proof -
  have "safeIdentifier (mc_Origin sampleMapperConfig) 128" using wireEvent_safe by (simp add: sampleMapperConfig_def)
  moreover have "mc_MaximumDuration sampleMapperConfig \<le> maxInt64" "millisecond dvd mc_MinimumDuration sampleMapperConfig"
    "millisecond dvd mc_MaximumDuration sampleMapperConfig" "ev_CapturedAt (mi_Packet sampleMapInput) \<noteq> 0"
    "mi_Sequence sampleMapInput \<noteq> 0"
    by (simp_all add: sampleMapperConfig_def millisecond_def second_def maxInt64_def sampleMapInput_def sampleEvent_def)
  ultimately show ?thesis
    using Mapper_notes_transmit [OF sampleMapper, of sampleMapInput] sampleMapInput_ok by auto
qed

end
