(* ===== verification/Safety.thy ===== *)
theory Safety
  imports Policy_Spec
begin

text \<open>
  The parts of internal/app/app.go and runtime_peer.go that keep the program from playing its own traffic:
  the safety rules for its HTTP port and for the connection to a peer, which rank above every other rule, the
  resolution of the peer's address, and the capture filter. net/url, netip.ParseAddr and the resolver are
  arguments.
\<close>

section \<open>Unused rule identifiers (uniqueRuleID)\<close>

definition ruleIDCandidate :: "string \<Rightarrow> nat \<Rightarrow> string" where
  "ruleIDCandidate base suffix = (if suffix > 0 then base @ ''_'' @ decimal suffix else base)"

lemma ruleIDCandidate_inj: "ruleIDCandidate base i = ruleIDCandidate base j \<Longrightarrow> i = j"
  by (auto simp: ruleIDCandidate_def split: if_splits)

lemma finite_candidates: "finite {k. ruleIDCandidate base k \<in> set used}"
proof (rule finite_imageD)
  show "finite (ruleIDCandidate base ` {k. ruleIDCandidate base k \<in> set used})"
    by (rule finite_subset [of _ "set used"]) auto
  show "inj_on (ruleIDCandidate base) {k. ruleIDCandidate base k \<in> set used}" using ruleIDCandidate_inj by (auto intro: inj_onI)
qed

function uniqueFrom :: "string \<Rightarrow> string list \<Rightarrow> nat \<Rightarrow> string" where
  "uniqueFrom base used suffix =
     (let candidate = ruleIDCandidate base suffix in
      if candidate \<notin> set used then candidate else uniqueFrom base used (Suc suffix))"
  by pat_completeness auto
termination
proof (relation "measure (\<lambda>(base, used, suffix). card {k. suffix \<le> k \<and> ruleIDCandidate base k \<in> set used})")
  fix base used suffix candidate
  assume c: "candidate = ruleIDCandidate base suffix" and u: "\<not> candidate \<notin> set used"
  let ?f = "\<lambda>s. {k. s \<le> k \<and> ruleIDCandidate base k \<in> set used}"
  have "finite (?f suffix)" by (rule finite_subset [OF _ finite_candidates [of base used]]) auto
  moreover have "suffix \<in> ?f suffix - ?f (Suc suffix)" "?f (Suc suffix) \<subseteq> ?f suffix" using c u by auto
  then have "?f (Suc suffix) \<subset> ?f suffix" by blast
  ultimately have "card (?f (Suc suffix)) < card (?f suffix)" by (rule psubset_card_mono)
  then show "((base, used, Suc suffix), base, used, suffix) \<in>
      measure (\<lambda>(base, used, suffix). card {k. suffix \<le> k \<and> ruleIDCandidate base k \<in> set used})" by simp
qed simp

declare uniqueFrom.simps [simp del]

definition uniqueRuleID :: "string \<Rightarrow> Rule list \<Rightarrow> string" where
  "uniqueRuleID base existing = uniqueFrom base (map ru_ID existing) 0"

lemma uniqueFrom_spec: "\<exists>k \<ge> suffix. uniqueFrom base used suffix = ruleIDCandidate base k \<and> ruleIDCandidate base k \<notin> set used"
proof (induction base used suffix rule: uniqueFrom.induct)
  case (1 base used suffix)
  show ?case
  proof (cases "ruleIDCandidate base suffix \<in> set used")
    case True
    then show ?thesis using 1 [OF refl] uniqueFrom.simps [of base used suffix] by (auto simp: Let_def) (metis Suc_leD)
  next
    case False
    then show ?thesis using uniqueFrom.simps [of base used suffix] by (auto simp: Let_def)
  qed
qed

lemma uniqueRuleID_fresh: "uniqueRuleID base existing \<notin> ru_ID ` set existing"
  using uniqueFrom_spec [of 0 base "map ru_ID existing"] unfolding uniqueRuleID_def by (metis set_map)

lemma uniqueRuleID_nonempty: "base \<noteq> [] \<Longrightarrow> uniqueRuleID base existing \<noteq> []"
  using uniqueFrom_spec [of 0 base "map ru_ID existing"] by (auto simp: uniqueRuleID_def ruleIDCandidate_def split: if_splits)

section \<open>Safety rules\<close>

definition ignoreAction :: Action where
  "ignoreAction = \<lparr>ac_State = StateIgnore, ac_Channel = 0, ac_Mode = [], ac_Root = 0\<rparr>"

definition anyTCP :: Match where
  "anyTCP = \<lparr>m_ExactFlowID = [], m_SourcePrefix = None, m_DestinationPrefix = None, m_Protocol = ProtocolTCP, m_SourcePorts = None,
     m_DestinationPorts = None, m_WireSize = None, m_RequiredTCPFlags = 0\<rparr>"

definition onePort :: "u16 \<Rightarrow> PortRange" where
  "onePort port = \<lparr>por_Minimum = port, por_Maximum = port\<rparr>"

definition safetyRule :: "string \<Rightarrow> string \<Rightarrow> Match \<Rightarrow> Rule" where
  "safetyRule ident name m = \<lparr>ru_ID = ident, ru_Name = name, ru_Enabled = True, ru_Match = m, ru_Action = ignoreAction\<rparr>"

definition httpSafetyRules :: "u16 \<Rightarrow> Rule list \<Rightarrow> Rule list" where
  "httpSafetyRules port existing =
     (let sourceID = uniqueRuleID ''__musical_packets_http_source'' existing;
          destinationID = uniqueRuleID ''__musical_packets_http_destination'' (existing @ [safetyRule sourceID [] anyTCP])
      in [safetyRule sourceID ''application HTTP source traffic'' (anyTCP\<lparr>m_SourcePorts := Some (onePort port)\<rparr>),
          safetyRule destinationID ''application HTTP destination traffic'' (anyTCP\<lparr>m_DestinationPorts := Some (onePort port)\<rparr>)])"

record peerCaptureEndpoint =
  pce_addresses :: "Addr list"
  pce_port :: u16

definition fullPrefix :: "Addr \<Rightarrow> Prefix" where
  "fullPrefix address =
     \<lparr>pfx_ip = (case address of Addr6 w z \<Rightarrow> Addr6 w [] | _ \<Rightarrow> address),
      pfx_bitsPlusOne = (case address of Addr4 _ \<Rightarrow> 33 | Addr6 _ _ \<Rightarrow> 129 | AddrZero \<Rightarrow> 0)\<rparr>"

text \<open>\<open>peerSafetyRules\<close>: the loop over the addresses, with the rules made so far.\<close>

fun peerRulesFrom :: "u16 \<Rightarrow> Rule list \<Rightarrow> nat \<Rightarrow> Addr list \<Rightarrow> Rule list \<Rightarrow> Rule list" where
  "peerRulesFrom port used index [] rules = rules"
| "peerRulesFrom port used index (address # addresses) rules =
     (let sourceID = uniqueRuleID (''__musical_packets_peer_source_'' @ decimal index) (used @ rules);
          rules = rules @ [safetyRule sourceID ''peer transport source traffic''
            (anyTCP\<lparr>m_SourcePrefix := Some (fullPrefix address), m_SourcePorts := Some (onePort port)\<rparr>)];
          destinationID = uniqueRuleID (''__musical_packets_peer_destination_'' @ decimal index) (used @ rules);
          rules = rules @ [safetyRule destinationID ''peer transport destination traffic''
            (anyTCP\<lparr>m_DestinationPrefix := Some (fullPrefix address), m_DestinationPorts := Some (onePort port)\<rparr>)]
      in peerRulesFrom port used (Suc index) addresses rules)"

definition peerSafetyRules :: "peerCaptureEndpoint \<Rightarrow> Rule list \<Rightarrow> Rule list" where
  "peerSafetyRules endpoint existing = peerRulesFrom (pce_port endpoint) existing 0 (pce_addresses endpoint) []"

text \<open>The callback that \<open>RunWithOptionsAndDependencies\<close> installs.\<close>

definition runtimeSafety :: "u16 \<Rightarrow> peerCaptureEndpoint option \<Rightarrow> Rule list \<Rightarrow> Rule list" where
  "runtimeSafety httpPort capturePeer userRules =
     (let rules = httpSafetyRules httpPort userRules in
      case capturePeer of
        None \<Rightarrow> rules
      | Some endpoint \<Rightarrow> rules @ peerSafetyRules endpoint (userRules @ rules))"

section \<open>The capture filter\<close>

definition tcpPortFilter :: "u16 \<Rightarrow> string" where
  "tcpPortFilter port = ''tcp src port '' @ decimal (unat port) @ '' or tcp dst port '' @ decimal (unat port)"

fun joinOr :: "string list \<Rightarrow> string" where
  "joinOr [] = []"
| "joinOr [x] = x"
| "joinOr (x # xs) = x @ '' or '' @ joinOr xs"

definition captureBPF :: "string \<Rightarrow> u16 \<Rightarrow> string" where
  "captureBPF filterText port =
     (let exclusion = ''not ('' @ tcpPortFilter port @ '')''; filterText = strings_TrimSpace filterText
      in if filterText = [] then exclusion else ''('' @ filterText @ '') and ('' @ exclusion @ '')'')"

definition captureBPFWithPeer :: "string \<Rightarrow> u16 \<Rightarrow> peerCaptureEndpoint option \<Rightarrow> string" where
  "captureBPFWithPeer filterText localPort endpoint =
     (let exclusions = tcpPortFilter localPort #
            (case endpoint of
               None \<Rightarrow> []
             | Some e \<Rightarrow> [''tcp port '' @ decimal (unat (pce_port e)) @ '' and ('' @
                 joinOr (map (\<lambda>address. ''host '' @ Addr_String address) (pce_addresses e)) @ '')'']);
          exclusion = ''not ('' @ joinOr exclusions @ '')'';
          filterText = strings_TrimSpace filterText
      in if filterText = [] then exclusion else ''('' @ filterText @ '') and ('' @ exclusion @ '')'')"

lemma captureBPF_without_peer: "captureBPFWithPeer filterText port None = captureBPF filterText port"
  by (simp add: captureBPFWithPeer_def captureBPF_def)

section \<open>The peer's address (resolvePeerCaptureEndpoint)\<close>

text \<open>\<open>strconv.ParseUint\<close> in base ten with sixteen bits.\<close>

definition parseUint16 :: "string \<Rightarrow> nat option" where
  "parseUint16 s = (if s \<noteq> [] \<and> list_all asciiDigit s \<and> decimalValue s \<le> 65535 then Some (decimalValue s) else None)"

fun Addr_Unmap :: "Addr \<Rightarrow> Addr" where
  "Addr_Unmap (Addr6 w z) = (if unat w div 2 ^ 32 = 0xffff then Addr4 (ucast w) else Addr6 w z)"
| "Addr_Unmap a = a"

fun Addr_Zone :: "Addr \<Rightarrow> string" where
  "Addr_Zone (Addr6 w z) = z"
| "Addr_Zone a = []"

definition AddrFromSlice :: "bytes \<Rightarrow> Addr option" where
  "AddrFromSlice b =
     (if length b = 4 then Some (Addr4 (of_nat (foldl (\<lambda>n x. 256 * n + unat x) 0 b)))
      else if length b = 16 then Some (Addr6 (of_nat (foldl (\<lambda>n x. 256 * n + unat x) 0 b)) []) else None)"

record resolve_lib =
  rl_Parse :: "string \<Rightarrow> URL option"
  rl_Port :: "URL \<Rightarrow> string"
  rl_Hostname :: "URL \<Rightarrow> string"
  rl_ParseAddr :: "string \<Rightarrow> Addr option"
  rl_lookup :: "(string \<Rightarrow> string + bytes list) option"

datatype resolve_error =
    ResolveContext
  | ResolveURL
  | ResolveScheme string
  | ResolvePort string
  | ResolveZoned
  | ResolveUnavailable
  | ResolveLookup string
  | ResolveEmpty

fun collectAddresses :: "Addr list \<Rightarrow> bytes list \<Rightarrow> Addr list" where
  "collectAddresses addresses [] = addresses"
| "collectAddresses addresses (candidate # rest) =
     (case AddrFromSlice candidate of
        None \<Rightarrow> collectAddresses addresses rest
      | Some address \<Rightarrow>
        let address = Addr_Unmap address
        in if address \<in> set addresses then collectAddresses addresses rest else collectAddresses (addresses @ [address]) rest)"

definition resolveHost :: "resolve_lib \<Rightarrow> string \<Rightarrow> resolve_error + Addr list" where
  "resolveHost lib host =
     (case rl_ParseAddr lib host of
        Some address \<Rightarrow> if Addr_Zone address \<noteq> [] then Inl ResolveZoned else Inr [Addr_Unmap address]
      | None \<Rightarrow>
        (case rl_lookup lib of
           None \<Rightarrow> Inl ResolveUnavailable
         | Some lookup \<Rightarrow>
           (case lookup host of Inl e \<Rightarrow> Inl (ResolveLookup e) | Inr resolved \<Rightarrow> Inr (collectAddresses [] resolved))))"

definition resolvePeerCaptureEndpoint :: "resolve_lib \<Rightarrow> bool \<Rightarrow> string \<Rightarrow> resolve_error + peerCaptureEndpoint" where
  "resolvePeerCaptureEndpoint lib ctxNil rawURL =
     (if ctxNil then Inl ResolveContext
      else case rl_Parse lib rawURL of
        None \<Rightarrow> Inl ResolveURL
      | Some parsed \<Rightarrow>
        let portText = rl_Port lib parsed;
            portText = (if portText \<noteq> [] then Some portText
                        else if url_Scheme parsed = ''ws'' then Some ''80''
                        else if url_Scheme parsed = ''wss'' then Some ''443'' else None)
        in case portText of
             None \<Rightarrow> Inl (ResolveScheme (url_Scheme parsed))
           | Some portText \<Rightarrow>
             (case parseUint16 portText of
                None \<Rightarrow> Inl (ResolvePort portText)
              | Some port \<Rightarrow>
                if port = 0 then Inl (ResolvePort portText)
                else case resolveHost lib (rl_Hostname lib parsed) of
                  Inl e \<Rightarrow> Inl e
                | Inr addresses \<Rightarrow>
                  if addresses = [] then Inl ResolveEmpty
                  else Inr \<lparr>pce_addresses = sort_key Addr_key addresses, pce_port = of_nat port\<rparr>))"

section \<open>What the safety rules are\<close>

definition safeRule :: "Rule \<Rightarrow> bool" where
  "safeRule rule \<longleftrightarrow> validateRule rule = None \<and> ru_Enabled rule \<and> ac_State (ru_Action rule) = StateIgnore"

text \<open>Rules that ignore, with identifiers of their own.\<close>

definition freshRules :: "Rule list \<Rightarrow> Rule list \<Rightarrow> bool" where
  "freshRules existing rules \<longleftrightarrow> distinct (map ru_ID rules) \<and> ru_ID ` set rules \<inter> ru_ID ` set existing = {} \<and> (\<forall>rule \<in> set rules. safeRule rule)"

definition plainAddr :: "Addr \<Rightarrow> bool" where
  "plainAddr address \<longleftrightarrow> Addr_IsValid address \<and> Addr_Zone address = []"

lemma safetyRule_safe:
  assumes "ident \<noteq> []" and "m_Protocol m = ProtocolTCP" and "\<And>p. m_SourcePrefix m = Some p \<or> m_DestinationPrefix m = Some p \<Longrightarrow> Prefix_IsValid p"
    and "\<not> reversed (m_SourcePorts m)" and "\<not> reversed (m_DestinationPorts m)" and "m_WireSize m = None"
  shows "safeRule (safetyRule ident name m)"
  using assms by (auto simp: safeRule_def safetyRule_def validateRule_def ignoreAction_def validateAction_def protocols_def Let_def split: option.splits)

lemma onePort_reversed [simp]: "\<not> reversed (Some (onePort port))" "\<not> reversed None"
  by (simp_all add: reversed_def onePort_def)

lemma fullPrefix_valid: "plainAddr address \<Longrightarrow> Prefix_IsValid (fullPrefix address)"
  by (cases address) (auto simp: plainAddr_def fullPrefix_def Prefix_IsValid_def)

lemma fullPrefix_Contains: "plainAddr address \<Longrightarrow> Prefix_Contains (fullPrefix address) address"
  by (cases address) (auto simp: plainAddr_def fullPrefix_def Prefix_IsValid_def Prefix_Bits_def)

lemma freshRules_snoc:
  "freshRules existing rules \<Longrightarrow> ru_ID rule \<notin> ru_ID ` set (existing @ rules) \<Longrightarrow> safeRule rule \<Longrightarrow> freshRules existing (rules @ [rule])"
  by (auto simp: freshRules_def)

lemma httpSafetyRules_fresh: "freshRules existing (httpSafetyRules port existing)"
proof -
  let ?s = "uniqueRuleID ''__musical_packets_http_source'' existing"
  let ?d = "uniqueRuleID ''__musical_packets_http_destination'' (existing @ [safetyRule ?s [] anyTCP])"
  have ids: "?s \<notin> ru_ID ` set existing" "?d \<notin> ru_ID ` set existing" "?d \<noteq> ?s" "?s \<noteq> []" "?d \<noteq> []"
    using uniqueRuleID_fresh [of "''__musical_packets_http_source''" existing]
      uniqueRuleID_fresh [of "''__musical_packets_http_destination''" "existing @ [safetyRule ?s [] anyTCP]"]
      uniqueRuleID_nonempty by (auto simp: safetyRule_def)
  have "safeRule (safetyRule ?s n (anyTCP\<lparr>m_SourcePorts := Some (onePort port)\<rparr>))"
    "safeRule (safetyRule ?d n (anyTCP\<lparr>m_DestinationPorts := Some (onePort port)\<rparr>))" for n
    using ids by (auto intro!: safetyRule_safe simp: anyTCP_def)
  then show ?thesis using ids by (auto simp: httpSafetyRules_def freshRules_def Let_def) (auto simp: safetyRule_def)
qed

text \<open>The two rules for an address.\<close>

definition coversPeer :: "u16 \<Rightarrow> Rule list \<Rightarrow> Addr \<Rightarrow> bool" where
  "coversPeer port rules address \<longleftrightarrow>
     (\<exists>rule \<in> set rules. ru_Match rule = anyTCP\<lparr>m_SourcePrefix := Some (fullPrefix address), m_SourcePorts := Some (onePort port)\<rparr>) \<and>
     (\<exists>rule \<in> set rules. ru_Match rule = anyTCP\<lparr>m_DestinationPrefix := Some (fullPrefix address), m_DestinationPorts := Some (onePort port)\<rparr>)"

lemma coversPeer_mono: "coversPeer port rules address \<Longrightarrow> set rules \<subseteq> set rules' \<Longrightarrow> coversPeer port rules' address"
  by (auto simp: coversPeer_def)

lemma peerRulesFrom_spec:
  assumes "freshRules used rules" and "\<forall>address \<in> set addresses. plainAddr address"
  shows "freshRules used (peerRulesFrom port used index addresses rules) \<and> set rules \<subseteq> set (peerRulesFrom port used index addresses rules) \<and>
    (\<forall>address \<in> set addresses. coversPeer port (peerRulesFrom port used index addresses rules) address)"
  using assms
proof (induction port used index addresses rules rule: peerRulesFrom.induct)
  case (2 port used index address addresses rules)
  let ?m1 = "anyTCP\<lparr>m_SourcePrefix := Some (fullPrefix address), m_SourcePorts := Some (onePort port)\<rparr>"
  let ?m2 = "anyTCP\<lparr>m_DestinationPrefix := Some (fullPrefix address), m_DestinationPorts := Some (onePort port)\<rparr>"
  define s where "s = safetyRule (uniqueRuleID (''__musical_packets_peer_source_'' @ decimal index) (used @ rules)) ''peer transport source traffic'' ?m1"
  define d where "d = safetyRule (uniqueRuleID (''__musical_packets_peer_destination_'' @ decimal index) (used @ rules @ [s])) ''peer transport destination traffic'' ?m2"
  have step: "peerRulesFrom port used index (address # addresses) rules = peerRulesFrom port used (Suc index) addresses ((rules @ [s]) @ [d])"
    by (simp add: Let_def s_def d_def)
  have valid: "Prefix_IsValid (fullPrefix address)" using 2(3) fullPrefix_valid by simp
  have safe: "safeRule s" "safeRule d" unfolding s_def d_def
    using valid uniqueRuleID_nonempty by (auto intro!: safetyRule_safe simp: anyTCP_def)
  have ids: "ru_ID s \<notin> ru_ID ` set (used @ rules)" "ru_ID d \<notin> ru_ID ` set (used @ rules @ [s])"
    using uniqueRuleID_fresh [of "''__musical_packets_peer_source_'' @ decimal index" "used @ rules"]
      uniqueRuleID_fresh [of "''__musical_packets_peer_destination_'' @ decimal index" "used @ rules @ [s]"]
    by (simp_all add: s_def d_def safetyRule_def)
  have fresh: "freshRules used ((rules @ [s]) @ [d])"
    using freshRules_snoc [OF freshRules_snoc [OF 2(2) ids(1) safe(1)], of d] ids(2) safe(2) by simp
  have IH: "freshRules used (peerRulesFrom port used (Suc index) addresses ((rules @ [s]) @ [d]))"
    "set ((rules @ [s]) @ [d]) \<subseteq> set (peerRulesFrom port used (Suc index) addresses ((rules @ [s]) @ [d]))"
    "\<forall>address \<in> set addresses. coversPeer port (peerRulesFrom port used (Suc index) addresses ((rules @ [s]) @ [d])) address"
    using 2(1) [OF refl refl refl refl, folded s_def, simplified, folded d_def] fresh 2(3) by (auto simp: s_def d_def)
  have "ru_Match s = ?m1" "ru_Match d = ?m2" by (simp_all add: s_def d_def safetyRule_def)
  then have "coversPeer port [s, d] address" by (auto simp: coversPeer_def)
  then have "coversPeer port (peerRulesFrom port used (Suc index) addresses ((rules @ [s]) @ [d])) address"
    by (rule coversPeer_mono) (use IH(2) in auto)
  then show ?case using IH step by auto
qed simp

lemma freshRules_append:
  "freshRules existing rules \<Longrightarrow> freshRules (existing @ rules) rules' \<Longrightarrow> freshRules existing (rules @ rules')"
  by (auto simp: freshRules_def)

lemma runtimeSafety_fresh:
  assumes "\<And>endpoint. capturePeer = Some endpoint \<Longrightarrow> \<forall>address \<in> set (pce_addresses endpoint). plainAddr address"
  shows "freshRules existing (runtimeSafety httpPort capturePeer existing)"
proof (cases capturePeer)
  case None
  then show ?thesis using httpSafetyRules_fresh by (simp add: runtimeSafety_def)
next
  case (Some endpoint)
  have "freshRules (existing @ httpSafetyRules httpPort existing) []" by (simp add: freshRules_def)
  from peerRulesFrom_spec [OF this assms [OF Some], of "pce_port endpoint" 0]
  have "freshRules (existing @ httpSafetyRules httpPort existing) (peerSafetyRules endpoint (existing @ httpSafetyRules httpPort existing))"
    by (simp add: peerSafetyRules_def)
  then show ?thesis using Some freshRules_append [OF httpSafetyRules_fresh] by (simp add: runtimeSafety_def Let_def)
qed

section \<open>Compiling with safety rules\<close>

lemma problem_Nil: "problem b e = [] \<longleftrightarrow> \<not> b"
  by (simp add: problem_def)

lemma Config_Validate_mapping:
  assumes "Config_Validate lib c = []"
  shows "mac_Seed (cf_Mapping c) \<noteq> []" and "mac_DefaultState (cf_Mapping c) \<in> {StateIgnore, StateMonitor, StatePlay}"
    and "mac_DefaultChannel (cf_Mapping c) \<noteq> 0" and "mac_DefaultChannel (cf_Mapping c) \<le> 16" and "\<exists>rules. FlowRules lib c = Inr rules"
proof -
  have "validateMapping (cf_Mapping c) = []" and rules: "(case FlowRules lib c of Inl e \<Rightarrow> [RulesInvalid e] | Inr _ \<Rightarrow> []) = []"
    using assms unfolding Config_Validate_def append_is_Nil_conv by auto
  then have "mac_Seed (cf_Mapping c) \<noteq> [] \<and> mac_DefaultState (cf_Mapping c) \<in> {StateIgnore, StateMonitor, StatePlay} \<and>
      mac_DefaultChannel (cf_Mapping c) \<noteq> 0 \<and> mac_DefaultChannel (cf_Mapping c) \<le> 16"
    by (simp add: validateMapping_def problem_Nil not_less)
  then show "mac_Seed (cf_Mapping c) \<noteq> []" "mac_DefaultState (cf_Mapping c) \<in> {StateIgnore, StateMonitor, StatePlay}"
    "mac_DefaultChannel (cf_Mapping c) \<noteq> 0" "mac_DefaultChannel (cf_Mapping c) \<le> 16" by blast+
  show "\<exists>rules. FlowRules lib c = Inr rules" using rules by (cases "FlowRules lib c") auto
qed

lemma FlowRules_valid:
  assumes "lib_ok lib" and "FlowRules lib c = Inr rules"
  shows "distinct (map ru_ID rules)" and "\<forall>rule \<in> set rules. validateRule rule = None"
proof -
  have c: "ToFlowRules lib (cf_Rules c) = Inr rules" using assms(2) by (simp add: FlowRules_def)
  show "distinct (map ru_ID rules)" using ToFlowRules_ok(2) [OF c] .
  have "validateRule (rules ! i) = None" if "i < length rules" for i
    using list_all2_nthD2 [OF ToFlowRules_ok(1) [OF c] that] toFlowRule_valid [OF assms(1)] by blast
  then show "\<forall>rule \<in> set rules. validateRule rule = None" by (auto simp: in_set_conv_nth)
qed

lemma distinct_partition: "distinct (map f xs) \<Longrightarrow> distinct (map f (filter P xs @ filter (\<lambda>x. \<not> P x) xs))"
proof -
  assume "distinct (map f xs)"
  moreover have "set (filter P xs @ filter (\<lambda>x. \<not> P x) xs) = set xs" by auto
  ultimately show ?thesis unfolding distinct_map by auto
qed

text \<open>A valid configuration compiles with every safety callback that adds fresh rules that ignore.\<close>

lemma compileSelector_safety:
  assumes lib: "lib_ok lib" and valid: "Config_Validate lib c = []" and fresh: "\<And>existing. freshRules existing (f existing)"
  shows "\<exists>selector rules. compileSelector lib c (Some f) = Inr selector \<and> FlowRules lib c = Inr rules \<and> sl_safetyRules selector = f rules"
proof -
  note m = Config_Validate_mapping [OF valid]
  obtain rules where r: "FlowRules lib c = Inr rules" using m(5) by blast
  note v = FlowRules_valid [OF lib r]
  let ?exact = "\<lambda>rule. m_ExactFlowID (ru_Match rule) \<noteq> []"
  let ?cfg = "\<lparr>sc_Seed = mac_Seed (cf_Mapping c), sc_Default = \<lparr>ac_State = mac_DefaultState (cf_Mapping c),
      ac_Channel = mac_DefaultChannel (cf_Mapping c), ac_Mode = [], ac_Root = 0\<rparr>, sc_SafetyRules = f rules,
      sc_PinnedRules = filter ?exact rules, sc_UserRules = filter (\<lambda>rule. \<not> ?exact rule) rules\<rparr>"
  have "validateAction (sc_Default ?cfg) = None" using m(2,4) by (auto simp: validateAction_def)
  moreover have "distinct (map ru_ID (filter ?exact rules @ filter (\<lambda>rule. \<not> ?exact rule) rules))" using distinct_partition [OF v(1)] by blast
  moreover have "distinct (map ru_ID (f rules))" "ru_ID ` set (f rules) \<inter> ru_ID ` set rules = {}" "\<forall>rule \<in> set (f rules). safeRule rule"
    using fresh [of rules] by (auto simp: freshRules_def)
  ultimately have "Selector_inv (configured ?cfg)"
    using m v(2) by (auto simp: Selector_inv_def configured_def selector_rules_def safeRule_def)
  then have "NewSelector ?cfg = Inr (configured ?cfg)" by (simp add: NewSelector_iff)
  then show ?thesis using r by (simp add: compileSelector_def configured_def Let_def)
qed

section \<open>The resolved peer\<close>

lemma AddrFromSlice_plain: "AddrFromSlice b = Some a \<Longrightarrow> plainAddr (Addr_Unmap a)"
  by (auto simp: AddrFromSlice_def plainAddr_def split: if_splits)

lemma collectAddresses_plain:
  assumes "distinct addresses" and "\<forall>a \<in> set addresses. plainAddr a"
  shows "distinct (collectAddresses addresses candidates) \<and> (\<forall>a \<in> set (collectAddresses addresses candidates). plainAddr a)"
  using assms
  by (induction addresses candidates rule: collectAddresses.induct) (auto simp: Let_def AddrFromSlice_plain split: option.splits)

text \<open>What a parsed address is: \<open>netip.ParseAddr\<close> never returns the zero address.\<close>

definition resolver_ok :: "resolve_lib \<Rightarrow> bool" where
  "resolver_ok lib \<longleftrightarrow> (\<forall>s a. rl_ParseAddr lib s = Some a \<longrightarrow> Addr_IsValid a)"

lemma Unmap_plain: "Addr_IsValid a \<Longrightarrow> Addr_Zone a = [] \<Longrightarrow> plainAddr (Addr_Unmap a)"
  by (cases a) (auto simp: plainAddr_def)

lemma resolved_plain:
  assumes "resolver_ok lib" and "resolvePeerCaptureEndpoint lib b url = Inr endpoint"
  shows "distinct (pce_addresses endpoint)" and "pce_addresses endpoint \<noteq> []" and "\<forall>a \<in> set (pce_addresses endpoint). plainAddr a"
proof -
  obtain host addresses where h: "resolveHost lib host = Inr addresses" "pce_addresses endpoint = sort_key Addr_key addresses" "addresses \<noteq> []"
    using assms(2) by (auto simp: resolvePeerCaptureEndpoint_def Let_def split: if_splits option.splits sum.splits)
  have "distinct addresses \<and> (\<forall>a \<in> set addresses. plainAddr a)"
    using h(1) assms(1) Unmap_plain collectAddresses_plain [of "[]"]
    by (auto simp: resolveHost_def resolver_ok_def split: option.splits if_splits sum.splits)
  then show "distinct (pce_addresses endpoint)" "pce_addresses endpoint \<noteq> []" "\<forall>a \<in> set (pce_addresses endpoint). plainAddr a"
    using h(2,3) by (auto simp: distinct_sort) (metis length_0_conv length_sort)
qed

section \<open>Properties\<close>

text \<open>The traffic of the program itself: its HTTP port, and the connection to its peer.\<close>

definition ownTraffic :: "u16 \<Rightarrow> peerCaptureEndpoint option \<Rightarrow> Event \<Rightarrow> bool" where
  "ownTraffic httpPort capturePeer event \<longleftrightarrow>
     ev_Protocol event = ProtocolTCP \<and>
     (ep_Port (ev_Source event) = httpPort \<or> ep_Port (ev_Destination event) = httpPort \<or>
      (\<exists>endpoint. capturePeer = Some endpoint \<and>
         (ep_Addr (ev_Source event) \<in> set (pce_addresses endpoint) \<and> ep_Port (ev_Source event) = pce_port endpoint \<or>
          ep_Addr (ev_Destination event) \<in> set (pce_addresses endpoint) \<and> ep_Port (ev_Destination event) = pce_port endpoint)))"

lemma ownTraffic_matched:
  assumes plain: "\<And>endpoint. capturePeer = Some endpoint \<Longrightarrow> \<forall>address \<in> set (pce_addresses endpoint). plainAddr address"
    and own: "ownTraffic httpPort capturePeer event"
  shows "\<exists>rule \<in> set (runtimeSafety httpPort capturePeer existing). matches (ru_Match rule) event flowID"
proof -
  let ?http = "httpSafetyRules httpPort existing"
  have sub: "set ?http \<subseteq> set (runtimeSafety httpPort capturePeer existing)" by (auto simp: runtimeSafety_def Let_def split: option.splits)
  have tcp: "ev_Protocol event = ProtocolTCP" using own by (simp add: ownTraffic_def)
  show ?thesis
  proof (cases "ep_Port (ev_Source event) = httpPort \<or> ep_Port (ev_Destination event) = httpPort")
    case True
    then have "\<exists>rule \<in> set ?http. matches (ru_Match rule) event flowID"
      using tcp by (auto simp: httpSafetyRules_def safetyRule_def matches_def anyTCP_def onePort_def PortRange_contains_def Let_def)
    then show ?thesis using sub by blast
  next
    case False
    then obtain endpoint address where e: "capturePeer = Some endpoint" "address \<in> set (pce_addresses endpoint)"
      and m: "ep_Addr (ev_Source event) = address \<and> ep_Port (ev_Source event) = pce_port endpoint \<or>
        ep_Addr (ev_Destination event) = address \<and> ep_Port (ev_Destination event) = pce_port endpoint"
      using own by (auto simp: ownTraffic_def)
    have "freshRules (existing @ ?http) []" by (simp add: freshRules_def)
    from peerRulesFrom_spec [OF this plain [OF e(1)], of "pce_port endpoint" 0]
    have c: "coversPeer (pce_port endpoint) (peerSafetyRules endpoint (existing @ ?http)) address" using e(2) by (simp add: peerSafetyRules_def)
    have "Prefix_Contains (fullPrefix address) address" using plain e fullPrefix_Contains by blast
    then have "matches (anyTCP\<lparr>m_SourcePrefix := Some (fullPrefix address), m_SourcePorts := Some (onePort (pce_port endpoint))\<rparr>) event flowID \<or>
        matches (anyTCP\<lparr>m_DestinationPrefix := Some (fullPrefix address), m_DestinationPorts := Some (onePort (pce_port endpoint))\<rparr>) event flowID"
      using m tcp by (auto simp: matches_def anyTCP_def onePort_def PortRange_contains_def simp del: Prefix_Contains.simps)
    then have "\<exists>rule \<in> set (peerSafetyRules endpoint (existing @ ?http)). matches (ru_Match rule) event flowID"
      using c unfolding coversPeer_def by metis
    then show ?thesis using e(1) by (auto simp: runtimeSafety_def Let_def)
  qed
qed

text \<open>
  C10. The program never plays its own traffic. For every valid configuration the policy compiles with the
  safety rules of the running server and of the resolved peer, whatever identifiers the user gave to
  rules, and every valid packet to or from the HTTP port or the peer's endpoint is then ignored,
  whatever user rules, mutes and solos say; the search for unused identifiers always ends.
\<close>

theorem Safety_own_traffic:
  assumes "lib_ok lib" and "Config_Validate lib c = []" and "resolver_ok rlib"
    and peer: "capturePeer = None \<or> (\<exists>endpoint url. capturePeer = Some endpoint \<and> resolvePeerCaptureEndpoint rlib False url = Inr endpoint)"
  shows "\<exists>selector. compileSelector lib c (Some (runtimeSafety httpPort capturePeer)) = Inr selector \<and>
    (\<forall>event overlay. Event_Validate event = None \<and> ownTraffic httpPort capturePeer event \<longrightarrow>
       (\<exists>sel. Evaluate selector event overlay = Inr sel \<and> sel_State sel = StateIgnore \<and> sel_Tier sel = ''safety''))"
proof -
  have plain: "\<forall>address \<in> set (pce_addresses endpoint). plainAddr address" if "capturePeer = Some endpoint" for endpoint
    using that peer resolved_plain(3) [OF assms(3)] by auto
  obtain selector rules where s: "compileSelector lib c (Some (runtimeSafety httpPort capturePeer)) = Inr selector"
    "sl_safetyRules selector = runtimeSafety httpPort capturePeer rules"
    using compileSelector_safety [OF assms(1,2), of "runtimeSafety httpPort capturePeer"] runtimeSafety_fresh plain by blast
  have fresh: "freshRules rules (runtimeSafety httpPort capturePeer rules)" using runtimeSafety_fresh plain by blast
  have "\<exists>sel. Evaluate selector event overlay = Inr sel \<and> sel_State sel = StateIgnore \<and> sel_Tier sel = ''safety''"
    if ev: "Event_Validate event = None" "ownTraffic httpPort capturePeer event" for event overlay
  proof -
    let ?flowID = "Key_ID (fst (Canonicalize event)) (sl_seed selector)"
    obtain rule where "rule \<in> set (sl_safetyRules selector)" "matches (ru_Match rule) event ?flowID" "ru_Enabled rule"
      using ownTraffic_matched [OF plain ev(2), of rules ?flowID] fresh s(2) by (auto simp: freshRules_def safeRule_def)
    then obtain first where f: "firstMatch (sl_safetyRules selector) event ?flowID = Some first"
      using firstMatch_None [of "sl_safetyRules selector" event ?flowID] by fastforce
    have "ac_State (ru_Action first) = StateIgnore" using firstMatch_in [OF f] fresh s(2) by (auto simp: freshRules_def safeRule_def)
    then show ?thesis using Evaluate_decision [OF ev(1) refl, of selector overlay] f by (auto simp: decision_def)
  qed
  then show ?thesis using s(1) by blast
qed

definition sampleResolver :: resolve_lib where
  "sampleResolver = \<lparr>rl_Parse = (\<lambda>s. Some \<lparr>url_Scheme = ''ws'', url_Host = s, url_User = None, url_RawQuery = [], url_Fragment = [], url_rest = []\<rparr>),
     rl_Port = (\<lambda>_. []), rl_Hostname = url_Host, rl_ParseAddr = (\<lambda>_. None), rl_lookup = Some (\<lambda>_. Inr [[10, 0, 0, 7], [10, 0, 0], [10, 0, 0, 7]])\<rparr>"

definition sampleEndpoint :: peerCaptureEndpoint where
  "sampleEndpoint = \<lparr>pce_addresses = [Addr4 0x0A000007], pce_port = 80\<rparr>"

lemma sampleResolved: "resolvePeerCaptureEndpoint sampleResolver False ''host'' = Inr sampleEndpoint"
  by (simp add: resolvePeerCaptureEndpoint_def sampleResolver_def resolveHost_def AddrFromSlice_def parseUint16_def asciiDigit_def
      decimalValue_def sampleEndpoint_def Let_def)

theorem Safety_own_traffic_witness:
  "\<exists>selector sel. compileSelector sampleConfigLib Config_Default (Some (runtimeSafety 8080 (Some sampleEndpoint))) = Inr selector \<and>
     Evaluate selector (sampleEvent\<lparr>ev_Protocol := ProtocolTCP, ev_Source := \<lparr>ep_Addr = Addr4 0x0A000007, ep_Port = 80\<rparr>\<rparr>) noOverlay = Inr sel \<and>
     sel_State sel = StateIgnore"
proof -
  let ?event = "sampleEvent\<lparr>ev_Protocol := ProtocolTCP, ev_Source := \<lparr>ep_Addr = Addr4 0x0A000007, ep_Port = 80\<rparr>\<rparr>"
  have "resolver_ok sampleResolver" by (simp add: resolver_ok_def sampleResolver_def)
  moreover have "ownTraffic 8080 (Some sampleEndpoint) ?event" by (simp add: ownTraffic_def sampleEndpoint_def)
  moreover have "Event_Validate ?event = None" using sampleEvent_valid by (auto simp: Event_Validate_None protocols_def)
  ultimately show ?thesis
    using Safety_own_traffic [OF sampleConfigLib_ok Config_Default_valid, of sampleResolver "Some sampleEndpoint" 8080] sampleResolved by blast
qed

end
