(* ===== verification/Api.thy ===== *)
theory Api
  imports Management_Spec Peer_Protocol Safety
begin

text \<open>
  internal/managementapi: the HTTP handler of the local management API, from the check that a request is
  local, through routing, conditional headers and the strict decoding of bodies, to the response and the
  observations made of it. The handler is written against the interface \<open>Backend\<close>; so is this model, with
  the interface as a record of operations over an abstract state. Responses are status, headers the code
  chooses, and the value that is encoded as the body; detail texts and lengths are left out. The parsers of
  the standard library (\<open>net.ParseIP\<close>, \<open>url.Parse\<close>, \<open>url.ParseQuery\<close>, \<open>mime.ParseMediaType\<close> and the
  lexer of encoding/json) are an argument.
\<close>

section \<open>Documents (midi.go, interfaces.go)\<close>

record MIDIDevice =
  mdv_Number :: int
  mdv_Name :: string

datatype MIDIDiscoveryState = MIDIDiscoveryDisabled | MIDIDiscoveryOK | MIDIDiscoveryError

record MIDIDevicesDocument =
  mdd_Enabled :: bool
  mdd_Discovery :: MIDIDiscoveryState
  mdd_Connected :: bool
  mdd_Current :: "MIDIDevice option"
  mdd_Devices :: "MIDIDevice list"

record MIDIAuditionRequest =
  mar_Channel :: int
  mar_Note :: int
  mar_Velocity :: int
  mar_DurationMS :: int

record midiAuditionBody =
  mab_Channel :: "int option"
  mab_Note :: "int option"
  mab_Velocity :: "int option"
  mab_DurationMS :: "int option"

record CaptureInterface =
  cin_Name :: string
  cin_Description :: string
  cin_Addresses :: "string list"
  cin_Up :: bool
  cin_Loopback :: bool

record InterfacesDocument =
  ind_Configured :: string
  ind_Selected :: string
  ind_Interfaces :: "CaptureInterface list"

section \<open>The interface of the backend (handler.go)\<close>

text \<open>One operation per method; \<open>'p\<close> is the document of the peers, which the handler only encodes.\<close>

record ('b, 'p) Backend =
  bk_Status :: "mgmt_request \<Rightarrow> 'b \<Rightarrow> (management_error + Status) \<times> 'b"
  bk_Config :: "mgmt_request \<Rightarrow> 'b \<Rightarrow> (management_error + ConfigDocument) \<times> 'b"
  bk_PendingConfig :: "mgmt_request \<Rightarrow> 'b \<Rightarrow> (management_error + ConfigDocument) \<times> 'b"
  bk_ValidateConfig :: "mgmt_request \<Rightarrow> Config \<Rightarrow> 'b \<Rightarrow> (management_error + ManagementValidation) \<times> 'b"
  bk_UpdateConfig :: "mgmt_request \<Rightarrow> string \<Rightarrow> Config \<Rightarrow> 'b \<Rightarrow> (management_error + ConfigDocument) \<times> 'b"
  bk_StageConfig :: "mgmt_request \<Rightarrow> string \<Rightarrow> Config \<Rightarrow> 'b \<Rightarrow> (management_error + ConfigDocument) \<times> 'b"
  bk_CancelPendingConfig :: "mgmt_request \<Rightarrow> string \<Rightarrow> 'b \<Rightarrow> (management_error + ConfigDocument) \<times> 'b"
  bk_Rules :: "mgmt_request \<Rightarrow> 'b \<Rightarrow> (management_error + RulesDocument) \<times> 'b"
  bk_EditRules :: "mgmt_request \<Rightarrow> string \<Rightarrow> rule_edit \<Rightarrow> 'b \<Rightarrow> (management_error + RulesDocument) \<times> 'b"
  bk_Flows :: "mgmt_request \<Rightarrow> int \<Rightarrow> 'b \<Rightarrow> (management_error + FlowPage) \<times> 'b"
  bk_SetFlows :: "mgmt_request \<Rightarrow> string list \<Rightarrow> bool \<Rightarrow> 'b \<Rightarrow> (management_error + FlowOverlay) \<times> 'b"
  bk_MIDIDevices :: "mgmt_request \<Rightarrow> 'b \<Rightarrow> (management_error + MIDIDevicesDocument) \<times> 'b"
  bk_AuditionMIDI :: "mgmt_request \<Rightarrow> MIDIAuditionRequest \<Rightarrow> 'b \<Rightarrow> management_error option \<times> 'b"
  bk_PanicMIDI :: "mgmt_request \<Rightarrow> 'b \<Rightarrow> management_error option \<times> 'b"
  bk_Interfaces :: "mgmt_request \<Rightarrow> 'b \<Rightarrow> (management_error + InterfacesDocument) \<times> 'b"
  bk_Peers :: "mgmt_request \<Rightarrow> 'b \<Rightarrow> (management_error + 'p) \<times> 'b"

section \<open>Requests and responses\<close>

text \<open>\<open>hr_Origin\<close> is the header as the map holds it; \<open>hr_Body\<close> the bytes that arrive and whether reading fails after them.\<close>

record http_request =
  hr_Method :: string
  hr_EscapedPath :: string
  hr_RawQuery :: string
  hr_ForceQuery :: bool
  hr_Fragment :: string
  hr_RemoteAddr :: string
  hr_Host :: string
  hr_TLS :: bool
  hr_Origin :: "string list option"
  hr_IfMatch :: "string list"
  hr_ContentEncoding :: "string list"
  hr_ContentType :: "string list"
  hr_Body :: "bytes \<times> bool"

datatype 'p http_body =
    BodyProblem string "string list"
  | BodyConfig Config
  | BodyStatus Status
  | BodyValidation ManagementValidation
  | BodyRules RulesDocument
  | BodyFlows FlowPage
  | BodyOverlay FlowOverlay
  | BodyDevices MIDIDevicesDocument
  | BodyInterfaces InterfacesDocument
  | BodyPeers 'p
  | BodyEmpty

record 'p http_response =
  rs_Status :: nat
  rs_ETag :: "string option"
  rs_Allow :: "string option"
  rs_Location :: "string option"
  rs_Body :: "'p http_body"

text \<open>What the handler uses of the standard library.\<close>

record 'p http_lib =
  hl_yaml :: yaml_lib
  hl_PrefixString :: "Prefix \<Rightarrow> string"
  hl_ParseIP :: "string \<Rightarrow> Addr option"
  hl_Parse :: "string \<Rightarrow> URL option"
  hl_Path :: "URL \<Rightarrow> string"
  hl_ParseMediaType :: "string \<Rightarrow> (string \<times> (string \<times> string) list) option"
  hl_ParseQuery :: "string \<Rightarrow> (string \<times> string list) list option"
  hl_Marshals :: "'p http_body \<Rightarrow> bool"
  hl_Tokens :: "bytes \<Rightarrow> json_decoder"
  hl_Value :: "bytes \<Rightarrow> (json \<times> json_decoder) option"
  hl_Rule :: "bytes \<Rightarrow> (RuleConfig \<times> json_decoder) option"
  hl_Rules :: "bytes \<Rightarrow> (RuleConfig list option \<times> json_decoder) option"
  hl_Order :: "bytes \<Rightarrow> (string list option \<times> json_decoder) option"
  hl_FlowSet :: "bytes \<Rightarrow> (string list option \<times> json_decoder) option"
  hl_Audition :: "bytes \<Rightarrow> (midiAuditionBody \<times> json_decoder) option"

text \<open>A HEAD response has no body.\<close>

definition respond :: "http_request \<Rightarrow> nat \<Rightarrow> 'p http_body \<Rightarrow> 'p http_response" where
  "respond request status body =
     \<lparr>rs_Status = status, rs_ETag = None, rs_Allow = None, rs_Location = None,
      rs_Body = (if hr_Method request = ''HEAD'' then BodyEmpty else body)\<rparr>"

definition writeProblem :: "'p http_lib \<Rightarrow> http_request \<Rightarrow> nat \<Rightarrow> string \<Rightarrow> string list \<Rightarrow> 'p http_response" where
  "writeProblem lib request status code names =
     (if hl_Marshals lib (BodyProblem code names) then respond request status (BodyProblem code names)
      else respond request 500 (BodyProblem ''internal_error'' []))"

definition writeJSON :: "'p http_lib \<Rightarrow> http_request \<Rightarrow> nat \<Rightarrow> 'p http_body \<Rightarrow> 'p http_response" where
  "writeJSON lib request status body =
     (if hl_Marshals lib body then respond request status body else writeProblem lib request 500 ''internal_error'' [])"

definition writeEmptyResponse :: "nat \<Rightarrow> 'p http_response" where
  "writeEmptyResponse status = \<lparr>rs_Status = status, rs_ETag = None, rs_Allow = None, rs_Location = None, rs_Body = BodyEmpty\<rparr>"

definition methodNotAllowed :: "'p http_lib \<Rightarrow> http_request \<Rightarrow> string \<Rightarrow> 'p http_response" where
  "methodNotAllowed lib request allow = (writeProblem lib request 405 ''method_not_allowed'' [])\<lparr>rs_Allow := Some allow\<rparr>"

definition validRevision :: "string \<Rightarrow> bool" where
  "validRevision v \<longleftrightarrow> length v = 64 \<and> (\<forall>c \<in> set v. c \<in> set ''0123456789abcdef'')"

definition formatETag :: "string \<Rightarrow> string option" where
  "formatETag revision = (if validRevision revision then Some (CHR 34 # revision @ [CHR 34]) else None)"

datatype if_match_error = MissingIfMatch | InvalidIfMatch

definition parseIfMatch :: "string list \<Rightarrow> if_match_error + string" where
  "parseIfMatch values =
     (case values of
        [] \<Rightarrow> Inl MissingIfMatch
      | [raw] \<Rightarrow>
        let v = strings_TrimSpace raw in
        if length v < 3 \<or> hd v \<noteq> CHR 34 \<or> last v \<noteq> CHR 34 \<or> hasPrefix v ''W/'' then Inl InvalidIfMatch
        else let opaque = butlast (tl v) in if validRevision opaque then Inr opaque else Inl InvalidIfMatch
      | _ \<Rightarrow> Inl InvalidIfMatch)"

definition requestRevision :: "'p http_lib \<Rightarrow> http_request \<Rightarrow> 'p http_response + string" where
  "requestRevision lib request =
     (case parseIfMatch (hr_IfMatch request) of
        Inr expected \<Rightarrow> Inr expected
      | Inl MissingIfMatch \<Rightarrow> Inl (writeProblem lib request 428 ''precondition_required'' [])
      | Inl InvalidIfMatch \<Rightarrow> Inl (writeProblem lib request 400 ''invalid_if_match'' []))"

definition writeConfig :: "'p http_lib \<Rightarrow> http_request \<Rightarrow> ConfigDocument \<Rightarrow> 'p http_response" where
  "writeConfig lib request document =
     (case config_Encode (hl_yaml lib) (cd_Config document) of
        Inl _ \<Rightarrow> writeProblem lib request 500 ''internal_error'' []
      | Inr _ \<Rightarrow>
        (case formatETag (cd_Revision document) of
           None \<Rightarrow> writeProblem lib request 500 ''internal_error'' []
         | Some etag \<Rightarrow> (respond request 200 (BodyConfig (cd_Config document)))\<lparr>rs_ETag := Some etag\<rparr>))"

fun kindStatus :: "ErrorKind \<Rightarrow> nat \<times> string" where
  "kindStatus ErrorInvalid = (422, ''invalid'')"
| "kindStatus ErrorPreconditionFailed = (412, ''precondition_failed'')"
| "kindStatus ErrorConflict = (409, ''conflict'')"
| "kindStatus ErrorNotFound = (404, ''not_found'')"
| "kindStatus ErrorRateLimited = (429, ''rate_limited'')"
| "kindStatus ErrorUnavailable = (503, ''unavailable'')"

definition writeBackendError :: "'p http_lib \<Rightarrow> http_request \<Rightarrow> management_error \<Rightarrow> 'p http_response" where
  "writeBackendError lib request err =
     (case err of
        Passed _ \<Rightarrow> writeProblem lib request 500 ''internal_error'' []
      | Backend e \<Rightarrow>
        let (status, defaultCode) = kindStatus (be_Kind e);
            code = (if be_Code e = [] then defaultCode else be_Code e)
        in if be_ActualRevision e \<noteq> [] then
             (case formatETag (be_ActualRevision e) of
                None \<Rightarrow> writeProblem lib request 500 ''internal_error'' []
              | Some etag \<Rightarrow> (writeProblem lib request status code (be_Fields e))\<lparr>rs_ETag := Some etag\<rparr>)
           else writeProblem lib request status code (be_Fields e))"

section \<open>Local requests (handler.go)\<close>

definition IP_IsLoopback :: "Addr \<Rightarrow> bool" where
  "IP_IsLoopback ip = (case Addr_Unmap ip of Addr4 w \<Rightarrow> unat w div 2 ^ 24 = 127 | Addr6 w z \<Rightarrow> w = 1 | AddrZero \<Rightarrow> False)"

text \<open>
  \<open>strings.EqualFold\<close> with a second argument in lower-case ASCII. Besides the ASCII capitals, two letters
  outside ASCII fold into it: the long s (C5 BF) and the Kelvin sign (E2 84 AA).
\<close>

definition foldASCII :: "char \<Rightarrow> char" where
  "foldASCII c = (let n = of_char c :: nat in if 65 \<le> n \<and> n \<le> 90 then char_of (n + 32) else c)"

fun equalFold :: "string \<Rightarrow> string \<Rightarrow> bool" where
  "equalFold s [] \<longleftrightarrow> s = []"
| "equalFold s (c # t) \<longleftrightarrow>
     s \<noteq> [] \<and> foldASCII (hd s) = c \<and> equalFold (tl s) t \<or>
     c = CHR ''s'' \<and> hasPrefix s [CHR 0xC5, CHR 0xBF] \<and> equalFold (drop 2 s) t \<or>
     c = CHR ''k'' \<and> hasPrefix s [CHR 0xE2, CHR 0x84, CHR 0xAA] \<and> equalFold (drop 3 s) t"

text \<open>The authority without its port, which may be missing, or None when the text is not one.\<close>

definition splitAuthority :: "string \<Rightarrow> (string \<times> string) option" where
  "splitAuthority v =
     (case net_SplitHostPort v of
        Some (host, port) \<Rightarrow> if port = [] then None else Some (host, port)
      | None \<Rightarrow>
        if v \<noteq> [] \<and> hd v = CHR ''['' \<and> last v = CHR '']'' then Some (butlast (tl v), [])
        else if CHR '':'' \<in> set v then None else Some (v, []))"

definition loopbackAuthority :: "'p http_lib \<Rightarrow> string \<Rightarrow> string \<Rightarrow> u16 \<Rightarrow> bool" where
  "loopbackAuthority lib v scheme allowedPort \<longleftrightarrow>
     \<not> (v = [] \<or> strings_ContainsAny v ('' /@'' @ [CHR 9, CHR 13, CHR 10])) \<and>
     (case splitAuthority v of
        None \<Rightarrow> False
      | Some (host, portText) \<Rightarrow>
        (equalFold host ''localhost'' \<or>
          (case hl_ParseIP lib (strings_Trim host ''[]'') of None \<Rightarrow> False | Some ip \<Rightarrow> IP_IsLoopback ip)) \<and>
        (if portText = [] then scheme = ''http'' \<and> allowedPort = 80 \<or> scheme = ''https'' \<and> allowedPort = 443
         else case parseUint16 portText of None \<Rightarrow> False | Some port \<Rightarrow> port \<noteq> 0 \<and> of_nat port = allowedPort))"

definition localRequest :: "'p http_lib \<Rightarrow> http_request \<Rightarrow> u16 \<Rightarrow> bool" where
  "localRequest lib request allowedPort =
     (case net_SplitHostPort (hr_RemoteAddr request) of
        None \<Rightarrow> False
      | Some (remoteHost, remotePort) \<Rightarrow>
        if remotePort = [] then False
        else case parseUint16 remotePort of
          None \<Rightarrow> False
        | Some port \<Rightarrow>
          let scheme = (if hr_TLS request then ''https'' else ''http'') in
          if port = 0 then False
          else if (case hl_ParseIP lib remoteHost of None \<Rightarrow> True | Some ip \<Rightarrow> \<not> IP_IsLoopback ip) \<or>
                  \<not> loopbackAuthority lib (hr_Host request) scheme allowedPort then False
          else case hr_Origin request of
            None \<Rightarrow> True
          | Some [origin] \<Rightarrow>
            if origin = [] then False
            else (case hl_Parse lib origin of
              None \<Rightarrow> False
            | Some u \<Rightarrow>
              if url_User u \<noteq> None \<or> url_RawQuery u \<noteq> [] \<or> url_Fragment u \<noteq> [] \<or> hl_Path lib u \<noteq> [] \<or> url_Scheme u \<noteq> scheme \<or>
                 \<not> loopbackAuthority lib (url_Host u) scheme allowedPort then False
              else origin = scheme @ ''://'' @ hr_Host request)
          | Some _ \<Rightarrow> False)"

section \<open>Bodies\<close>

text \<open>\<open>http.MaxBytesReader\<close> with \<open>io.ReadAll\<close>: too many bytes, a failing read, or the contents.\<close>

datatype body_error = BodyTooLarge | BodyUnreadable

definition readBody :: "nat \<Rightarrow> http_request \<Rightarrow> body_error + bytes" where
  "readBody maximumBytes request =
     (case hr_Body request of (contents, fails) \<Rightarrow>
        if length contents > maximumBytes then Inl BodyTooLarge else if fails then Inl BodyUnreadable else Inr contents)"

definition rejectedEncoding :: "http_request \<Rightarrow> bool" where
  "rejectedEncoding request =
     (case hr_ContentEncoding request of [] \<Rightarrow> False | [e] \<Rightarrow> \<not> equalFold (strings_TrimSpace e) ''identity'' | _ \<Rightarrow> True)"

definition acceptedMediaType :: "'p http_lib \<Rightarrow> http_request \<Rightarrow> string \<Rightarrow> bool" where
  "acceptedMediaType lib request expected =
     (case hr_ContentType request of
        [contentType] \<Rightarrow>
          (case hl_ParseMediaType lib contentType of
             None \<Rightarrow> False
           | Some (mediaType, parameters) \<Rightarrow>
             equalFold mediaType expected \<and>
             (parameters = [] \<or> length parameters = 1 \<and>
               equalFold (case map_of parameters ''charset'' of None \<Rightarrow> [] | Some v \<Rightarrow> v) ''utf-8''))
      | _ \<Rightarrow> False)"

definition decodeConfigRequest :: "'p http_lib \<Rightarrow> http_request \<Rightarrow> 'p http_response + Config" where
  "decodeConfigRequest lib request =
     (if rejectedEncoding request then Inl (writeProblem lib request 415 ''unsupported_content_encoding'' [])
      else if \<not> acceptedMediaType lib request ''application/yaml'' then Inl (writeProblem lib request 415 ''unsupported_media_type'' [])
      else case readBody MaximumBytes request of
        Inl BodyTooLarge \<Rightarrow> Inl (writeProblem lib request 413 ''body_too_large'' [])
      | Inl BodyUnreadable \<Rightarrow> Inl (writeProblem lib request 400 ''invalid_body'' [])
      | Inr contents \<Rightarrow>
        (case config_Decode (hl_yaml lib) contents of
           Inl _ \<Rightarrow> Inl (writeProblem lib request 422 ''invalid_config'' [])
         | Inr c \<Rightarrow> Inr c))"

subsection \<open>Strict JSON (flows.go)\<close>

definition maximumJSONDepth :: nat where "maximumJSONDepth = 100"

text \<open>
  \<open>scanJSONValue\<close> and its loops as one recursion over where the scan is, as for the peer protocol. Every turn
  but the start of a loop consumes a token.
\<close>

primrec scan :: "nat \<Rightarrow> walk_place \<Rightarrow> nat \<Rightarrow> json_decoder \<Rightarrow> bool \<times> json_decoder" where
  "scan 0 place depth d = (False, d)"
| "scan (Suc fuel) place depth d =
     (case place of
        WalkValue \<Rightarrow>
          (case decoder_Token d of
             (Inl e, d) \<Rightarrow> (False, d)
           | (Inr (TDelim c), d) \<Rightarrow>
               if depth \<ge> maximumJSONDepth then (False, d)
               else if c = CHR ''{'' then scan fuel (WalkMembers []) depth d
               else if c = CHR ''['' then scan fuel WalkElements depth d
               else (False, d)
           | (Inr _, d) \<Rightarrow> (True, d))
      | WalkMembers seen \<Rightarrow>
          if decoder_More d then
            (case decoder_Token d of
               (Inr (TString name), d) \<Rightarrow>
                 if name \<in> set seen then (False, d)
                 else (case scan fuel WalkValue (Suc depth) d of
                         (False, d) \<Rightarrow> (False, d)
                       | (True, d) \<Rightarrow> scan fuel (WalkMembers (name # seen)) depth d)
             | (_, d) \<Rightarrow> (False, d))
          else (case decoder_Token d of (Inr (TDelim c), d) \<Rightarrow> (c = CHR ''}'', d) | (_, d) \<Rightarrow> (False, d))
      | WalkElements \<Rightarrow>
          if decoder_More d then
            (case scan fuel WalkValue (Suc depth) d of
               (False, d) \<Rightarrow> (False, d)
             | (True, d) \<Rightarrow> scan fuel WalkElements depth d)
          else (case decoder_Token d of (Inr (TDelim c), d) \<Rightarrow> (c = CHR '']'', d) | (_, d) \<Rightarrow> (False, d)))"

definition scanJSONValue :: "json_decoder \<Rightarrow> nat \<Rightarrow> bool \<times> json_decoder" where
  "scanJSONValue d depth = scan (2 * length (fst d) + 2) WalkValue depth d"

definition ensureJSONEOF :: "json_decoder \<Rightarrow> bool" where
  "ensureJSONEOF d \<longleftrightarrow> d = ([], None)"

definition rejectDuplicateJSONNames :: "json_decoder \<Rightarrow> bool" where
  "rejectDuplicateJSONNames d = (case scanJSONValue d 0 of (ok, d) \<Rightarrow> \<not> (ok \<and> ensureJSONEOF d))"

text \<open>
  The types that bodies are decoded into, as far as the check of names looks at them: the fields of a struct by
  their JSON names, the elements of a slice, anything else. A pointer is what it points to.
\<close>

datatype schema = SStruct "(string \<times> schema) list" | SSlice schema | SOther

fun schemaNames :: "schema \<Rightarrow> json \<Rightarrow> bool" where
  "schemaNames (SStruct columns) (JObject kvs) \<longleftrightarrow>
     (\<forall>kv \<in> set kvs. case map_of columns (fst kv) of None \<Rightarrow> False | Some t \<Rightarrow> schemaNames t (snd kv))"
| "schemaNames (SSlice t) (JArray xs) \<longleftrightarrow> (\<forall>x \<in> set xs. schemaNames t x)"
| "schemaNames _ _ \<longleftrightarrow> True"

definition rangeSchema :: schema where "rangeSchema = SStruct [(''minimum'', SOther), (''maximum'', SOther)]"

definition ruleSchema :: schema where
  "ruleSchema = SStruct
     [(''id'', SOther), (''name'', SOther), (''enabled'', SOther),
      (''match'', SStruct [(''exact_flow_id'', SOther), (''source_cidr'', SOther), (''destination_cidr'', SOther), (''protocol'', SOther),
         (''source_ports'', rangeSchema), (''destination_ports'', rangeSchema), (''wire_size'', rangeSchema),
         (''required_tcp_flags'', SSlice SOther)]),
      (''action'', SStruct [(''state'', SOther), (''channel'', SOther), (''mode'', SOther), (''root'', SOther)])]"

definition replaceRulesRequest :: schema where "replaceRulesRequest = SStruct [(''rules'', SSlice ruleSchema)]"
definition reorderRulesRequest :: schema where "reorderRulesRequest = SStruct [(''order'', SSlice SOther)]"
definition flowSetRequest :: schema where "flowSetRequest = SStruct [(''flow_ids'', SSlice SOther)]"
definition auditionSchema :: schema where
  "auditionSchema = SStruct [(''channel'', SOther), (''note'', SOther), (''velocity'', SOther), (''duration_ms'', SOther)]"

definition rejectJSONNamesOutsideSchema :: "'p http_lib \<Rightarrow> schema \<Rightarrow> bytes \<Rightarrow> bool" where
  "rejectJSONNamesOutsideSchema lib t contents =
     (case hl_Value lib contents of
        None \<Rightarrow> True
      | Some (v, rest) \<Rightarrow> \<not> (ensureJSONEOF rest \<and> schemaNames t v))"

definition decodeJSONRequestLimit ::
  "'p http_lib \<Rightarrow> http_request \<Rightarrow> schema \<Rightarrow> (bytes \<Rightarrow> ('a \<times> json_decoder) option) \<Rightarrow> nat \<Rightarrow> 'p http_response + 'a" where
  "decodeJSONRequestLimit lib request t decode maximumBytes =
     (if rejectedEncoding request then Inl (writeProblem lib request 415 ''unsupported_content_encoding'' [])
      else if \<not> acceptedMediaType lib request ''application/json'' then Inl (writeProblem lib request 415 ''unsupported_media_type'' [])
      else case readBody maximumBytes request of
        Inl BodyTooLarge \<Rightarrow> Inl (writeProblem lib request 413 ''body_too_large'' [])
      | Inl BodyUnreadable \<Rightarrow> Inl (writeProblem lib request 400 ''invalid_body'' [])
      | Inr contents \<Rightarrow>
        if \<not> utf8_Valid contents \<or> rejectDuplicateJSONNames (hl_Tokens lib contents) \<or> rejectJSONNamesOutsideSchema lib t contents
        then Inl (writeProblem lib request 400 ''invalid_body'' [])
        else case decode contents of
          None \<Rightarrow> Inl (writeProblem lib request 400 ''invalid_body'' [])
        | Some (v, rest) \<Rightarrow> if ensureJSONEOF rest then Inr v else Inl (writeProblem lib request 400 ''invalid_body'' []))"

definition decodeJSONRequest ::
  "'p http_lib \<Rightarrow> http_request \<Rightarrow> schema \<Rightarrow> (bytes \<Rightarrow> ('a \<times> json_decoder) option) \<Rightarrow> 'p http_response + 'a" where
  "decodeJSONRequest lib request t decode = decodeJSONRequestLimit lib request t decode MaximumBytes"

definition decodeEmptyMIDIRequest :: "'p http_lib \<Rightarrow> http_request \<Rightarrow> 'p http_response option" where
  "decodeEmptyMIDIRequest lib request =
     (if rejectedEncoding request then Some (writeProblem lib request 415 ''unsupported_content_encoding'' [])
      else if hr_ContentType request \<noteq> [] then Some (writeProblem lib request 415 ''unsupported_media_type'' [])
      else case readBody 0 request of Inl _ \<Rightarrow> Some (writeProblem lib request 400 ''invalid_body'' []) | Inr _ \<Rightarrow> None)"

section \<open>The paths of rules (rules.go)\<close>

definition rulesCollectionPath :: string where "rulesCollectionPath = ''/api/v1/rules''"

text \<open>\<open>url.PathEscape\<close> and \<open>url.PathUnescape\<close> of Go's standard library.\<close>

definition upperHex :: string where "upperHex = ''0123456789ABCDEF''"

definition pathPlain :: "char \<Rightarrow> bool" where
  "pathPlain c \<longleftrightarrow> asciiLetter c \<or> asciiDigit c \<or> c \<in> set ''-_.~$&+:=@''"

definition url_PathEscape :: "string \<Rightarrow> string" where
  "url_PathEscape s = concat (map (\<lambda>c. if pathPlain c then [c]
     else let n = of_char c :: nat in [CHR ''%'', upperHex ! (n div 16), upperHex ! (n mod 16)]) s)"

fun url_PathUnescape :: "string \<Rightarrow> string option" where
  "url_PathUnescape [] = Some []"
| "url_PathUnescape (c # s) =
     (if c = CHR ''%'' then
        (case s of
           h # l # rest \<Rightarrow>
             (case (hexValue h, hexValue l) of
                (Some a, Some b) \<Rightarrow> map_option ((#) (char_of (16 * a + b))) (url_PathUnescape rest)
              | _ \<Rightarrow> None)
         | _ \<Rightarrow> None)
      else map_option ((#) c) (url_PathUnescape s))"

definition escapeRuleID :: "string \<Rightarrow> string" where
  "escapeRuleID ident =
     (let escaped = url_PathEscape ident in
      if escaped = ''.'' then ''%2E'' else if escaped = ''..'' then ''%2E%2E'' else escaped)"

datatype rule_path_error = MissingRuleItem | InvalidRuleItem

definition parseRuleItemID :: "string \<Rightarrow> rule_path_error + string" where
  "parseRuleItemID escapedPath =
     (if \<not> hasPrefix escapedPath (rulesCollectionPath @ ''/'') then Inl MissingRuleItem
      else
        let escapedID = drop (length rulesCollectionPath + 1) escapedPath in
        if escapedID = [] then Inl MissingRuleItem
        else if CHR ''/'' \<in> set escapedID then Inl InvalidRuleItem
        else case url_PathUnescape escapedID of
          None \<Rightarrow> Inl InvalidRuleItem
        | Some ident \<Rightarrow> if ident = [] \<or> \<not> utf8_Valid (string_bytes ident) then Inl InvalidRuleItem else Inr ident)"

section \<open>Handlers\<close>

text \<open>The answer to an operation of the backend: its error, or what \<open>write\<close> makes of its document.\<close>

definition answer :: "'p http_lib \<Rightarrow> http_request \<Rightarrow> ('a \<Rightarrow> 'p http_response) \<Rightarrow> (management_error + 'a) \<times> 'b \<Rightarrow> 'p http_response \<times> 'b" where
  "answer lib request write result =
     (case result of (Inl e, b) \<Rightarrow> (writeBackendError lib request e, b) | (Inr document, b) \<Rightarrow> (write document, b))"

definition handle_updateConfig ::
  "'p http_lib \<Rightarrow> (mgmt_request \<Rightarrow> string \<Rightarrow> Config \<Rightarrow> 'b \<Rightarrow> (management_error + ConfigDocument) \<times> 'b) \<Rightarrow>
     http_request \<Rightarrow> mgmt_request \<Rightarrow> 'b \<Rightarrow> 'p http_response \<times> 'b" where
  "handle_updateConfig lib update request ctx b =
     (case requestRevision lib request of
        Inl response \<Rightarrow> (response, b)
      | Inr expected \<Rightarrow>
        (case decodeConfigRequest lib request of
           Inl response \<Rightarrow> (response, b)
         | Inr c \<Rightarrow> answer lib request (writeConfig lib request) (update ctx expected c b)))"

definition handle_cancelPendingConfig ::
  "'p http_lib \<Rightarrow> ('b, 'p) Backend \<Rightarrow> http_request \<Rightarrow> mgmt_request \<Rightarrow> 'b \<Rightarrow> 'p http_response \<times> 'b" where
  "handle_cancelPendingConfig lib bk request ctx b =
     (case requestRevision lib request of
        Inl response \<Rightarrow> (response, b)
      | Inr expected \<Rightarrow> answer lib request (writeConfig lib request) (bk_CancelPendingConfig bk ctx expected b))"

definition handle_validateConfig ::
  "'p http_lib \<Rightarrow> ('b, 'p) Backend \<Rightarrow> http_request \<Rightarrow> mgmt_request \<Rightarrow> 'b \<Rightarrow> 'p http_response \<times> 'b" where
  "handle_validateConfig lib bk request ctx b =
     (case decodeConfigRequest lib request of
        Inl response \<Rightarrow> (response, b)
      | Inr c \<Rightarrow> answer lib request (\<lambda>v. writeJSON lib request 200 (BodyValidation v)) (bk_ValidateConfig bk ctx c b))"

subsection \<open>Rules (rules.go)\<close>

definition rejectQuery :: "http_request \<Rightarrow> bool" where
  "rejectQuery request \<longleftrightarrow> \<not> (hr_RawQuery request = [] \<and> \<not> hr_ForceQuery request \<and> hr_Fragment request = [])"

definition writeRulesDocument :: "'p http_lib \<Rightarrow> http_request \<Rightarrow> nat \<Rightarrow> string \<Rightarrow> RulesDocument \<Rightarrow> 'p http_response" where
  "writeRulesDocument lib request status location document =
     (case formatETag (rd_Revision document) of
        None \<Rightarrow> writeProblem lib request 500 ''internal_error'' []
      | Some etag \<Rightarrow> (writeJSON lib request status (BodyRules document))
          \<lparr>rs_ETag := Some etag, rs_Location := (if location = [] then None else Some location)\<rparr>)"

text \<open>The body of an edit, and where the changed rule is then found.\<close>

definition ruleBody :: "'p http_lib \<Rightarrow> http_request \<Rightarrow> string option \<Rightarrow> 'p http_response + rule_edit \<times> nat \<times> string" where
  "ruleBody lib request item =
     (case item of
        None \<Rightarrow>
          if hr_Method request = ''POST'' then
            (case decodeJSONRequest lib request ruleSchema (hl_Rule lib) of
               Inl response \<Rightarrow> Inl response
             | Inr rule \<Rightarrow> Inr (CreateRule rule, 201, rulesCollectionPath @ ''/'' @ escapeRuleID (ruc_ID rule)))
          else if hr_Method request = ''PUT'' then
            (case decodeJSONRequest lib request replaceRulesRequest (hl_Rules lib) of
               Inl response \<Rightarrow> Inl response
             | Inr None \<Rightarrow> Inl (writeProblem lib request 422 ''invalid_rule'' [''rules''])
             | Inr (Some rules) \<Rightarrow> Inr (ReplaceRules (Some rules), 200, []))
          else
            (case decodeJSONRequest lib request reorderRulesRequest (hl_Order lib) of
               Inl response \<Rightarrow> Inl response
             | Inr order \<Rightarrow> Inr (ReorderRules order, 200, []))
      | Some ident \<Rightarrow>
          if hr_Method request = ''PUT'' then
            (case decodeJSONRequest lib request ruleSchema (hl_Rule lib) of
               Inl response \<Rightarrow> Inl response
             | Inr rule \<Rightarrow> Inr (ReplaceRule ident rule, 200, []))
          else Inr (DeleteRule ident, 200, []))"

definition handle_editRules ::
  "'p http_lib \<Rightarrow> ('b, 'p) Backend \<Rightarrow> http_request \<Rightarrow> mgmt_request \<Rightarrow> string option \<Rightarrow> 'b \<Rightarrow> 'p http_response \<times> 'b" where
  "handle_editRules lib bk request ctx item b =
     (case requestRevision lib request of
        Inl response \<Rightarrow> (response, b)
      | Inr expected \<Rightarrow>
        (case ruleBody lib request item of
           Inl response \<Rightarrow> (response, b)
         | Inr (edit, status, location) \<Rightarrow>
           answer lib request (writeRulesDocument lib request status location) (bk_EditRules bk ctx expected edit b)))"

definition serveRulesCollection ::
  "'p http_lib \<Rightarrow> ('b, 'p) Backend \<Rightarrow> http_request \<Rightarrow> mgmt_request \<Rightarrow> 'b \<Rightarrow> 'p http_response \<times> 'b" where
  "serveRulesCollection lib bk request ctx b =
     (if rejectQuery request then (writeProblem lib request 400 ''invalid_query'' [], b)
      else if hr_Method request \<in> {''GET'', ''HEAD''}
      then answer lib request (writeRulesDocument lib request 200 []) (bk_Rules bk ctx b)
      else if hr_Method request \<in> {''POST'', ''PUT'', ''PATCH''} then handle_editRules lib bk request ctx None b
      else (methodNotAllowed lib request ''GET, HEAD, POST, PUT, PATCH'', b))"

definition serveRuleItem ::
  "'p http_lib \<Rightarrow> ('b, 'p) Backend \<Rightarrow> http_request \<Rightarrow> mgmt_request \<Rightarrow> 'b \<Rightarrow> 'p http_response \<times> 'b" where
  "serveRuleItem lib bk request ctx b =
     (if rejectQuery request then (writeProblem lib request 400 ''invalid_query'' [], b)
      else case parseRuleItemID (hr_EscapedPath request) of
        Inl MissingRuleItem \<Rightarrow> (writeProblem lib request 404 ''not_found'' [], b)
      | Inl InvalidRuleItem \<Rightarrow> (writeProblem lib request 400 ''invalid_rule_id'' [''id''], b)
      | Inr ident \<Rightarrow>
        if hr_Method request \<in> {''PUT'', ''DELETE''} then handle_editRules lib bk request ctx (Some ident) b
        else (methodNotAllowed lib request ''PUT, DELETE'', b))"

subsection \<open>Flows (flows.go)\<close>

definition defaultFlowPageLimit :: int where "defaultFlowPageLimit = 500"
definition maximumFlowPageLimit :: int where "maximumFlowPageLimit = 5000"

definition parseSingleNonNegativeQuery :: "string list \<Rightarrow> int \<Rightarrow> int option" where
  "parseSingleNonNegativeQuery values defaultValue =
     (case values of
        [] \<Rightarrow> Some defaultValue
      | [v] \<Rightarrow> if v \<noteq> [] \<and> list_all asciiDigit v \<and> decimalValue v < 2 ^ 31 then Some (int (decimalValue v)) else None
      | _ \<Rightarrow> None)"

definition parseFlowPageRequest :: "'p http_lib \<Rightarrow> http_request \<Rightarrow> int option" where
  "parseFlowPageRequest lib request =
     (case hl_ParseQuery lib (hr_RawQuery request) of
        None \<Rightarrow> None
      | Some query \<Rightarrow>
        if \<exists>kv \<in> set query. fst kv \<noteq> ''limit'' then None
        else case parseSingleNonNegativeQuery (case map_of query ''limit'' of None \<Rightarrow> [] | Some vs \<Rightarrow> vs) defaultFlowPageLimit of
          None \<Rightarrow> None
        | Some limit \<Rightarrow> if limit = 0 \<or> limit > maximumFlowPageLimit then None else Some limit)"

definition handle_flows ::
  "'p http_lib \<Rightarrow> ('b, 'p) Backend \<Rightarrow> http_request \<Rightarrow> mgmt_request \<Rightarrow> 'b \<Rightarrow> 'p http_response \<times> 'b" where
  "handle_flows lib bk request ctx b =
     (case parseFlowPageRequest lib request of
        None \<Rightarrow> (writeProblem lib request 400 ''invalid_query'' [], b)
      | Some limit \<Rightarrow> answer lib request (\<lambda>page. writeJSON lib request 200 (BodyFlows page)) (bk_Flows bk ctx limit b))"

fun duplicateFlowID :: "string list \<Rightarrow> string list \<Rightarrow> bool" where
  "duplicateFlowID seen [] \<longleftrightarrow> False"
| "duplicateFlowID seen (v # vs) \<longleftrightarrow> v \<in> set seen \<or> duplicateFlowID (v # seen) vs"

definition handle_setFlowOverlay ::
  "'p http_lib \<Rightarrow> ('b, 'p) Backend \<Rightarrow> bool \<Rightarrow> http_request \<Rightarrow> mgmt_request \<Rightarrow> 'b \<Rightarrow> 'p http_response \<times> 'b" where
  "handle_setFlowOverlay lib bk mute request ctx b =
     (case decodeJSONRequest lib request flowSetRequest (hl_FlowSet lib) of
        Inl response \<Rightarrow> (response, b)
      | Inr None \<Rightarrow> (writeProblem lib request 422 ''invalid_flow_set'' [], b)
      | Inr (Some flowIDs) \<Rightarrow>
        if duplicateFlowID [] flowIDs then (writeProblem lib request 422 ''invalid_flow_set'' [], b)
        else answer lib request (\<lambda>overlay. writeJSON lib request 200 (BodyOverlay overlay)) (bk_SetFlows bk ctx flowIDs mute b))"

subsection \<open>MIDI (midi.go)\<close>

definition maximumMIDIAuditionBodyBytes :: nat where "maximumMIDIAuditionBodyBytes = 4096"

definition validMIDIDevice :: "MIDIDevice \<Rightarrow> bool" where
  "validMIDIDevice device \<longleftrightarrow> mdv_Number device \<ge> 0 \<and> utf8_Valid (string_bytes (mdv_Name device))"

definition validMIDIDevicesDocument :: "MIDIDevicesDocument \<Rightarrow> bool" where
  "validMIDIDevicesDocument document \<longleftrightarrow>
     mdd_Enabled document \<noteq> (mdd_Discovery document = MIDIDiscoveryDisabled) \<and>
     mdd_Connected document = (mdd_Current document \<noteq> None) \<and> \<not> (\<not> mdd_Enabled document \<and> mdd_Connected document) \<and>
     (case mdd_Current document of None \<Rightarrow> True | Some device \<Rightarrow> validMIDIDevice device) \<and>
     (\<forall>device \<in> set (mdd_Devices document). validMIDIDevice device)"

definition inRange :: "int \<Rightarrow> int \<Rightarrow> int option \<Rightarrow> bool" where
  "inRange low high v = (case v of None \<Rightarrow> False | Some n \<Rightarrow> low \<le> n \<and> n \<le> high)"

definition validateMIDIAudition :: "midiAuditionBody \<Rightarrow> MIDIAuditionRequest \<times> string list" where
  "validateMIDIAudition body =
     (let pick = (\<lambda>low high v. if inRange low high v then the v else 0);
          missing = (\<lambda>low high v name. if inRange low high v then [] else [name])
      in (\<lparr>mar_Channel = pick 1 16 (mab_Channel body), mar_Note = pick 0 127 (mab_Note body), mar_Velocity = pick 1 127 (mab_Velocity body),
           mar_DurationMS = pick 1 10000 (mab_DurationMS body)\<rparr>,
          missing 1 16 (mab_Channel body) ''channel'' @ missing 0 127 (mab_Note body) ''note'' @
          missing 1 127 (mab_Velocity body) ''velocity'' @ missing 1 10000 (mab_DurationMS body) ''duration_ms''))"

definition serveMIDIDevices ::
  "'p http_lib \<Rightarrow> ('b, 'p) Backend \<Rightarrow> http_request \<Rightarrow> mgmt_request \<Rightarrow> 'b \<Rightarrow> 'p http_response \<times> 'b" where
  "serveMIDIDevices lib bk request ctx b =
     (if hr_Method request \<notin> {''GET'', ''HEAD''} then (methodNotAllowed lib request ''GET, HEAD'', b)
      else if rejectQuery request then (writeProblem lib request 400 ''invalid_query'' [], b)
      else answer lib request (\<lambda>document. if \<not> validMIDIDevicesDocument document then writeProblem lib request 500 ''internal_error'' []
        else writeJSON lib request 200 (BodyDevices document)) (bk_MIDIDevices bk ctx b))"

definition serveMIDIAudition ::
  "'p http_lib \<Rightarrow> ('b, 'p) Backend \<Rightarrow> http_request \<Rightarrow> mgmt_request \<Rightarrow> 'b \<Rightarrow> 'p http_response \<times> 'b" where
  "serveMIDIAudition lib bk request ctx b =
     (if hr_Method request \<noteq> ''POST'' then (methodNotAllowed lib request ''POST'', b)
      else if rejectQuery request then (writeProblem lib request 400 ''invalid_query'' [], b)
      else case decodeJSONRequestLimit lib request auditionSchema (hl_Audition lib) maximumMIDIAuditionBodyBytes of
        Inl response \<Rightarrow> (response, b)
      | Inr body \<Rightarrow>
        let (audition, names) = validateMIDIAudition body in
        if names \<noteq> [] then (writeProblem lib request 422 ''invalid_audition'' names, b)
        else case bk_AuditionMIDI bk ctx audition b of
          (Some e, b) \<Rightarrow> (writeBackendError lib request e, b)
        | (None, b) \<Rightarrow> (writeEmptyResponse 202, b))"

definition serveMIDIPanic ::
  "'p http_lib \<Rightarrow> ('b, 'p) Backend \<Rightarrow> http_request \<Rightarrow> mgmt_request \<Rightarrow> 'b \<Rightarrow> 'p http_response \<times> 'b" where
  "serveMIDIPanic lib bk request ctx b =
     (if hr_Method request \<noteq> ''POST'' then (methodNotAllowed lib request ''POST'', b)
      else if rejectQuery request then (writeProblem lib request 400 ''invalid_query'' [], b)
      else case decodeEmptyMIDIRequest lib request of
        Some response \<Rightarrow> (response, b)
      | None \<Rightarrow>
        (case bk_PanicMIDI bk ctx b of
           (Some e, b) \<Rightarrow> (writeBackendError lib request e, b)
         | (None, b) \<Rightarrow> (writeEmptyResponse 204, b)))"

subsection \<open>Interfaces and peers (interfaces.go, peers.go)\<close>

definition validInterfacesDocument :: "'p http_lib \<Rightarrow> InterfacesDocument \<Rightarrow> bool" where
  "validInterfacesDocument lib document \<longleftrightarrow>
     ind_Configured document \<noteq> [] \<and> utf8_Valid (string_bytes (ind_Configured document)) \<and> utf8_Valid (string_bytes (ind_Selected document)) \<and>
     (\<forall>candidate \<in> set (ind_Interfaces document). cin_Name candidate \<noteq> [] \<and> utf8_Valid (string_bytes (cin_Name candidate)) \<and>
        utf8_Valid (string_bytes (cin_Description candidate)) \<and> distinct (cin_Addresses candidate) \<and>
        (\<forall>address \<in> set (cin_Addresses candidate). map_option (hl_PrefixString lib) (cl_ParsePrefix (yl_config (hl_yaml lib)) address) = Some address)) \<and>
     distinct (map cin_Name (ind_Interfaces document)) \<and>
     (ind_Selected document = [] \<or> ind_Selected document \<in> set (map cin_Name (ind_Interfaces document)))"

definition serveInterfaces ::
  "'p http_lib \<Rightarrow> ('b, 'p) Backend \<Rightarrow> http_request \<Rightarrow> mgmt_request \<Rightarrow> 'b \<Rightarrow> 'p http_response \<times> 'b" where
  "serveInterfaces lib bk request ctx b =
     (if hr_Method request \<notin> {''GET'', ''HEAD''} then (methodNotAllowed lib request ''GET, HEAD'', b)
      else if rejectQuery request then (writeProblem lib request 400 ''invalid_query'' [], b)
      else answer lib request (\<lambda>document. if \<not> validInterfacesDocument lib document
        then writeProblem lib request 500 ''internal_error'' [] else writeJSON lib request 200 (BodyInterfaces document)) (bk_Interfaces bk ctx b))"

definition servePeers ::
  "'p http_lib \<Rightarrow> ('b, 'p) Backend \<Rightarrow> http_request \<Rightarrow> mgmt_request \<Rightarrow> 'b \<Rightarrow> 'p http_response \<times> 'b" where
  "servePeers lib bk request ctx b =
     (if hr_Method request \<notin> {''GET'', ''HEAD''} then (methodNotAllowed lib request ''GET, HEAD'', b)
      else if hr_RawQuery request \<noteq> [] then (writeProblem lib request 400 ''invalid_query'' [], b)
      else answer lib request (\<lambda>document. writeJSON lib request 200 (BodyPeers document)) (bk_Peers bk ctx b))"

section \<open>Routing (handler.go)\<close>

definition interfacesPath :: string where "interfacesPath = ''/api/v1/interfaces''"
definition midiDevicesPath :: string where "midiDevicesPath = ''/api/v1/midi/devices''"
definition midiAuditionPath :: string where "midiAuditionPath = ''/api/v1/midi/audition''"
definition midiPanicPath :: string where "midiPanicPath = ''/api/v1/midi/panic''"
definition peersPath :: string where "peersPath = ''/api/v1/peers''"

lemmas path_defs = interfacesPath_def midiDevicesPath_def midiAuditionPath_def midiPanicPath_def peersPath_def rulesCollectionPath_def

definition route :: "'p http_lib \<Rightarrow> ('b, 'p) Backend \<Rightarrow> http_request \<Rightarrow> mgmt_request \<Rightarrow> 'b \<Rightarrow> 'p http_response \<times> 'b" where
  "route lib bk request ctx b =
     (let path = hr_EscapedPath request; method = hr_Method request; reads = {''GET'', ''HEAD''} in
      if path = ''/api/v1/status'' then
        if method \<notin> reads then (methodNotAllowed lib request ''GET, HEAD'', b)
        else answer lib request (\<lambda>status. writeJSON lib request 200 (BodyStatus status)) (bk_Status bk ctx b)
      else if path = ''/api/v1/config'' then
        if method \<in> reads then answer lib request (writeConfig lib request) (bk_Config bk ctx b)
        else if method = ''PUT'' then handle_updateConfig lib (bk_UpdateConfig bk) request ctx b
        else (methodNotAllowed lib request ''GET, HEAD, PUT'', b)
      else if path = ''/api/v1/config/validate'' then
        if method \<noteq> ''POST'' then (methodNotAllowed lib request ''POST'', b) else handle_validateConfig lib bk request ctx b
      else if path = ''/api/v1/config/pending'' then
        if method \<in> reads then answer lib request (writeConfig lib request) (bk_PendingConfig bk ctx b)
        else if method = ''PUT'' then handle_updateConfig lib (bk_StageConfig bk) request ctx b
        else if method = ''DELETE'' then handle_cancelPendingConfig lib bk request ctx b
        else (methodNotAllowed lib request ''GET, HEAD, PUT, DELETE'', b)
      else if path = interfacesPath then serveInterfaces lib bk request ctx b
      else if path = midiDevicesPath then serveMIDIDevices lib bk request ctx b
      else if path = midiAuditionPath then serveMIDIAudition lib bk request ctx b
      else if path = midiPanicPath then serveMIDIPanic lib bk request ctx b
      else if path = peersPath then servePeers lib bk request ctx b
      else if path = rulesCollectionPath then serveRulesCollection lib bk request ctx b
      else if path = ''/api/v1/flows'' then
        if method \<notin> reads then (methodNotAllowed lib request ''GET, HEAD'', b) else handle_flows lib bk request ctx b
      else if path = ''/api/v1/flows/mute'' then
        if method \<noteq> ''POST'' then (methodNotAllowed lib request ''POST'', b) else handle_setFlowOverlay lib bk True request ctx b
      else if path = ''/api/v1/flows/solo'' then
        if method \<noteq> ''POST'' then (methodNotAllowed lib request ''POST'', b) else handle_setFlowOverlay lib bk False request ctx b
      else if hasPrefix path (rulesCollectionPath @ ''/'') then serveRuleItem lib bk request ctx b
      else (writeProblem lib request 404 ''not_found'' [], b))"

subsection \<open>Observation (instrumentation.go)\<close>

definition normalizedManagementRoute :: "string \<Rightarrow> string" where
  "normalizedManagementRoute path =
     (if path \<in> {''/api/v1/status'', ''/api/v1/config'', ''/api/v1/config/validate'', ''/api/v1/config/pending'', interfacesPath,
          midiDevicesPath, midiAuditionPath, midiPanicPath, rulesCollectionPath, peersPath, ''/api/v1/flows'', ''/api/v1/flows/mute'',
          ''/api/v1/flows/solo''} then path
      else if hasPrefix path (rulesCollectionPath @ ''/'') then rulesCollectionPath @ ''/{id}''
      else ''/api/v1/unknown'')"

definition normalizedManagementMethod :: "string \<Rightarrow> string" where
  "normalizedManagementMethod method =
     (if method \<in> {''GET'', ''HEAD'', ''POST'', ''PUT'', ''PATCH'', ''DELETE'', ''OPTIONS''} then method else ''OTHER'')"

definition managementRequestResult :: "nat \<Rightarrow> string" where
  "managementRequestResult status =
     (if 200 \<le> status \<and> status < 300 then ''success'' else if 400 \<le> status \<and> status < 500 then ''client_error''
      else if 500 \<le> status \<and> status < 600 then ''server_error'' else ''other'')"

definition configUpdateResult :: "nat \<Rightarrow> string" where
  "configUpdateResult status =
     (if status = 200 then ''success'' else if status = 403 then ''forbidden''
      else if status \<in> {412, 428} then ''precondition'' else if status = 409 then ''conflict''
      else if status \<in> {400, 413, 415, 422} then ''invalid'' else if status = 503 then ''unavailable'' else ''error'')"

datatype http_observation = ObserveRequest string string string | ObserveConfigUpdate string

definition observeResponse :: "http_request \<Rightarrow> nat \<Rightarrow> http_observation list" where
  "observeResponse request status =
     (let r = normalizedManagementRoute (hr_EscapedPath request); method = normalizedManagementMethod (hr_Method request) in
      [ObserveRequest r method (managementRequestResult status)] @
      (if r = ''/api/v1/config'' \<and> method = ''PUT'' then [ObserveConfigUpdate (configUpdateResult status)] else []) @
      (if r = ''/api/v1/config/pending'' \<and> (method = ''PUT'' \<or> method = ''DELETE'') then [ObserveConfigUpdate (configUpdateResult status)] else []))"

text \<open>The handler: every response has been observed once; a request that is not local never reaches the backend.\<close>

definition api_ServeHTTP ::
  "'p http_lib \<Rightarrow> ('b, 'p) Backend \<Rightarrow> u16 \<Rightarrow> http_request \<Rightarrow> mgmt_request \<Rightarrow> 'b \<Rightarrow> 'p http_response \<times> 'b \<times> http_observation list" where
  "api_ServeHTTP lib bk allowedPort request ctx b =
     (let (response, b) = (if \<not> localRequest lib request allowedPort then (writeProblem lib request 403 ''forbidden'' [], b)
                           else route lib bk request ctx b)
      in (response, b, observeResponse request (rs_Status response)))"

section \<open>The backend of the program\<close>

text \<open>
  The management backend with the disk behind its repository, and a second state for the parts that other
  subsystems answer: MIDI, capture interfaces and peers. \<open>iteration\<close> is the order in which Go iterates
  over the flow map.
\<close>

definition onDisk :: "('d managementBackend \<Rightarrow> 'd \<Rightarrow> 'r \<times> 'd managementBackend \<times> 'd) \<Rightarrow>
    'd managementBackend \<times> 'd \<times> 'm \<Rightarrow> 'r \<times> 'd managementBackend \<times> 'd \<times> 'm" where
  "onDisk f s = (case s of (backend, d, m) \<Rightarrow> (case f backend d of (r, backend, d) \<Rightarrow> (r, backend, d, m)))"

definition inMemory :: "('d managementBackend \<Rightarrow> 'r \<times> 'd managementBackend) \<Rightarrow>
    'd managementBackend \<times> 'd \<times> 'm \<Rightarrow> 'r \<times> 'd managementBackend \<times> 'd \<times> 'm" where
  "inMemory f s = (case s of (backend, d, m) \<Rightarrow> (case f backend of (r, backend) \<Rightarrow> (r, backend, d, m)))"

record ('d, 'm, 'p) subsystems =
  su_MIDIDevices :: "mgmt_request \<Rightarrow> 'd managementBackend \<Rightarrow> 'm \<Rightarrow> management_error + MIDIDevicesDocument"
  su_AuditionMIDI :: "mgmt_request \<Rightarrow> MIDIAuditionRequest \<Rightarrow> 'd managementBackend \<Rightarrow> 'm \<Rightarrow> management_error option \<times> 'm"
  su_PanicMIDI :: "mgmt_request \<Rightarrow> 'd managementBackend \<Rightarrow> 'm \<Rightarrow> management_error option \<times> 'm"
  su_Interfaces :: "mgmt_request \<Rightarrow> 'd managementBackend \<Rightarrow> 'm \<Rightarrow> management_error + InterfacesDocument"
  su_Peers :: "mgmt_request \<Rightarrow> 'm \<Rightarrow> management_error + 'p"

definition programBackend :: "yaml_lib \<Rightarrow> string list \<Rightarrow> ('d, 'm, 'p) subsystems \<Rightarrow> ('d managementBackend \<times> 'd \<times> 'm, 'p) Backend" where
  "programBackend lib iteration su =
     \<lparr>bk_Status = (\<lambda>ctx. inMemory (backend_Status ctx)), bk_Config = (\<lambda>ctx. inMemory (backend_Config ctx)),
      bk_PendingConfig = (\<lambda>ctx. inMemory (backend_PendingConfig ctx)),
      bk_ValidateConfig = (\<lambda>ctx c. inMemory (backend_ValidateConfig lib ctx c)),
      bk_UpdateConfig = (\<lambda>ctx expected c. onDisk (backend_UpdateConfig lib ctx expected c)),
      bk_StageConfig = (\<lambda>ctx expected c. onDisk (backend_StageConfig lib ctx expected c)),
      bk_CancelPendingConfig = (\<lambda>ctx expected. onDisk (backend_CancelPendingConfig ctx expected)),
      bk_Rules = (\<lambda>ctx. inMemory (backend_Rules ctx)),
      bk_EditRules = (\<lambda>ctx expected edit. onDisk (editRules lib ctx expected edit)),
      bk_Flows = (\<lambda>ctx limit. inMemory (\<lambda>backend. (backend_Flows ctx limit iteration backend, backend))),
      bk_SetFlows = (\<lambda>ctx flowIDs mute. inMemory (setFlowOverlay ctx (Some flowIDs) mute)),
      bk_MIDIDevices = (\<lambda>ctx (backend, d, m). (su_MIDIDevices su ctx backend m, backend, d, m)),
      bk_AuditionMIDI = (\<lambda>ctx audition (backend, d, m). case su_AuditionMIDI su ctx audition backend m of (e, m) \<Rightarrow> (e, backend, d, m)),
      bk_PanicMIDI = (\<lambda>ctx (backend, d, m). case su_PanicMIDI su ctx backend m of (e, m) \<Rightarrow> (e, backend, d, m)),
      bk_Interfaces = (\<lambda>ctx (backend, d, m). (su_Interfaces su ctx backend m, backend, d, m)),
      bk_Peers = (\<lambda>ctx (backend, d, m). (su_Peers su ctx m, backend, d, m))\<rparr>"

end
