(* ===== verification/Api_Spec.thy ===== *)
theory Api_Spec
  imports Api
begin

text \<open>
  What the management API guarantees: only requests of this machine with a matching origin reach the backend,
  reading never changes anything, every change of the persisted configuration names the revision it replaces,
  entity tags and rule paths translate back, and a configuration that was stored is answered without its
  secrets. The contract of a backend is the locale \<open>management_contract\<close>.
\<close>

section \<open>Entity tags\<close>

lemma parseIfMatch_formatETag: "formatETag revision = Some etag \<Longrightarrow> parseIfMatch [etag] = Inr revision"
proof -
  assume "formatETag revision = Some etag"
  then have v: "validRevision revision" and e: "etag = CHR 34 # revision @ [CHR 34]" by (auto simp: formatETag_def split: if_splits)
  have l: "length revision = 64" using v by (simp add: validRevision_def)
  have "\<not> hasPrefix etag ''W/''" by (simp add: e hasPrefix_def)
  moreover have "strings_TrimSpace etag = etag" unfolding e by (rule TrimSpace_plain) (simp_all add: plain_def)
  moreover have "butlast (tl etag) = revision" by (simp add: e)
  ultimately show ?thesis using v l by (simp add: parseIfMatch_def Let_def) (simp add: e)
qed

lemma codec_token_valid: "validRevision (codec_calculate codec raw)"
  unfolding validRevision_def hexDigits_def [symmetric] codec_calculate_def hmac_Sum_def
  using hex_EncodeToString_set by fastforce

section \<open>Rule paths\<close>

lemma upperHex_value: "n < 16 \<Longrightarrow> hexValue (upperHex ! n) = Some n"
proof -
  have "list_all (\<lambda>k. hexValue (upperHex ! k) = Some k) [0..<16]" by (simp add: upt_rec hexValue_def upperHex_def)
  then show "n < 16 \<Longrightarrow> ?thesis" by (simp add: list_all_iff)
qed

lemma upperHex_plain: "n < 16 \<Longrightarrow> upperHex ! n \<noteq> CHR ''/''"
proof -
  have "list_all (\<lambda>k. upperHex ! k \<noteq> CHR ''/'') [0..<16]" by (simp add: upt_rec upperHex_def)
  then show "n < 16 \<Longrightarrow> ?thesis" by (simp add: list_all_iff)
qed

lemma plain_not_special: "pathPlain c \<Longrightarrow> c \<noteq> CHR ''%'' \<and> c \<noteq> CHR ''/''"
  by (auto simp: pathPlain_def asciiLetter_def asciiDigit_def Let_def)

lemma PathEscape_Cons:
  "url_PathEscape (c # s) = (if pathPlain c then [c] else [CHR ''%'', upperHex ! (of_char c div 16), upperHex ! (of_char c mod 16)]) @ url_PathEscape s"
  by (simp add: url_PathEscape_def Let_def)

lemma PathEscape_roundtrip: "url_PathUnescape (url_PathEscape s) = Some s \<and> CHR ''/'' \<notin> set (url_PathEscape s)"
proof (induction s)
  case Nil
  then show ?case by (simp add: url_PathEscape_def)
next
  case (Cons c s)
  show ?case
  proof (cases "pathPlain c")
    case True
    then show ?thesis using Cons plain_not_special [OF True] by (auto simp: PathEscape_Cons)
  next
    case False
    have lt: "(of_char c :: nat) < 256" by simp
    then have d: "(of_char c :: nat) div 16 < 16" "(of_char c :: nat) mod 16 < 16" by (simp_all add: less_mult_imp_div_less)
    have c: "char_of (16 * (of_char c div 16) + of_char c mod 16 :: nat) = c" by (simp only: mult_div_mod_eq char_of_char)
    show ?thesis using False Cons upperHex_value [OF d(1)] upperHex_value [OF d(2)] upperHex_plain [OF d(1)] upperHex_plain [OF d(2)] c
      by (simp add: PathEscape_Cons)
  qed
qed

lemma PathEscape_Nil: "url_PathEscape s = [] \<longleftrightarrow> s = []"
  by (cases s) (simp_all add: PathEscape_Cons, simp add: url_PathEscape_def)

text \<open>The two names that a path must not end with are escaped further and still mean the same.\<close>

lemma escapeRuleID_spec:
  "url_PathUnescape (escapeRuleID s) = Some s \<and> CHR ''/'' \<notin> set (escapeRuleID s) \<and> (escapeRuleID s = [] \<longleftrightarrow> s = []) \<and>
     escapeRuleID s \<noteq> ''.'' \<and> escapeRuleID s \<noteq> ''..''"
proof -
  note r = PathEscape_roundtrip [of s]
  have dot: "s = ''.''" if "url_PathEscape s = ''.''" using r that by simp
  have dots: "s = ''..''" if "url_PathEscape s = ''..''" using r that by simp
  have h: "url_PathUnescape ''%2E'' = Some ''.''" "url_PathUnescape ''%2E%2E'' = Some ''..''" by (simp_all add: hexValue_def char_of_eq_iff)
  show ?thesis
    using r dot dots h PathEscape_Nil [of s] by (auto simp: escapeRuleID_def Let_def)
qed

section \<open>Strict bodies\<close>

text \<open>The scan for repeated names keeps the contract of a walk over tokens; it counts only arrays and objects as depth.\<close>

interpretation apiScan: token_walk scan "\<lambda>depth. True" "\<lambda>depth. depth < maximumJSONDepth"
  by unfold_locales (auto simp: verdict_def andThen_def split: prod.split bool.split)

fun strict_named :: "nat \<Rightarrow> json \<Rightarrow> bool" where
  "strict_named depth JScalar \<longleftrightarrow> True"
| "strict_named depth (JString s) \<longleftrightarrow> True"
| "strict_named depth (JArray xs) \<longleftrightarrow> depth < maximumJSONDepth \<and> (\<forall>x \<in> set xs. strict_named (Suc depth) x)"
| "strict_named depth (JObject kvs) \<longleftrightarrow>
     depth < maximumJSONDepth \<and> distinct (map fst kvs) \<and> (\<forall>kv \<in> set kvs. strict_named (Suc depth) (snd kv))"

lemma strict_named_names_ok: "strict_named depth j \<longleftrightarrow> names_ok (\<lambda>depth. True) (\<lambda>depth. depth < maximumJSONDepth) depth j"
  by (induction depth j rule: strict_named.induct) auto

text \<open>
  For every document, the scan of its tokens accepts it exactly if no object has a name twice and arrays and
  objects are nested at most a hundred deep.
\<close>

lemma rejectDuplicateJSONNames_correct: "rejectDuplicateJSONNames (json_tokens j, None) \<longleftrightarrow> \<not> strict_named 0 j"
  using apiScan.walks_document [of j]
  by (cases "strict_named 0 j")
    (auto simp: rejectDuplicateJSONNames_def scanJSONValue_def ensureJSONEOF_def verdict_def strict_named_names_ok split: prod.splits)

section \<open>What a request may change\<close>

lemma answer_snd [simp]: "snd (answer lib request write r) = snd r"
  by (auto simp: answer_def split: prod.split sum.split)

lemma revision_missing: "(\<nexists>expected. parseIfMatch (hr_IfMatch request) = Inr expected) \<Longrightarrow> \<exists>response. requestRevision lib request = Inl response"
  by (cases "parseIfMatch (hr_IfMatch request)") (auto simp: requestRevision_def split: if_match_error.split)

lemma unconditional_refused:
  assumes "\<nexists>expected. parseIfMatch (hr_IfMatch request) = Inr expected"
  shows "snd (handle_updateConfig lib update request ctx b) = b" and "snd (handle_cancelPendingConfig lib bk request ctx b) = b"
    and "snd (handle_editRules lib bk request ctx item b) = b"
  using revision_missing [OF assms, of lib]
  by (auto simp: handle_updateConfig_def handle_cancelPendingConfig_def handle_editRules_def)

text \<open>Routes that change only the running process: the temporary overlays and the MIDI output.\<close>

definition transientPaths :: "string set" where
  "transientPaths = {''/api/v1/flows/mute'', ''/api/v1/flows/solo'', midiAuditionPath, midiPanicPath}"

text \<open>What the handler relies on: operations that read leave the state of the backend as it was, as far as \<open>same\<close> looks at it.\<close>

locale management_contract =
  fixes bk :: "('b, 'p) Backend" and same :: "'b \<Rightarrow> 'b \<Rightarrow> bool"
  assumes same_refl: "same b b"
    and status_same: "same b (snd (bk_Status bk ctx b))"
    and config_same: "same b (snd (bk_Config bk ctx b))"
    and pending_same: "same b (snd (bk_PendingConfig bk ctx b))"
    and validate_same: "same b (snd (bk_ValidateConfig bk ctx c b))"
    and rules_same: "same b (snd (bk_Rules bk ctx b))"
    and flows_same: "same b (snd (bk_Flows bk ctx limit b))"
    and devices_same: "same b (snd (bk_MIDIDevices bk ctx b))"
    and interfaces_same: "same b (snd (bk_Interfaces bk ctx b))"
    and peers_same: "same b (snd (bk_Peers bk ctx b))"
begin

lemmas reads_same = same_refl status_same config_same pending_same validate_same rules_same flows_same devices_same interfaces_same peers_same

lemma documents_same:
  "same b (snd (serveInterfaces lib bk request ctx b))" "same b (snd (serveMIDIDevices lib bk request ctx b))"
  "same b (snd (servePeers lib bk request ctx b))" "same b (snd (handle_flows lib bk request ctx b))"
  "same b (snd (handle_validateConfig lib bk request ctx b))"
  by (auto simp: serveInterfaces_def serveMIDIDevices_def servePeers_def handle_flows_def handle_validateConfig_def reads_same
      split: option.split sum.split)

lemma rules_guarded:
  assumes "(\<nexists>expected. parseIfMatch (hr_IfMatch request) = Inr expected) \<or> hr_Method request \<in> {''GET'', ''HEAD''}"
  shows "same b (snd (serveRulesCollection lib bk request ctx b))" and "same b (snd (serveRuleItem lib bk request ctx b))"
  using assms
  by (auto simp: serveRulesCollection_def serveRuleItem_def reads_same unconditional_refused(3) [of request]
      split: sum.split rule_path_error.split)

lemma transient_reads:
  assumes "hr_Method request \<in> {''GET'', ''HEAD''}"
  shows "snd (serveMIDIAudition lib bk request ctx b) = b" and "snd (serveMIDIPanic lib bk request ctx b) = b"
  using assms by (auto simp: serveMIDIAudition_def serveMIDIPanic_def)

lemma route_guarded:
  assumes "hr_Method request \<in> {''GET'', ''HEAD''} \<or>
      hr_EscapedPath request \<notin> transientPaths \<and> (\<nexists>expected. parseIfMatch (hr_IfMatch request) = Inr expected)"
  shows "same b (snd (route lib bk request ctx b))"
proof -
  have *: "(\<nexists>expected. parseIfMatch (hr_IfMatch request) = Inr expected) \<or> hr_Method request \<in> {''GET'', ''HEAD''}" using assms by blast
  show ?thesis
  proof (cases "hr_Method request \<in> {''GET'', ''HEAD''}")
    case True
    then show ?thesis
      by (auto simp add: route_def Let_def if_distrib [of snd] reads_same documents_same rules_guarded [OF *] transient_reads [OF True])
  next
    case False
    then have none: "\<nexists>expected. parseIfMatch (hr_IfMatch request) = Inr expected" and t: "hr_EscapedPath request \<notin> transientPaths" using assms by auto
    show ?thesis using False t
      by (auto simp add: route_def Let_def if_distrib [of snd] reads_same documents_same rules_guarded [OF *] unconditional_refused [OF none]
          transientPaths_def)
  qed
qed

end

section \<open>The backend of the program keeps the contract\<close>

definition unchanged :: "'d managementBackend \<times> 'd \<times> 'm \<Rightarrow> 'd managementBackend \<times> 'd \<times> 'm \<Rightarrow> bool" where
  "unchanged s s' \<longleftrightarrow> mb_controller (fst s') = mb_controller (fst s) \<and> mb_registry (fst s') = mb_registry (fst s) \<and> snd s' = snd s"

lemma inMemory_unchanged:
  "(\<And>r backend'. f (fst s) = (r, backend') \<Longrightarrow> mb_controller backend' = mb_controller (fst s) \<and> mb_registry backend' = mb_registry (fst s)) \<Longrightarrow>
     unchanged s (snd (inMemory f s))"
  by (cases s; cases "f (fst s)") (simp add: unchanged_def inMemory_def)

interpretation api: management_contract "programBackend lib iteration su" unchanged for lib iteration su
proof
  fix s :: "'a managementBackend \<times> 'a \<times> 'b" and ctx :: mgmt_request and c :: Config and limit :: int
  show "unchanged s s" by (simp add: unchanged_def)
  show "unchanged s (snd (bk_Status (programBackend lib iteration su) ctx s))"
    unfolding programBackend_def Backend.select_convs
    by (rule inMemory_unchanged) (auto simp: backend_Status_def Let_def split: prod.splits if_splits dest!: backend_issue_kept)
  show "unchanged s (snd (bk_Config (programBackend lib iteration su) ctx s))"
    unfolding programBackend_def Backend.select_convs
    by (rule inMemory_unchanged) (auto simp: backend_Config_def redactedDocument_def Let_def split: prod.splits if_splits dest!: backend_issue_kept)
  show "unchanged s (snd (bk_PendingConfig (programBackend lib iteration su) ctx s))"
    unfolding programBackend_def Backend.select_convs
    by (rule inMemory_unchanged)
      (auto simp: backend_PendingConfig_def redactedDocument_def Let_def split: prod.splits if_splits option.splits dest!: backend_issue_kept)
  show "unchanged s (snd (bk_ValidateConfig (programBackend lib iteration su) ctx c s))"
    unfolding programBackend_def Backend.select_convs
    by (rule inMemory_unchanged)
      (auto simp: backend_ValidateConfig_def Let_def split: prod.splits if_splits sum.splits dest!: backend_issue_kept)
  show "unchanged s (snd (bk_Rules (programBackend lib iteration su) ctx s))"
    unfolding programBackend_def Backend.select_convs
    by (rule inMemory_unchanged)
      (auto simp: backend_Rules_def managementRulesDocument_def Let_def split: prod.splits if_splits dest!: backend_issue_kept)
  show "unchanged s (snd (bk_Flows (programBackend lib iteration su) ctx limit s))"
    unfolding programBackend_def Backend.select_convs by (rule inMemory_unchanged) simp
  show "unchanged s (snd (bk_MIDIDevices (programBackend lib iteration su) ctx s))"
    "unchanged s (snd (bk_Interfaces (programBackend lib iteration su) ctx s))"
    "unchanged s (snd (bk_Peers (programBackend lib iteration su) ctx s))"
    by (simp_all add: programBackend_def unchanged_def split: prod.splits)
qed

lemma serve_route:
  "api_ServeHTTP lib bk port request ctx b = (response, b', observed) \<Longrightarrow> localRequest lib request port \<Longrightarrow>
     route lib bk request ctx b = (response, b')"
  by (auto simp: api_ServeHTTP_def Let_def split: prod.splits)

lemma serve_remote:
  "api_ServeHTTP lib bk port request ctx b = (response, b', observed) \<Longrightarrow> \<not> localRequest lib request port \<Longrightarrow>
     b' = b \<and> response = writeProblem lib request 403 ''forbidden'' []"
  by (auto simp: api_ServeHTTP_def Let_def)

section \<open>Storing a configuration\<close>

lemma issue_public: "backend_issue raw backend = (public, backend') \<Longrightarrow>
   mc_key (mb_revisions backend') = mc_key (mb_revisions backend) \<and> (raw \<noteq> [] \<longrightarrow> public = codec_calculate (mb_revisions backend') raw) \<and>
   (raw = [] \<longrightarrow> public = [])"
  by (auto simp: backend_issue_def codec_issue_def codec_evict_def codec_calculate_def Let_def split: if_splits)

lemma UpdateConfig_cases:
  assumes "backend_UpdateConfig lib rq expected candidate backend d = (result, backend', d')"
  obtains (stopped) e where "result = Inl e" "mb_controller backend' = mb_controller backend" "d' = d"
  | (failed) e err raw resolved where "result = Inl e"
      "transactContext (yl_config lib) (derivedTxn rq) raw (\<lambda>_. Inr resolved) (mb_controller backend) d = (Some err, mb_controller backend', d')"
  | (committed) resolved public where "ResolveRedacted candidate (ps_configuration (co_current (mb_controller backend))) = Inr resolved"
      "transactContext (yl_config lib) (derivedTxn rq) (codec_resolve (mb_revisions backend) expected (ps_revision (co_current (mb_controller backend))))
         (\<lambda>_. Inr resolved) (mb_controller backend) d = (None, mb_controller backend', d')"
      "result = Inr \<lparr>cd_Config = Redacted (ps_configuration (co_current (mb_controller backend'))), cd_Revision = public\<rparr>"
      "validRevision public \<Longrightarrow> codec_resolve (mb_revisions backend') public (ps_revision (co_current (mb_controller backend'))) =
         ps_revision (co_current (mb_controller backend'))"
proof (cases "rq_nil rq \<or> runtimeStopping backend rq")
  case True
  then show ?thesis using assms stopped by (auto simp: backend_UpdateConfig_def split: if_splits)
next
  case False
  let ?s = "co_current (mb_controller backend)"
  let ?raw = "codec_resolve (mb_revisions backend) expected (ps_revision ?s)"
  have cur: "do_Revision (Current (mb_controller backend)) = ps_revision ?s" "do_Config (Current (mb_controller backend)) = ps_configuration ?s"
    by (simp_all add: Current_def Let_def)
  show ?thesis
  proof (cases "ResolveRedacted candidate (ps_configuration ?s)")
    case (Inl e)
    then show ?thesis using assms False stopped cur by (auto simp: backend_UpdateConfig_def Let_def)
  next
    case (Inr resolved)
    obtain err controller w where run: "transactContext (yl_config lib) (derivedTxn rq) ?raw (\<lambda>_. Inr resolved) (mb_controller backend) d = (err, controller, w)"
      by (metis prod_cases3)
    consider "\<not> validateManagementSize lib resolved \<or> derivedErr rq \<noteq> None" | (live) "validateManagementSize lib resolved" "derivedErr rq = None"
      by blast
    then show ?thesis
    proof cases
      case 1
      then show ?thesis using assms False stopped cur Inr
        by (auto simp: backend_UpdateConfig_def Let_def split: prod.splits if_splits dest!: backend_kept)
    next
      case live
      show ?thesis
      proof (cases err)
        case (Some e)
        then show ?thesis using assms False live run cur Inr failed
          by (auto simp: backend_UpdateConfig_def UpdateContext_def Let_def split: prod.splits dest!: backend_kept)
      next
        case None
        obtain public codec where i: "backend_issue (do_Revision (Current controller)) (backend\<lparr>mb_controller := controller\<rparr>) = (public, codec)" by force
        have r: "result = Inr \<lparr>cd_Config = Redacted (do_Config (Current controller)), cd_Revision = public\<rparr>" "backend' = codec" "d' = w"
          using assms False live run cur Inr None i
          by (auto simp: backend_UpdateConfig_def UpdateContext_def redactedDocument_def Let_def)
        have c: "mb_controller backend' = controller" using backend_issue_kept [OF i] r by simp
        have "codec_resolve (mb_revisions backend') public (ps_revision (co_current controller)) = ps_revision (co_current controller)"
          if "validRevision public"
        proof -
          have "length public = 64" using that by (simp only: validRevision_def)
          then have "public \<noteq> []" by auto
          then show ?thesis using issue_public [OF i] r(2) by (auto simp: codec_resolve_def Current_def Let_def)
        qed
        then show ?thesis using committed [OF Inr, of public] run r c None by (simp add: Current_def Let_def)
      qed
    qed
  qed
qed

section \<open>Samples\<close>

definition sampleHttp :: "unit http_lib" where
  "sampleHttp = \<lparr>hl_yaml = sampleYaml, hl_PrefixString = (\<lambda>_. []),
     hl_ParseIP = (\<lambda>s. if s = ''127.0.0.1'' then Some (Addr4 0x7F000001) else if s = ''10.0.0.9'' then Some (Addr4 0x0A000009) else None),
     hl_Parse = (\<lambda>_. None), hl_Path = (\<lambda>_. []), hl_ParseMediaType = (\<lambda>s. Some (s, [])), hl_ParseQuery = (\<lambda>_. Some []), hl_Marshals = (\<lambda>_. True),
     hl_Tokens = (\<lambda>_. ([], None)), hl_Value = (\<lambda>_. None), hl_Rule = (\<lambda>_. None), hl_Rules = (\<lambda>_. None), hl_Order = (\<lambda>_. None),
     hl_FlowSet = (\<lambda>_. None), hl_Audition = (\<lambda>_. None)\<rparr>"

definition sampleSubsystems :: "('d, unit, unit) subsystems" where
  "sampleSubsystems = \<lparr>su_MIDIDevices = (\<lambda>_ _ _. Inl (Passed [])), su_AuditionMIDI = (\<lambda>_ _ _ m. (None, m)), su_PanicMIDI = (\<lambda>_ _ m. (None, m)),
     su_Interfaces = (\<lambda>_ _ _. Inl (Passed [])), su_Peers = (\<lambda>_ _. Inr ())\<rparr>"

definition samplePut :: "string \<Rightarrow> http_request" where
  "samplePut remote = \<lparr>hr_Method = ''PUT'', hr_EscapedPath = ''/api/v1/config'', hr_RawQuery = [], hr_ForceQuery = False, hr_Fragment = [],
     hr_RemoteAddr = remote, hr_Host = ''localhost:8080'', hr_TLS = False, hr_Origin = None,
     hr_IfMatch = [CHR 34 # codec_calculate sampleCodec (digest [0]) @ [CHR 34]], hr_ContentEncoding = [], hr_ContentType = [''application/yaml''],
     hr_Body = ([2], False)\<rparr>"

lemma sample_hosts:
  "net_SplitHostPort ''127.0.0.1:4000'' = Some (''127.0.0.1'', ''4000'')" "net_SplitHostPort ''10.0.0.9:4000'' = Some (''10.0.0.9'', ''4000'')"
  "net_SplitHostPort ''localhost:8080'' = Some (''localhost'', ''8080'')"
  by code_simp+

lemma sample_folds: "equalFold ''localhost'' ''localhost''" "equalFold ''application/yaml'' ''application/yaml''"
  by code_simp+

lemma samplePut_local: "localRequest sampleHttp (samplePut ''127.0.0.1:4000'') 8080" "\<not> localRequest sampleHttp (samplePut ''10.0.0.9:4000'') 8080"
proof -
  have p: "parseUint16 ''4000'' = Some 4000" "parseUint16 ''8080'' = Some 8080"
    by (simp_all add: parseUint16_def asciiDigit_def decimalValue_def)
  have c: "\<not> strings_ContainsAny ''localhost:8080'' ('' /@'' @ [CHR 9, CHR 13, CHR 10])" by code_simp
  have a: "loopbackAuthority sampleHttp ''localhost:8080'' ''http'' 8080"
    unfolding loopbackAuthority_def splitAuthority_def sample_hosts using sample_folds(1) c by (simp add: p del: equalFold.simps)
  show "localRequest sampleHttp (samplePut ''127.0.0.1:4000'') 8080" "\<not> localRequest sampleHttp (samplePut ''10.0.0.9:4000'') 8080"
    using a by (simp_all add: localRequest_def samplePut_def sample_hosts p) (simp_all add: sampleHttp_def IP_IsLoopback_def)
qed

lemma samplePut_answer:
  "\<exists>response s' observed. api_ServeHTTP sampleHttp (programBackend sampleYaml [] sampleSubsystems) 8080 (samplePut ''127.0.0.1:4000'') liveRequest
     (sampleBackend, sampleWorld, ()) = (response, s', observed) \<and> rs_Status response = 200"
proof -
  let ?rq = "samplePut ''127.0.0.1:4000''"
  have tag: "formatETag (codec_calculate sampleCodec (digest [0])) = Some (CHR 34 # codec_calculate sampleCodec (digest [0]) @ [CHR 34])"
    using codec_token_valid by (simp add: formatETag_def)
  have rev: "requestRevision sampleHttp ?rq = Inr (codec_calculate sampleCodec (digest [0]))"
    using parseIfMatch_formatETag [OF tag] by (simp add: requestRevision_def samplePut_def)
  have dec: "decodeConfigRequest sampleHttp ?rq = Inr (Redacted Config_Default)"
    using sample_folds(2) by (simp add: decodeConfigRequest_def samplePut_def rejectedEncoding_def acceptedMediaType_def readBody_def sampleHttp_def
        MaximumBytes_def sample_encodings del: equalFold.simps)
  have res: "ResolveRedacted (Redacted Config_Default) Config_Default = Inr Config_Default"
    by (simp add: ResolveRedacted_def Redacted_def setSeed_def setPeerURL_def setPeerToken_def RedactedValue_def RedactedURLValue_def Let_def)
  have "derivedTxn liveRequest = background" by (simp add: derivedTxn_def liveRequest_def background_def)
  then obtain backend' where u: "backend_UpdateConfig sampleYaml liveRequest (codec_calculate sampleCodec (digest [0])) (Redacted Config_Default) sampleBackend sampleWorld =
      (Inr \<lparr>cd_Config = Redacted Config_Default, cd_Revision = codec_calculate sampleCodec (digest [0])\<rparr>, backend', nextMutation sampleWorld sampleDisk)"
    using sample_transact [of "\<lambda>_. Inr Config_Default"] res sample_encodings(5) digest_nonempty
    by (simp add: backend_UpdateConfig_def UpdateContext_def runtimeStopping_def derivedErr_def liveRequest_def sampleBackend_def codec_resolve_def
        Current_def sampleYaml_config redactedDocument_def backend_issue_def codec_issue_def sampleCodec_def newManagementRevisionCodecWithKey_def
        codec_evict_def codec_calculate_def Let_def)
  obtain b where "config_Encode sampleYaml (Redacted Config_Default) = Inr [b]" using sample_encodings(4) by blast
  then have w: "rs_Status (writeConfig sampleHttp ?rq \<lparr>cd_Config = Redacted Config_Default, cd_Revision = codec_calculate sampleCodec (digest [0])\<rparr>) = 200"
    using tag by (simp add: writeConfig_def sampleHttp_def respond_def)
  have "route sampleHttp (programBackend sampleYaml [] sampleSubsystems) ?rq liveRequest (sampleBackend, sampleWorld, ()) =
      handle_updateConfig sampleHttp (bk_UpdateConfig (programBackend sampleYaml [] sampleSubsystems)) ?rq liveRequest (sampleBackend, sampleWorld, ())"
    by (simp add: route_def samplePut_def)
  then show ?thesis
    using samplePut_local(1) rev dec u w by (simp add: api_ServeHTTP_def handle_updateConfig_def programBackend_def onDisk_def answer_def)
qed

section \<open>Properties\<close>

text \<open>
  A request of this machine: its connection comes from a loopback address, the authority it names is a loopback
  one with the port of the listener, and if a browser says where it comes from, that is the same origin.
\<close>

definition trustedRequest :: "'p http_lib \<Rightarrow> http_request \<Rightarrow> u16 \<Rightarrow> bool" where
  "trustedRequest lib request port \<longleftrightarrow>
     (let scheme = (if hr_TLS request then ''https'' else ''http'') in
      (\<exists>host remotePort ip. net_SplitHostPort (hr_RemoteAddr request) = Some (host, remotePort) \<and> hl_ParseIP lib host = Some ip \<and> IP_IsLoopback ip) \<and>
      loopbackAuthority lib (hr_Host request) scheme port \<and>
      (\<forall>origins. hr_Origin request = Some origins \<longrightarrow> origins = [scheme @ ''://'' @ hr_Host request]))"

lemma localRequest_trusted:
  assumes "localRequest lib request port"
  shows "trustedRequest lib request port"
proof -
  let ?scheme = "if hr_TLS request then ''https'' else ''http''"
  obtain host remotePort where r: "net_SplitHostPort (hr_RemoteAddr request) = Some (host, remotePort)"
    using assms by (cases "net_SplitHostPort (hr_RemoteAddr request)") (auto simp: localRequest_def)
  obtain n where n: "parseUint16 remotePort = Some n" "remotePort \<noteq> []" "n \<noteq> 0"
    using assms r by (cases "parseUint16 remotePort") (auto simp: localRequest_def Let_def split: if_splits)
  obtain ip where ip: "hl_ParseIP lib host = Some ip" "IP_IsLoopback ip" "loopbackAuthority lib (hr_Host request) ?scheme port"
    using assms r n by (cases "hl_ParseIP lib host") (auto simp: localRequest_def Let_def split: if_splits)
  have "origins = [?scheme @ ''://'' @ hr_Host request]" if o: "hr_Origin request = Some origins" for origins
  proof (cases origins)
    case Nil
    then show ?thesis using assms r n ip o by (simp add: localRequest_def Let_def)
  next
    case (Cons origin more)
    then have "more = []" using assms r n ip o by (cases more) (simp_all add: localRequest_def Let_def)
    moreover have "origin = ?scheme @ ''://'' @ hr_Host request" if "more = []"
      using assms r n ip o Cons that by (cases "hl_Parse lib origin") (simp_all add: localRequest_def Let_def split: if_split_asm)
    ultimately show ?thesis using Cons by simp
  qed
  then show ?thesis using r ip unfolding trustedRequest_def Let_def by blast
qed


lemma problem_status: "rs_Status (writeProblem lib request status code names) \<in> {status, 500}"
  by (auto simp: writeProblem_def respond_def)

lemma problem_failure: "status \<noteq> 200 \<Longrightarrow> rs_Status (writeProblem lib request status code names) \<noteq> 200"
  by (auto simp: writeProblem_def respond_def)

lemma kindStatus_failure: "kindStatus kind = (status, code) \<Longrightarrow> status \<noteq> 200"
  by (cases kind) auto

lemma backend_error_status: "rs_Status (writeBackendError lib request e) \<noteq> 200"
proof (cases e)
  case (Backend x)
  obtain status code where k: "kindStatus (be_Kind x) = (status, code)" by force
  show ?thesis using kindStatus_failure [OF k] by (simp add: Backend k writeBackendError_def problem_failure Let_def split: option.split)
qed (simp add: writeBackendError_def problem_failure)

lemma revision_refused_status: "requestRevision lib request = Inl response \<Longrightarrow> rs_Status response \<noteq> 200"
  by (cases "parseIfMatch (hr_IfMatch request)") (auto simp: requestRevision_def problem_failure split: if_match_error.splits)

lemma decode_refused_status: "decodeConfigRequest lib request = Inl response \<Longrightarrow> rs_Status response \<noteq> 200"
  by (auto simp: decodeConfigRequest_def problem_failure split: sum.splits body_error.splits if_splits)

lemma writeConfig_status:
  "rs_Status (writeConfig lib request document) \<in> {200, 500}"
  "rs_Status (writeConfig lib request document) = 200 \<Longrightarrow> hr_Method request \<noteq> ''HEAD'' \<Longrightarrow>
     \<exists>etag. formatETag (cd_Revision document) = Some etag \<and> rs_ETag (writeConfig lib request document) = Some etag \<and>
       rs_Body (writeConfig lib request document) = BodyConfig (cd_Config document)"
proof -
  have p: "rs_Status (writeProblem lib request 500 code names) = 500" for code names using problem_status [of lib request 500] by auto
  show "rs_Status (writeConfig lib request document) \<in> {200, 500}" using p
    by (auto simp: writeConfig_def respond_def split: sum.split option.split)
  show "\<exists>etag. formatETag (cd_Revision document) = Some etag \<and> rs_ETag (writeConfig lib request document) = Some etag \<and>
       rs_Body (writeConfig lib request document) = BodyConfig (cd_Config document)"
    if "rs_Status (writeConfig lib request document) = 200" "hr_Method request \<noteq> ''HEAD''"
    using that p by (auto simp: writeConfig_def respond_def split: sum.splits option.splits)
qed

text \<open>
  C13. Storing a configuration over HTTP is an optimistic transaction. When a local PUT is answered 200, the
  revision in its If-Match header named exactly what the file held; the active configuration is then the
  one in the body with its placeholders replaced by the secrets that were active, the file holds its revision,
  and the answer shows it without secrets under an entity tag that a later request can use. When it is answered
  otherwise (other than by an internal error), configuration, selector and revision are what they were.
\<close>

theorem Put_config:
  assumes "yaml_roundtrip lib" and "quietWorld d" and "coherent (yl_config lib) (mb_controller backend)"
    and "co_repository (mb_controller backend) = Some (fileRepository lib provenance)"
    and "localRequest hlib request port" "hr_EscapedPath request = ''/api/v1/config''" and put: "hr_Method request = ''PUT''"
    and run: "api_ServeHTTP hlib (programBackend lib iteration su) port request ctx (backend, d, m) = (response, (backend', d', m'), observed)"
  shows "let s = co_current (mb_controller backend); s' = co_current (mb_controller backend') in
    (rs_Status response = 200 \<longrightarrow>
      (\<exists>expected candidate etag public.
         parseIfMatch (hr_IfMatch request) = Inr expected \<and>
         storedRevision d = Some (codec_resolve (mb_revisions backend) expected (ps_revision s)) \<and>
         decodeConfigRequest hlib request = Inr candidate \<and> ResolveRedacted candidate (ps_configuration s) = Inr (ps_configuration s') \<and>
         storedRevision d' = Some (ps_revision s') \<and> rs_Body response = BodyConfig (Redacted (ps_configuration s')) \<and>
         rs_ETag response = Some etag \<and> parseIfMatch [etag] = Inr public \<and>
         codec_resolve (mb_revisions backend') public (ps_revision s') = ps_revision s')) \<and>
    (rs_Status response \<notin> {200, 500} \<longrightarrow>
       ps_configuration s' = ps_configuration s \<and> ps_selector s' = ps_selector s \<and> ps_revision s' = ps_revision s)"
proof -
  have h: "handle_updateConfig hlib (bk_UpdateConfig (programBackend lib iteration su)) request ctx (backend, d, m) = (response, backend', d', m')"
    using serve_route [OF run assms(5)] assms(6) put by (simp add: route_def Let_def)
  show ?thesis
  proof (cases "requestRevision hlib request")
    case (Inl r)
    then show ?thesis using h revision_refused_status [OF Inl] by (simp add: handle_updateConfig_def Let_def)
  next
    case rev: (Inr expected)
    have e: "parseIfMatch (hr_IfMatch request) = Inr expected"
      using rev by (auto simp: requestRevision_def split: sum.splits if_match_error.splits)
    show ?thesis
    proof (cases "decodeConfigRequest hlib request")
      case (Inl r)
      then show ?thesis using h rev decode_refused_status [OF Inl] by (simp add: handle_updateConfig_def Let_def)
    next
      case dec: (Inr candidate)
      obtain result where u: "backend_UpdateConfig lib ctx expected candidate backend d = (result, backend', d')"
        and a: "response = fst (answer hlib request (writeConfig hlib request) (result, backend', d', m'))"
        using h rev dec by (auto simp: handle_updateConfig_def programBackend_def onDisk_def answer_def split: prod.splits sum.splits)
      from u show ?thesis
      proof (cases rule: UpdateConfig_cases)
        case (stopped x)
        then show ?thesis using a by (simp add: answer_def backend_error_status Let_def)
      next
        case (failed x err raw resolved)
        then show ?thesis using a transact_outcome [OF assms(1-4) failed(2)] by (simp add: answer_def backend_error_status Let_def)
      next
        case (committed resolved public)
        note out = transact_outcome [OF assms(1-4) committed(2)]
        let ?document = "\<lparr>cd_Config = Redacted (ps_configuration (co_current (mb_controller backend'))), cd_Revision = public\<rparr>"
        have r: "response = writeConfig hlib request ?document" using a committed(3) by (simp add: answer_def)
        have ok: "rs_Status response \<in> {200, 500}" unfolding r by (rule writeConfig_status(1))
        have conf: "ps_configuration (co_current (mb_controller backend')) = resolved" using out by (auto simp: Let_def)
        show ?thesis
        proof (cases "rs_Status response = 200")
          case True
          obtain etag where t: "formatETag public = Some etag" "rs_ETag response = Some etag" "rs_Body response = BodyConfig (cd_Config ?document)"
            using writeConfig_status(2) [of hlib request ?document] True put r by auto
          have v: "validRevision public" using t(1) by (simp add: formatETag_def split: if_splits)
          show ?thesis using True e dec committed(1) out conf t parseIfMatch_formatETag [OF t(1)] committed(4) [OF v] by (auto simp: Let_def)
        qed (use ok in \<open>simp add: Let_def\<close>)
      qed
    qed
  qed
qed

text \<open>
  C33. The address of a created rule finds the rule. Every identifier of a rule that is valid UTF-8 and not empty,
  whatever characters it has (slashes, percent signs, dots), is read back from the path that the Location
  header gives it, and that path never ends in a dot segment.
\<close>

theorem Rule_location_roundtrip:
  assumes "ident \<noteq> []" and "utf8_Valid (string_bytes ident)"
  shows "parseRuleItemID (rulesCollectionPath @ ''/'' @ escapeRuleID ident) = Inr ident \<and>
    (\<forall>prefix. rulesCollectionPath @ ''/'' @ escapeRuleID ident \<noteq> prefix @ ''/.'' \<and>
       rulesCollectionPath @ ''/'' @ escapeRuleID ident \<noteq> prefix @ ''/..'')"
proof -
  note e = escapeRuleID_spec [of ident]
  have "parseRuleItemID (rulesCollectionPath @ ''/'' @ escapeRuleID ident) = Inr ident"
    using e assms by (simp add: parseRuleItemID_def hasPrefix_def rulesCollectionPath_def Let_def)
  moreover have "rulesCollectionPath @ ''/'' @ escapeRuleID ident \<noteq> prefix @ ''/'' @ y" if y: "y \<in> {''.'', ''..''}" for prefix y
  proof
    assume eq: "rulesCollectionPath @ ''/'' @ escapeRuleID ident = prefix @ ''/'' @ y"
    have last: "takeWhile (\<lambda>c. c \<noteq> CHR ''/'') (rev (us @ ''/'' @ u)) = rev u" if "CHR ''/'' \<notin> set u" for us u :: string
      using that by (auto simp: takeWhile_append)
    have "CHR ''/'' \<notin> set y" using y by auto
    from last [OF this, of prefix, folded eq] last [of "escapeRuleID ident" rulesCollectionPath] e
    have "rev (escapeRuleID ident) = rev y" by metis
    then show False using y e by auto
  qed
  from this [of "''.''"] this [of "''..''"]
  have "rulesCollectionPath @ ''/'' @ escapeRuleID ident \<noteq> prefix @ ''/.'' \<and> rulesCollectionPath @ ''/'' @ escapeRuleID ident \<noteq> prefix @ ''/..''" for prefix
    by simp
  ultimately show ?thesis by blast
qed


theorem Put_config_witness:
  "\<exists>response backend' d' m' observed. api_ServeHTTP sampleHttp (programBackend sampleYaml [] sampleSubsystems) 8080 (samplePut ''127.0.0.1:4000'')
     liveRequest (sampleBackend, sampleWorld, ()) = (response, (backend', d', m'), observed) \<and>
     storedRevision sampleWorld = Some (ps_revision (co_current sampleController)) \<and>
     storedRevision d' = Some (ps_revision (co_current (mb_controller backend'))) \<and>
     rs_Body response = BodyConfig (Redacted (ps_configuration (co_current (mb_controller backend'))))"
proof -
  obtain response backend' d' m' observed where r: "api_ServeHTTP sampleHttp (programBackend sampleYaml [] sampleSubsystems) 8080
      (samplePut ''127.0.0.1:4000'') liveRequest (sampleBackend, sampleWorld, ()) = (response, (backend', d', m'), observed)" "rs_Status response = 200"
    using samplePut_answer by (metis prod_cases3)
  have co: "coherent (yl_config sampleYaml) (mb_controller sampleBackend)" using newController_coherent [OF sampleStart] by (simp add: sampleBackend_def)
  have repo: "co_repository (mb_controller sampleBackend) = Some (fileRepository sampleYaml 1)" by (simp add: sampleBackend_def)
  have token: "parseIfMatch (hr_IfMatch (samplePut ''127.0.0.1:4000'')) = Inr (codec_calculate sampleCodec (digest [0]))"
    using parseIfMatch_formatETag [of "codec_calculate sampleCodec (digest [0])"] codec_token_valid [of sampleCodec "digest [0]"]
    by (simp add: samplePut_def formatETag_def)
  have old: "codec_resolve (mb_revisions sampleBackend) (codec_calculate sampleCodec (digest [0])) (ps_revision (co_current (mb_controller sampleBackend))) =
      ps_revision (co_current sampleController)" by (simp add: sampleBackend_def codec_resolve_def)
  have req: "hr_EscapedPath (samplePut ''127.0.0.1:4000'') = ''/api/v1/config''" "hr_Method (samplePut ''127.0.0.1:4000'') = ''PUT''"
    by (simp_all add: samplePut_def)
  from Put_config [OF sampleYaml_roundtrip sampleWorld_quiet co repo samplePut_local(1) req r(1)] r token old show ?thesis
    by (auto simp: Let_def)
qed

theorem Rule_location_roundtrip_witness:
  "parseRuleItemID (rulesCollectionPath @ ''/'' @ escapeRuleID ''a/..%'') = Inr ''a/..%''"
proof -
  have "utf8_Valid (string_bytes ''a/..%'')" by code_simp
  then show ?thesis using Rule_location_roundtrip [of "''a/..%''"] by simp
qed

end
