(* ===== verification/Uistream.thy ===== *)
theory Uistream
  imports Music
begin

text \<open>
  internal/uistream: the hub that fans accepted notes out to browser subscribers, each with a bounded
  queue of its own that gives up its oldest note when full, and the batches a subscriber's handler
  drains. The select statements of \<open>Publish\<close> are separate steps: what other goroutines do to the queue
  between them is an argument.
\<close>

section \<open>The hub (hub.go)\<close>

record StreamNote =
  un_ID :: string
  un_Origin :: string
  un_Sequence :: u64
  un_MappingVersion :: string
  un_FlowID :: string
  un_Mode :: string
  un_Root :: u8
  un_Note :: u8
  un_Velocity :: u8
  un_DurationMS :: int
  un_Channel :: u8
  un_CreatedAt :: time
  un_AcceptedAt :: time

record Subscription =
  sub_id :: u64
  sub_queue :: "StreamNote list"
  sub_drops :: u64
  sub_closed :: bool

datatype stream_observation = Clients nat | Events string nat

record Hub =
  hub_capacity :: nat
  hub_nextID :: u64
  hub_clients :: "(u64, Subscription) fmap"
  hub_packets :: u64
  hub_notes :: u64
  hub_observed :: "stream_observation list"

definition NewHub :: "nat \<Rightarrow> Hub" where
  "NewHub capacity =
     \<lparr>hub_capacity = capacity, hub_nextID = 0, hub_clients = fmempty, hub_packets = 0, hub_notes = 0, hub_observed = []\<rparr>"

definition Subscribe :: "Hub \<Rightarrow> Subscription \<times> Hub" where
  "Subscribe hub =
     (let n = hub_nextID hub + 1;
          subscription = \<lparr>sub_id = n, sub_queue = [], sub_drops = 0, sub_closed = False\<rparr>;
          hub = hub\<lparr>hub_nextID := n, hub_clients := fmupd n subscription (hub_clients hub)\<rparr>
      in (subscription, hub\<lparr>hub_observed := hub_observed hub @ [Clients (map_len (hub_clients hub))]\<rparr>))"

definition noteFromEvent :: "NoteEvent \<Rightarrow> time \<Rightarrow> StreamNote" where
  "noteFromEvent event acceptedAt =
     \<lparr>un_ID = ne_ID event, un_Origin = ne_Origin event, un_Sequence = ne_Sequence event,
      un_MappingVersion = ne_MappingVersion event, un_FlowID = ne_FlowID event, un_Mode = Mode_String (ne_Mode event),
      un_Root = ne_Root event, un_Note = ne_Note event, un_Velocity = ne_Velocity event,
      un_DurationMS = duration_Milliseconds (ne_Duration event), un_Channel = ne_Channel event,
      un_CreatedAt = ne_CreatedAt event, un_AcceptedAt = acceptedAt\<rparr>"

text \<open>
  One subscriber's part of \<open>Publish\<close>: the queue after it and the notes counted as dropped. \<open>env1\<close> and \<open>env2\<close> are what
  the subscriber's handler and other publishers do to the queue between the first and second and
  between the second and third select.
\<close>

definition publishTo ::
  "nat \<Rightarrow> (StreamNote list \<Rightarrow> StreamNote list) \<Rightarrow> (StreamNote list \<Rightarrow> StreamNote list) \<Rightarrow> StreamNote \<Rightarrow> StreamNote list \<Rightarrow>
     nat \<times> StreamNote list" where
  "publishTo capacity env1 env2 note queue =
     (if length queue < capacity then (0, queue @ [note])
      else
        let queue = env1 queue;
            (drops, queue) = (case queue of [] \<Rightarrow> (0, []) | oldest # rest \<Rightarrow> (1, rest));
            queue = env2 queue
        in if length queue < capacity then (drops, queue @ [note]) else (drops + 1, queue))"

definition publishClient ::
  "nat \<Rightarrow> (u64 \<Rightarrow> StreamNote list \<Rightarrow> StreamNote list) \<Rightarrow> (u64 \<Rightarrow> StreamNote list \<Rightarrow> StreamNote list) \<Rightarrow> StreamNote \<Rightarrow>
     u64 \<Rightarrow> Hub \<Rightarrow> Hub" where
  "publishClient capacity env1 env2 note ident hub =
     (case fmlookup (hub_clients hub) ident of
        None \<Rightarrow> hub
      | Some subscription \<Rightarrow>
        let (drops, queue) = publishTo capacity (env1 ident) (env2 ident) note (sub_queue subscription) in
        hub\<lparr>hub_clients := fmupd ident (subscription\<lparr>sub_queue := queue, sub_drops := sub_drops subscription + of_nat drops\<rparr>)
              (hub_clients hub),
            hub_observed := hub_observed hub @ replicate drops (Events ''dropped'' 1)\<rparr>)"

text \<open>\<open>Publish\<close> ranges over the clients in an order that Go leaves open.\<close>

definition Publish ::
  "u64 list \<Rightarrow> (u64 \<Rightarrow> StreamNote list \<Rightarrow> StreamNote list) \<Rightarrow> (u64 \<Rightarrow> StreamNote list \<Rightarrow> StreamNote list) \<Rightarrow>
     NoteEvent \<Rightarrow> time \<Rightarrow> Hub \<Rightarrow> Hub" where
  "Publish order env1 env2 event now hub =
     (let hub = hub\<lparr>hub_notes := hub_notes hub + 1\<rparr>
      in fold (publishClient (hub_capacity hub) env1 env2 (noteFromEvent event now)) order hub)"

definition RecordPacket :: "Hub \<Rightarrow> Hub" where
  "RecordPacket hub = hub\<lparr>hub_packets := hub_packets hub + 1\<rparr>"

definition totals :: "Hub \<Rightarrow> u64 \<times> u64" where
  "totals hub = (hub_packets hub, hub_notes hub)"

definition TakeDrops :: "Subscription \<Rightarrow> u64 \<times> Subscription" where
  "TakeDrops subscription = (sub_drops subscription, subscription\<lparr>sub_drops := 0\<rparr>)"

definition CloseSubscription :: "Subscription \<Rightarrow> Hub \<Rightarrow> Subscription \<times> Hub" where
  "CloseSubscription subscription hub =
     (if sub_closed subscription then (subscription, hub)
      else let hub = hub\<lparr>hub_clients := fmdrop (sub_id subscription) (hub_clients hub)\<rparr>
           in (subscription\<lparr>sub_closed := True\<rparr>,
               hub\<lparr>hub_observed := hub_observed hub @ [Clients (map_len (hub_clients hub))]\<rparr>))"

section \<open>Batches (handler.go)\<close>

text \<open>\<open>drain\<close> takes what is queued, up to the maximum, and leaves the rest.\<close>

fun drain :: "StreamNote list \<Rightarrow> nat \<Rightarrow> StreamNote list \<Rightarrow> StreamNote list \<times> StreamNote list" where
  "drain notes maximum queue =
     (case queue of
        event # rest \<Rightarrow> if length notes < maximum then drain (notes @ [event]) maximum rest else (notes, queue)
      | [] \<Rightarrow> (notes, []))"

declare drain.simps [simp del]

record Batch =
  ba_SentAt :: time
  ba_Dropped :: u64
  ba_PacketTotal :: u64
  ba_NoteTotal :: u64
  ba_Notes :: "StreamNote list"

text \<open>One tick of a subscriber's handler, when the write of the batch succeeds.\<close>

definition batchTick :: "u64 \<Rightarrow> time \<Rightarrow> Hub \<Rightarrow> (Batch \<times> Hub) option" where
  "batchTick ident sentAt hub =
     (case fmlookup (hub_clients hub) ident of
        None \<Rightarrow> None
      | Some subscription \<Rightarrow>
        let (notes, rest) = drain [] (hub_capacity hub) (sub_queue subscription);
            (dropped, subscription) = TakeDrops (subscription\<lparr>sub_queue := rest\<rparr>);
            (packetTotal, noteTotal) = totals hub
        in Some (\<lparr>ba_SentAt = sentAt, ba_Dropped = dropped, ba_PacketTotal = packetTotal, ba_NoteTotal = noteTotal,
                  ba_Notes = notes\<rparr>,
                 hub\<lparr>hub_clients := fmupd ident subscription (hub_clients hub),
                     hub_observed := hub_observed hub @ [Events ''sent'' (length notes)]\<rparr>))"

section \<open>Lemmas\<close>

lemma drain_eq: "drain notes maximum queue = (notes @ take (maximum - length notes) queue, drop (maximum - length notes) queue)"
proof (induction queue arbitrary: "notes")
  case (Cons event rest)
  show ?case
  proof (cases "length notes < maximum")
    case True
    then have "maximum - length notes = Suc (maximum - Suc (length notes))" by simp
    then show ?thesis using Cons.IH [of "notes @ [event]"] True by (subst drain.simps) simp
  qed (simp add: drain.simps)
qed (simp add: drain.simps)

text \<open>The last \<open>n\<close> elements of a list: what a bounded queue that gives up its oldest entry keeps.\<close>

definition lastN :: "nat \<Rightarrow> 'a list \<Rightarrow> 'a list" where
  "lastN n xs = drop (length xs - n) xs"

lemma length_lastN [simp]: "length (lastN n xs) = min n (length xs)"
  by (simp add: lastN_def min_def)

lemma lastN_snoc:
  "0 < n \<Longrightarrow> lastN n (xs @ [x]) = (if length xs < n then xs else tl (lastN n xs)) @ [x]"
proof -
  assume n: "0 < n"
  have "tl (drop (length xs - n) xs) = drop (Suc (length xs) - n) xs" if "n \<le> length xs"
    using that by (simp add: drop_Suc tl_drop Suc_diff_le)
  then show ?thesis using n by (auto simp: lastN_def not_less)
qed

lemma publishTo_bounded:
  assumes "0 < capacity" "length queue \<le> capacity" "\<And>q. length q \<le> capacity \<Longrightarrow> length (env1 q) \<le> capacity"
    "\<And>q. length q \<le> capacity \<Longrightarrow> length (env2 q) \<le> capacity" "publishTo capacity env1 env2 note queue = (d, queue')"
  shows "length queue' \<le> capacity"
proof (cases "length queue < capacity")
  case False
  have "length (case env1 queue of [] \<Rightarrow> [] | oldest # rest \<Rightarrow> rest) \<le> capacity"
    using assms(3) [OF assms(2)] by (cases "env1 queue") auto
  from assms(4) [OF this] show ?thesis using assms(5) False
    by (cases "env1 queue") (auto simp: publishTo_def Let_def split: if_splits)
qed (use assms(5) in \<open>auto simp: publishTo_def\<close>)

definition noEnv :: "u64 \<Rightarrow> StreamNote list \<Rightarrow> StreamNote list" where
  "noEnv ident queue = queue"

text \<open>Without interference a full queue gives up exactly its oldest note.\<close>

lemma publishTo_quiet:
  assumes "0 < capacity" "length queue \<le> capacity"
  shows "publishTo capacity (noEnv ident) (noEnv ident) note queue = (if length queue < capacity then (0, queue @ [note]) else (1, tl queue @ [note]))"
  using assms by (cases queue) (auto simp: publishTo_def Let_def noEnv_def)

lemma publishClient_capacity [simp]: "hub_capacity (publishClient capacity env1 env2 n i hub) = hub_capacity hub"
  by (simp add: publishClient_def Let_def split: option.split prod.split)

lemma publishClient_lookup:
  "fmlookup (hub_clients (publishClient capacity noEnv noEnv n i hub)) ident =
     (if i = ident then map_option (\<lambda>sub. let (d, q) = publishTo capacity (noEnv ident) (noEnv ident) n (sub_queue sub)
        in sub\<lparr>sub_queue := q, sub_drops := sub_drops sub + of_nat d\<rparr>) (fmlookup (hub_clients hub) ident)
      else fmlookup (hub_clients hub) ident)"
  by (auto simp: publishClient_def Let_def split: option.splits prod.splits)

lemma publish_fold:
  "distinct order \<Longrightarrow> fmlookup (hub_clients (fold (publishClient capacity noEnv noEnv n) order hub)) ident =
     (if ident \<in> set order then fmlookup (hub_clients (publishClient capacity noEnv noEnv n ident hub)) ident
      else fmlookup (hub_clients hub) ident)
   \<and> hub_capacity (fold (publishClient capacity noEnv noEnv n) order hub) = hub_capacity hub"
proof (induction order arbitrary: hub)
  case (Cons i order)
  then show ?case by (auto simp: publishClient_lookup)
qed simp

lemma Publish_client:
  assumes "0 < hub_capacity hub" "fmlookup (hub_clients hub) ident = Some sub" "length (sub_queue sub) \<le> hub_capacity hub"
    and "distinct order" "ident \<in> set order"
  shows "\<exists>sub'. fmlookup (hub_clients (Publish order noEnv noEnv event now hub)) ident = Some sub' \<and>
      sub_queue sub' = lastN (hub_capacity hub) (sub_queue sub @ [noteFromEvent event now]) \<and>
      sub_drops sub' = sub_drops sub + of_nat (length (sub_queue sub) + 1 - length (sub_queue sub'))"
    and "hub_capacity (Publish order noEnv noEnv event now hub) = hub_capacity hub"
proof -
  have all: "lastN (hub_capacity hub) (sub_queue sub) = sub_queue sub" using assms(3) by (simp add: lastN_def)
  show "\<exists>sub'. fmlookup (hub_clients (Publish order noEnv noEnv event now hub)) ident = Some sub' \<and>
      sub_queue sub' = lastN (hub_capacity hub) (sub_queue sub @ [noteFromEvent event now]) \<and>
      sub_drops sub' = sub_drops sub + of_nat (length (sub_queue sub) + 1 - length (sub_queue sub'))"
    unfolding Publish_def Let_def
    using publish_fold [OF assms(4)] assms(5,2) publishTo_quiet [OF assms(1,3)]
      lastN_snoc [OF assms(1), of "sub_queue sub" "noteFromEvent event now"] all assms(1,3)
    by (auto simp: publishClient_lookup not_less)
  show "hub_capacity (Publish order noEnv noEnv event now hub) = hub_capacity hub"
    using publish_fold [OF assms(4)] by (simp add: Publish_def Let_def)
qed

definition publishAll :: "(NoteEvent \<times> time \<times> u64 list) list \<Rightarrow> Hub \<Rightarrow> Hub" where
  "publishAll es hub = fold (\<lambda>(event, now, order). Publish order noEnv noEnv event now) es hub"

lemma lastN_lastN_append: "lastN n (lastN n xs @ ys) = lastN n (xs @ ys)"
  by (cases "length xs \<le> n") (auto simp: lastN_def add.commute)

lemma publishAll_client:
  assumes "0 < hub_capacity hub"
  shows "fmlookup (hub_clients hub) ident = Some sub \<Longrightarrow> length (sub_queue sub) \<le> hub_capacity hub \<Longrightarrow>
    (\<forall>(event, now, order) \<in> set es. distinct order \<and> ident \<in> set order) \<Longrightarrow>
    \<exists>sub'. fmlookup (hub_clients (publishAll es hub)) ident = Some sub' \<and>
      sub_queue sub' = lastN (hub_capacity hub) (sub_queue sub @ map (\<lambda>(event, now, _). noteFromEvent event now) es) \<and>
      sub_drops sub' = sub_drops sub + of_nat (length (sub_queue sub) + length es - length (sub_queue sub')) \<and>
      hub_capacity (publishAll es hub) = hub_capacity hub"
  using assms
proof (induction es arbitrary: hub sub)
  case Nil
  then show ?case by (simp add: publishAll_def lastN_def)
next
  case (Cons e es)
  obtain event now order where e: "e = (event, now, order)" by (metis prod_cases3)
  let ?cap = "hub_capacity hub" and ?hub = "Publish order noEnv noEnv event now hub"
  have ord: "distinct order" "ident \<in> set order" using Cons.prems(3) e by auto
  obtain s1 where s1: "fmlookup (hub_clients ?hub) ident = Some s1"
    "sub_queue s1 = lastN ?cap (sub_queue sub @ [noteFromEvent event now])"
    "sub_drops s1 = sub_drops sub + of_nat (length (sub_queue sub) + 1 - length (sub_queue s1))"
    using Publish_client(1) [OF Cons.prems(4,1,2) ord, of event now] by blast
  have cap: "hub_capacity ?hub = ?cap" by (rule Publish_client(2) [OF Cons.prems(4,1,2) ord])
  have len: "length (sub_queue s1) \<le> hub_capacity ?hub" using s1(2) cap by simp
  obtain s2 where s2: "fmlookup (hub_clients (publishAll es ?hub)) ident = Some s2"
    "sub_queue s2 = lastN ?cap (sub_queue s1 @ map (\<lambda>(event, now, _). noteFromEvent event now) es)"
    "sub_drops s2 = sub_drops s1 + of_nat (length (sub_queue s1) + length es - length (sub_queue s2))"
    "hub_capacity (publishAll es ?hub) = ?cap"
    using Cons.IH [OF s1(1) len] Cons.prems(3,4) cap by auto
  have q: "sub_queue s2 = lastN ?cap (sub_queue sub @ map (\<lambda>(event, now, _). noteFromEvent event now) (e # es))"
    by (simp add: s2(2) s1(2) e lastN_lastN_append)
  have "length (sub_queue s1) = min ?cap (length (sub_queue sub) + 1)" "length (sub_queue s2) = min ?cap (length (sub_queue sub) + 1 + length es)"
    using s1(2) q by simp_all
  then have "(length (sub_queue sub) + 1 - length (sub_queue s1)) + (length (sub_queue s1) + length es - length (sub_queue s2)) =
      length (sub_queue sub) + length (e # es) - length (sub_queue s2)" by (simp add: min_def)
  then have "sub_drops s2 = sub_drops sub + of_nat (length (sub_queue sub) + length (e # es) - length (sub_queue s2))"
    using s1(3) s2(3) by (metis (no_types, lifting) add.assoc of_nat_add)
  moreover have "publishAll (e # es) hub = publishAll es ?hub" by (simp add: publishAll_def e)
  ultimately show ?case using s2(1,4) q by metis
qed

lemma batchTick_all:
  assumes "fmlookup (hub_clients hub) ident = Some sub" "length (sub_queue sub) \<le> hub_capacity hub"
  shows "\<exists>batch hub'. batchTick ident now hub = Some (batch, hub') \<and> ba_Notes batch = sub_queue sub \<and>
    ba_Dropped batch = sub_drops sub \<and> ba_NoteTotal batch = hub_notes hub \<and>
    map_option (\<lambda>s. (sub_queue s, sub_drops s)) (fmlookup (hub_clients hub') ident) = Some ([], 0)"
  using assms by (simp add: batchTick_def drain_eq TakeDrops_def totals_def Let_def)

definition streamEvent :: NoteEvent where
  "streamEvent = \<lparr>ne_ID = ''edge:f:1'', ne_Origin = ''edge'', ne_Sequence = 1, ne_MappingVersion = FlowModeV1, ne_FlowID = ''f'',
     ne_Mode = 1, ne_Root = 2, ne_Note = 62, ne_Velocity = 90, ne_Duration = second, ne_Channel = 3, ne_CreatedAt = 5\<rparr>"

section \<open>Properties\<close>

text \<open>
  A slow browser sees the most recent notes and knows what it missed: whatever is published to a
  subscriber whose handler does not get to run, in whatever order the hub visits its clients, the queue
  holds exactly the last notes that fit, the drop counter has grown by exactly the number of notes given
  up, and the next batch delivers those notes in order together with that count and leaves nothing behind.
\<close>

theorem Publish_recency:
  assumes "0 < hub_capacity hub" and "fmlookup (hub_clients hub) ident = Some sub"
    and "length (sub_queue sub) \<le> hub_capacity hub"
    and "\<forall>(event, now, order) \<in> set es. distinct order \<and> ident \<in> set order"
  shows "\<exists>batch hub'. batchTick ident t (publishAll es hub) = Some (batch, hub') \<and>
    ba_Notes batch = lastN (hub_capacity hub) (sub_queue sub @ map (\<lambda>(event, now, _). noteFromEvent event now) es) \<and>
    ba_Dropped batch = sub_drops sub + of_nat (length (sub_queue sub) + length es - length (ba_Notes batch)) \<and>
    map_option (\<lambda>s. (sub_queue s, sub_drops s)) (fmlookup (hub_clients hub') ident) = Some ([], 0)"
proof -
  obtain s where s: "fmlookup (hub_clients (publishAll es hub)) ident = Some s"
    "sub_queue s = lastN (hub_capacity hub) (sub_queue sub @ map (\<lambda>(event, now, _). noteFromEvent event now) es)"
    "sub_drops s = sub_drops sub + of_nat (length (sub_queue sub) + length es - length (sub_queue s))"
    "hub_capacity (publishAll es hub) = hub_capacity hub"
    using publishAll_client [OF assms] by blast
  have "length (sub_queue s) \<le> hub_capacity (publishAll es hub)" using s(2,4) by simp
  from batchTick_all [OF s(1) this, of t] s show ?thesis by auto
qed

theorem Publish_recency_witness:
  "\<exists>batch hub'. batchTick 1 9 (publishAll [(streamEvent, 5, [1]), (streamEvent, 6, [1])] (snd (Subscribe (NewHub 1)))) = Some (batch, hub') \<and>
     length (ba_Notes batch) = 1 \<and> ba_Dropped batch = 1"
proof -
  have "fmlookup (hub_clients (snd (Subscribe (NewHub 1)))) 1 = Some \<lparr>sub_id = 1, sub_queue = [], sub_drops = 0, sub_closed = False\<rparr>"
    "hub_capacity (snd (Subscribe (NewHub 1))) = 1" by (simp_all add: Subscribe_def NewHub_def Let_def)
  from Publish_recency [OF _ this(1), of "[(streamEvent, 5, [1]), (streamEvent, 6, [1])]" 9] this(2)
  show ?thesis by (auto simp: lastN_def)
qed

end
