(* ===== verification/Stream_Handler.thy ===== *)
theory Stream_Handler
  imports Api_Spec Uistream
begin

text \<open>
  internal/uistream/handler.go: the WebSocket that sends the notes to a browser of this machine, with its own check that a
  request is local. What websocket.Accept answers, the ticks of its timer and the success of its writes are arguments, and so is
  what other goroutines do to the hub between its turns.
\<close>

section \<open>Local requests\<close>

definition loopbackHost :: "'p http_lib \<Rightarrow> string \<Rightarrow> bool" where
  "loopbackHost lib host \<longleftrightarrow>
     equalFold host ''localhost'' \<or> (case hl_ParseIP lib (strings_Trim host ''[]'') of None \<Rightarrow> False | Some ip \<Rightarrow> IP_IsLoopback ip)"

definition stream_loopbackAuthority :: "'p http_lib \<Rightarrow> string \<Rightarrow> string \<Rightarrow> u16 \<Rightarrow> bool" where
  "stream_loopbackAuthority lib authority scheme allowedPort =
     (if authority = [] \<or> strings_ContainsAny authority ('' /@'' @ [CHR 9, CHR 13, CHR 10]) then False
      else case (case net_SplitHostPort authority of
                   Some (parsedHost, parsedPort) \<Rightarrow> if parsedPort = [] then None else Some (parsedHost, parsedPort)
                 | None \<Rightarrow>
                   if hd authority = CHR ''['' \<and> last authority = CHR '']'' then Some (butlast (tl authority), [])
                   else if CHR '':'' \<in> set authority then None
                   else Some (authority, [])) of
        None \<Rightarrow> False
      | Some (host, portText) \<Rightarrow>
        if \<not> loopbackHost lib host then False
        else if portText = [] then scheme = ''http'' \<and> allowedPort = 80 \<or> scheme = ''https'' \<and> allowedPort = 443
        else case parseUint16 portText of None \<Rightarrow> False | Some port \<Rightarrow> port \<noteq> 0 \<and> of_nat port = allowedPort)"

definition stream_localRequest :: "'p http_lib \<Rightarrow> http_request \<Rightarrow> u16 \<Rightarrow> bool" where
  "stream_localRequest lib request allowedPort =
     (case net_SplitHostPort (hr_RemoteAddr request) of
        None \<Rightarrow> False
      | Some (host, portText) \<Rightarrow>
        if portText = [] then False
        else case parseUint16 portText of
          None \<Rightarrow> False
        | Some remotePort \<Rightarrow>
          if remotePort = 0 then False
          else
            let scheme = (if hr_TLS request then ''https'' else ''http'') in
            if (case hl_ParseIP lib host of None \<Rightarrow> True | Some remoteIP \<Rightarrow> \<not> IP_IsLoopback remoteIP \<or> \<not> stream_loopbackAuthority lib (hr_Host request) scheme allowedPort)
            then False
            else case hr_Origin request of
              None \<Rightarrow> True
            | Some origins \<Rightarrow>
              if length origins \<noteq> 1 \<or> hd origins = [] then False
              else case hl_Parse lib (hd origins) of
                None \<Rightarrow> False
              | Some origin \<Rightarrow>
                url_User origin = None \<and> url_RawQuery origin = [] \<and> url_Fragment origin = [] \<and> hl_Path lib origin = [] \<and>
                url_Scheme origin = scheme \<and> stream_loopbackAuthority lib (url_Host origin) scheme allowedPort \<and>
                hd origins = scheme @ ''://'' @ hr_Host request)"

section \<open>A session\<close>

datatype stream_turn = StreamDone | StreamTick time bool

datatype stream_answer = StreamError nat | StreamRefused | StreamSession "Batch list"

text \<open>The loop of a session along its turns; each comes with what others did to the hub before it. A failed write ends it.\<close>

fun streamLoop :: "((Hub \<Rightarrow> Hub) \<times> stream_turn) list \<Rightarrow> u64 \<Rightarrow> Hub \<Rightarrow> Batch list \<times> Hub" where
  "streamLoop [] ident hub = ([], hub)"
| "streamLoop ((others, StreamDone) # turns) ident hub = ([], others hub)"
| "streamLoop ((others, StreamTick sentAt written) # turns) ident hub =
     (case batchTick ident sentAt (others hub) of
        None \<Rightarrow> ([], others hub)
      | Some (batch, ticked) \<Rightarrow>
        if \<not> written then ([], ticked\<lparr>hub_observed := hub_observed (others hub)\<rparr>)
        else case streamLoop turns ident ticked of (batches, hub) \<Rightarrow> (batch # batches, hub))"

definition stream_ServeHTTP ::
  "'p http_lib \<Rightarrow> bool \<Rightarrow> u16 \<Rightarrow> bool \<Rightarrow> ((Hub \<Rightarrow> Hub) \<times> stream_turn) list \<Rightarrow> http_request \<Rightarrow> Hub \<Rightarrow> stream_answer \<times> Hub" where
  "stream_ServeHTTP lib available allowedPort accepted turns request hub =
     (if hr_Method request \<noteq> ''GET'' then (StreamError 405, hub)
      else if \<not> available \<or> allowedPort = 0 then (StreamError 503, hub)
      else if \<not> stream_localRequest lib request allowedPort then (StreamError 403, hub)
      else if \<not> accepted then (StreamRefused, hub)
      else let (subscription, hub) = Subscribe hub;
               (batches, hub) = streamLoop turns (sub_id subscription) hub
           in (StreamSession batches, snd (CloseSubscription subscription hub)))"

section \<open>Lemmas\<close>

text \<open>The two checks for local requests in the program are the same.\<close>

lemma stream_authority: "stream_loopbackAuthority lib authority scheme port = loopbackAuthority lib authority scheme port"
proof (cases "authority = []")
  case False
  then have split: "(case net_SplitHostPort authority of
                   Some (parsedHost, parsedPort) \<Rightarrow> if parsedPort = [] then None else Some (parsedHost, parsedPort)
                 | None \<Rightarrow>
                   if hd authority = CHR ''['' \<and> last authority = CHR '']'' then Some (butlast (tl authority), [])
                   else if CHR '':'' \<in> set authority then None
                   else Some (authority, [])) = splitAuthority authority"
    unfolding splitAuthority_def by (cases "net_SplitHostPort authority") auto
  show ?thesis
    unfolding stream_loopbackAuthority_def loopbackAuthority_def split loopbackHost_def
    by (cases "splitAuthority authority") (auto simp del: equalFold.simps)
qed (simp add: stream_loopbackAuthority_def loopbackAuthority_def)

lemma stream_local: "stream_localRequest lib request port = localRequest lib request port"
proof -
  have one: "(case origins of [origin] \<Rightarrow> f origin | _ \<Rightarrow> False) \<longleftrightarrow> length origins = 1 \<and> f (hd origins)" for origins :: "string list" and f
    by (auto split: list.split)
  show ?thesis
  proof (cases "net_SplitHostPort (hr_RemoteAddr request)")
    case (Some hp)
    obtain host portText where hp: "hp = (host, portText)" by force
    show ?thesis
    proof (cases "parseUint16 portText")
      case p: (Some remotePort)
      show ?thesis
        unfolding stream_localRequest_def localRequest_def Some hp p option.case prod.case stream_authority Let_def
        by (cases "hl_ParseIP lib host"; cases "hr_Origin request") (auto simp: one split: option.split)
    qed (simp add: stream_localRequest_def localRequest_def Some hp)
  qed (simp add: stream_localRequest_def localRequest_def)
qed

lemma localRequest_method: "localRequest lib (request\<lparr>hr_Method := method\<rparr>) port = localRequest lib request port"
proof -
  have same: "hr_RemoteAddr (request\<lparr>hr_Method := method\<rparr>) = hr_RemoteAddr request" "hr_TLS (request\<lparr>hr_Method := method\<rparr>) = hr_TLS request"
    "hr_Host (request\<lparr>hr_Method := method\<rparr>) = hr_Host request" "hr_Origin (request\<lparr>hr_Method := method\<rparr>) = hr_Origin request" by simp_all
  show ?thesis unfolding localRequest_def same ..
qed

lemma batchTick_facts:
  "batchTick ident sentAt hub = Some (batch, hub') \<Longrightarrow> length (ba_Notes batch) \<le> hub_capacity hub \<and> hub_capacity hub' = hub_capacity hub"
  by (auto simp: batchTick_def drain_eq TakeDrops_def totals_def Let_def split: option.splits)

lemma streamLoop_bounded:
  assumes "\<forall>(others, turn) \<in> set turns. \<forall>hub. hub_capacity (others hub) = hub_capacity hub"
  shows "\<forall>batch \<in> set (fst (streamLoop turns ident hub)). length (ba_Notes batch) \<le> hub_capacity hub"
  using assms
proof (induction turns ident hub rule: streamLoop.induct)
  case (3 others sentAt written turns ident hub)
  show ?case
  proof (cases "batchTick ident sentAt (others hub)")
    case (Some result)
    obtain batch ticked where r: "result = (batch, ticked)" by force
    have same: "hub_capacity (others hub) = hub_capacity hub" using 3 by simp
    note f = batchTick_facts [OF Some [unfolded r], unfolded same]
    show ?thesis
    proof (cases written)
      case True
      have "\<forall>batch \<in> set (fst (streamLoop turns ident ticked)). length (ba_Notes batch) \<le> hub_capacity ticked"
        using 3(1) [OF Some r [symmetric]] 3(2) True by simp
      then show ?thesis using f by (simp add: Some r True case_prod_unfold)
    qed (simp add: Some r)
  qed simp
qed simp_all

section \<open>Properties\<close>

text \<open>
  C40. Only this machine can listen in. A stream is opened only for a GET from this machine that addressed a loopback name with the port
  of the listener and, if a browser sent it, had exactly that origin; this is exactly what the management API asks of
  its requests. Any other request is refused and leaves the hub as it was. However a session ends, its
  subscription is gone afterwards, and no batch exceeds the capacity of the queue.
\<close>

theorem Stream_guarded:
  assumes "\<forall>(others, turn) \<in> set turns. \<forall>hub. hub_capacity (others hub) = hub_capacity hub"
    and "stream_ServeHTTP lib available port accepted turns request hub = (reply, hub')"
  shows "(localRequest lib request port \<longleftrightarrow> stream_localRequest lib request port) \<and>
    (case reply of
       StreamSession batches \<Rightarrow> trustedRequest lib request port \<and> hr_Method request = ''GET'' \<and> port \<noteq> 0 \<and>
         fmlookup (hub_clients hub') (hub_nextID hub + 1) = None \<and> (\<forall>batch \<in> set batches. length (ba_Notes batch) \<le> hub_capacity hub)
     | StreamError status \<Rightarrow> hub' = hub \<and> status \<in> {403, 405, 503}
     | StreamRefused \<Rightarrow> hub' = hub)"
proof (cases reply)
  case (StreamSession batches)
  obtain subscription hub1 where sub: "Subscribe hub = (subscription, hub1)" by force
  have s: "sub_id subscription = hub_nextID hub + 1" "hub_capacity hub1 = hub_capacity hub" "\<not> sub_closed subscription"
    using sub by (auto simp: Subscribe_def Let_def)
  obtain hub2 where l: "streamLoop turns (sub_id subscription) hub1 = (batches, hub2)" "hub' = snd (CloseSubscription subscription hub2)"
    and r: "stream_localRequest lib request port" "hr_Method request = ''GET''" "port \<noteq> 0"
    using assms(2) StreamSession sub by (auto simp: stream_ServeHTTP_def Let_def split: if_splits prod.splits)
  have "trustedRequest lib request port" using localRequest_trusted r(1) stream_local by blast
  then show ?thesis
    using StreamSession streamLoop_bounded [OF assms(1), of "sub_id subscription" hub1] l s r by (simp add: stream_local CloseSubscription_def Let_def)
qed (use assms(2) in \<open>auto simp: stream_ServeHTTP_def stream_local Let_def split: if_splits prod.splits\<close>)

theorem Stream_guarded_witness:
  "\<exists>hub'. stream_ServeHTTP sampleHttp True 8080 True [(RecordPacket, StreamTick 5 True), (id, StreamDone)]
      ((samplePut ''127.0.0.1:4000'')\<lparr>hr_Method := ''GET''\<rparr>) (NewHub 4) =
     (StreamSession [\<lparr>ba_SentAt = 5, ba_Dropped = 0, ba_PacketTotal = 1, ba_NoteTotal = 0, ba_Notes = []\<rparr>], hub') \<and>
     fmlookup (hub_clients hub') 1 = None"
proof -
  let ?rq = "(samplePut ''127.0.0.1:4000'')\<lparr>hr_Method := ''GET''\<rparr>"
  let ?turns = "[(RecordPacket, StreamTick 5 True), (id, StreamDone)]"
  have loc: "stream_localRequest sampleHttp ?rq 8080" unfolding stream_local localRequest_method by (rule samplePut_local(1))
  let ?batch = "\<lparr>ba_SentAt = 5, ba_Dropped = 0, ba_PacketTotal = 1, ba_NoteTotal = 0, ba_Notes = []\<rparr>"
  obtain subscription hub1 where sub: "Subscribe (NewHub 4) = (subscription, hub1)" by force
  obtain hub2 where l: "streamLoop ?turns (sub_id subscription) hub1 = ([?batch], hub2)"
    using sub by (auto simp: Subscribe_def NewHub_def RecordPacket_def batchTick_def drain.simps TakeDrops_def totals_def Let_def)
  obtain hub' where h: "stream_ServeHTTP sampleHttp True 8080 True ?turns ?rq (NewHub 4) = (StreamSession [?batch], hub')"
    using loc by (simp add: stream_ServeHTTP_def sub l del: streamLoop.simps)
  have "\<forall>(others, turn) \<in> set ?turns. \<forall>hub. hub_capacity (others hub) = hub_capacity hub" by (simp add: RecordPacket_def)
  from Stream_guarded [OF this h] have "fmlookup (hub_clients hub') 1 = None" by (simp add: NewHub_def)
  then show ?thesis using h by blast
qed

end
