(* ===== verification/Devices.thy ===== *)
theory Devices
  imports Api_Spec Midi_Runtime Uistream
begin

text \<open>
  The devices behind the management API: internal/app/management_midi.go and viewer.go (listing outputs,
  auditioning a note, panic), management_interfaces.go and the selection of a capture interface in
  internal/capture/source.go. The MIDI runtime is that of \<open>Midi_Runtime\<close>, the browser stream that of
  \<open>Uistream\<close>; what the operating system lists as interfaces is an argument.
\<close>

section \<open>Capture interfaces (source.go)\<close>

record Interface =
  if_Name :: string
  if_Description :: string
  if_Addresses :: "Prefix list"
  if_Up :: bool
  if_Loopback :: bool

definition SelectInterface :: "Interface list \<Rightarrow> string \<Rightarrow> Interface option" where
  "SelectInterface interfaces requested =
     (if requested \<noteq> [] \<and> requested \<noteq> ''auto'' then find (\<lambda>candidate. if_Name candidate = requested) interfaces
      else find (\<lambda>candidate. if_Up candidate \<and> \<not> if_Loopback candidate \<and> length (if_Addresses candidate) > 0) interfaces)"

section \<open>Listing interfaces (management_interfaces.go)\<close>

definition managementInterfaceInvalid :: management_error where
  "managementInterfaceInvalid = backendError ErrorInvalid ''invalid_interface_request'' []"

definition managementInterfaceUnavailable :: management_error where
  "managementInterfaceUnavailable = backendError ErrorUnavailable ''interfaces_unavailable'' []"

definition captureInterface :: "(Prefix \<Rightarrow> string) \<Rightarrow> Interface \<Rightarrow> CaptureInterface" where
  "captureInterface prefixString candidate =
     \<lparr>cin_Name = if_Name candidate, cin_Description = if_Description candidate,
      cin_Addresses = sort (map prefixString (if_Addresses candidate)), cin_Up = if_Up candidate, cin_Loopback = if_Loopback candidate\<rparr>"

fun collectInterfaces :: "(Prefix \<Rightarrow> string) \<Rightarrow> string list \<Rightarrow> Interface list \<Rightarrow> CaptureInterface list option" where
  "collectInterfaces prefixString seen [] = Some []"
| "collectInterfaces prefixString seen (candidate # candidates) =
     (if if_Name candidate = [] \<or> \<not> utf8_Valid (string_bytes (if_Name candidate)) \<or> \<not> utf8_Valid (string_bytes (if_Description candidate)) then None
      else if if_Name candidate \<in> set seen then None
      else map_option ((#) (captureInterface prefixString candidate)) (collectInterfaces prefixString (if_Name candidate # seen) candidates))"

text \<open>\<open>found\<close> is what discovery answers and \<open>late\<close> the error of the context after it.\<close>

definition backend_Interfaces ::
  "(Prefix \<Rightarrow> string) \<Rightarrow> mgmt_request \<Rightarrow> string + Interface list \<Rightarrow> string option \<Rightarrow> 'd managementBackend \<Rightarrow> management_error + InterfacesDocument" where
  "backend_Interfaces prefixString rq found late backend =
     (if rq_nil rq then Inl managementInterfaceInvalid
      else case flowRuntimeAvailable rq False backend of
        Some e \<Rightarrow> Inl e
      | None \<Rightarrow>
        (case found of
           Inl _ \<Rightarrow> Inl managementInterfaceUnavailable
         | Inr interfaces \<Rightarrow>
           if late \<noteq> None then Inl managementInterfaceUnavailable
           else
             let requested = cc_Interface (cf_Capture (do_Config (Current (mb_controller backend)))) in
             case collectInterfaces prefixString [] interfaces of
               None \<Rightarrow> Inl managementInterfaceUnavailable
             | Some converted \<Rightarrow>
               Inr \<lparr>ind_Configured = requested,
                    ind_Selected = (case SelectInterface interfaces requested of None \<Rightarrow> [] | Some selected \<Rightarrow> if_Name selected),
                    ind_Interfaces = sort_key cin_Name converted\<rparr>))"

section \<open>MIDI (management_midi.go)\<close>

definition managementMIDIInvalid :: "string \<Rightarrow> string list \<Rightarrow> management_error" where
  "managementMIDIInvalid code names = backendError ErrorInvalid code names"

definition managementMIDIUnavailable :: "string \<Rightarrow> management_error" where
  "managementMIDIUnavailable code = backendError ErrorUnavailable code []"

definition managementMIDIDisabled :: management_error where
  "managementMIDIDisabled = backendError ErrorConflict ''midi_disabled'' []"

definition managementMIDIDevice :: "Device \<Rightarrow> MIDIDevice option" where
  "managementMIDIDevice device =
     (if dv_Number device < 0 \<or> \<not> utf8_Valid (string_bytes (dv_Name device)) then None
      else Some \<lparr>mdv_Number = dv_Number device, mdv_Name = dv_Name device\<rparr>)"

fun convertDevices :: "Device list \<Rightarrow> MIDIDevice list option" where
  "convertDevices [] = Some []"
| "convertDevices (device # devices) =
     (case managementMIDIDevice device of None \<Rightarrow> None | Some converted \<Rightarrow> map_option ((#) converted) (convertDevices devices))"

definition backend_MIDIDevices :: "mgmt_request \<Rightarrow> ManagerSnapshot option \<Rightarrow> 'd managementBackend \<Rightarrow> management_error + MIDIDevicesDocument" where
  "backend_MIDIDevices rq midi backend =
     (if rq_nil rq then Inl (managementMIDIInvalid ''invalid_midi_request'' [])
      else case flowRuntimeAvailable rq False backend of
        Some e \<Rightarrow> Inl e
      | None \<Rightarrow>
        if \<not> mdc_Enabled (cf_MIDI (do_Config (Current (mb_controller backend)))) then
          Inr \<lparr>mdd_Enabled = False, mdd_Discovery = MIDIDiscoveryDisabled, mdd_Connected = False, mdd_Current = None, mdd_Devices = []\<rparr>
        else case midi of
          None \<Rightarrow> Inl (managementMIDIUnavailable ''midi_unavailable'')
        | Some snapshot \<Rightarrow>
          (case convertDevices (ms_Devices snapshot) of
             None \<Rightarrow> Inl (managementMIDIUnavailable ''midi_state_unavailable'')
           | Some devices \<Rightarrow>
             let document = \<lparr>mdd_Enabled = True, mdd_Discovery = (if ms_DiscoveryOK snapshot then MIDIDiscoveryOK else MIDIDiscoveryError),
                   mdd_Connected = ms_Connected snapshot, mdd_Current = None, mdd_Devices = devices\<rparr>
             in if ms_Connected snapshot then
                  (case managementMIDIDevice (ms_Current snapshot) of
                     None \<Rightarrow> Inl (managementMIDIUnavailable ''midi_state_unavailable'')
                   | Some current \<Rightarrow> Inr (document\<lparr>mdd_Current := Some current\<rparr>))
                else Inr document))"

definition invalidMIDIAuditionFields :: "MIDIAuditionRequest \<Rightarrow> string list" where
  "invalidMIDIAuditionFields request =
     (if mar_Channel request < 1 \<or> mar_Channel request > 16 then [''channel''] else []) @
     (if mar_Note request < 0 \<or> mar_Note request > 127 then [''note''] else []) @
     (if mar_Velocity request < 1 \<or> mar_Velocity request > 127 then [''velocity''] else []) @
     (if mar_DurationMS request < 1 \<or> mar_DurationMS request > 10000 then [''duration_ms''] else [])"

definition midiOperationAvailable :: "mgmt_request \<Rightarrow> 'd managementBackend \<Rightarrow> management_error option" where
  "midiOperationAvailable rq backend =
     (if rq_nil rq then Some (managementMIDIInvalid ''invalid_midi_request'' []) else flowRuntimeAvailable rq False backend)"

definition managementMIDIOperationError :: "scheduler_error \<Rightarrow> management_error" where
  "managementMIDIOperationError e =
     (case e of
        ErrRateLimited \<Rightarrow> backendError ErrorRateLimited ''midi_rate_limited'' []
      | ErrPolyphonyLimited \<Rightarrow> backendError ErrorRateLimited ''midi_polyphony_limited'' []
      | ErrRetriggerLimited \<Rightarrow> backendError ErrorRateLimited ''midi_retrigger_limited'' []
      | ContextDone _ \<Rightarrow> managementMIDIUnavailable ''runtime_unavailable''
      | ErrSchedulerClosed \<Rightarrow> managementMIDIUnavailable ''runtime_unavailable''
      | _ \<Rightarrow> managementMIDIUnavailable ''midi_unavailable'')"

text \<open>The errors of a panic are joined; the context and a closed runtime are found among them.\<close>

definition panicOperationError :: "manager_error list \<Rightarrow> management_error option" where
  "panicOperationError errs =
     (if errs = [] then None
      else if \<exists>e \<in> set errs. e = ErrRuntimeClosed \<or> (\<exists>m. e = RuntimeContextDone m) then Some (managementMIDIUnavailable ''runtime_unavailable'')
      else Some (managementMIDIUnavailable ''midi_unavailable''))"

text \<open>The context derived from request and lifecycle, at entry and when the gate is acquired.\<close>

definition derivedCtx :: "mgmt_request \<Rightarrow> ctx" where
  "derivedCtx rq = Context (derivedErr rq) (tc_enter (derivedTxn rq))"

text \<open>viewer.go: a note that the runtime accepted is published to the browsers, no other.\<close>

definition viewerMIDI_Write ::
  "'w Driver \<Rightarrow> (NoteEvent \<Rightarrow> Hub \<Rightarrow> Hub) \<Rightarrow> ctx \<Rightarrow> time \<Rightarrow> NoteEvent \<Rightarrow> 'w Runtime \<times> Hub \<Rightarrow> scheduler_error option \<times> 'w Runtime \<times> Hub" where
  "viewerMIDI_Write drv emit c now event mh =
     (case Runtime_Write drv c now event (fst mh) of
        (Some e, rt) \<Rightarrow> (Some e, rt, snd mh)
      | (None, rt) \<Rightarrow> (None, rt, emit event (snd mh)))"

definition auditionEvent :: "string \<Rightarrow> time \<Rightarrow> MIDIAuditionRequest \<Rightarrow> NoteEvent" where
  "auditionEvent origin now request =
     \<lparr>ne_ID = ''management-audition'', ne_Origin = origin, ne_Sequence = 0, ne_MappingVersion = FlowModeV1, ne_FlowID = ''management-audition'',
      ne_Mode = 0, ne_Root = of_int (mar_Note request mod 12), ne_Note = of_int (mar_Note request), ne_Velocity = of_int (mar_Velocity request),
      ne_Duration = mar_DurationMS request * millisecond, ne_Channel = of_int (mar_Channel request), ne_CreatedAt = now\<rparr>"

definition backend_AuditionMIDI ::
  "'w Driver \<Rightarrow> (NoteEvent \<Rightarrow> Hub \<Rightarrow> Hub) \<Rightarrow> time \<Rightarrow> mgmt_request \<Rightarrow> MIDIAuditionRequest \<Rightarrow> 'd managementBackend \<Rightarrow> 'w Runtime option \<times> Hub \<Rightarrow>
     management_error option \<times> 'w Runtime option \<times> Hub" where
  "backend_AuditionMIDI drv emit now rq request backend mh =
     (let names = invalidMIDIAuditionFields request; configuration = do_Config (Current (mb_controller backend)) in
      if names \<noteq> [] then (Some (managementMIDIInvalid ''invalid_audition'' names), mh)
      else case midiOperationAvailable rq backend of
        Some e \<Rightarrow> (Some e, mh)
      | None \<Rightarrow>
        if \<not> mdc_Enabled (cf_MIDI configuration) then (Some managementMIDIDisabled, mh)
        else case fst mh of
          None \<Rightarrow> (Some (managementMIDIUnavailable ''midi_unavailable''), mh)
        | Some rt \<Rightarrow>
          (case viewerMIDI_Write drv emit (derivedCtx rq) now (auditionEvent (ic_ID (cf_Instance configuration)) now request) (rt, snd mh) of
             (err, rt, hub) \<Rightarrow> (map_option managementMIDIOperationError err, Some rt, hub)))"

definition backend_PanicMIDI ::
  "'w Driver \<Rightarrow> mgmt_request \<Rightarrow> 'd managementBackend \<Rightarrow> 'w Runtime option \<times> Hub \<Rightarrow> management_error option \<times> 'w Runtime option \<times> Hub" where
  "backend_PanicMIDI drv rq backend mh =
     (case midiOperationAvailable rq backend of
        Some e \<Rightarrow> (Some e, mh)
      | None \<Rightarrow>
        if \<not> mdc_Enabled (cf_MIDI (do_Config (Current (mb_controller backend)))) then (Some managementMIDIDisabled, mh)
        else case fst mh of
          None \<Rightarrow> (Some (managementMIDIUnavailable ''midi_unavailable''), mh)
        | Some rt \<Rightarrow>
          (case Runtime_Panic drv (derivedCtx rq) rt of (errs, rt) \<Rightarrow> (panicOperationError errs, Some rt, snd mh)))"

text \<open>The subsystems that the handler reaches through the backend.\<close>

definition deviceSubsystems ::
  "'w Driver \<Rightarrow> (Prefix \<Rightarrow> string) \<Rightarrow> (NoteEvent \<Rightarrow> Hub \<Rightarrow> Hub) \<Rightarrow> time \<Rightarrow> string + Interface list \<Rightarrow> string option \<Rightarrow>
     (mgmt_request \<Rightarrow> 'w Runtime option \<times> Hub \<Rightarrow> management_error + 'p) \<Rightarrow> ('d, 'w Runtime option \<times> Hub, 'p) subsystems" where
  "deviceSubsystems drv prefixString emit now found late peers =
     \<lparr>su_MIDIDevices = (\<lambda>rq backend mh. backend_MIDIDevices rq (map_option (\<lambda>rt. Manager_Snapshot (rt_manager rt)) (fst mh)) backend),
      su_AuditionMIDI = (\<lambda>rq. backend_AuditionMIDI drv emit now rq), su_PanicMIDI = (\<lambda>rq. backend_PanicMIDI drv rq),
      su_Interfaces = (\<lambda>rq backend mh. backend_Interfaces prefixString rq found late backend), su_Peers = peers\<rparr>"

section \<open>Notes on request\<close>

lemma auditionFields_validated: "validateMIDIAudition body = (request, []) \<Longrightarrow> invalidMIDIAuditionFields request = []"
  by (auto simp: validateMIDIAudition_def invalidMIDIAuditionFields_def inRange_def Let_def split: if_splits option.splits)

lemma auditionFields_Nil:
  "invalidMIDIAuditionFields request = [] \<longleftrightarrow>
     1 \<le> mar_Channel request \<and> mar_Channel request \<le> 16 \<and> 0 \<le> mar_Note request \<and> mar_Note request \<le> 127 \<and>
     1 \<le> mar_Velocity request \<and> mar_Velocity request \<le> 127 \<and> 1 \<le> mar_DurationMS request \<and> mar_DurationMS request \<le> 10000"
  by (auto simp: invalidMIDIAuditionFields_def)

lemma u8_of_int:
  assumes "0 \<le> n" "n < 256"
  shows "unat (of_int n :: u8) = nat n"
  using assms by (simp add: unat_eq_nat_uint uint_word_of_int_eq take_bit_int_eq_self)

text \<open>The conversions to eight bits keep an accepted request, so its note passes the validation of the scheduler.\<close>

lemma auditionEvent_valid:
  assumes "invalidMIDIAuditionFields request = []" "origin \<noteq> []"
  shows "NoteEvent_Validate (auditionEvent origin now request) = None"
proof -
  have r: "0 \<le> mar_Note request mod 12" "mar_Note request mod 12 < 12" by simp_all
  moreover have "nat (mar_Note request mod 12) \<le> 11" using r by linarith
  ultimately show ?thesis using assms
    by (auto simp: NoteEvent_Validate_None auditionEvent_def auditionFields_Nil Mode_Valid_iff millisecond_def word_le_nat_alt u8_of_int
      simp flip: unat_eq_0)
qed

lemma backendError_status:
  "(\<And>code names. hl_Marshals lib (BodyProblem code names)) \<Longrightarrow> rs_Status (writeBackendError lib request (backendError kind code names)) = fst (kindStatus kind)"
  by (cases kind) (simp_all add: backendError_def writeBackendError_def writeProblem_def respond_def)

lemma operationError_status:
  "(\<And>code names. hl_Marshals lib (BodyProblem code names)) \<Longrightarrow> rs_Status (writeBackendError lib request (managementMIDIOperationError e)) \<in> {429, 503}"
  by (cases e) (simp_all add: managementMIDIOperationError_def managementMIDIUnavailable_def backendError_status)

lemma viewerMIDI_Write_spec:
  "viewerMIDI_Write drv emit c now event (rt, hub) =
     (let (err, rt) = Runtime_Write drv c now event rt in (err, rt, if err = None then emit event hub else hub))"
  by (simp add: viewerMIDI_Write_def Let_def split: prod.split option.split)

lemma AuditionMIDI_cases:
  assumes "invalidMIDIAuditionFields audition = []" and "origin = ic_ID (cf_Instance (do_Config (Current (mb_controller backend))))"
    and "\<not> rq_nil rq" and "\<And>code names. hl_Marshals lib (BodyProblem code names)"
  shows "case backend_AuditionMIDI drv emit now rq audition backend (midi, hub) of
      (None, midi', hub') \<Rightarrow> \<exists>rt rt'. midi = Some rt \<and> midi' = Some rt' \<and>
        Runtime_Write drv (derivedCtx rq) now (auditionEvent origin now audition) rt = (None, rt') \<and> hub' = emit (auditionEvent origin now audition) hub
    | (Some e, midi', hub') \<Rightarrow> hub' = hub \<and> rs_Status (writeBackendError lib request e) \<in> {409, 429, 503}"
  using assms operationError_status [of lib request]
  by (auto simp: backend_AuditionMIDI_def viewerMIDI_Write_spec Let_def midiOperationAvailable_def flowRuntimeAvailable_def managementFlowUnavailable_def
    managementMIDIDisabled_def managementMIDIUnavailable_def backendError_status split: option.split prod.split)

text \<open>The program with its devices, as the handler sees it.\<close>

lemma programBackend_devices:
  "bk_MIDIDevices (programBackend yaml iteration (deviceSubsystems drv prefixString emit now found late peers)) rq (backend, d, midi, hub) =
     (backend_MIDIDevices rq (map_option (\<lambda>rt. Manager_Snapshot (rt_manager rt)) midi) backend, backend, d, midi, hub)"
  "bk_AuditionMIDI (programBackend yaml iteration (deviceSubsystems drv prefixString emit now found late peers)) rq audition (backend, d, midi, hub) =
     (case backend_AuditionMIDI drv emit now rq audition backend (midi, hub) of (e, m) \<Rightarrow> (e, backend, d, m))"
  "bk_Interfaces (programBackend yaml iteration (deviceSubsystems drv prefixString emit now found late peers)) rq (backend, d, midi, hub) =
     (backend_Interfaces prefixString rq found late backend, backend, d, midi, hub)"
  by (simp_all add: programBackend_def deviceSubsystems_def)

section \<open>Properties\<close>


lemma convertDevices_valid: "convertDevices devices = Some converted \<Longrightarrow> \<forall>device \<in> set converted. validMIDIDevice device"
  by (induction devices arbitrary: converted)
    (auto simp: managementMIDIDevice_def validMIDIDevice_def split: option.splits if_splits)

text \<open>
  Whatever the MIDI manager discovered, a document of the backend passes the handler's own validation, so
  listing the devices answers 200 with the document, or the error of the backend, and never 500.
\<close>

theorem Devices_document_valid:
  assumes "\<And>document. hl_Marshals lib (BodyDevices document)" and "\<And>code names. hl_Marshals lib (BodyProblem code names)"
    and "hr_Method request = ''GET''" and "\<not> rejectQuery request"
    and "bk = programBackend yaml iteration (deviceSubsystems drv prefixString emit now found late peers)"
  shows "snd (serveMIDIDevices lib bk request rq (backend, d, midi, hub)) = (backend, d, midi, hub) \<and>
    (case fst (bk_MIDIDevices bk rq (backend, d, midi, hub)) of
       Inr document \<Rightarrow> fst (serveMIDIDevices lib bk request rq (backend, d, midi, hub)) = respond request 200 (BodyDevices document)
     | Inl e \<Rightarrow> rs_Status (fst (serveMIDIDevices lib bk request rq (backend, d, midi, hub))) \<in> {422, 503})"
proof -
  let ?r = "backend_MIDIDevices rq (map_option (\<lambda>rt. Manager_Snapshot (rt_manager rt)) midi) backend"
  have "validMIDIDevicesDocument document" if "?r = Inr document" for document
    using that convertDevices_valid
    by (auto simp: backend_MIDIDevices_def validMIDIDevicesDocument_def managementMIDIDevice_def validMIDIDevice_def Let_def
      split: if_splits option.splits)
  moreover have "rs_Status (writeBackendError lib request e) \<in> {422, 503}" if "?r = Inl e" for e
    using that assms(2)
    by (auto simp: backend_MIDIDevices_def flowRuntimeAvailable_def managementFlowUnavailable_def managementMIDIInvalid_def
      managementMIDIUnavailable_def backendError_status Let_def split: if_splits option.splits)
  ultimately show ?thesis using assms(1,3-5)
    by (cases ?r) (simp_all add: serveMIDIDevices_def answer_def programBackend_devices writeJSON_def)
qed

section \<open>Interfaces\<close>

lemma collectInterfaces_spec:
  "collectInterfaces prefixString seen interfaces = Some converted \<Longrightarrow>
     converted = map (captureInterface prefixString) interfaces \<and>
     (\<forall>candidate \<in> set interfaces. if_Name candidate \<noteq> [] \<and> utf8_Valid (string_bytes (if_Name candidate)) \<and>
        utf8_Valid (string_bytes (if_Description candidate))) \<and>
     distinct (map if_Name interfaces) \<and> set seen \<inter> if_Name ` set interfaces = {}"
proof (induction interfaces arbitrary: seen converted)
  case (Cons candidate candidates)
  then obtain rest where r: "collectInterfaces prefixString (if_Name candidate # seen) candidates = Some rest"
    "if_Name candidate \<notin> set seen" by (auto split: if_splits)
  from Cons.IH [OF r(1)] show ?case using Cons.prems r by (auto split: if_splits)
qed simp

lemma captureInterface_Name [simp]: "cin_Name (captureInterface prefixString candidate) = if_Name candidate"
  by (simp add: captureInterface_def)

lemma captureInterface_Description [simp]: "cin_Description (captureInterface prefixString candidate) = if_Description candidate"
  by (simp add: captureInterface_def)

lemma SelectInterface_member: "SelectInterface interfaces requested = Some selected \<Longrightarrow> selected \<in> set interfaces"
  by (auto simp: SelectInterface_def find_Some_iff split: if_splits)

lemma sort_key_keeps [simp]:
  "distinct (map f (sort_key g xs)) \<longleftrightarrow> distinct (map f xs)" "distinct (sort (ys :: string list)) \<longleftrightarrow> distinct ys"
  by (metis mset_map mset_sort distinct_sort mset_eq_imp_distinct_iff)+

text \<open>Texts that parse back are as distinct as the prefixes they stand for.\<close>

lemma parsed_inj: "\<forall>p \<in> set ps. parse (text p) = Some p \<Longrightarrow> distinct (map text ps) \<longleftrightarrow> distinct ps"
  by (simp add: distinct_map) (metis inj_onI option.inject)


section \<open>Witnesses\<close>

definition playingRuntime :: "(nat \<Rightarrow> noteKey set) Runtime" where
  "playingRuntime = NewRuntime ((sum.projr (NewManager (\<lambda>_. None) sampleManagerConfig))\<lparr>mg_output := Some 0, mg_device := synth, mg_devices := [synth]\<rparr>)
     (sum.projr (NewScheduler Midi_Runtime.sampleSchedulerConfig)) (\<lambda>_. {})"

definition sampleAudition :: midiAuditionBody where
  "sampleAudition = \<lparr>mab_Channel = Some 3, mab_Note = Some 60, mab_Velocity = Some 90, mab_DurationMS = Some 500\<rparr>"

definition deviceRequest :: "string \<Rightarrow> http_request" where
  "deviceRequest method = (samplePut ''127.0.0.1:4000'')\<lparr>hr_Method := method, hr_ContentType := [''application/json'']\<rparr>"

definition auditionJSON :: json where
  "auditionJSON = JObject [(''channel'', JScalar), (''note'', JScalar), (''velocity'', JScalar), (''duration_ms'', JScalar)]"

definition deviceHttp :: "unit http_lib" where
  "deviceHttp = sampleHttp\<lparr>hl_Tokens := (\<lambda>_. (json_tokens auditionJSON, None)), hl_Value := (\<lambda>_. Some (auditionJSON, [], None)),
     hl_Audition := (\<lambda>_. Some (sampleAudition, [], None))\<rparr>"

text \<open>Capture is disabled and its interface left empty, which the validation of a configuration accepts.\<close>

definition unnamedConfig :: Config where
  "unnamedConfig = Config_Default\<lparr>cf_Capture := (cf_Capture Config_Default)\<lparr>cc_Enabled := False, cc_Interface := []\<rparr>\<rparr>"

definition unnamedBackend :: "repo_world managementBackend" where
  "unnamedBackend = sampleBackend\<lparr>mb_controller := sampleController\<lparr>co_current := (co_current sampleController)\<lparr>ps_configuration := unnamedConfig\<rparr>\<rparr>\<rparr>"

definition sampleInterface :: Interface where
  "sampleInterface = \<lparr>if_Name = ''eth0'', if_Description = ''uplink'', if_Addresses = [], if_Up = True, if_Loopback = False\<rparr>"

lemma liveRequest_sel [simp]: "\<not> rq_nil liveRequest" "flowRuntimeAvailable liveRequest False sampleBackend = None"
  "derivedCtx liveRequest = Context None None"
  by (simp_all add: liveRequest_def sampleBackend_def flowRuntimeAvailable_def derivedCtx_def derivedErr_def derivedTxn_def background_def)

lemma sampleBackend_config [simp]: "do_Config (Current (mb_controller sampleBackend)) = Config_Default" "mdc_Enabled (cf_MIDI Config_Default)"
  by (simp_all add: sampleBackend_def Current_def Config_Default_def)

lemma sampleAudition_plays:
  "\<exists>rt. backend_AuditionMIDI (soundDriver [synth]) (\<lambda>_. RecordPacket) 7 liveRequest (fst (validateMIDIAudition sampleAudition)) sampleBackend
     (Some playingRuntime, hub) = (None, Some rt, RecordPacket hub)"
proof -
  let ?event = "auditionEvent (ic_ID (cf_Instance Config_Default)) 7 (fst (validateMIDIAudition sampleAudition))"
  have valid: "NoteEvent_Validate ?event = None"
    by (rule auditionEvent_valid) (simp_all add: validateMIDIAudition_def sampleAudition_def inRange_def invalidMIDIAuditionFields_def Config_Default_def)
  then obtain m where m: "NoteOn (ne_Channel ?event) (ne_Note ?event) (ne_Velocity ?event) = Inr m"
    using NoteOn_ok [of "ne_Channel ?event" "ne_Note ?event" "ne_Velocity ?event"] by (auto simp: NoteEvent_Validate_None set_channels)
  have w: "\<exists>rt. Runtime_Write (soundDriver [synth]) (Context None None) 7 ?event playingRuntime = (None, rt)"
    using valid m
    by (simp add: Runtime_Write_def playingRuntime_def NewRuntime_def NewManager_def NewScheduler_def sampleManagerConfig_def manager_observe_def
      Midi_Runtime.sampleSchedulerConfig_def second_def Scheduler_Write_def startNote_def sendMessage_def Let_def pruneRateWindow_def
      AfterFunc_def observeActive_def message_of_def Manager_Send_def soundDriver_def)
  have "invalidMIDIAuditionFields (fst (validateMIDIAudition sampleAudition)) = []"
    by (simp add: validateMIDIAudition_def sampleAudition_def inRange_def invalidMIDIAuditionFields_def)
  with w show ?thesis by (auto simp: backend_AuditionMIDI_def midiOperationAvailable_def viewerMIDI_Write_spec Config_Default_def Let_def)
qed


lemma deviceRequest_sel [simp]: "hr_Method (deviceRequest method) = method" "\<not> rejectQuery (deviceRequest method)" "hl_Marshals deviceHttp body"
  by (simp_all add: deviceRequest_def samplePut_def rejectQuery_def deviceHttp_def sampleHttp_def)

lemma deviceHttp_sel [simp]:
  "hl_Tokens deviceHttp contents = (json_tokens auditionJSON, None)" "hl_Value deviceHttp contents = Some (auditionJSON, [], None)"
  "hl_Audition deviceHttp contents = Some (sampleAudition, [], None)" "hl_ParseMediaType deviceHttp mediaType = Some (mediaType, [])"
  by (simp_all add: deviceHttp_def sampleHttp_def)

lemma deviceRequest_body: "hr_ContentEncoding (deviceRequest method) = []" "hr_ContentType (deviceRequest method) = [''application/json'']"
    "readBody maximumMIDIAuditionBodyBytes (deviceRequest method) = Inr [2]"
  by (simp_all add: deviceRequest_def samplePut_def readBody_def maximumMIDIAuditionBodyBytes_def)

lemma audition_decoded:
  "decodeJSONRequestLimit deviceHttp (deviceRequest ''POST'') auditionSchema (hl_Audition deviceHttp) maximumMIDIAuditionBodyBytes = Inr sampleAudition"
proof -
  have "scanJSONValue (json_tokens auditionJSON, None) 0 = (True, [], None)" by code_simp
  then have n: "\<not> rejectDuplicateJSONNames (hl_Tokens deviceHttp [2])" by (simp only: rejectDuplicateJSONNames_def deviceHttp_sel ensureJSONEOF_def) simp
  have "schemaNames auditionSchema auditionJSON" by code_simp
  then have s: "\<not> rejectJSONNamesOutsideSchema deviceHttp auditionSchema [2]" by (simp add: rejectJSONNamesOutsideSchema_def ensureJSONEOF_def)
  have u: "utf8_Valid [2]" by code_simp
  have "equalFold ''application/json'' ''application/json''" by code_simp
  then have a: "acceptedMediaType deviceHttp (deviceRequest ''POST'') ''application/json''" "\<not> rejectedEncoding (deviceRequest ''POST'')"
    by (simp_all add: acceptedMediaType_def rejectedEncoding_def deviceRequest_body del: equalFold.simps)
  show ?thesis using n s u a by (simp add: decodeJSONRequestLimit_def deviceRequest_body ensureJSONEOF_def)
qed

definition sampleProgram :: "(repo_world managementBackend \<times> repo_world \<times> (nat \<Rightarrow> noteKey set) Runtime option \<times> Hub, unit) Backend" where
  "sampleProgram = programBackend sampleYaml [] (deviceSubsystems (soundDriver [synth]) (\<lambda>_. []) (\<lambda>_. RecordPacket) 7 (Inr []) None (\<lambda>_ _. Inr ()))"

lemma sample_audition:
  "\<exists>rt. serveMIDIAudition deviceHttp sampleProgram (deviceRequest ''POST'') liveRequest (sampleBackend, sampleWorld, Some playingRuntime, hub) =
     (writeEmptyResponse 202, sampleBackend, sampleWorld, Some rt, RecordPacket hub)"
proof -
  have "snd (validateMIDIAudition sampleAudition) = []" by (simp add: validateMIDIAudition_def sampleAudition_def inRange_def)
  then show ?thesis using sampleAudition_plays [of hub] audition_decoded
    by (auto simp: serveMIDIAudition_def sampleProgram_def programBackend_devices split: prod.split)
qed


theorem Devices_document_valid_witness:
  "\<exists>document. mdd_Current document = Some \<lparr>mdv_Number = 3, mdv_Name = ''Synth''\<rparr> \<and>
     fst (serveMIDIDevices deviceHttp sampleProgram (deviceRequest ''GET'') liveRequest (sampleBackend, sampleWorld, Some playingRuntime, undefined)) =
       respond (deviceRequest ''GET'') 200 (BodyDevices document)"
proof -
  have "utf8_Valid (string_bytes ''Synth'')" by code_simp
  then obtain document where "backend_MIDIDevices liveRequest (Some (Manager_Snapshot (rt_manager playingRuntime))) sampleBackend = Inr document"
    "mdd_Current document = Some \<lparr>mdv_Number = 3, mdv_Name = ''Synth''\<rparr>"
    by (simp add: backend_MIDIDevices_def Manager_Snapshot_def playingRuntime_def NewRuntime_def rt_manager_def managementMIDIDevice_def synth_def Let_def)
  then show ?thesis
    using Devices_document_valid [of deviceHttp "deviceRequest ''GET''" sampleProgram, OF _ _ _ _ sampleProgram_def, of liveRequest sampleBackend sampleWorld
      "Some playingRuntime" undefined]
    by (auto simp: sampleProgram_def programBackend_devices)
qed


end
