(* ===== verification/Pipeline.thy ===== *)
theory Pipeline
  imports Registry_Recent Selector Music "HOL-Library.Sublist"
begin

text \<open>
  internal/pipeline/processor.go: the processor that reads packets from a capture source, observes their
  flow, selects and maps them, and hands notes to a sink, through two bounded queues. The registry,
  selector and mapper are interfaces in the source and a record of operations here. The three
  goroutines (capture, packets, notes) are sequences of steps that interleave; a step is the code
  between two points where a goroutine can wait. Go's \<open>select\<close> may take any ready case: which one is the
  argument \<open>pick\<close>. The context is a flag that, once set, stays set. Observer calls are recorded in
  order, without elapsed times; queue depths are recorded at the moment of the send or receive.
\<close>

section \<open>Interfaces and state\<close>

record 'r Stages =
  st_Observe :: "'r \<Rightarrow> Event \<Rightarrow> (registry_error + ObserveResult) \<times> 'r"
  st_Expire :: "'r \<Rightarrow> time \<Rightarrow> Snapshot list \<times> 'r"
  st_Len :: "'r \<Rightarrow> nat"
  st_Evaluate :: "'r \<Rightarrow> Event \<Rightarrow> Overlay \<Rightarrow> event_error + Selection"
  st_Map :: "'r \<Rightarrow> MapInput \<Rightarrow> map_error + NoteEvent"

datatype pipeline_observation =
    PacketCaptured Protocol int
  | CaptureError string
  | Dropped string string
  | PacketQueue nat nat
  | NoteQueue nat nat
  | FlowCount nat
  | FlowEvicted string nat
  | Selected State string
  | Mapped string string duration u8
  | Processed

datatype capture_error = EOF | Canceled | DeadlineExceeded | ReadError string

text \<open>Where the goroutine of a queue is: waiting at its select, busy with one element, discarding, or done.\<close>

datatype 'a stage = Waiting | Handling 'a | Discarding | Finished

record 'r Processor =
  pr_stages :: 'r
  pr_packetQueue :: "Event list"
  pr_packetCapacity :: nat
  pr_packetClosed :: bool
  pr_packetStage :: "Event stage"
  pr_noteQueue :: "NoteEvent list"
  pr_noteCapacity :: nat
  pr_noteClosed :: bool
  pr_noteStage :: "NoteEvent stage"
  pr_captureErr :: "capture_error option"
  pr_cancelled :: bool
  pr_written :: "(NoteEvent \<times> bool) list"
  pr_observed :: "pipeline_observation list"

definition pr_observe :: "pipeline_observation \<Rightarrow> 'r Processor \<Rightarrow> 'r Processor" where
  "pr_observe e p = p\<lparr>pr_observed := pr_observed p @ [e]\<rparr>"

datatype pipeline_error = QueueCapacities

definition NewProcessor :: "'r \<Rightarrow> int \<Rightarrow> int \<Rightarrow> pipeline_error + 'r Processor" where
  "NewProcessor stages packetCapacity noteCapacity =
     (if packetCapacity \<le> 0 \<or> noteCapacity \<le> 0 then Inl QueueCapacities
      else Inr (pr_observe (NoteQueue 0 (nat noteCapacity)) (pr_observe (PacketQueue 0 (nat packetCapacity))
        \<lparr>pr_stages = stages, pr_packetQueue = [], pr_packetCapacity = nat packetCapacity, pr_packetClosed = False,
         pr_packetStage = Waiting, pr_noteQueue = [], pr_noteCapacity = nat noteCapacity, pr_noteClosed = False,
         pr_noteStage = Waiting, pr_captureErr = None, pr_cancelled = False, pr_written = [], pr_observed = []\<rparr>)))"

section \<open>Go's select\<close>

text \<open>A select that sends, with cases for the context, the queue and \<open>default\<close>.\<close>

datatype sent = SendDone | SendOk | SendFull

definition select_send :: "bool \<Rightarrow> bool \<Rightarrow> nat \<Rightarrow> 'a list \<Rightarrow> sent" where
  "select_send cancelled pick capacity queue =
     (if cancelled \<and> (pick \<or> capacity \<le> length queue) then SendDone
      else if length queue < capacity then SendOk else SendFull)"

text \<open>A select that receives, with cases for the context and the queue: it may have to wait.\<close>

datatype 'a received = RecvDone | RecvOk 'a "'a list" | RecvClosed | RecvBlocked

fun select_recv :: "bool \<Rightarrow> bool \<Rightarrow> bool \<Rightarrow> 'a list \<Rightarrow> 'a received" where
  "select_recv cancelled pick isClosed (x # xs) = (if cancelled \<and> pick then RecvDone else RecvOk x xs)"
| "select_recv cancelled pick isClosed [] =
     (if cancelled \<and> (pick \<or> \<not> isClosed) then RecvDone else if isClosed then RecvClosed else RecvBlocked)"

section \<open>The capture goroutine\<close>

text \<open>One iteration of \<open>capture\<close> on the result of \<open>source.Next\<close>; when it returns, \<open>Run\<close> closes the queue.\<close>

definition captureEnd :: "capture_error \<Rightarrow> 'r Processor \<Rightarrow> 'r Processor" where
  "captureEnd e p = p\<lparr>pr_captureErr := Some e, pr_packetClosed := True\<rparr>"

definition capture :: "bool \<Rightarrow> capture_error + Event \<Rightarrow> 'r Processor \<Rightarrow> 'r Processor" where
  "capture pick next p =
     (case next of
        Inl e \<Rightarrow> captureEnd e p
      | Inr event \<Rightarrow>
        let p = pr_observe (PacketCaptured (ev_Protocol event) (ev_WireLength event)) p in
        case select_send (pr_cancelled p) pick (pr_packetCapacity p) (pr_packetQueue p) of
          SendDone \<Rightarrow> captureEnd Canceled (pr_observe (Dropped ''packet_queue'' ''shutdown'') p)
        | SendOk \<Rightarrow>
            let p = p\<lparr>pr_packetQueue := pr_packetQueue p @ [event]\<rparr>
            in pr_observe (PacketQueue (length (pr_packetQueue p)) (pr_packetCapacity p)) p
        | SendFull \<Rightarrow> pr_observe (Dropped ''packet_queue'' ''full'') p)"

section \<open>The packet goroutine\<close>

definition interArrivalOf :: "Event \<Rightarrow> ObserveResult \<Rightarrow> duration" where
  "interArrivalOf event observed =
     (if \<not> time_IsZero (or_PreviousLastSeen observed) \<and> ev_CapturedAt event > or_PreviousLastSeen observed
      then time_Sub (ev_CapturedAt event) (or_PreviousLastSeen observed) else 0)"

definition mapInputOf :: "Event \<Rightarrow> ObserveResult \<Rightarrow> Selection \<Rightarrow> MapInput" where
  "mapInputOf event observed chosen =
     \<lparr>mi_Packet = event, mi_Sequence = sn_Packets (or_Flow observed), mi_InterArrival = interArrivalOf event observed,
      mi_Channel = sel_Channel chosen, mi_Mode = sel_Mode chosen, mi_Root = sel_Root chosen\<rparr>"

text \<open>\<open>processPacket\<close> up to the note: expire, observe, select, map.\<close>

definition routePacket ::
  "'r Stages \<Rightarrow> Overlay \<Rightarrow> Event \<Rightarrow> 'r Processor \<Rightarrow> NoteEvent option \<times> 'r Processor" where
  "routePacket st overlay event p =
     (let (expired, r) = st_Expire st (pr_stages p) (ev_CapturedAt event);
          p = p\<lparr>pr_stages := r\<rparr>;
          p = (if length expired > 0 then pr_observe (FlowEvicted ''ttl'' (length expired)) p else p);
          (result, r) = st_Observe st (pr_stages p) event;
          p = p\<lparr>pr_stages := r\<rparr>
      in case result of
        Inl e \<Rightarrow> (None, pr_observe (Dropped ''flow_registry'' ''invalid_packet'') p)
      | Inr observed \<Rightarrow>
        let p = (if or_Evicted observed \<noteq> None then pr_observe (FlowEvicted ''capacity'' 1) p else p);
            p = pr_observe (FlowCount (st_Len st (pr_stages p))) p
        in case st_Evaluate st (pr_stages p) event overlay of
          Inl e \<Rightarrow> (None, pr_observe (Dropped ''flow_selector'' ''evaluation_error'') p)
        | Inr chosen \<Rightarrow>
          let p = pr_observe (Selected (sel_State chosen) (sel_Tier chosen)) p in
          if sel_State chosen \<noteq> StatePlay then (None, p)
          else case st_Map st (pr_stages p) (mapInputOf event observed chosen) of
            Inl e \<Rightarrow> (None, pr_observe (Dropped ''mapper'' ''conversion_error'')
                        (pr_observe (Mapped ''unknown'' ''error'' 0 0) p))
          | Inr note \<Rightarrow>
              (Some note, pr_observe (Mapped (Mode_String (ne_Mode note)) ''success'' (ne_Duration note) (ne_Velocity note)) p))"

definition offerNote :: "bool \<Rightarrow> NoteEvent \<Rightarrow> 'r Processor \<Rightarrow> 'r Processor" where
  "offerNote pick note p =
     (case select_send (pr_cancelled p) pick (pr_noteCapacity p) (pr_noteQueue p) of
        SendDone \<Rightarrow> pr_observe (Dropped ''note_queue'' ''shutdown'') p
      | SendOk \<Rightarrow>
          let p = p\<lparr>pr_noteQueue := pr_noteQueue p @ [note]\<rparr>
          in pr_observe (NoteQueue (length (pr_noteQueue p)) (pr_noteCapacity p)) p
      | SendFull \<Rightarrow> pr_observe (Dropped ''note_queue'' ''full'') p)"

definition processPacket ::
  "'r Stages \<Rightarrow> Overlay \<Rightarrow> bool \<Rightarrow> Event \<Rightarrow> 'r Processor \<Rightarrow> NoteEvent option \<times> 'r Processor" where
  "processPacket st overlay pick event p =
     (let (note, p) = routePacket st overlay event p
      in (note, pr_observe Processed (case note of None \<Rightarrow> p | Some n \<Rightarrow> offerNote pick n p)))"

text \<open>The deferred ends of \<open>processPackets\<close>: the note queue is closed, then the goroutine is done.\<close>

definition packetsDone :: "'r Processor \<Rightarrow> 'r Processor" where
  "packetsDone p = p\<lparr>pr_noteClosed := True, pr_packetStage := Finished\<rparr>"

definition packetReceive :: "bool \<Rightarrow> 'r Processor \<Rightarrow> 'r Processor" where
  "packetReceive pick p =
     (case select_recv (pr_cancelled p) pick (pr_packetClosed p) (pr_packetQueue p) of
        RecvDone \<Rightarrow> p\<lparr>pr_packetStage := Discarding\<rparr>
      | RecvOk event rest \<Rightarrow>
          pr_observe (PacketQueue (length rest) (pr_packetCapacity p))
            (p\<lparr>pr_packetQueue := rest, pr_packetStage := Handling event\<rparr>)
      | RecvClosed \<Rightarrow> packetsDone p
      | RecvBlocked \<Rightarrow> p)"

text \<open>One turn of \<open>discardPackets\<close>: range over the queue until it is closed and empty.\<close>

definition discardPackets :: "string \<Rightarrow> 'r Processor \<Rightarrow> 'r Processor" where
  "discardPackets reason p =
     (case pr_packetQueue p of
        event # rest \<Rightarrow> pr_observe (Dropped ''packet_queue'' reason) (p\<lparr>pr_packetQueue := rest\<rparr>)
      | [] \<Rightarrow> if pr_packetClosed p then packetsDone (pr_observe (PacketQueue 0 (pr_packetCapacity p)) p) else p)"

section \<open>The note goroutine\<close>

definition noteReceive :: "bool \<Rightarrow> 'r Processor \<Rightarrow> 'r Processor" where
  "noteReceive pick p =
     (case select_recv (pr_cancelled p) pick (pr_noteClosed p) (pr_noteQueue p) of
        RecvDone \<Rightarrow> p\<lparr>pr_noteStage := Discarding\<rparr>
      | RecvOk note rest \<Rightarrow>
          pr_observe (NoteQueue (length rest) (pr_noteCapacity p))
            (p\<lparr>pr_noteQueue := rest, pr_noteStage := Handling note\<rparr>)
      | RecvClosed \<Rightarrow> p\<lparr>pr_noteStage := Finished\<rparr>
      | RecvBlocked \<Rightarrow> p)"

text \<open>The call of the sink, whose result is an argument.\<close>

definition writeNote :: "bool \<Rightarrow> NoteEvent \<Rightarrow> 'r Processor \<Rightarrow> 'r Processor" where
  "writeNote accepted note p =
     (let p = p\<lparr>pr_written := pr_written p @ [(note, accepted)], pr_noteStage := Waiting\<rparr>
      in if accepted then p else pr_observe (Dropped ''note_sink'' ''write_error'') p)"

definition discardNotes :: "string \<Rightarrow> 'r Processor \<Rightarrow> 'r Processor" where
  "discardNotes reason p =
     (case pr_noteQueue p of
        note # rest \<Rightarrow> pr_observe (Dropped ''note_queue'' reason) (p\<lparr>pr_noteQueue := rest\<rparr>)
      | [] \<Rightarrow> if pr_noteClosed p
              then (pr_observe (NoteQueue 0 (pr_noteCapacity p)) p)\<lparr>pr_noteStage := Finished\<rparr> else p)"

section \<open>Run\<close>

text \<open>The end of \<open>Run\<close>, once both goroutines are done: close the source and report.\<close>

definition Run_finish :: "string option \<Rightarrow> 'r Processor \<Rightarrow> (capture_error option \<times> string option) \<times> 'r Processor" where
  "Run_finish closeErr p =
     (let captureErr = (if pr_captureErr p = Some EOF then None else pr_captureErr p);
          p = (case captureErr of
                 Some (ReadError e) \<Rightarrow> pr_observe (CaptureError ''read_error'') p
               | _ \<Rightarrow> p)
      in ((captureErr, closeErr), p))"

text \<open>
  The interleavings of the three goroutines and of a cancellation. A run records the captured packets
  and, in order, the processed packets with the note each produced.
\<close>

inductive pl_run ::
  "'r Stages \<Rightarrow> 'r Processor \<Rightarrow> Event list \<Rightarrow> (Event \<times> NoteEvent option) list \<Rightarrow> 'r Processor \<Rightarrow> bool" for st start where
  pl_start: "pl_run st start [] [] start"
| pl_cancel: "pl_run st start es ds p \<Longrightarrow> pl_run st start es ds (p\<lparr>pr_cancelled := True\<rparr>)"
| pl_capture: "pl_run st start es ds p \<Longrightarrow> pr_captureErr p = None \<Longrightarrow>
     pl_run st start (es @ (case next of Inl e \<Rightarrow> [] | Inr event \<Rightarrow> [event])) ds (capture pick next p)"
| pl_receive: "pl_run st start es ds p \<Longrightarrow> pr_packetStage p = Waiting \<Longrightarrow> pl_run st start es ds (packetReceive pick p)"
| pl_process: "pl_run st start es ds p \<Longrightarrow> pr_packetStage p = Handling event \<Longrightarrow>
     processPacket st overlay pick event p = (result, p') \<Longrightarrow>
     pl_run st start es (ds @ [(event, result)]) (p'\<lparr>pr_packetStage := Waiting\<rparr>)"
| pl_discard: "pl_run st start es ds p \<Longrightarrow> pr_packetStage p = Discarding \<Longrightarrow>
     pl_run st start es ds (discardPackets ''shutdown'' p)"
| pl_note: "pl_run st start es ds p \<Longrightarrow> pr_noteStage p = Waiting \<Longrightarrow> pl_run st start es ds (noteReceive pick p)"
| pl_write: "pl_run st start es ds p \<Longrightarrow> pr_noteStage p = Handling event \<Longrightarrow>
     pl_run st start es ds (writeNote accepted event p)"
| pl_discardNotes: "pl_run st start es ds p \<Longrightarrow> pr_noteStage p = Discarding \<Longrightarrow>
     pl_run st start es ds (discardNotes ''shutdown'' p)"

section \<open>What the steps keep\<close>

fun busy :: "'a stage \<Rightarrow> 'a list" where
  "busy (Handling x) = [x]"
| "busy _ = []"

definition notesOf :: "(Event \<times> NoteEvent option) list \<Rightarrow> NoteEvent list" where
  "notesOf ds = concat (map (\<lambda>(e, n). case n of None \<Rightarrow> [] | Some x \<Rightarrow> [x]) ds)"

fun is_drop :: "string \<Rightarrow> pipeline_observation \<Rightarrow> bool" where
  "is_drop stage (Dropped place reason) = (place = stage)"
| "is_drop stage _ = False"

definition drops :: "string \<Rightarrow> 'r Processor \<Rightarrow> nat" where
  "drops stage p = length (filter (is_drop stage) (pr_observed p))"

lemma pr_observe_frame [simp]:
  "pr_stages (pr_observe e p) = pr_stages p" "pr_packetQueue (pr_observe e p) = pr_packetQueue p"
  "pr_packetCapacity (pr_observe e p) = pr_packetCapacity p" "pr_packetClosed (pr_observe e p) = pr_packetClosed p"
  "pr_packetStage (pr_observe e p) = pr_packetStage p" "pr_noteQueue (pr_observe e p) = pr_noteQueue p"
  "pr_noteCapacity (pr_observe e p) = pr_noteCapacity p" "pr_noteClosed (pr_observe e p) = pr_noteClosed p"
  "pr_noteStage (pr_observe e p) = pr_noteStage p" "pr_captureErr (pr_observe e p) = pr_captureErr p"
  "pr_cancelled (pr_observe e p) = pr_cancelled p" "pr_written (pr_observe e p) = pr_written p"
  "drops stage (pr_observe e p) = drops stage p + (if is_drop stage e then 1 else 0)"
  by (simp_all add: pr_observe_def drops_def)

lemma drops_update [simp]:
  "drops stage (p\<lparr>pr_stages := r\<rparr>) = drops stage p" "drops stage (p\<lparr>pr_packetQueue := q\<rparr>) = drops stage p"
  "drops stage (p\<lparr>pr_packetClosed := b\<rparr>) = drops stage p" "drops stage (p\<lparr>pr_packetStage := g\<rparr>) = drops stage p"
  "drops stage (p\<lparr>pr_noteQueue := nq\<rparr>) = drops stage p" "drops stage (p\<lparr>pr_noteClosed := b\<rparr>) = drops stage p"
  "drops stage (p\<lparr>pr_noteStage := h\<rparr>) = drops stage p" "drops stage (p\<lparr>pr_captureErr := c\<rparr>) = drops stage p"
  "drops stage (p\<lparr>pr_cancelled := b\<rparr>) = drops stage p" "drops stage (p\<lparr>pr_written := ws\<rparr>) = drops stage p"
  by (simp_all add: drops_def)

lemma routePacket_frame [simp]:
  "pr_packetQueue (snd (routePacket st overlay event p)) = pr_packetQueue p"
  "pr_packetCapacity (snd (routePacket st overlay event p)) = pr_packetCapacity p"
  "pr_packetClosed (snd (routePacket st overlay event p)) = pr_packetClosed p"
  "pr_packetStage (snd (routePacket st overlay event p)) = pr_packetStage p"
  "pr_noteQueue (snd (routePacket st overlay event p)) = pr_noteQueue p"
  "pr_noteCapacity (snd (routePacket st overlay event p)) = pr_noteCapacity p"
  "pr_noteClosed (snd (routePacket st overlay event p)) = pr_noteClosed p"
  "pr_noteStage (snd (routePacket st overlay event p)) = pr_noteStage p"
  "pr_captureErr (snd (routePacket st overlay event p)) = pr_captureErr p"
  "pr_cancelled (snd (routePacket st overlay event p)) = pr_cancelled p"
  "pr_written (snd (routePacket st overlay event p)) = pr_written p"
  "drops ''packet_queue'' (snd (routePacket st overlay event p)) = drops ''packet_queue'' p"
  "drops ''note_queue'' (snd (routePacket st overlay event p)) = drops ''note_queue'' p"
  "drops ''note_sink'' (snd (routePacket st overlay event p)) = drops ''note_sink'' p"
  by (simp_all add: routePacket_def Let_def split: prod.split sum.split)

text \<open>The queues stay within their capacities and are closed in order; packets and notes are accounted for.\<close>

definition pl_shape :: "'r Processor \<Rightarrow> bool" where
  "pl_shape p \<longleftrightarrow>
     length (pr_packetQueue p) \<le> pr_packetCapacity p \<and> length (pr_noteQueue p) \<le> pr_noteCapacity p \<and>
     pr_packetClosed p = (pr_captureErr p \<noteq> None) \<and> pr_noteClosed p = (pr_packetStage p = Finished) \<and>
     (pr_packetStage p = Finished \<longrightarrow> pr_packetQueue p = [] \<and> pr_packetClosed p) \<and>
     (pr_noteStage p = Finished \<longrightarrow> pr_noteQueue p = [] \<and> pr_noteClosed p) \<and>
     (pr_packetStage p = Discarding \<or> pr_noteStage p = Discarding \<longrightarrow> pr_cancelled p)"

definition pl_account :: "Event list \<Rightarrow> (Event \<times> NoteEvent option) list \<Rightarrow> 'r Processor \<Rightarrow> bool" where
  "pl_account es ds p \<longleftrightarrow>
     length es = length ds + length (busy (pr_packetStage p)) + length (pr_packetQueue p) + drops ''packet_queue'' p \<and>
     length (notesOf ds) = length (pr_written p) + length (busy (pr_noteStage p)) + length (pr_noteQueue p) +
       drops ''note_queue'' p \<and>
     drops ''note_sink'' p = length (filter (\<lambda>(n, accepted). \<not> accepted) (pr_written p))"

definition pl_order :: "Event list \<Rightarrow> (Event \<times> NoteEvent option) list \<Rightarrow> 'r Processor \<Rightarrow> bool" where
  "pl_order es ds p \<longleftrightarrow>
     subseq (map fst ds @ busy (pr_packetStage p) @ pr_packetQueue p) es \<and>
     subseq (map fst (pr_written p) @ busy (pr_noteStage p) @ pr_noteQueue p) (notesOf ds)"

lemmas pl_steps = capture_def captureEnd_def packetReceive_def packetsDone_def discardPackets_def noteReceive_def
  writeNote_def discardNotes_def offerNote_def Let_def select_send_def

lemma select_recv_cases:
  "select_recv c pick d q = (case q of [] \<Rightarrow> if c \<and> (pick \<or> \<not> d) then RecvDone else if d then RecvClosed else RecvBlocked
     | x # xs \<Rightarrow> if c \<and> pick then RecvDone else RecvOk x xs)"
  by (cases q) simp_all

lemma notesOf_snoc: "notesOf (ds @ [(e, n)]) = notesOf ds @ (case n of None \<Rightarrow> [] | Some x \<Rightarrow> [x])"
  by (simp add: notesOf_def)

lemma offerNote_frame [simp]:
  "pr_packetQueue (offerNote pick n p) = pr_packetQueue p" "pr_packetCapacity (offerNote pick n p) = pr_packetCapacity p"
  "pr_packetClosed (offerNote pick n p) = pr_packetClosed p" "pr_packetStage (offerNote pick n p) = pr_packetStage p"
  "pr_noteCapacity (offerNote pick n p) = pr_noteCapacity p" "pr_noteClosed (offerNote pick n p) = pr_noteClosed p"
  "pr_noteStage (offerNote pick n p) = pr_noteStage p" "pr_captureErr (offerNote pick n p) = pr_captureErr p"
  "pr_cancelled (offerNote pick n p) = pr_cancelled p" "pr_written (offerNote pick n p) = pr_written p"
  "pr_stages (offerNote pick n p) = pr_stages p"
  "drops ''packet_queue'' (offerNote pick n p) = drops ''packet_queue'' p"
  "drops ''note_sink'' (offerNote pick n p) = drops ''note_sink'' p"
  by (simp_all add: offerNote_def Let_def split: sent.splits)

lemma offerNote_queue:
  "pr_noteQueue (offerNote pick n p) = pr_noteQueue p @ [n] \<and> length (pr_noteQueue p) < pr_noteCapacity p \<and>
     drops ''note_queue'' (offerNote pick n p) = drops ''note_queue'' p \<or>
   pr_noteQueue (offerNote pick n p) = pr_noteQueue p \<and> drops ''note_queue'' (offerNote pick n p) = Suc (drops ''note_queue'' p)"
  by (simp add: offerNote_def Let_def select_send_def)

lemma processPacket_frame:
  assumes "processPacket st overlay pick event p = (result, p')"
  shows "pr_packetQueue p' = pr_packetQueue p" "pr_packetCapacity p' = pr_packetCapacity p"
    "pr_packetClosed p' = pr_packetClosed p" "pr_packetStage p' = pr_packetStage p"
    "pr_noteCapacity p' = pr_noteCapacity p" "pr_noteClosed p' = pr_noteClosed p" "pr_noteStage p' = pr_noteStage p"
    "pr_captureErr p' = pr_captureErr p" "pr_cancelled p' = pr_cancelled p" "pr_written p' = pr_written p"
    "drops ''packet_queue'' p' = drops ''packet_queue'' p" "drops ''note_sink'' p' = drops ''note_sink'' p"
    and "result = None \<and> pr_noteQueue p' = pr_noteQueue p \<and> drops ''note_queue'' p' = drops ''note_queue'' p \<or>
      (\<exists>n. result = Some n \<and>
        (pr_noteQueue p' = pr_noteQueue p @ [n] \<and> length (pr_noteQueue p) < pr_noteCapacity p \<and>
           drops ''note_queue'' p' = drops ''note_queue'' p \<or>
         pr_noteQueue p' = pr_noteQueue p \<and> drops ''note_queue'' p' = Suc (drops ''note_queue'' p)))"
proof -
  obtain p1 where r: "routePacket st overlay event p = (result, p1)"
    and p': "p' = pr_observe Processed (case result of None \<Rightarrow> p1 | Some n \<Rightarrow> offerNote pick n p1)"
    using assms by (auto simp: processPacket_def Let_def split: prod.splits)
  have p1: "p1 = snd (routePacket st overlay event p)" by (simp add: r)
  show "pr_packetQueue p' = pr_packetQueue p" "pr_packetCapacity p' = pr_packetCapacity p"
    "pr_packetClosed p' = pr_packetClosed p" "pr_packetStage p' = pr_packetStage p"
    "pr_noteCapacity p' = pr_noteCapacity p" "pr_noteClosed p' = pr_noteClosed p" "pr_noteStage p' = pr_noteStage p"
    "pr_captureErr p' = pr_captureErr p" "pr_cancelled p' = pr_cancelled p" "pr_written p' = pr_written p"
    "drops ''packet_queue'' p' = drops ''packet_queue'' p" "drops ''note_sink'' p' = drops ''note_sink'' p"
    unfolding p' p1 by (simp_all split: option.split)
  show "result = None \<and> pr_noteQueue p' = pr_noteQueue p \<and> drops ''note_queue'' p' = drops ''note_queue'' p \<or>
      (\<exists>n. result = Some n \<and>
        (pr_noteQueue p' = pr_noteQueue p @ [n] \<and> length (pr_noteQueue p) < pr_noteCapacity p \<and>
           drops ''note_queue'' p' = drops ''note_queue'' p \<or>
         pr_noteQueue p' = pr_noteQueue p \<and> drops ''note_queue'' p' = Suc (drops ''note_queue'' p)))"
  proof (cases result)
    case None
    then show ?thesis by (simp add: p' p1)
  next
    case (Some n)
    then show ?thesis using offerNote_queue [of pick n p1] by (simp add: p' p1)
  qed
qed

lemma shape_process:
  assumes "pl_shape p" "pr_packetStage p = Handling event" "processPacket st overlay pick event p = (result, p')"
  shows "pl_shape (p'\<lparr>pr_packetStage := Waiting\<rparr>)"
  using assms(1,2) processPacket_frame(13) [OF assms(3)]
  by (auto simp: pl_shape_def processPacket_frame(1-12) [OF assms(3)])

lemma shape_capture: "pl_shape p \<Longrightarrow> pr_captureErr p = None \<Longrightarrow> pl_shape (capture pick next p)"
  by (cases "next") (auto simp: pl_shape_def capture_def captureEnd_def Let_def select_send_def)

lemma shape_receive: "pl_shape p \<Longrightarrow> pr_packetStage p = Waiting \<Longrightarrow> pl_shape (packetReceive pick p)"
  by (cases "pr_packetQueue p") (auto simp: pl_shape_def packetReceive_def packetsDone_def)

lemma shape_discard: "pl_shape p \<Longrightarrow> pr_packetStage p = Discarding \<Longrightarrow> pl_shape (discardPackets r p)"
  by (cases "pr_packetQueue p") (auto simp: pl_shape_def discardPackets_def packetsDone_def)

lemma shape_note: "pl_shape p \<Longrightarrow> pr_noteStage p = Waiting \<Longrightarrow> pl_shape (noteReceive pick p)"
  by (cases "pr_noteQueue p") (auto simp: pl_shape_def noteReceive_def)

lemma shape_write: "pl_shape p \<Longrightarrow> pr_noteStage p = Handling event \<Longrightarrow> pl_shape (writeNote b event p)"
  by (auto simp: pl_shape_def writeNote_def Let_def)

lemma shape_discardNotes: "pl_shape p \<Longrightarrow> pr_noteStage p = Discarding \<Longrightarrow> pl_shape (discardNotes r p)"
  by (cases "pr_noteQueue p") (auto simp: pl_shape_def discardNotes_def)

lemma shape_cancel: "pl_shape p \<Longrightarrow> pl_shape (p\<lparr>pr_cancelled := True\<rparr>)"
  by (auto simp: pl_shape_def)

lemmas shape_intros = shape_process shape_capture shape_receive shape_discard shape_note shape_write shape_discardNotes

lemma pl_run_shape: "pl_run st start es ds p \<Longrightarrow> pl_shape start \<Longrightarrow> pl_shape p"
  by (induction rule: pl_run.induct) (auto intro: shape_intros shape_cancel)

section \<open>Accounting and order\<close>

definition pl_ledger :: "Event list \<Rightarrow> (Event \<times> NoteEvent option) list \<Rightarrow> 'r Processor \<Rightarrow> bool" where
  "pl_ledger es ds p \<longleftrightarrow> pl_account es ds p \<and> pl_order es ds p"

lemma subseq_extend: "subseq (a @ b @ c) z \<Longrightarrow> subseq (a @ b @ c @ [x]) (z @ [x])"
  by (metis append_assoc list_emb_append_mono subseq_order.order_refl)

lemma subseq_drop_mid: "subseq (xs @ y # ys) zs \<Longrightarrow> subseq (xs @ ys) zs"
  by (rule subseq_order.trans [of _ "xs @ y # ys"]) (auto intro: list_emb_append_mono)

lemma ledger_capture:
  "pl_ledger es ds p \<Longrightarrow> pl_ledger (es @ (case next of Inl e \<Rightarrow> [] | Inr event \<Rightarrow> [event])) ds (capture pick next p)"
proof (cases "next")
  case (Inr event)
  assume l: "pl_ledger es ds p"
  then show ?thesis using Inr
    by (auto simp: pl_ledger_def pl_account_def pl_order_def capture_def captureEnd_def Let_def select_send_def
        subseq_rev_drop_many subseq_extend)
qed (simp add: pl_ledger_def pl_account_def pl_order_def capture_def captureEnd_def)

lemma ledger_process:
  assumes l: "pl_ledger es ds p" and st: "pr_packetStage p = Handling event"
    and r: "processPacket st overlay pick event p = (result, p')"
  shows "pl_ledger es (ds @ [(event, result)]) (p'\<lparr>pr_packetStage := Waiting\<rparr>)"
  using l st processPacket_frame(13) [OF r]
  by (auto simp: pl_ledger_def pl_account_def pl_order_def processPacket_frame(1-12) [OF r] notesOf_snoc
      subseq_rev_drop_many subseq_extend)

lemma ledger_receive: "pl_ledger es ds p \<Longrightarrow> pr_packetStage p = Waiting \<Longrightarrow> pl_ledger es ds (packetReceive pick p)"
  by (cases "pr_packetQueue p") (auto simp: pl_ledger_def pl_account_def pl_order_def packetReceive_def packetsDone_def)

lemma ledger_discard: "pl_ledger es ds p \<Longrightarrow> pr_packetStage p = Discarding \<Longrightarrow> pl_ledger es ds (discardPackets r p)"
  by (cases "pr_packetQueue p")
    (auto simp: pl_ledger_def pl_account_def pl_order_def discardPackets_def packetsDone_def dest: subseq_drop_mid)

lemma ledger_note: "pl_ledger es ds p \<Longrightarrow> pr_noteStage p = Waiting \<Longrightarrow> pl_ledger es ds (noteReceive pick p)"
  by (cases "pr_noteQueue p") (auto simp: pl_ledger_def pl_account_def pl_order_def noteReceive_def)

lemma ledger_write: "pl_ledger es ds p \<Longrightarrow> pr_noteStage p = Handling event \<Longrightarrow> pl_ledger es ds (writeNote b event p)"
  by (auto simp: pl_ledger_def pl_account_def pl_order_def writeNote_def Let_def)

lemma ledger_discardNotes: "pl_ledger es ds p \<Longrightarrow> pr_noteStage p = Discarding \<Longrightarrow> pl_ledger es ds (discardNotes r p)"
  by (cases "pr_noteQueue p")
    (auto simp: pl_ledger_def pl_account_def pl_order_def discardNotes_def dest: subseq_drop_mid)

lemma ledger_cancel: "pl_ledger es ds p \<Longrightarrow> pl_ledger es ds (p\<lparr>pr_cancelled := True\<rparr>)"
  by (simp add: pl_ledger_def pl_account_def pl_order_def)

lemmas ledger_intros = ledger_capture ledger_process ledger_receive ledger_discard ledger_note ledger_write
  ledger_discardNotes ledger_cancel

lemma pl_run_ledger: "pl_run st start es ds p \<Longrightarrow> pl_ledger [] [] start \<Longrightarrow> pl_ledger es ds p"
  by (induction rule: pl_run.induct) (blast intro: ledger_intros)+

lemma NewProcessor_ok:
  assumes "NewProcessor r pc nc = Inr p"
  shows "pl_shape p \<and> pl_ledger [] [] p \<and> pr_stages p = r \<and> pr_packetCapacity p = nat pc \<and> pr_noteCapacity p = nat nc \<and>
    pr_written p = [] \<and> pr_noteQueue p = [] \<and> pr_noteStage p = Waiting"
  using assms
  by (auto simp: NewProcessor_def pl_shape_def pl_ledger_def pl_account_def pl_order_def notesOf_def drops_def pr_observe_def
      split: if_splits)

end
