(* ===== verification/Pipeline_Spec.thy ===== *)
theory Pipeline_Spec
  imports Pipeline
begin

text \<open>
  The properties of the pipeline: its goroutines finish once the capture has ended, and, with the
  registry, selector and mapper of the program behind its interfaces, what it queues is valid and
  nothing is lost between an accepted packet and the note queue. The contract the processor relies on
  is the locale \<open>packet_stages\<close>.
\<close>

section \<open>Draining\<close>

text \<open>The steps of the packet and note goroutines that do not wait.\<close>

inductive pl_work :: "'r Stages \<Rightarrow> 'r Processor \<Rightarrow> 'r Processor \<Rightarrow> bool" for st where
  work_receive: "pr_packetStage p = Waiting \<Longrightarrow>
     select_recv (pr_cancelled p) pick (pr_packetClosed p) (pr_packetQueue p) \<noteq> RecvBlocked \<Longrightarrow>
     pl_work st p (packetReceive pick p)"
| work_process: "pr_packetStage p = Handling event \<Longrightarrow> processPacket st overlay pick event p = (result, p') \<Longrightarrow>
     pl_work st p (p'\<lparr>pr_packetStage := Waiting\<rparr>)"
| work_discard: "pr_packetStage p = Discarding \<Longrightarrow> pr_packetQueue p \<noteq> [] \<or> pr_packetClosed p \<Longrightarrow>
     pl_work st p (discardPackets ''shutdown'' p)"
| work_note: "pr_noteStage p = Waiting \<Longrightarrow>
     select_recv (pr_cancelled p) pick (pr_noteClosed p) (pr_noteQueue p) \<noteq> RecvBlocked \<Longrightarrow>
     pl_work st p (noteReceive pick p)"
| work_write: "pr_noteStage p = Handling event \<Longrightarrow> pl_work st p (writeNote accepted event p)"
| work_discardNotes: "pr_noteStage p = Discarding \<Longrightarrow> pr_noteQueue p \<noteq> [] \<or> pr_noteClosed p \<Longrightarrow>
     pl_work st p (discardNotes ''shutdown'' p)"

fun stage_work :: "nat \<Rightarrow> 'a stage \<Rightarrow> nat" where
  "stage_work n Waiting = 2"
| "stage_work n (Handling x) = n"
| "stage_work n Discarding = 1"
| "stage_work n Finished = 0"

definition work_left :: "'r Processor \<Rightarrow> nat" where
  "work_left p = 10 * length (pr_packetQueue p) + stage_work 8 (pr_packetStage p) +
     3 * length (pr_noteQueue p) + stage_work 4 (pr_noteStage p)"

lemma pl_work_less: "pl_work st p p' \<Longrightarrow> work_left p' < work_left p"
proof (induction rule: pl_work.induct)
  case (work_receive p pick)
  then show ?case
    by (cases "pr_packetQueue p") (auto simp: work_left_def packetReceive_def packetsDone_def split: if_splits)
next
  case (work_process p event overlay pick result p')
  then show ?case
    using processPacket_frame(13) [OF work_process(2)]
    by (auto simp: work_left_def processPacket_frame(1-12) [OF work_process(2)])
next
  case (work_discard p)
  then show ?case
    by (cases "pr_packetQueue p") (auto simp: work_left_def discardPackets_def packetsDone_def)
next
  case (work_note p pick)
  then show ?case
    by (cases "pr_noteQueue p") (auto simp: work_left_def noteReceive_def split: if_splits)
next
  case (work_write p event accepted)
  then show ?case by (simp add: work_left_def writeNote_def Let_def)
next
  case (work_discardNotes p)
  then show ?case by (cases "pr_noteQueue p") (auto simp: work_left_def discardNotes_def)
qed

lemma pl_work_wf: "wfP (\<lambda>p' p. pl_work st p p')"
proof -
  have "wf (measure (work_left :: 'a Processor \<Rightarrow> nat))" by simp
  then show ?thesis unfolding wfp_def
    by (rule wf_subset) (auto dest: pl_work_less)
qed

lemma pl_work_progress:
  assumes shape: "pl_shape p" and ended: "pr_captureErr p \<noteq> None"
    and stuck: "\<And>p'. \<not> pl_work st p p'"
  shows "pr_packetStage p = Finished \<and> pr_noteStage p = Finished"
proof -
  have closed: "pr_packetClosed p" using shape ended by (simp add: pl_shape_def)
  have "pr_packetStage p = Finished"
  proof (cases "pr_packetStage p")
    case Waiting
    then have "pl_work st p (packetReceive False p)"
      by (rule work_receive) (cases "pr_packetQueue p"; simp add: closed)
    then show ?thesis using stuck by blast
  next
    case (Handling event)
    obtain result p' where "processPacket st \<lparr>ov_Muted = fempty, ov_Soloed = fempty\<rparr> False event p = (result, p')" by force
    then show ?thesis using stuck work_process [OF Handling] by blast
  next
    case Discarding
    then show ?thesis using stuck work_discard [OF Discarding] closed by blast
  qed simp
  moreover from this have note_closed: "pr_noteClosed p" using shape by (simp add: pl_shape_def)
  have "pr_noteStage p = Finished"
  proof (cases "pr_noteStage p")
    case Waiting
    then have "pl_work st p (noteReceive False p)"
      by (rule work_note) (cases "pr_noteQueue p"; simp add: note_closed)
    then show ?thesis using stuck by blast
  next
    case (Handling event)
    then show ?thesis using stuck work_write [OF Handling] by blast
  next
    case Discarding
    then show ?thesis using stuck work_discardNotes [OF Discarding] note_closed by blast
  qed simp
  ultimately show ?thesis by simp
qed

text \<open>Work continues a run, without capturing more.\<close>

lemma pl_work_run: "pl_work st p p' \<Longrightarrow> pl_run st start es ds p \<Longrightarrow> \<exists>more. pl_run st start es (ds @ more) p'"
proof (induction rule: pl_work.induct)
  case (work_process p event overlay pick result p')
  then show ?case by (blast intro: pl_process)
qed (use append_Nil2 in \<open>metis pl_receive pl_discard pl_note pl_write pl_discardNotes\<close>)+

lemma pl_work_captureErr: "pl_work st p p' \<Longrightarrow> pr_captureErr p' = pr_captureErr p"
  by (induction rule: pl_work.induct)
    (auto simp: packetReceive_def packetsDone_def discardPackets_def noteReceive_def writeNote_def discardNotes_def Let_def
      processPacket_frame(8) split: received.splits list.splits)

lemma pl_works_run:
  "(pl_work st)\<^sup>*\<^sup>* p q \<Longrightarrow> pl_run st start es ds p \<Longrightarrow>
     \<exists>more. pl_run st start es (ds @ more) q \<and> pr_captureErr q = pr_captureErr p"
proof (induction rule: rtranclp_induct)
  case base
  then show ?case by (metis append_Nil2)
next
  case (step q r)
  then show ?case by (metis append_assoc pl_work_run pl_work_captureErr)
qed

section \<open>The contract of the stages\<close>

text \<open>
  What the processor relies on: every operation keeps the stages well-formed, the registry accepts only
  valid packets, the selector decides every valid packet, and the mapper returns a valid note for every
  valid packet of a realistic length on a valid channel.
\<close>

lemma routePacket_stages:
  "pr_stages (snd (routePacket st overlay event p)) =
     snd (st_Observe st (snd (st_Expire st (pr_stages p) (ev_CapturedAt event))) event)"
  by (auto simp: routePacket_def Let_def split: prod.split sum.split)

definition packet_fits :: "Event \<Rightarrow> bool" where
  "packet_fits event \<longleftrightarrow> ev_WireLength event \<le> maxInt64 - 200"

locale packet_stages =
  fixes st :: "'r Stages" and ok :: "'r \<Rightarrow> bool"
  assumes expire_ok: "ok r \<Longrightarrow> ok (snd (st_Expire st r now))"
    and observe_ok: "ok r \<Longrightarrow> ok (snd (st_Observe st r event))"
    and observe_valid: "ok r \<Longrightarrow> st_Observe st r event = (Inr res, r') \<Longrightarrow> Event_Validate event = None"
    and evaluate_total: "ok r \<Longrightarrow> Event_Validate event = None \<Longrightarrow>
      \<exists>sel. st_Evaluate st r event overlay = Inr sel \<and> selection_ok sel"
    and map_total: "ok r \<Longrightarrow> Event_Validate (mi_Packet i) = None \<Longrightarrow> packet_fits (mi_Packet i) \<Longrightarrow>
      1 \<le> mi_Channel i \<Longrightarrow> mi_Channel i \<le> 16 \<Longrightarrow>
      mi_Mode i = [] \<or> validMusicalMode (mi_Mode i) \<and> mi_Root i \<le> 11 \<Longrightarrow> is_ok (st_Map st r i)"
    and map_valid: "st_Map st r i = Inr n \<Longrightarrow> NoteEvent_Validate n = None"
begin

lemma route_ok: "ok (pr_stages p) \<Longrightarrow> ok (pr_stages (snd (routePacket st overlay event p)))"
  by (simp add: routePacket_stages expire_ok observe_ok)

lemma route_valid: "routePacket st overlay event p = (Some n, p') \<Longrightarrow> NoteEvent_Validate n = None"
  by (auto simp: routePacket_def Let_def split: prod.splits sum.splits if_splits intro: map_valid)

lemma map_selected:
  assumes "ok r" "Event_Validate event = None" "packet_fits event" "selection_ok sel"
  obtains n where "st_Map st r (mapInputOf event observed sel) = Inr n"
  using map_total [OF assms(1), of "mapInputOf event observed sel"] assms(2-4)
  by (auto simp: mapInputOf_def selection_ok_def is_ok_iff)

text \<open>Between the registry and the note queue no packet is lost to an error.\<close>

lemma route_lossless:
  assumes "ok (pr_stages p)" "packet_fits event"
  shows "drops ''flow_selector'' (snd (routePacket st overlay event p)) = drops ''flow_selector'' p"
    and "drops ''mapper'' (snd (routePacket st overlay event p)) = drops ''mapper'' p"
proof -
  obtain expired r1 where ex: "st_Expire st (pr_stages p) (ev_CapturedAt event) = (expired, r1)" by force
  obtain res r2 where ob: "st_Observe st r1 event = (res, r2)" by force
  have ok: "ok r1" "ok r2" using expire_ok [OF assms(1)] observe_ok [of r1 event] ex ob by (metis snd_conv)+
  have "drops stage (snd (routePacket st overlay event p)) = drops stage p" if "stage \<in> {''flow_selector'', ''mapper''}" for stage
  proof (cases res)
    case (Inl e)
    then show ?thesis using that by (auto simp: routePacket_def Let_def ex ob)
  next
    case (Inr observed)
    have valid: "Event_Validate event = None" using observe_valid [OF ok(1)] ob Inr by blast
    obtain sel where sel: "st_Evaluate st r2 event overlay = Inr sel" "selection_ok sel"
      using evaluate_total [OF ok(2) valid] by blast
    obtain n where "st_Map st r2 (mapInputOf event observed sel) = Inr n"
      using map_selected [OF ok(2) valid assms(2) sel(2)] by blast
    then show ?thesis using that Inr sel(1) by (auto simp: routePacket_def Let_def ex ob)
  qed
  then show "drops ''flow_selector'' (snd (routePacket st overlay event p)) = drops ''flow_selector'' p"
    "drops ''mapper'' (snd (routePacket st overlay event p)) = drops ''mapper'' p" by simp_all
qed

definition pl_sound :: "'r Processor \<Rightarrow> bool" where
  "pl_sound p \<longleftrightarrow> ok (pr_stages p) \<and>
     (\<forall>event \<in> set (busy (pr_packetStage p) @ pr_packetQueue p). packet_fits event) \<and>
     (\<forall>n \<in> set (map fst (pr_written p) @ busy (pr_noteStage p) @ pr_noteQueue p). NoteEvent_Validate n = None) \<and>
     drops ''flow_selector'' p = 0 \<and> drops ''mapper'' p = 0"

lemma sound_process:
  assumes p: "pl_sound p" and h: "pr_packetStage p = Handling event"
    and r: "processPacket st overlay pick event p = (result, p')"
  shows "pl_sound (p'\<lparr>pr_packetStage := Waiting\<rparr>)"
proof -
  obtain p1 where r1: "routePacket st overlay event p = (result, p1)"
    and p': "p' = pr_observe Processed (case result of None \<Rightarrow> p1 | Some n \<Rightarrow> offerNote pick n p1)"
    using r by (auto simp: processPacket_def Let_def split: prod.splits)
  have p1: "p1 = snd (routePacket st overlay event p)" by (simp add: r1)
  have ok: "ok (pr_stages p)" "packet_fits event" using p h by (simp_all add: pl_sound_def)
  have base: "pl_sound (p1\<lparr>pr_packetStage := Waiting\<rparr>)"
    using p h route_ok [OF ok(1)] route_lossless [OF ok] by (simp add: pl_sound_def p1)
  show ?thesis
  proof (cases result)
    case None
    then show ?thesis using base by (simp add: pl_sound_def p')
  next
    case (Some n)
    have "drops stage (offerNote pick n p1) = drops stage p1" if "stage \<noteq> ''note_queue''" for stage
      using that by (simp add: offerNote_def Let_def split: sent.split)
    moreover have "set (pr_noteQueue (offerNote pick n p1)) \<subseteq> insert n (set (pr_noteQueue p1))"
      using offerNote_queue [of pick n p1] by auto
    ultimately show ?thesis
      using base Some route_valid [OF r1 [unfolded Some]] by (auto simp: pl_sound_def p')
  qed
qed

lemma sound_capture:
  "pl_sound p \<Longrightarrow> (\<And>event. next = Inr event \<Longrightarrow> packet_fits event) \<Longrightarrow> pl_sound (capture pick next p)"
  by (cases "next") (auto simp: pl_sound_def capture_def captureEnd_def Let_def select_send_def)

lemma sound_receive: "pl_sound p \<Longrightarrow> pr_packetStage p = Waiting \<Longrightarrow> pl_sound (packetReceive pick p)"
  by (cases "pr_packetQueue p") (auto simp: pl_sound_def packetReceive_def packetsDone_def)

lemma sound_discard: "pl_sound p \<Longrightarrow> pl_sound (discardPackets r p)"
  by (cases "pr_packetQueue p") (auto simp: pl_sound_def discardPackets_def packetsDone_def)

lemma sound_note: "pl_sound p \<Longrightarrow> pr_noteStage p = Waiting \<Longrightarrow> pl_sound (noteReceive pick p)"
  by (cases "pr_noteQueue p") (auto simp: pl_sound_def noteReceive_def)

lemma sound_write: "pl_sound p \<Longrightarrow> pr_noteStage p = Handling event \<Longrightarrow> pl_sound (writeNote b event p)"
  by (auto simp: pl_sound_def writeNote_def Let_def)

lemma sound_discardNotes: "pl_sound p \<Longrightarrow> pl_sound (discardNotes r p)"
  by (cases "pr_noteQueue p") (auto simp: pl_sound_def discardNotes_def)

lemma sound_cancel: "pl_sound p \<Longrightarrow> pl_sound (p\<lparr>pr_cancelled := True\<rparr>)"
  by (simp add: pl_sound_def)

lemma run_sound: "pl_run st start es ds p \<Longrightarrow> pl_sound start \<Longrightarrow> (\<forall>event \<in> set es. packet_fits event) \<Longrightarrow> pl_sound p"
proof (induction rule: pl_run.induct)
  case (pl_capture es ds p "next" pick)
  then show ?case using sound_capture [of p "next" pick] by (cases "next") simp_all
next
  case (pl_process es ds p event overlay pick result p')
  then show ?case using sound_process by blast
qed (blast intro: sound_cancel sound_receive sound_discard sound_note sound_write sound_discardNotes)+

end

section \<open>The stages of the program\<close>

definition pipelineStages :: "(Registry \<times> Selector \<times> Mapper) Stages" where
  "pipelineStages =
     \<lparr>st_Observe = (\<lambda>(r, s, m) event. case Registry_Observe r event of (res, r') \<Rightarrow> (res, r', s, m)),
      st_Expire = (\<lambda>(r, s, m) now. case Registry_Expire r now of (expired, r') \<Rightarrow> (expired, r', s, m)),
      st_Len = (\<lambda>(r, s, m). Registry_Len r), st_Evaluate = (\<lambda>(r, s, m). Evaluate s), st_Map = (\<lambda>(r, s, m). Mapper_Map m)\<rparr>"

definition stages_ok :: "Registry \<times> Selector \<times> Mapper \<Rightarrow> bool" where
  "stages_ok rsm \<longleftrightarrow> (case rsm of (r, s, m) \<Rightarrow>
     Registry_inv r \<and> Selector_inv s \<and> NewMapper (mp_config m) = Inr m \<and>
     mc_MinimumNote (mp_config m) < mc_MaximumNote (mp_config m) \<and>
     sl_seed s = rg_seed r \<and> mc_Seed (mp_config m) = rg_seed r)"

lemma Expire_seed: "Registry_inv r \<Longrightarrow> Registry_Expire r now = (expired, r') \<Longrightarrow> Registry_inv r' \<and> rg_seed r' = rg_seed r"
  using Registry_Expire_correct(1) expireLoop_correct unfolding Registry_Expire_def Registry_inv_def by blast

lemma Observe_get:
  assumes inv: "Registry_inv r" and ev: "Event_Validate event = None" "ev_CapturedAt event \<noteq> 0"
  obtains res r' where "Registry_Observe r event = (Inr res, r')" "Registry_inv r'" "rg_seed r' = rg_seed r"
    "Registry_Get r' (Key_ID (fst (Canonicalize event)) (rg_seed r)) = Some (or_Flow res)"
proof -
  obtain res r' where obs: "Registry_Observe r event = (res, r')" by force
  obtain key d where key: "Canonicalize event = (key, d)" by force
  obtain r1 evicted where evict: "evictOldest r = (r1, evicted)" by force
  show thesis
  proof (cases "Registry_Get r (Key_ID key (rg_seed r))")
    case None
    note new = Observe_new [OF inv ev key refl None evict evict_frees [OF inv evict] obs]
    show thesis using that obs new key by (metis ObserveResult.select_convs(1) fst_conv fun_upd_same)
  next
    case (Some s)
    note old = Observe_existing [OF inv ev key refl Some obs]
    show thesis using that obs old key by (metis ObserveResult.select_convs(1) fst_conv fun_upd_same)
  qed
qed

lemma Observe_seed: "Registry_inv r \<Longrightarrow> rg_seed (snd (Registry_Observe r event)) = rg_seed r"
proof (cases "Event_Validate event = None \<and> ev_CapturedAt event \<noteq> 0")
  case True
  assume "Registry_inv r"
  then show ?thesis using Observe_get [of r event] True by (metis snd_conv)
next
  case False
  then show ?thesis using Observe_invalid [of event] by (cases "Event_Validate event") auto
qed

lemma validMusicalMode_ParseMode: "validMusicalMode mode \<Longrightarrow> ParseMode mode \<noteq> None"
  by (auto simp: validMusicalMode_def ParseMode_def modeNames_def)

interpretation program: packet_stages pipelineStages stages_ok
proof
  fix rsm :: "Registry \<times> Selector \<times> Mapper" and now
  assume "stages_ok rsm"
  then show "stages_ok (snd (st_Expire pipelineStages rsm now))"
    using Expire_seed by (auto simp: pipelineStages_def stages_ok_def split: prod.splits)
next
  fix rsm :: "Registry \<times> Selector \<times> Mapper" and event
  assume ok: "stages_ok rsm"
  obtain r s m where rsm: "rsm = (r, s, m)" by (metis prod_cases3)
  obtain res r' where obs: "Registry_Observe r event = (res, r')" by force
  have "Registry_inv r" using ok by (simp add: stages_ok_def rsm)
  then have "Registry_inv r'" "rg_seed r' = rg_seed r" using Observe_inv [OF _ obs] Observe_seed [of r event] obs by auto
  then show "stages_ok (snd (st_Observe pipelineStages rsm event))"
    using ok by (simp add: pipelineStages_def stages_ok_def rsm obs)
next
  fix rsm :: "Registry \<times> Selector \<times> Mapper" and event res rsm'
  assume "st_Observe pipelineStages rsm event = (Inr res, rsm')"
  then show "Event_Validate event = None"
    by (auto simp: pipelineStages_def Registry_Observe_def split: prod.splits option.splits)
next
  fix rsm :: "Registry \<times> Selector \<times> Mapper" and event overlay
  assume ok: "stages_ok rsm" and valid: "Event_Validate event = None"
  obtain r s m where rsm: "rsm = (r, s, m)" by (metis prod_cases3)
  have "Selector_inv s" using ok by (simp add: stages_ok_def rsm)
  from Evaluate_ok [OF this valid refl, of overlay]
  show "\<exists>sel. st_Evaluate pipelineStages rsm event overlay = Inr sel \<and> selection_ok sel"
    by (auto simp: pipelineStages_def rsm)
next
  fix rsm :: "Registry \<times> Selector \<times> Mapper" and i :: MapInput
  assume "stages_ok rsm" "Event_Validate (mi_Packet i) = None" "packet_fits (mi_Packet i)" "1 \<le> mi_Channel i"
    "mi_Channel i \<le> 16" "mi_Mode i = [] \<or> validMusicalMode (mi_Mode i) \<and> mi_Root i \<le> 11"
  then show "is_ok (st_Map pipelineStages rsm i)"
    using Mapper_Map_ok [of "mp_config (snd (snd rsm))" "snd (snd rsm)" i] validMusicalMode_ParseMode [of "mi_Mode i"]
    by (auto simp: pipelineStages_def stages_ok_def packet_fits_def split: prod.splits)
next
  fix rsm :: "Registry \<times> Selector \<times> Mapper" and i n
  assume "st_Map pipelineStages rsm i = Inr n"
  then show "NoteEvent_Validate n = None"
    by (auto simp: pipelineStages_def Mapper_Map_def Let_def split: prod.splits option.splits sum.splits if_splits)
qed

lemma stages_okI:
  assumes "NewRegistry rc = Inr r" "NewSelector sc = Inr s" "NewMapper mc = Inr m" "mc_MinimumNote mc < mc_MaximumNote mc"
    and "sc_Seed sc = rc_Seed rc" "mc_Seed mc = rc_Seed rc"
  shows "stages_ok (r, s, m)"
  using assms NewRegistry_inv [OF assms(1)] NewSelector_inv [OF assms(2)] NewMapper_config(1) [OF assms(3)]
  by (auto simp: stages_ok_def NewRegistry_def NewSelector_iff configured_def split: if_splits)

section \<open>Samples\<close>

definition playSelectorConfig :: SelectorConfig where
  "playSelectorConfig = \<lparr>sc_Seed = ''seed'', sc_Default = \<lparr>ac_State = StatePlay, ac_Channel = 2, ac_Mode = [], ac_Root = 0\<rparr>,
     sc_SafetyRules = [], sc_PinnedRules = [], sc_UserRules = []\<rparr>"

definition noOverlay :: Overlay where
  "noOverlay = \<lparr>ov_Muted = fempty, ov_Soloed = fempty\<rparr>"

lemma playSelector: "NewSelector playSelectorConfig = Inr (configured playSelectorConfig)"
  by (simp add: NewSelector_iff Selector_inv_def configured_def playSelectorConfig_def selector_rules_def
      validateAction_def state_defs)

definition sampleStages :: "Registry \<times> Selector \<times> Mapper" where
  "sampleStages = (sampleRegistry, configured playSelectorConfig, \<lparr>mp_config = sampleMapperConfig\<rparr>)"

lemma sampleStages_ok: "stages_ok sampleStages"
  unfolding sampleStages_def
  by (rule stages_okI [OF sampleRegistry_new playSelector sampleMapper])
    (simp_all add: playSelectorConfig_def sampleMapperConfig_def)

definition sampleProcessor :: "(Registry \<times> Selector \<times> Mapper) Processor" where
  "sampleProcessor = sum.projr (NewProcessor sampleStages 2 2)"

lemma sampleProcessor_new: "NewProcessor sampleStages 2 2 = Inr sampleProcessor"
  by (simp add: sampleProcessor_def NewProcessor_def)

text \<open>One packet is captured and waits in the queue, then the capture ends.\<close>

lemma sampleCapture:
  "pl_run pipelineStages sampleProcessor [sampleEvent] [] (capture True (Inl EOF) (capture False (Inr sampleEvent) sampleProcessor))"
  "pr_packetQueue (capture True (Inl EOF) (capture False (Inr sampleEvent) sampleProcessor)) = [sampleEvent]"
  "pr_captureErr (capture True (Inl EOF) (capture False (Inr sampleEvent) sampleProcessor)) = Some EOF"
proof -
  have run: "pl_run pipelineStages sampleProcessor ([] @ [sampleEvent]) [] (capture False (Inr sampleEvent) sampleProcessor)"
    using pl_capture [OF pl_start, of sampleProcessor pipelineStages "Inr sampleEvent" False]
    by (simp add: sampleProcessor_def NewProcessor_def)
  show "pl_run pipelineStages sampleProcessor [sampleEvent] [] (capture True (Inl EOF) (capture False (Inr sampleEvent) sampleProcessor))"
    using pl_capture [OF run, of "Inl EOF" True]
    by (simp add: sampleProcessor_def NewProcessor_def capture_def Let_def select_send_def)
qed (simp_all add: sampleProcessor_def NewProcessor_def capture_def captureEnd_def Let_def select_send_def)

section \<open>Properties\<close>

text \<open>
  C1. Nothing is lost silently and nothing is reordered. For any stages and every interleaving of the
  three goroutines and a cancellation: both queues stay within their capacities; each captured packet is
  waiting, in work, processed, or counted as dropped at the packet queue; each mapped note is waiting,
  in work, written to the sink, or counted as dropped at the note queue; rejected writes are counted at
  the sink; and packets are processed, and notes written, in the order in which they were captured and
  mapped.
\<close>

theorem Pipeline_accounting:
  assumes new: "NewProcessor r pc nc = Inr p0" and run: "pl_run st p0 es ds p"
  shows "length (pr_packetQueue p) \<le> pr_packetCapacity p \<and> length (pr_noteQueue p) \<le> pr_noteCapacity p \<and>
    length es = length ds + length (busy (pr_packetStage p)) + length (pr_packetQueue p) + drops ''packet_queue'' p \<and>
    length (notesOf ds) = length (pr_written p) + length (busy (pr_noteStage p)) + length (pr_noteQueue p) +
      drops ''note_queue'' p \<and>
    drops ''note_sink'' p = length (filter (\<lambda>(n, accepted). \<not> accepted) (pr_written p)) \<and>
    subseq (map fst ds @ busy (pr_packetStage p) @ pr_packetQueue p) es \<and>
    subseq (map fst (pr_written p) @ busy (pr_noteStage p) @ pr_noteQueue p) (notesOf ds)"
proof -
  have "pl_shape p" "pl_ledger es ds p" using pl_run_shape [OF run] pl_run_ledger [OF run] NewProcessor_ok [OF new] by auto
  then show ?thesis by (simp add: pl_shape_def pl_ledger_def pl_account_def pl_order_def)
qed

theorem Pipeline_accounting_witness:
  "\<exists>p. pl_run pipelineStages sampleProcessor [sampleEvent] [] p \<and> drops ''packet_queue'' p = 0 \<and> length (pr_packetQueue p) = 1"
proof -
  let ?p = "capture True (Inl EOF) (capture False (Inr sampleEvent) sampleProcessor)"
  from Pipeline_accounting [OF sampleProcessor_new sampleCapture(1)] show ?thesis
    using sampleCapture by (intro exI [of _ ?p]) auto
qed

text \<open>
  C24. The pipeline drains. Once the capture has ended, for whatever reason and whether or not the context
  was cancelled, the packet and note goroutines cannot run forever, and when neither can take another
  step both have returned and both queues are empty, so \<open>Run\<close> returns; every captured packet has then
  been processed or counted as dropped and every note written or counted as dropped. (A sink call is
  assumed to return, as the interface demands.)
\<close>

theorem Pipeline_drains:
  assumes new: "NewProcessor r pc nc = Inr p0" and run: "pl_run st p0 es ds p" and ended: "pr_captureErr p \<noteq> None"
  shows "wfP (\<lambda>p' p. pl_work st p p') \<and>
    (\<forall>q. (pl_work st)\<^sup>*\<^sup>* p q \<and> (\<nexists>q'. pl_work st q q') \<longrightarrow>
       pr_packetStage q = Finished \<and> pr_noteStage q = Finished \<and> pr_packetQueue q = [] \<and> pr_noteQueue q = [] \<and>
       (\<exists>more. length es = length (ds @ more) + drops ''packet_queue'' q \<and>
          length (notesOf (ds @ more)) = length (pr_written q) + drops ''note_queue'' q))"
proof (intro conjI allI impI)
  show "wfP (\<lambda>p' p. pl_work st p p')" by (rule pl_work_wf)
next
  fix q assume q: "(pl_work st)\<^sup>*\<^sup>* p q \<and> (\<nexists>q'. pl_work st q q')"
  then obtain more where run': "pl_run st p0 es (ds @ more) q" and err: "pr_captureErr q = pr_captureErr p"
    using pl_works_run run by blast
  have shape: "pl_shape q" and ledger: "pl_ledger es (ds @ more) q"
    using pl_run_shape [OF run'] pl_run_ledger [OF run'] NewProcessor_ok [OF new] by auto
  have fin: "pr_packetStage q = Finished" "pr_noteStage q = Finished"
    using pl_work_progress [OF shape _, of st] q ended err by auto
  show "pr_packetStage q = Finished" "pr_noteStage q = Finished" by (rule fin)+
  show empty: "pr_packetQueue q = []" "pr_noteQueue q = []" using shape fin by (simp_all add: pl_shape_def)
  show "\<exists>more. length es = length (ds @ more) + drops ''packet_queue'' q \<and>
      length (notesOf (ds @ more)) = length (pr_written q) + drops ''note_queue'' q"
    using ledger fin empty by (intro exI [of _ more]) (simp add: pl_ledger_def pl_account_def)
qed

theorem Pipeline_drains_witness:
  "\<exists>q. (pl_work pipelineStages)\<^sup>*\<^sup>* (capture True (Inl EOF) (capture False (Inr sampleEvent) sampleProcessor)) q \<and>
     pr_packetStage q = Finished \<and> pr_noteStage q = Finished"
proof -
  let ?p = "capture True (Inl EOF) (capture False (Inr sampleEvent) sampleProcessor)"
  have "pr_captureErr ?p \<noteq> None" using sampleCapture(3) by simp
  note d = Pipeline_drains [OF sampleProcessor_new sampleCapture(1) this]
  have "\<exists>q. (pl_work pipelineStages)\<^sup>*\<^sup>* p q \<and> (\<nexists>q'. pl_work pipelineStages q q')" for p
  proof (induction p rule: wfp_induct_rule [OF conjunct1 [OF d]])
    case (1 p)
    then show ?case by (metis converse_rtranclp_into_rtranclp rtranclp.rtrancl_refl)
  qed
  then show ?thesis using d by blast
qed

text \<open>
  With the program's registry, selector and mapper behind the interfaces, every note that is queued,
  in work or written passes the note validator, no packet is dropped because the selector or the mapper
  failed on it, and the registry, selector and mapper stay well-formed, for every interleaving over
  packets of realistic length.
\<close>

theorem Pipeline_sound:
  assumes ok: "stages_ok rsm" and new: "NewProcessor rsm pc nc = Inr p0" and run: "pl_run pipelineStages p0 es ds p"
    and fits: "\<forall>event \<in> set es. packet_fits event"
  shows "(\<forall>n \<in> set (map fst (pr_written p) @ busy (pr_noteStage p) @ pr_noteQueue p). NoteEvent_Validate n = None) \<and>
    drops ''flow_selector'' p = 0 \<and> drops ''mapper'' p = 0 \<and> stages_ok (pr_stages p)"
proof -
  have "program.pl_sound p0" using new ok
    by (auto simp: program.pl_sound_def NewProcessor_def pr_observe_def drops_def split: if_splits)
  then show ?thesis using program.run_sound [OF run _ fits] by (simp add: program.pl_sound_def)
qed

theorem Pipeline_sound_witness:
  "\<exists>p. pl_run pipelineStages sampleProcessor [sampleEvent] [] p \<and> stages_ok (pr_stages p) \<and> drops ''mapper'' p = 0"
proof -
  have "\<forall>event \<in> set [sampleEvent]. packet_fits event" by (simp add: packet_fits_def sampleEvent_def maxInt64_def)
  from Pipeline_sound [OF sampleStages_ok sampleProcessor_new sampleCapture(1) this] sampleCapture(1) show ?thesis by blast
qed

text \<open>
  What happens to one valid packet: its flow is known to the registry afterwards, and it produces a
  note exactly when the selector's decision is to play. The note belongs to that flow, is on the
  selected channel, carries the flow's packet count as its sequence number and the capture time, and is
  valid.
\<close>

theorem processPacket_plays:
  assumes ok: "stages_ok (r, s, m)" and p: "pr_stages p = (r, s, m)" and valid: "Event_Validate event = None"
    and time: "ev_CapturedAt event \<noteq> 0" and fits: "packet_fits event"
    and step: "processPacket pipelineStages overlay pick event p = (result, p')"
  shows "\<exists>sel r' flow. Evaluate s event overlay = Inr sel \<and> pr_stages p' = (r', s, m) \<and>
    Registry_Get r' (sel_FlowID sel) = Some flow \<and> (result \<noteq> None \<longleftrightarrow> sel_State sel = StatePlay) \<and>
    (\<forall>n. result = Some n \<longrightarrow> NoteEvent_Validate n = None \<and> ne_FlowID n = sel_FlowID sel \<and>
       ne_Channel n = sel_Channel sel \<and> ne_Sequence n = sn_Packets flow \<and> ne_CreatedAt n = ev_CapturedAt event)"
proof -
  obtain expired r1 where ex: "Registry_Expire r (ev_CapturedAt event) = (expired, r1)" by force
  have inv: "Registry_inv r1" "rg_seed r1 = rg_seed r" using Expire_seed [OF _ ex] ok by (simp_all add: stages_ok_def)
  obtain observed r2 where obs: "Registry_Observe r1 event = (Inr observed, r2)" "rg_seed r2 = rg_seed r1"
    "Registry_Get r2 (Key_ID (fst (Canonicalize event)) (rg_seed r1)) = Some (or_Flow observed)" "Registry_inv r2"
    using Observe_get [OF inv(1) valid time] by metis
  have ok2: "stages_ok (r2, s, m)" using ok obs(2,4) inv(2) by (simp add: stages_ok_def)
  obtain a i t where sel: "Evaluate s event overlay = Inr (selection s (Key_ID (fst (Canonicalize event)) (sl_seed s)) a i t)"
      "selection_ok (selection s (Key_ID (fst (Canonicalize event)) (sl_seed s)) a i t)"
    using Evaluate_ok [OF _ valid refl] ok by (metis (no_types, lifting) case_prodD stages_ok_def)
  let ?sel = "selection s (Key_ID (fst (Canonicalize event)) (sl_seed s)) a i t"
  obtain n where n: "Mapper_Map m (mapInputOf event observed ?sel) = Inr n"
    using program.map_selected [OF ok2 valid fits sel(2), of observed] by (auto simp: pipelineStages_def)
  have route: "fst (routePacket pipelineStages overlay event p) = (if sel_State ?sel = StatePlay then Some n else None)"
    using n sel(1) by (simp add: routePacket_def Let_def pipelineStages_def p ex obs(1))
  have stages: "pr_stages (snd (routePacket pipelineStages overlay event p)) = (r2, s, m)"
    by (simp add: routePacket_stages pipelineStages_def p ex obs(1))
  have result: "result = fst (routePacket pipelineStages overlay event p)" and p': "pr_stages p' = (r2, s, m)"
    using step stages by (auto simp: processPacket_def Let_def split: prod.splits option.splits)
  have "Mapper_Map m (mapInputOf event observed ?sel) = Inr n \<Longrightarrow> NoteEvent_Validate n = None \<and>
      ne_FlowID n = Key_ID (fst (Canonicalize event)) (mc_Seed (mp_config m)) \<and> ne_Channel n = sel_Channel ?sel \<and>
      ne_Sequence n = sn_Packets (or_Flow observed) \<and> ne_CreatedAt n = ev_CapturedAt event"
    by (auto simp: Mapper_Map_def Let_def mapInputOf_def split: prod.splits option.splits sum.splits if_splits)
  then show ?thesis
    using sel(1) p' obs(3) ok inv(2) result route n
    by (intro exI [of _ ?sel] exI [of _ r2] exI [of _ "or_Flow observed"]) (simp add: stages_ok_def)
qed

theorem processPacket_plays_witness:
  "\<exists>n p'. processPacket pipelineStages noOverlay True sampleEvent sampleProcessor = (Some n, p') \<and> ne_Channel n = 2"
proof -
  obtain result p' where step: "processPacket pipelineStages noOverlay True sampleEvent sampleProcessor = (result, p')" by force
  have p: "pr_stages sampleProcessor = (sampleRegistry, configured playSelectorConfig, \<lparr>mp_config = sampleMapperConfig\<rparr>)"
    by (simp add: sampleProcessor_def NewProcessor_def pr_observe_def sampleStages_def)
  have "Evaluate (configured playSelectorConfig) sampleEvent noOverlay =
      Inr (selection (configured playSelectorConfig) (Key_ID (fst (Canonicalize sampleEvent)) ''seed'')
        (sc_Default playSelectorConfig) [] ''default'')"
    by (simp add: Evaluate_def sampleEvent_valid configured_def playSelectorConfig_def noOverlay_def Let_def)
  moreover have "packet_fits sampleEvent" by (simp add: packet_fits_def sampleEvent_def maxInt64_def)
  ultimately show ?thesis
    using processPacket_plays [OF sampleStages_ok [unfolded sampleStages_def] p sampleEvent_valid(1) _ _ step] step sampleEvent_valid
    by (auto simp: selection_def playSelectorConfig_def Let_def)
qed

end
