(* ===== verification/Peer_Host.thy ===== *)
theory Peer_Host
  imports Peer_Protocol
begin

text \<open>
  internal/peer/host.go with the state it shares from state.go: the host that authenticates edges, keeps
  a bounded record of connected and recently disconnected nodes, and admits their notes. A WebSocket is a
  number; what it reads is an argument and what is written to it is returned. Each function that takes
  the lock is one step; the clock is read where the source calls \<open>Now\<close>. Code that ranges over a map
  takes the order of the iteration as an argument. The rate of a node is given as an exact fraction.
\<close>

section \<open>State (state.go, host.go)\<close>

definition rateWindow :: duration where "rateWindow = 10 * second"
definition maximumRateSamples :: nat where "maximumRateSamples = 4096"

record NodeSnapshot =
  ns_InstanceID :: string
  ns_RemoteAddress :: string
  ns_State :: string
  ns_Authenticated :: bool
  ns_ProtocolVersion :: string
  ns_MappingVersion :: string
  ns_ConnectedAt :: time
  ns_DisconnectedAt :: time
  ns_LastSeenAt :: time
  ns_NoteRate :: real
  ns_ReceivedTotal :: u64
  ns_AcceptedTotal :: u64
  ns_RejectedTotal :: u64
  ns_DuplicateTotal :: u64
  ns_StaleTotal :: u64
  ns_ActiveChannels :: "u8 list"

record hostNode =
  hn_snapshot :: NodeSnapshot
  hn_recent :: "time list"
  hn_channels :: "bool list"
  hn_generation :: u64
  hn_connection :: "nat option"

record HostConfig =
  hc_Token :: string
  hc_InstanceID :: string
  hc_MappingVersion :: string
  hc_MaximumConnections :: int
  hc_RecentCapacity :: int
  hc_RecentTTL :: duration
  hc_StaleAfter :: duration
  hc_DuplicateCapacity :: int

datatype peer_observation =
    Connection string string
  | PeerEvent string string
  | Queue nat nat
  | RoundTrip duration

record Host =
  ho_config :: HostConfig
  ho_nodes :: "(string, hostNode) fmap"
  ho_sessions :: "nat fset"
  ho_generation :: u64
  ho_duplicates :: "(string, time) fmap"
  ho_dupOrder :: "(string \<times> time) list"
  ho_closing :: bool
  ho_sessionCount :: int
  ho_observed :: "peer_observation list"

datatype host_error = HostIdentityRequired | HostMappingUnsupported | HostBoundsInvalid

definition NewHost :: "HostConfig \<Rightarrow> host_error + Host" where
  "NewHost c =
     (if length (hc_Token c) < 16 \<or> \<not> safeIdentifier (hc_InstanceID c) 128 then Inl HostIdentityRequired
      else if hc_MappingVersion c \<noteq> FlowModeV1 then Inl HostMappingUnsupported
      else if hc_MaximumConnections c \<le> 0 \<or> hc_MaximumConnections c > 1024 \<or>
              hc_RecentCapacity c < hc_MaximumConnections c \<or> hc_RecentTTL c \<le> 0 \<or> hc_StaleAfter c \<le> 0 \<or>
              hc_DuplicateCapacity c \<le> 0 then Inl HostBoundsInvalid
      else Inr \<lparr>ho_config = c, ho_nodes = fmempty, ho_sessions = {||}, ho_generation = 0, ho_duplicates = fmempty,
                ho_dupOrder = [], ho_closing = False, ho_sessionCount = 0, ho_observed = []\<rparr>)"

definition ho_observe :: "peer_observation \<Rightarrow> Host \<Rightarrow> Host" where
  "ho_observe e host = host\<lparr>ho_observed := ho_observed host @ [e]\<rparr>"

definition appendRateSample :: "time list \<Rightarrow> time \<Rightarrow> time list" where
  "appendRateSample samples v =
     (if length samples = maximumRateSamples then drop 1 samples else samples) @ [v]"

text \<open>The indices of the active channels, from one.\<close>

definition activeChannels :: "bool list \<Rightarrow> u8 list" where
  "activeChannels values = map (\<lambda>i. of_nat (i + 1)) (filter (\<lambda>i. values ! i) [0..<length values])"

section \<open>Sessions\<close>

definition validBearer :: "string \<Rightarrow> string \<Rightarrow> bool" where
  "validBearer header token \<longleftrightarrow>
     (let prefix = ''Bearer '' in
      if \<not> hasPrefix header prefix \<or> length header \<noteq> length prefix + length token then False
      else drop (length prefix) header = token)"

definition beginSession :: "Host \<Rightarrow> bool \<times> Host" where
  "beginSession host =
     (if ho_closing host then (False, host)
      else if ho_sessionCount host \<ge> hc_MaximumConnections (ho_config host) * 2 then (False, host)
      else (True, host\<lparr>ho_sessionCount := ho_sessionCount host + 1\<rparr>))"

definition endSession :: "Host \<Rightarrow> Host" where
  "endSession host = host\<lparr>ho_sessionCount := ho_sessionCount host - 1\<rparr>"

definition trackSession :: "nat \<Rightarrow> Host \<Rightarrow> bool \<times> Host" where
  "trackSession conn host =
     (if ho_closing host then (False, host)
      else (True, host\<lparr>ho_sessions := finsert conn (ho_sessions host)\<rparr>))"

definition untrackSession :: "nat \<Rightarrow> Host \<Rightarrow> Host" where
  "untrackSession conn host = host\<lparr>ho_sessions := ho_sessions host |-| {|conn|}\<rparr>"

text \<open>\<open>Close\<close> before it waits for the handlers: the connections it closes.\<close>

definition Host_Close :: "Host \<Rightarrow> nat fset \<times> Host" where
  "Host_Close host = (ho_sessions host, host\<lparr>ho_closing := True\<rparr>)"

section \<open>Nodes\<close>

definition boundedRemote :: "string \<Rightarrow> string" where
  "boundedRemote remote = (let remote = strings_TrimSpace remote in if length remote > 128 then take 128 remote else remote)"

definition is_connected :: "hostNode \<Rightarrow> bool" where
  "is_connected node \<longleftrightarrow> ns_State (hn_snapshot node) = ''connected''"

definition is_disconnected :: "hostNode \<Rightarrow> bool" where
  "is_disconnected node \<longleftrightarrow> ns_State (hn_snapshot node) = ''disconnected''"

text \<open>The two loops of \<open>pruneNodesLocked\<close>: forget expired nodes, then the oldest disconnected ones above the capacity.\<close>

fun forgetExpired :: "time \<Rightarrow> string list \<Rightarrow> (string, hostNode) fmap \<Rightarrow> (string, hostNode) fmap" where
  "forgetExpired cutoff [] nodes = nodes"
| "forgetExpired cutoff (ident # rest) nodes =
     (case fmlookup nodes ident of
        Some node \<Rightarrow>
          if is_disconnected node \<and> ns_DisconnectedAt (hn_snapshot node) < cutoff
          then forgetExpired cutoff rest (fmdrop ident nodes) else forgetExpired cutoff rest nodes
      | None \<Rightarrow> forgetExpired cutoff rest nodes)"

fun forgetOldest :: "int \<Rightarrow> string list \<Rightarrow> (string, hostNode) fmap \<Rightarrow> (string, hostNode) fmap" where
  "forgetOldest capacity [] nodes = nodes"
| "forgetOldest capacity (ident # rest) nodes =
     (if int (map_len nodes) \<le> capacity then nodes else forgetOldest capacity rest (fmdrop ident nodes))"

definition disconnectTime :: "(string, hostNode) fmap \<Rightarrow> string \<Rightarrow> time" where
  "disconnectTime nodes ident = (case fmlookup nodes ident of Some node \<Rightarrow> ns_DisconnectedAt (hn_snapshot node) | None \<Rightarrow> 0)"

definition candidates :: "string list \<Rightarrow> (string, hostNode) fmap \<Rightarrow> string list" where
  "candidates order nodes =
     sort_key (disconnectTime nodes)
       (filter (\<lambda>ident. case fmlookup nodes ident of Some node \<Rightarrow> is_disconnected node | None \<Rightarrow> False) order)"

definition pruneNodesLocked :: "string list \<Rightarrow> time \<Rightarrow> Host \<Rightarrow> Host" where
  "pruneNodesLocked order now host =
     (let nodes = forgetExpired (now - hc_RecentTTL (ho_config host)) order (ho_nodes host)
      in if int (map_len nodes) \<le> hc_RecentCapacity (ho_config host) then host\<lparr>ho_nodes := nodes\<rparr>
         else host\<lparr>ho_nodes := forgetOldest (hc_RecentCapacity (ho_config host)) (candidates order nodes) nodes\<rparr>)"

definition newNode :: "Hello \<Rightarrow> string \<Rightarrow> nat \<Rightarrow> time \<Rightarrow> u64 \<Rightarrow> hostNode" where
  "newNode hello remote conn now generation =
     \<lparr>hn_snapshot = \<lparr>ns_InstanceID = he_InstanceID hello, ns_RemoteAddress = boundedRemote remote, ns_State = ''connected'',
        ns_Authenticated = True, ns_ProtocolVersion = ProtocolVersion, ns_MappingVersion = he_MappingVersion hello,
        ns_ConnectedAt = now, ns_DisconnectedAt = 0, ns_LastSeenAt = now, ns_NoteRate = 0, ns_ReceivedTotal = 0,
        ns_AcceptedTotal = 0, ns_RejectedTotal = 0, ns_DuplicateTotal = 0, ns_StaleTotal = 0, ns_ActiveChannels = []\<rparr>,
      hn_recent = [], hn_channels = replicate 16 False, hn_generation = generation, hn_connection = Some conn\<rparr>"

definition connectedOthers :: "string \<Rightarrow> (string, hostNode) fmap \<Rightarrow> nat" where
  "connectedOthers ident nodes =
     fcard (ffilter (\<lambda>k. k \<noteq> ident \<and> is_connected (the (fmlookup nodes k))) (fmdom nodes))"

text \<open>The listings \<open>order1\<close> and \<open>order2\<close> are the orders in which the two calls of the pruning range over the nodes.\<close>

definition register ::
  "string list \<Rightarrow> string list \<Rightarrow> time \<Rightarrow> Hello \<Rightarrow> string \<Rightarrow> nat \<Rightarrow> Host \<Rightarrow> (u64 \<times> nat option) option \<times> Host" where
  "register order1 order2 now hello remote conn host =
     (let host = pruneNodesLocked order1 now host;
          existing = fmlookup (ho_nodes host) (he_InstanceID hello)
      in if int (connectedOthers (he_InstanceID hello) (ho_nodes host)) \<ge> hc_MaximumConnections (ho_config host)
         then (None, host)
         else
           let generation = ho_generation host + 1;
               host = host\<lparr>ho_generation := generation,
                 ho_nodes := fmupd (he_InstanceID hello) (newNode hello remote conn now generation) (ho_nodes host)\<rparr>;
               host = pruneNodesLocked order2 now host;
               replaced = (case existing of
                   Some node \<Rightarrow> if is_connected node then hn_connection node else None
                 | None \<Rightarrow> None)
           in (Some (generation, replaced), host))"

definition updateNode :: "string \<Rightarrow> u64 \<Rightarrow> (hostNode \<Rightarrow> hostNode) \<Rightarrow> Host \<Rightarrow> Host" where
  "updateNode ident generation f host =
     (case fmlookup (ho_nodes host) ident of
        Some node \<Rightarrow> if hn_generation node = generation
                     then host\<lparr>ho_nodes := fmupd ident (f node) (ho_nodes host)\<rparr> else host
      | None \<Rightarrow> host)"

definition disconnect :: "time \<Rightarrow> string \<Rightarrow> u64 \<Rightarrow> Host \<Rightarrow> Host" where
  "disconnect now ident generation host =
     (let host' = updateNode ident generation
            (\<lambda>node. node\<lparr>hn_snapshot := (hn_snapshot node)\<lparr>ns_State := ''disconnected'', ns_DisconnectedAt := now\<rparr>,
                        hn_connection := None\<rparr>) host
      in if (case fmlookup (ho_nodes host) ident of Some node \<Rightarrow> hn_generation node = generation | None \<Rightarrow> False)
         then ho_observe (Connection ''inbound'' ''disconnected'') host' else host')"

definition touch :: "time \<Rightarrow> string \<Rightarrow> u64 \<Rightarrow> Host \<Rightarrow> Host" where
  "touch now ident generation host =
     updateNode ident generation (\<lambda>node. node\<lparr>hn_snapshot := (hn_snapshot node)\<lparr>ns_LastSeenAt := now\<rparr>\<rparr>) host"

section \<open>Notes\<close>

fun dropDuplicate :: "string \<times> time \<Rightarrow> (string, time) fmap \<Rightarrow> (string, time) fmap" where
  "dropDuplicate (ident, t) duplicates = (if fmlookup duplicates ident = Some t then fmdrop ident duplicates else duplicates)"

fun pruneDuplicates :: "time \<Rightarrow> (string \<times> time) list \<Rightarrow> (string, time) fmap \<Rightarrow> (string \<times> time) list \<times> (string, time) fmap" where
  "pruneDuplicates cutoff [] duplicates = ([], duplicates)"
| "pruneDuplicates cutoff (entry # rest) duplicates =
     (if snd entry < cutoff then pruneDuplicates cutoff rest (dropDuplicate entry duplicates) else (entry # rest, duplicates))"

fun trimDuplicates :: "int \<Rightarrow> (string \<times> time) list \<Rightarrow> (string, time) fmap \<Rightarrow> (string \<times> time) list \<times> (string, time) fmap" where
  "trimDuplicates capacity [] duplicates = ([], duplicates)"
| "trimDuplicates capacity (entry # rest) duplicates =
     (if int (length (entry # rest)) > capacity then trimDuplicates capacity rest (dropDuplicate entry duplicates)
      else (entry # rest, duplicates))"

definition pruneDuplicatesLocked :: "time \<Rightarrow> Host \<Rightarrow> Host" where
  "pruneDuplicatesLocked now host =
     (let (order, duplicates) = pruneDuplicates (now - hc_RecentTTL (ho_config host)) (ho_dupOrder host) (ho_duplicates host)
      in host\<lparr>ho_dupOrder := order, ho_duplicates := duplicates\<rparr>)"

definition duplicate :: "string \<Rightarrow> time \<Rightarrow> Host \<Rightarrow> bool \<times> Host" where
  "duplicate ident now host =
     (let host = pruneDuplicatesLocked now host in
      if fmlookup (ho_duplicates host) ident \<noteq> None then (True, host)
      else
        let (order, duplicates) = trimDuplicates (hc_DuplicateCapacity (ho_config host)) (ho_dupOrder host @ [(ident, now)])
              (fmupd ident now (ho_duplicates host))
        in (False, host\<lparr>ho_dupOrder := order, ho_duplicates := duplicates\<rparr>))"

definition countNote :: "time \<Rightarrow> string \<Rightarrow> u8 \<Rightarrow> hostNode \<Rightarrow> hostNode" where
  "countNote now result channel node =
     (let node = node\<lparr>hn_snapshot := (hn_snapshot node)\<lparr>ns_LastSeenAt := now,
            ns_ReceivedTotal := ns_ReceivedTotal (hn_snapshot node) + 1\<rparr>\<rparr>;
          node = (if channel \<ge> 1 \<and> channel \<le> 16
                  then node\<lparr>hn_channels := (hn_channels node)[unat channel - 1 := True]\<rparr> else node);
          s = hn_snapshot node
      in if result = ''accepted''
         then node\<lparr>hn_snapshot := s\<lparr>ns_AcceptedTotal := ns_AcceptedTotal s + 1\<rparr>,
                   hn_recent := appendRateSample (hn_recent node) now\<rparr>
         else if result = ''duplicate'' then node\<lparr>hn_snapshot := s\<lparr>ns_DuplicateTotal := ns_DuplicateTotal s + 1\<rparr>\<rparr>
         else if result = ''stale'' then node\<lparr>hn_snapshot := s\<lparr>ns_StaleTotal := ns_StaleTotal s + 1\<rparr>\<rparr>
         else node\<lparr>hn_snapshot := s\<lparr>ns_RejectedTotal := ns_RejectedTotal s + 1\<rparr>\<rparr>)"

definition record_note :: "time \<Rightarrow> string \<Rightarrow> u64 \<Rightarrow> string \<Rightarrow> u8 \<Rightarrow> Host \<Rightarrow> Host" where
  "record_note now ident generation result channel host = updateNode ident generation (countNote now result channel) host"

datatype accept_error =
    AcceptInvalid peer_error
  | OriginMismatch
  | NoteStale
  | NoteFuture
  | NoteDuplicate
  | SinkRejected string

definition noteKeyOf :: "NoteEvent \<Rightarrow> string" where
  "noteKeyOf event = ne_Origin event @ [CHR 0x00] @ ne_ID event"

text \<open>\<open>acceptNote\<close> up to the sink: the event to write, or the error with the result and channel to record.\<close>

definition admitNote :: "time \<Rightarrow> string \<Rightarrow> PeerNote \<Rightarrow> Host \<Rightarrow> (accept_error \<times> string \<times> u8 + NoteEvent) \<times> Host" where
  "admitNote now instanceID note host =
     (case PeerNote_Event note of
        Inl e \<Rightarrow> (Inl (AcceptInvalid e, ''rejected'', 0), host)
      | Inr event \<Rightarrow>
        if ne_Origin event \<noteq> instanceID then (Inl (OriginMismatch, ''rejected'', 0), host)
        else
          let age = time_Sub now (ne_CreatedAt event) in
          if age > hc_StaleAfter (ho_config host) then (Inl (NoteStale, ''stale'', ne_Channel event), host)
          else if age < - hc_StaleAfter (ho_config host) then (Inl (NoteFuture, ''rejected'', ne_Channel event), host)
          else
            let (seen, host) = duplicate (noteKeyOf event) now host in
            if seen then (Inl (NoteDuplicate, ''duplicate'', ne_Channel event), host) else (Inr event, host))"

definition recordResult :: "string \<Rightarrow> string" where
  "recordResult result = (if result = ''stale'' then ''dropped_stale'' else result)"

text \<open>The whole \<open>acceptNote\<close>, with the sink's answer and the times of its two clock readings.\<close>

definition acceptNote ::
  "time \<Rightarrow> time \<Rightarrow> string option \<Rightarrow> string \<Rightarrow> u64 \<Rightarrow> PeerNote \<Rightarrow> Host \<Rightarrow> accept_error option \<times> NoteEvent option \<times> Host" where
  "acceptNote now now2 sinkErr instanceID generation note host =
     (case admitNote now instanceID note host of
        (Inl (e, result, channel), host) \<Rightarrow>
          (Some e, None, ho_observe (PeerEvent ''inbound'' (recordResult result))
             (record_note now2 instanceID generation result channel host))
      | (Inr event, host) \<Rightarrow>
          (case sinkErr of
             Some e \<Rightarrow> (Some (SinkRejected e), Some event, ho_observe (PeerEvent ''inbound'' ''rejected'')
                         (record_note now2 instanceID generation ''rejected'' (ne_Channel event) host))
           | None \<Rightarrow> (None, Some event, ho_observe (PeerEvent ''inbound'' ''accepted'')
                         (record_note now2 instanceID generation ''accepted'' (ne_Channel event) host))))"

section \<open>Snapshots\<close>

text \<open>\<open>sortNodes\<close>: connected nodes first, then by instance.\<close>

definition nodeSortKey :: "NodeSnapshot \<Rightarrow> nat \<times> string" where
  "nodeSortKey n = (if ns_State n = ''connected'' then 0 else 1, ns_InstanceID n)"

definition sortNodes :: "NodeSnapshot list \<Rightarrow> NodeSnapshot list" where
  "sortNodes nodes = sort_key nodeSortKey nodes"

text \<open>The binary search of \<open>sort.Search\<close>, its loop over the half-open range from \<open>i\<close> to \<open>j\<close>.\<close>

function searchLoop :: "(nat \<Rightarrow> bool) \<Rightarrow> nat \<Rightarrow> nat \<Rightarrow> nat" where
  "searchLoop f i j =
     (if i < j then let h = (i + j) div 2 in if \<not> f h then searchLoop f (h + 1) j else searchLoop f i h else i)"
  by auto
termination by (relation "measure (\<lambda>(f, i, j). j - i)") auto

declare searchLoop.simps [simp del]

definition sort_Search :: "nat \<Rightarrow> (nat \<Rightarrow> bool) \<Rightarrow> nat" where
  "sort_Search n f = searchLoop f 0 n"

definition pruneRecent :: "time \<Rightarrow> hostNode \<Rightarrow> hostNode" where
  "pruneRecent now node =
     (let cutoff = now - rateWindow;
          index = sort_Search (length (hn_recent node)) (\<lambda>index. \<not> hn_recent node ! index < cutoff)
      in node\<lparr>hn_recent := drop index (hn_recent node)\<rparr>)"

definition nodeView :: "hostNode \<Rightarrow> NodeSnapshot" where
  "nodeView node = (hn_snapshot node)\<lparr>ns_NoteRate := real (length (hn_recent node)) / 10,
     ns_ActiveChannels := activeChannels (hn_channels node)\<rparr>"

definition Host_Snapshot :: "string list \<Rightarrow> string list \<Rightarrow> time \<Rightarrow> Host \<Rightarrow> NodeSnapshot list \<times> Host" where
  "Host_Snapshot order1 order2 now host =
     (let host = pruneNodesLocked order1 now host;
          host = host\<lparr>ho_nodes := fmmap (pruneRecent now) (ho_nodes host)\<rparr>
      in (sortNodes (map (\<lambda>ident. nodeView (the (fmlookup (ho_nodes host) ident))) order2), host))"

section \<open>A session (ServeHTTP)\<close>

record HTTPRequest =
  rq_Method :: string
  rq_Origins :: "string list"
  rq_Authorization :: string
  rq_RemoteAddr :: string

text \<open>What the host sends: an HTTP error before the upgrade, frames and a close after it.\<close>

datatype host_output =
    HTTPError nat
  | FrameError string
  | FrameHello Hello
  | FramePong "Heartbeat option"
  | CloseStatus string
  | CloseReplaced nat

text \<open>
  One turn of the read loop: what the other sessions did to the host meanwhile, what was read (None: the
  read failed or timed out), the times and the answers of the sink and of the connection.
\<close>

record read_turn =
  rd_env :: "Host \<Rightarrow> Host"
  rd_message :: "Message option"
  rd_now :: time
  rd_now2 :: time
  rd_sinkErr :: "string option"
  rd_writeOK :: bool

fun serveLoop :: "string \<Rightarrow> u64 \<Rightarrow> read_turn list \<Rightarrow> Host \<Rightarrow> host_output list \<times> NoteEvent list \<times> Host" where
  "serveLoop ident generation [] host = ([], [], host)"
| "serveLoop ident generation (r # rs) host0 =
     (let host = rd_env r host0 in
      case rd_message r of
        None \<Rightarrow> ([], [], host)
      | Some message \<Rightarrow>
        if msg_Type message = TypeNote then
          (case msg_Note message of
             None \<Rightarrow> ([], [], host)
           | Some note \<Rightarrow>
             let (err, written, host) = acceptNote (rd_now r) (rd_now2 r) (rd_sinkErr r) ident generation note host;
                 (out, events, host) = serveLoop ident generation rs host
             in ((if err \<noteq> None then [FrameError ''invalid_note''] else []) @ out,
                 (case written of None \<Rightarrow> [] | Some e \<Rightarrow> [e]) @ events, host))
        else if msg_Type message = TypePing then
          let host = touch (rd_now r) ident generation host in
          if rd_writeOK r then
            let (out, events, host) = serveLoop ident generation rs host in (FramePong (msg_Ping message) # out, events, host)
          else ([], [], host)
        else if msg_Type message = TypePong then serveLoop ident generation rs (touch (rd_now r) ident generation host)
        else ([FrameError ''unexpected_message'', CloseStatus ''policy''], [], host))"

text \<open>The handshake after the first read: the code of the protocol error, or the hello.\<close>

definition handshake :: "HostConfig \<Rightarrow> Message option \<Rightarrow> string + Hello" where
  "handshake c first =
     (case first of
        None \<Rightarrow> Inl ''invalid_hello''
      | Some message \<Rightarrow>
        (case msg_Hello message of
           None \<Rightarrow> Inl ''invalid_hello''
         | Some hello \<Rightarrow>
           if msg_Type message \<noteq> TypeHello \<or> he_Role hello \<noteq> ''edge'' then Inl ''invalid_hello''
           else if he_InstanceID hello = hc_InstanceID c then Inl ''instance_identity''
           else if he_MappingVersion hello \<noteq> hc_MappingVersion c then Inl ''mapping_version''
           else Inr hello))"

record session_input =
  si_request :: HTTPRequest
  si_upgraded :: bool
  si_conn :: nat
  si_first :: "Message option"
  si_env :: "Host \<Rightarrow> Host"
  si_order1 :: "string list"
  si_order2 :: "string list"
  si_now :: time
  si_helloOK :: bool
  si_turns :: "read_turn list"
  si_end :: time

text \<open>From the registration on: greet, read until the connection ends, then the deferred disconnect.\<close>

definition serveRegistered :: "session_input \<Rightarrow> Hello \<Rightarrow> Host \<Rightarrow> host_output list \<times> NoteEvent list \<times> Host" where
  "serveRegistered i hello host =
     (case register (si_order1 i) (si_order2 i) (si_now i) hello (rq_RemoteAddr (si_request i)) (si_conn i) host of
        (None, host) \<Rightarrow> ([FrameError ''capacity'', CloseStatus ''try_again_later''], [], host)
      | (Some (generation, replaced), host) \<Rightarrow>
        let host = (if replaced = None then ho_observe (Connection ''inbound'' ''connected'') host else host);
            closed = (case replaced of None \<Rightarrow> [] | Some c \<Rightarrow> [CloseReplaced c]);
            greeting = FrameHello \<lparr>he_InstanceID = hc_InstanceID (ho_config host), he_Role = ''host'',
                         he_MappingVersion = hc_MappingVersion (ho_config host)\<rparr>;
            (out, events, host) = (if si_helloOK i then serveLoop (he_InstanceID hello) generation (si_turns i) host
                                   else ([], [], host))
        in (closed @ [greeting] @ out, events, disconnect (si_end i) (he_InstanceID hello) generation host))"

definition ServeHTTP :: "session_input \<Rightarrow> Host \<Rightarrow> host_output list \<times> NoteEvent list \<times> Host" where
  "ServeHTTP i host =
     (let request = si_request i in
      if rq_Method request \<noteq> ''GET'' then ([HTTPError 405], [], host)
      else if length (rq_Origins request) \<noteq> 0 then ([HTTPError 403], [], host)
      else if \<not> validBearer (rq_Authorization request) (hc_Token (ho_config host)) then ([HTTPError 401], [], host)
      else case beginSession host of
        (False, host) \<Rightarrow> ([HTTPError 503], [], host)
      | (True, host) \<Rightarrow>
        if \<not> si_upgraded i then ([], [], endSession host)
        else case trackSession (si_conn i) host of
          (False, host) \<Rightarrow> ([CloseStatus ''going_away''], [], endSession host)
        | (True, host) \<Rightarrow>
          let host = si_env i host;
              (out, events, host) =
                (case handshake (ho_config host) (si_first i) of
                   Inl code \<Rightarrow> ([FrameError code, CloseStatus ''policy''], [], host)
                 | Inr hello \<Rightarrow> serveRegistered i hello host)
          in (out, events, endSession (untrackSession (si_conn i) host)))"

section \<open>Duplicates\<close>

text \<open>The map and the order list of recent notes always name the same entries, each once.\<close>

definition dup_inv :: "(string \<times> time) list \<Rightarrow> (string, time) fmap \<Rightarrow> bool" where
  "dup_inv order duplicates \<longleftrightarrow> distinct (map fst order) \<and> (\<forall>k. fmlookup duplicates k = map_of order k)"

lemma dup_inv_tail:
  assumes "dup_inv (entry # rest) duplicates"
  shows "dup_inv rest (dropDuplicate entry duplicates)"
proof -
  obtain k t where e: "entry = (k, t)" by force
  have d: "distinct (map fst rest)" "k \<notin> fst ` set rest" "\<And>j. fmlookup duplicates j = map_of (entry # rest) j"
    using assms by (auto simp: dup_inv_def e)
  have "map_of rest k = None" using d(2) by (metis map_of_eq_None_iff)
  then show ?thesis using d by (auto simp: dup_inv_def e)
qed

lemma pruneDuplicates_eq:
  "dup_inv order duplicates \<Longrightarrow>
     \<exists>d. pruneDuplicates cutoff order duplicates = (dropWhile (\<lambda>entry. snd entry < cutoff) order, d) \<and>
       dup_inv (dropWhile (\<lambda>entry. snd entry < cutoff) order) d"
proof (induction order arbitrary: duplicates)
  case (Cons entry rest)
  then show ?case using Cons.IH [OF dup_inv_tail [OF Cons.prems]] by (cases "snd entry < cutoff") auto
qed (simp add: dup_inv_def)

lemma trimDuplicates_eq:
  "dup_inv order duplicates \<Longrightarrow> 0 < capacity \<Longrightarrow>
     \<exists>d. trimDuplicates capacity order duplicates = (drop (length order - nat capacity) order, d) \<and>
       dup_inv (drop (length order - nat capacity) order) d"
proof (induction order arbitrary: duplicates)
  case (Cons entry rest)
  show ?case
  proof (cases "int (length (entry # rest)) > capacity")
    case True
    then have "length (entry # rest) - nat capacity = Suc (length rest - nat capacity)" using Cons.prems(2) by auto
    then show ?thesis using Cons.IH [OF dup_inv_tail [OF Cons.prems(1)] Cons.prems(2)] True by auto
  next
    case False
    then have "length (entry # rest) - nat capacity = 0" by simp
    then show ?thesis using Cons.prems False by simp
  qed
qed (simp add: dup_inv_def)

definition host_dups :: "Host \<Rightarrow> bool" where
  "host_dups host \<longleftrightarrow> dup_inv (ho_dupOrder host) (ho_duplicates host) \<and>
     int (length (ho_dupOrder host)) \<le> hc_DuplicateCapacity (ho_config host) \<and> 0 < hc_DuplicateCapacity (ho_config host)"

lemma duplicate_spec:
  assumes "host_dups host" and "duplicate ident now host = (seen, host')"
  defines "kept \<equiv> dropWhile (\<lambda>entry. snd entry < now - hc_RecentTTL (ho_config host)) (ho_dupOrder host)"
  shows "host_dups host' \<and> ho_config host' = ho_config host \<and> ho_nodes host' = ho_nodes host \<and>
    (seen \<longleftrightarrow> ident \<in> fst ` set kept) \<and>
    ho_dupOrder host' = (if seen then kept else
      drop (length kept + 1 - nat (hc_DuplicateCapacity (ho_config host))) (kept @ [(ident, now)]))"
proof -
  let ?cap = "hc_DuplicateCapacity (ho_config host)"
  obtain order dups where p: "pruneDuplicates (now - hc_RecentTTL (ho_config host)) (ho_dupOrder host) (ho_duplicates host) = (order, dups)"
    by force
  have inv: "dup_inv (ho_dupOrder host) (ho_duplicates host)" "0 < ?cap" "int (length (ho_dupOrder host)) \<le> ?cap"
    using assms(1) by (simp_all add: host_dups_def)
  have k: "order = kept" "dup_inv kept dups"
    using pruneDuplicates_eq [OF inv(1), of "now - hc_RecentTTL (ho_config host)"] p by (auto simp: kept_def)
  have len: "int (length kept) \<le> ?cap" using inv(3) length_dropWhile_le [of _ "ho_dupOrder host"] unfolding kept_def
    by (meson of_nat_le_iff order_trans)
  have mem: "fmlookup dups ident \<noteq> None \<longleftrightarrow> ident \<in> fst ` set kept"
    using k(2) by (simp add: dup_inv_def map_of_eq_None_iff)
  show ?thesis
  proof (cases "ident \<in> fst ` set kept")
    case True
    then show ?thesis
      using assms(2) p k inv len mem by (auto simp: duplicate_def pruneDuplicatesLocked_def host_dups_def)
  next
    case False
    have "dup_inv (kept @ [(ident, now)]) (fmupd ident now dups)"
      using k(2) False by (auto simp: dup_inv_def map_add_def map_of_eq_None_iff split: option.splits) (metis fst_conv image_eqI)
    note t = trimDuplicates_eq [OF this inv(2)]
    obtain order2 dups2 where t2: "trimDuplicates ?cap (kept @ [(ident, now)]) (fmupd ident now dups) = (order2, dups2)" by force
    have h: "seen = False" "host' = host\<lparr>ho_dupOrder := order2, ho_duplicates := dups2\<rparr>"
      using assms(2) p k(1) False mem t2 by (auto simp: duplicate_def pruneDuplicatesLocked_def Let_def)
    have o2: "order2 = drop (length kept + 1 - nat ?cap) (kept @ [(ident, now)])" "dup_inv order2 dups2"
      using t t2 by auto
    have "int (length order2) \<le> ?cap" using o2(1) inv(2) by simp
    then show ?thesis using h o2 inv False by (simp add: host_dups_def)
  qed
qed

section \<open>The rate window\<close>

text \<open>On samples in order of time the binary search keeps exactly those inside the window.\<close>

lemma searchLoop_first:
  "i \<le> k \<Longrightarrow> k \<le> j \<Longrightarrow> (\<And>a. i \<le> a \<Longrightarrow> a < j \<Longrightarrow> f a \<longleftrightarrow> k \<le> a) \<Longrightarrow> searchLoop f i j = k"
proof (induction f i j rule: searchLoop.induct)
  case (1 f i j)
  let ?h = "(i + j) div 2"
  show ?case
  proof (cases "i < j")
    case True
    then have "f ?h \<longleftrightarrow> k \<le> ?h" using "1.prems"(3) by simp
    then show ?thesis using True "1.IH" "1.prems" by (subst searchLoop.simps) (auto simp: Let_def)
  qed (use "1.prems" in \<open>simp add: searchLoop.simps [of f i j]\<close>)
qed

lemma sort_Search_sorted:
  assumes "sorted xs"
  shows "drop (sort_Search (length xs) (\<lambda>i. \<not> xs ! i < c)) xs = dropWhile (\<lambda>t. t < (c :: int)) xs"
proof -
  let ?k = "length (takeWhile (\<lambda>t. t < c) xs)"
  have "\<not> xs ! a < c \<longleftrightarrow> ?k \<le> a" if "a < length xs" for a
  proof (cases "?k \<le> a")
    case True
    then have "\<not> xs ! ?k < c" using that nth_length_takeWhile [of "\<lambda>t. t < c" xs] by linarith
    then show ?thesis using assms that True by (meson leD le_less_linear order_le_less_trans sorted_nth_mono)
  next
    case False
    then show ?thesis using set_takeWhileD [of "takeWhile (\<lambda>t. t < c) xs ! a"] nth_mem [of a "takeWhile (\<lambda>t. t < c) xs"]
      by (force simp: takeWhile_nth)
  qed
  then have "sort_Search (length xs) (\<lambda>i. \<not> xs ! i < c) = ?k"
    unfolding sort_Search_def by (intro searchLoop_first) (auto simp: length_takeWhile_le)
  then show ?thesis by (simp add: dropWhile_eq_drop)
qed

lemma pruneRecent_window:
  "sorted (hn_recent node) \<Longrightarrow> hn_recent (pruneRecent now node) = dropWhile (\<lambda>t. t < now - rateWindow) (hn_recent node)"
  by (simp add: pruneRecent_def Let_def sort_Search_sorted)

section \<open>Nodes stay bounded\<close>

text \<open>An order in which Go may range over a map: each key once.\<close>

definition lists :: "string list \<Rightarrow> (string, 'v) fmap \<Rightarrow> bool" where
  "lists order m \<longleftrightarrow> distinct order \<and> set order = fset (fmdom m)"

definition connectedSet :: "(string, hostNode) fmap \<Rightarrow> string set" where
  "connectedSet nodes = {k. \<exists>node. fmlookup nodes k = Some node \<and> is_connected node}"

lemma connectedSet_dom: "connectedSet nodes \<subseteq> fset (fmdom nodes)"
  by (auto simp: connectedSet_def intro: fmdomI)

lemma finite_connectedSet [simp]: "finite (connectedSet nodes)"
  by (rule finite_subset [OF connectedSet_dom]) simp

lemma connectedOthers_card: "connectedOthers ident nodes = card (connectedSet nodes - {ident})"
proof -
  have "fset (ffilter (\<lambda>k. k \<noteq> ident \<and> is_connected (the (fmlookup nodes k))) (fmdom nodes)) = connectedSet nodes - {ident}"
    by (auto simp: connectedSet_def fmlookup_dom_iff intro: fmdomI)
  then show ?thesis by (simp add: connectedOthers_def fcard.rep_eq)
qed

definition node_ok :: "hostNode \<Rightarrow> bool" where
  "node_ok node \<longleftrightarrow> (let s = hn_snapshot node in
     ns_State s \<in> {''connected'', ''disconnected''} \<and> length (hn_channels node) = 16 \<and>
     length (hn_recent node) \<le> maximumRateSamples \<and>
     ns_ReceivedTotal s = ns_AcceptedTotal s + ns_RejectedTotal s + ns_DuplicateTotal s + ns_StaleTotal s)"

definition nodes_ok :: "(string, hostNode) fmap \<Rightarrow> bool" where
  "nodes_ok nodes \<longleftrightarrow> (\<forall>k node. fmlookup nodes k = Some node \<longrightarrow> node_ok node)"

lemma node_state: "nodes_ok nodes \<Longrightarrow> fmlookup nodes k = Some node \<Longrightarrow> is_connected node \<or> is_disconnected node"
  by (fastforce simp: nodes_ok_def node_ok_def Let_def is_connected_def is_disconnected_def)

text \<open>A part of the nodes that keeps every connected one.\<close>

definition keeps :: "(string, hostNode) fmap \<Rightarrow> (string, hostNode) fmap \<Rightarrow> bool" where
  "keeps nodes nodes' \<longleftrightarrow>
     (\<forall>k node. fmlookup nodes' k = Some node \<longrightarrow> fmlookup nodes k = Some node) \<and>
     (\<forall>k node. fmlookup nodes k = Some node \<and> is_connected node \<longrightarrow> fmlookup nodes' k = Some node)"

lemma keepsI:
  assumes "\<And>k node. fmlookup nodes' k = Some node \<Longrightarrow> fmlookup nodes k = Some node"
    and "\<And>k node. fmlookup nodes k = Some node \<Longrightarrow> is_connected node \<Longrightarrow> fmlookup nodes' k = Some node"
  shows "keeps nodes nodes'"
  using assms unfolding keeps_def by blast

lemma keepsD:
  assumes "keeps nodes nodes'"
  shows "fmlookup nodes' k = Some node \<Longrightarrow> fmlookup nodes k = Some node"
    and "fmlookup nodes k = Some node \<Longrightarrow> is_connected node \<Longrightarrow> fmlookup nodes' k = Some node"
  using assms unfolding keeps_def by blast+

lemma keeps_refl: "keeps nodes nodes"
  by (rule keepsI)

lemma keeps_trans: "keeps a b \<Longrightarrow> keeps b c \<Longrightarrow> keeps a c"
  by (rule keepsI) (blast dest: keepsD)+

lemma keeps_drop: "fmlookup nodes k = Some node \<Longrightarrow> is_disconnected node \<Longrightarrow> keeps nodes (fmdrop k nodes)"
  by (rule keepsI) (auto simp: is_connected_def is_disconnected_def split: if_splits)

lemma keeps_connectedSet: "keeps nodes nodes' \<Longrightarrow> connectedSet nodes' = connectedSet nodes"
  unfolding connectedSet_def by (blast dest: keepsD)

lemma keeps_ok: "keeps nodes nodes' \<Longrightarrow> nodes_ok nodes \<Longrightarrow> nodes_ok nodes'"
  unfolding nodes_ok_def by (blast dest: keepsD)

lemma forgetExpired_keeps: "keeps nodes (forgetExpired cutoff order nodes)"
proof (induction cutoff order nodes rule: forgetExpired.induct)
  case (2 cutoff ident rest nodes)
  show ?case
  proof (cases "fmlookup nodes ident")
    case None
    then show ?thesis using 2 by simp
  next
    case (Some node)
    then show ?thesis using 2 keeps_trans [OF keeps_drop [OF Some]] by auto
  qed
qed (simp add: keeps_refl)

lemma forgetOldest_keeps:
  "distinct cs \<Longrightarrow> (\<forall>c \<in> set cs. \<exists>node. fmlookup nodes c = Some node \<and> is_disconnected node) \<Longrightarrow>
     keeps nodes (forgetOldest capacity cs nodes) \<and>
     (int (map_len (forgetOldest capacity cs nodes)) \<le> capacity \<or>
      map_len (forgetOldest capacity cs nodes) + length cs = map_len nodes)"
proof (induction cs arbitrary: nodes)
  case (Cons c cs)
  obtain node where c: "fmlookup nodes c = Some node" "is_disconnected node" using Cons.prems(2) by auto
  have "0 < map_len nodes" using c(1) map_len_upd [of c node "fmdrop c nodes"] map_len_drop [of c nodes]
    by (cases "map_len nodes") (auto simp: map_len_def fcard.rep_eq dest: fmdomI)
  then have len: "map_len (fmdrop c nodes) = map_len nodes - 1" "0 < map_len nodes" using c(1) by (auto simp: map_len_drop)
  have "\<forall>d \<in> set cs. \<exists>node. fmlookup (fmdrop c nodes) d = Some node \<and> is_disconnected node" using Cons.prems by auto
  from Cons.IH [OF _ this] Cons.prems(1) keeps_trans [OF keeps_drop [OF c]] len
  show ?case by (auto simp: keeps_refl)
qed (simp add: keeps_refl)

lemma prune_nodes:
  assumes order: "lists order (ho_nodes host)" and ok: "nodes_ok (ho_nodes host)"
    and cap: "int (card (connectedSet (ho_nodes host))) \<le> hc_RecentCapacity (ho_config host)"
  shows "keeps (ho_nodes host) (ho_nodes (pruneNodesLocked order now host))"
    and "int (map_len (ho_nodes (pruneNodesLocked order now host))) \<le> hc_RecentCapacity (ho_config host)"
proof -
  let ?nodes = "forgetExpired (now - hc_RecentTTL (ho_config host)) order (ho_nodes host)"
  let ?cs = "candidates order ?nodes"
  have k: "keeps (ho_nodes host) ?nodes" by (rule forgetExpired_keeps)
  have dom: "fset (fmdom ?nodes) \<subseteq> set order" using keepsD(1) [OF k] order
    by (fastforce simp: lists_def fmlookup_dom_iff)
  have ok': "nodes_ok ?nodes" by (rule keeps_ok [OF k ok])
  have cs: "distinct ?cs" "set ?cs = {c. \<exists>node. fmlookup ?nodes c = Some node \<and> is_disconnected node}"
    using order dom by (auto simp: candidates_def lists_def distinct_filter fmlookup_dom_iff split: option.splits intro: fmdomI)
  note f = forgetOldest_keeps [OF cs(1), of ?nodes "hc_RecentCapacity (ho_config host)"]
  have "fset (fmdom ?nodes) = set ?cs \<union> connectedSet ?nodes"
    by (auto simp: cs(2) connectedSet_def fmlookup_dom_iff intro: fmdomI) (use node_state [OF ok'] in blast)
  moreover have "set ?cs \<inter> connectedSet ?nodes = {}"
    by (auto simp: cs(2) connectedSet_def is_connected_def is_disconnected_def)
  ultimately have "map_len ?nodes = length ?cs + card (connectedSet ?nodes)"
    by (simp add: map_len_def fcard.rep_eq card_Un_disjoint distinct_card [OF cs(1)])
  then have "int (map_len (forgetOldest (hc_RecentCapacity (ho_config host)) ?cs ?nodes)) \<le> hc_RecentCapacity (ho_config host)"
    and "keeps ?nodes (forgetOldest (hc_RecentCapacity (ho_config host)) ?cs ?nodes)"
    using f cap keeps_connectedSet [OF k] by (auto simp: cs(2))
  then show "keeps (ho_nodes host) (ho_nodes (pruneNodesLocked order now host))"
    "int (map_len (ho_nodes (pruneNodesLocked order now host))) \<le> hc_RecentCapacity (ho_config host)"
    using k keeps_trans [OF k] by (simp_all add: pruneNodesLocked_def Let_def)
qed

lemma prune_frame [simp]:
  "ho_config (pruneNodesLocked order now host) = ho_config host" "ho_dupOrder (pruneNodesLocked order now host) = ho_dupOrder host"
  "ho_duplicates (pruneNodesLocked order now host) = ho_duplicates host"
  "ho_sessionCount (pruneNodesLocked order now host) = ho_sessionCount host"
  by (simp_all add: pruneNodesLocked_def Let_def)

text \<open>The state of the host between any two steps.\<close>

definition host_inv :: "Host \<Rightarrow> bool" where
  "host_inv host \<longleftrightarrow> host_dups host \<and> nodes_ok (ho_nodes host) \<and>
     int (card (connectedSet (ho_nodes host))) \<le> hc_MaximumConnections (ho_config host) \<and>
     int (map_len (ho_nodes host)) \<le> hc_RecentCapacity (ho_config host) \<and>
     hc_MaximumConnections (ho_config host) \<le> hc_RecentCapacity (ho_config host) \<and>
     ho_sessionCount host \<le> hc_MaximumConnections (ho_config host) * 2"

lemma NewHost_inv: "NewHost c = Inr host \<Longrightarrow> host_inv host \<and> ho_config host = c \<and> ho_dupOrder host = []"
  by (auto simp: NewHost_def host_inv_def host_dups_def dup_inv_def nodes_ok_def connectedSet_def split: if_splits)

lemma inv_prune:
  assumes inv: "host_inv host" and order: "lists order (ho_nodes host)"
  shows "host_inv (pruneNodesLocked order now host)" and "keeps (ho_nodes host) (ho_nodes (pruneNodesLocked order now host))"
proof -
  have ok: "nodes_ok (ho_nodes host)" "int (card (connectedSet (ho_nodes host))) \<le> hc_RecentCapacity (ho_config host)"
    using inv by (auto simp: host_inv_def)
  note p = prune_nodes [OF order ok, of now]
  show "keeps (ho_nodes host) (ho_nodes (pruneNodesLocked order now host))" by (rule p(1))
  show "host_inv (pruneNodesLocked order now host)"
    using inv p keeps_ok [OF p(1) ok(1)] keeps_connectedSet [OF p(1)] by (simp add: host_inv_def host_dups_def)
qed

lemma newNode_ok: "node_ok (newNode hello remote conn now g)" "is_connected (newNode hello remote conn now g)"
  by (simp_all add: node_ok_def newNode_def is_connected_def maximumRateSamples_def Let_def)

lemma connectedSet_upd:
  "is_connected node \<Longrightarrow> connectedSet (fmupd k node nodes) = insert k (connectedSet nodes - {k})"
  by (auto simp: connectedSet_def)

lemma inv_register:
  assumes inv: "host_inv host" and order1: "lists order1 (ho_nodes host)"
    and order2: "distinct order2" "set order2 = insert (he_InstanceID hello) (fset (fmdom (ho_nodes (pruneNodesLocked order1 now host))))"
    and r: "register order1 order2 now hello remote conn host = (res, host')"
  shows "host_inv host'" and "ho_config host' = ho_config host" and "ho_dupOrder host' = ho_dupOrder host"
    and "res = Some (g, replaced) \<Longrightarrow> \<exists>node. fmlookup (ho_nodes host') (he_InstanceID hello) = Some node \<and>
      hn_generation node = g \<and> hn_connection node = Some conn \<and> is_connected node"
proof -
  let ?h1 = "pruneNodesLocked order1 now host" and ?id = "he_InstanceID hello"
  have inv1: "host_inv ?h1" by (rule inv_prune(1) [OF inv order1])
  let ?node = "newNode hello remote conn now (ho_generation ?h1 + 1)"
  let ?h2 = "?h1\<lparr>ho_generation := ho_generation ?h1 + 1, ho_nodes := fmupd ?id ?node (ho_nodes ?h1)\<rparr>"
  have "host_inv host' \<and> ho_config host' = ho_config host \<and> ho_dupOrder host' = ho_dupOrder host \<and>
    (res = Some (g, replaced) \<longrightarrow> (\<exists>node. fmlookup (ho_nodes host') ?id = Some node \<and>
      hn_generation node = g \<and> hn_connection node = Some conn \<and> is_connected node))"
  proof (cases "int (connectedOthers ?id (ho_nodes ?h1)) \<ge> hc_MaximumConnections (ho_config ?h1)")
    case True
    then have "host' = ?h1" "res = None" using r by (simp_all add: register_def Let_def)
    then show ?thesis using inv1 by simp
  next
    case False
    then have h': "host' = pruneNodesLocked order2 now ?h2" and gen: "res = Some (g, replaced) \<Longrightarrow> g = ho_generation ?h1 + 1"
      using r by (auto simp: register_def Let_def)
    have set2: "connectedSet (ho_nodes ?h2) = insert ?id (connectedSet (ho_nodes ?h1) - {?id})"
      using connectedSet_upd [OF newNode_ok(2)] by simp
    have card2: "int (card (connectedSet (ho_nodes ?h2))) \<le> hc_MaximumConnections (ho_config host)"
      unfolding set2 using False card_insert_disjoint [of "connectedSet (ho_nodes ?h1) - {?id}" ?id]
      by (simp only: connectedOthers_card prune_frame finite_Diff finite_connectedSet) simp
    have ok2: "nodes_ok (ho_nodes ?h2)" using inv1 newNode_ok(1) by (auto simp: host_inv_def nodes_ok_def)
    have "lists order2 (ho_nodes ?h2)" using order2 by (simp add: lists_def)
    moreover have "int (card (connectedSet (ho_nodes ?h2))) \<le> hc_RecentCapacity (ho_config ?h2)"
      using card2 inv by (simp add: host_inv_def)
    ultimately have p: "keeps (ho_nodes ?h2) (ho_nodes host')" "int (map_len (ho_nodes host')) \<le> hc_RecentCapacity (ho_config host)"
      using prune_nodes [OF _ ok2, of order2 now] by (simp_all add: h')
    have c: "connectedSet (ho_nodes host') = connectedSet (ho_nodes ?h2)" by (rule keeps_connectedSet [OF p(1)])
    have "fmlookup (ho_nodes host') ?id = Some ?node"
      by (rule keepsD(2) [OF p(1) _ newNode_ok(2)]) simp
    moreover have "host_inv host'"
      using inv1 p(2) card2 c keeps_ok [OF p(1) ok2] by (simp add: host_inv_def host_dups_def h')
    ultimately show ?thesis using gen newNode_ok(2) by (auto simp: h' newNode_def)
  qed
  then show "host_inv host'" "ho_config host' = ho_config host" "ho_dupOrder host' = ho_dupOrder host"
    "res = Some (g, replaced) \<Longrightarrow> \<exists>node. fmlookup (ho_nodes host') ?id = Some node \<and>
      hn_generation node = g \<and> hn_connection node = Some conn \<and> is_connected node"
    by blast+
qed

text \<open>An update of one node that may disconnect it but not connect it.\<close>

lemma inv_update:
  assumes inv: "host_inv host" and f: "\<And>node. node_ok node \<Longrightarrow> node_ok (f node)" "\<And>node. is_connected (f node) \<Longrightarrow> is_connected node"
  shows "host_inv (updateNode ident g f host)" "ho_config (updateNode ident g f host) = ho_config host"
    "ho_dupOrder (updateNode ident g f host) = ho_dupOrder host"
proof -
  show "host_inv (updateNode ident g f host)"
  proof (cases "\<exists>node. fmlookup (ho_nodes host) ident = Some node \<and> hn_generation node = g")
    case True
    then obtain node where n: "fmlookup (ho_nodes host) ident = Some node" "hn_generation node = g" by blast
    let ?nodes = "fmupd ident (f node) (ho_nodes host)"
    have "connectedSet ?nodes \<subseteq> connectedSet (ho_nodes host)" using n(1) f(2) by (auto simp: connectedSet_def split: if_splits)
    then have "card (connectedSet ?nodes) \<le> card (connectedSet (ho_nodes host))" by (simp add: card_mono)
    moreover have "map_len ?nodes = map_len (ho_nodes host)" using n(1) by (simp add: map_len_upd)
    moreover have "nodes_ok ?nodes" using inv f(1) n(1) by (auto simp: host_inv_def nodes_ok_def)
    ultimately show ?thesis using inv n by (simp add: updateNode_def host_inv_def host_dups_def)
  next
    case False
    then have "updateNode ident g f host = host" by (auto simp: updateNode_def split: option.splits)
    then show ?thesis using inv by simp
  qed
  show "ho_config (updateNode ident g f host) = ho_config host" "ho_dupOrder (updateNode ident g f host) = ho_dupOrder host"
    by (simp_all add: updateNode_def split: option.splits)
qed

lemma inv_observe: "host_inv (ho_observe e host) = host_inv host" "ho_config (ho_observe e host) = ho_config host"
  "ho_dupOrder (ho_observe e host) = ho_dupOrder host"
  by (simp_all add: ho_observe_def host_inv_def host_dups_def)

lemma countNote_ok: "node_ok node \<Longrightarrow> node_ok (countNote now result channel node)"
  "is_connected (countNote now result channel node) \<Longrightarrow> is_connected node"
  by (simp_all add: node_ok_def countNote_def Let_def appendRateSample_def maximumRateSamples_def is_connected_def split: if_splits)

lemma inv_record:
  "host_inv host \<Longrightarrow> host_inv (record_note now ident g result channel host)"
  "ho_config (record_note now ident g result channel host) = ho_config host"
  "ho_dupOrder (record_note now ident g result channel host) = ho_dupOrder host"
  using inv_update(1) [OF _ countNote_ok] by (simp_all add: record_note_def updateNode_def split: option.splits)

section \<open>Interleavings of sessions\<close>

text \<open>
  The locked steps of any number of sessions in any order, with a clock that does not run backwards. The
  history lists the notes that were admitted to the sink, with their times.
\<close>

inductive host_run :: "Host \<Rightarrow> time \<Rightarrow> (time \<times> NoteEvent) list \<Rightarrow> Host \<Rightarrow> bool" for start where
  host_start: "host_run start t [] start"
| host_admit: "host_run start t hist host \<Longrightarrow> t \<le> now \<Longrightarrow> admitNote now ident wire host = (res, host') \<Longrightarrow>
     host_run start now (hist @ (case res of Inl _ \<Rightarrow> [] | Inr event \<Rightarrow> [(now, event)])) host'"
| host_record: "host_run start t hist host \<Longrightarrow> host_run start t hist (record_note now ident g result channel host)"
| host_touch: "host_run start t hist host \<Longrightarrow> host_run start t hist (touch now ident g host)"
| host_disconnect: "host_run start t hist host \<Longrightarrow> host_run start t hist (disconnect now ident g host)"
| host_register: "host_run start t hist host \<Longrightarrow> lists order1 (ho_nodes host) \<Longrightarrow> distinct order2 \<Longrightarrow>
     set order2 = insert (he_InstanceID hello) (fset (fmdom (ho_nodes (pruneNodesLocked order1 now host)))) \<Longrightarrow>
     register order1 order2 now hello remote conn host = (res, host') \<Longrightarrow> host_run start t hist host'"
| host_snapshot: "host_run start t hist host \<Longrightarrow> lists order1 (ho_nodes host) \<Longrightarrow>
     Host_Snapshot order1 order2 now host = (nodes, host') \<Longrightarrow> host_run start t hist host'"
| host_begin: "host_run start t hist host \<Longrightarrow> beginSession host = (b, host') \<Longrightarrow> host_run start t hist host'"
| host_end: "host_run start t hist host \<Longrightarrow> host_run start t hist (endSession host)"
| host_track: "host_run start t hist host \<Longrightarrow> trackSession conn host = (b, host') \<Longrightarrow> host_run start t hist host'"
| host_untrack: "host_run start t hist host \<Longrightarrow> host_run start t hist (untrackSession conn host)"
| host_close: "host_run start t hist host \<Longrightarrow> Host_Close host = (conns, host') \<Longrightarrow> host_run start t hist host'"
| host_observe: "host_run start t hist host \<Longrightarrow> host_run start t hist (ho_observe e host)"

lemma inv_touch: "host_inv host \<Longrightarrow> host_inv (touch now ident g host)"
  unfolding touch_def by (rule inv_update(1)) (simp_all add: node_ok_def is_connected_def Let_def)

lemma inv_disconnect: "host_inv host \<Longrightarrow> host_inv (disconnect now ident g host)"
proof -
  let ?f = "\<lambda>node. node\<lparr>hn_snapshot := (hn_snapshot node)\<lparr>ns_State := ''disconnected'', ns_DisconnectedAt := now\<rparr>,
    hn_connection := None\<rparr>"
  assume "host_inv host"
  then have "host_inv (updateNode ident g ?f host)"
    by (rule inv_update(1)) (simp_all add: node_ok_def is_connected_def Let_def)
  then show ?thesis by (simp add: disconnect_def Let_def inv_observe)
qed

lemma admit_spec:
  assumes inv: "host_inv host" and a: "admitNote now ident wire host = (res, host')"
  shows "host_inv host'" and "ho_config host' = ho_config host"
    and "res = Inl x \<Longrightarrow> \<exists>kept. ho_dupOrder host' = kept \<and>
      (kept = ho_dupOrder host \<or> kept = dropWhile (\<lambda>e. snd e < now - hc_RecentTTL (ho_config host)) (ho_dupOrder host))"
    and "res = Inr event \<Longrightarrow> PeerNote_Event wire = Inr event \<and> ne_Origin event = ident \<and>
      \<not> time_Sub now (ne_CreatedAt event) > hc_StaleAfter (ho_config host) \<and>
      \<not> time_Sub now (ne_CreatedAt event) < - hc_StaleAfter (ho_config host) \<and>
      duplicate (noteKeyOf event) now host = (False, host')"
proof -
  have dups: "host_dups host" using inv by (simp add: host_inv_def)
  have "host_inv host' \<and> ho_config host' = ho_config host \<and>
    (res = Inl x \<longrightarrow> ho_dupOrder host' = ho_dupOrder host \<or>
       ho_dupOrder host' = dropWhile (\<lambda>e. snd e < now - hc_RecentTTL (ho_config host)) (ho_dupOrder host)) \<and>
    (res = Inr event \<longrightarrow> PeerNote_Event wire = Inr event \<and> ne_Origin event = ident \<and>
      \<not> time_Sub now (ne_CreatedAt event) > hc_StaleAfter (ho_config host) \<and>
      \<not> time_Sub now (ne_CreatedAt event) < - hc_StaleAfter (ho_config host) \<and>
      duplicate (noteKeyOf event) now host = (False, host'))"
  proof (cases "PeerNote_Event wire")
    case (Inl e)
    then show ?thesis using a inv by (auto simp: admitNote_def)
  next
    case (Inr ev)
    obtain seen host1 where d: "duplicate (noteKeyOf ev) now host = (seen, host1)" by force
    note s = duplicate_spec [OF dups d]
    have frame: "ho_sessionCount host1 = ho_sessionCount host"
      using d by (auto simp: duplicate_def pruneDuplicatesLocked_def Let_def split: prod.splits if_splits)
    have "host_inv host1" using inv s frame by (simp add: host_inv_def)
    then show ?thesis using a inv Inr d s by (auto simp: admitNote_def Let_def split: if_splits)
  qed
  then show "host_inv host'" "ho_config host' = ho_config host"
    "res = Inl x \<Longrightarrow> \<exists>kept. ho_dupOrder host' = kept \<and>
      (kept = ho_dupOrder host \<or> kept = dropWhile (\<lambda>e. snd e < now - hc_RecentTTL (ho_config host)) (ho_dupOrder host))"
    "res = Inr event \<Longrightarrow> PeerNote_Event wire = Inr event \<and> ne_Origin event = ident \<and>
      \<not> time_Sub now (ne_CreatedAt event) > hc_StaleAfter (ho_config host) \<and>
      \<not> time_Sub now (ne_CreatedAt event) < - hc_StaleAfter (ho_config host) \<and>
      duplicate (noteKeyOf event) now host = (False, host')" by blast+
qed

lemma inv_snapshot:
  assumes inv: "host_inv host" and order: "lists order1 (ho_nodes host)" and s: "Host_Snapshot order1 order2 now host = (nodes, host')"
  shows "host_inv host' \<and> ho_config host' = ho_config host \<and> ho_dupOrder host' = ho_dupOrder host"
proof -
  let ?h = "pruneNodesLocked order1 now host"
  have h': "host' = ?h\<lparr>ho_nodes := fmmap (pruneRecent now) (ho_nodes ?h)\<rparr>" using s by (simp add: Host_Snapshot_def Let_def)
  have i: "host_inv ?h" by (rule inv_prune(1) [OF inv order])
  have "connectedSet (fmmap (pruneRecent now) (ho_nodes ?h)) = connectedSet (ho_nodes ?h)"
    by (auto simp: connectedSet_def is_connected_def pruneRecent_def Let_def)
  moreover have "nodes_ok (fmmap (pruneRecent now) (ho_nodes ?h))"
    unfolding nodes_ok_def
  proof (intro allI impI)
    fix k node' assume "fmlookup (fmmap (pruneRecent now) (ho_nodes ?h)) k = Some node'"
    then obtain node where n: "fmlookup (ho_nodes ?h) k = Some node" "node' = pruneRecent now node" by auto
    have "node_ok node" using i n(1) by (simp add: host_inv_def nodes_ok_def)
    then show "node_ok node'" using length_dropWhile_le [of _ "hn_recent node"] order_trans
      by (fastforce simp: n(2) node_ok_def pruneRecent_def Let_def)
  qed
  ultimately show ?thesis using i by (simp add: h' host_inv_def host_dups_def map_len_def)
qed

lemma inv_sessions:
  "host_inv host \<Longrightarrow> host_inv (snd (beginSession host))" "host_inv host \<Longrightarrow> host_inv (endSession host)"
  "host_inv host \<Longrightarrow> host_inv (snd (trackSession conn host))" "host_inv host \<Longrightarrow> host_inv (untrackSession conn host)"
  "host_inv host \<Longrightarrow> host_inv (snd (Host_Close host))"
  by (simp_all add: beginSession_def endSession_def trackSession_def untrackSession_def Host_Close_def host_inv_def host_dups_def)

lemma step_frame [simp]:
  "ho_config (snd (beginSession host)) = ho_config host" "ho_dupOrder (snd (beginSession host)) = ho_dupOrder host"
  "ho_config (endSession host) = ho_config host" "ho_dupOrder (endSession host) = ho_dupOrder host"
  "ho_config (snd (trackSession conn host)) = ho_config host" "ho_dupOrder (snd (trackSession conn host)) = ho_dupOrder host"
  "ho_config (untrackSession conn host) = ho_config host" "ho_dupOrder (untrackSession conn host) = ho_dupOrder host"
  "ho_config (snd (Host_Close host)) = ho_config host" "ho_dupOrder (snd (Host_Close host)) = ho_dupOrder host"
  "ho_config (touch now ident g host) = ho_config host" "ho_dupOrder (touch now ident g host) = ho_dupOrder host"
  "ho_config (disconnect now ident g host) = ho_config host" "ho_dupOrder (disconnect now ident g host) = ho_dupOrder host"
  by (simp_all add: beginSession_def endSession_def trackSession_def untrackSession_def Host_Close_def touch_def updateNode_def
      disconnect_def Let_def inv_observe split: option.split)

lemma host_run_inv: "host_run start t hist host \<Longrightarrow> host_inv start \<Longrightarrow> host_inv host \<and> ho_config host = ho_config start"
proof (induction rule: host_run.induct)
  case (host_admit t hist host now ident wire res host')
  then show ?case using admit_spec(1,2) by metis
next
  case (host_register t hist host order1 order2 hello now remote conn res host')
  then show ?case using inv_register(1,2) by metis
next
  case (host_snapshot t hist host order1 order2 now nodes host')
  then show ?case using inv_snapshot by metis
next
  case (host_begin t hist host b host')
  then show ?case using inv_sessions(1) step_frame(1) by (metis snd_conv)
next
  case (host_track t hist host conn b host')
  then show ?case using inv_sessions(3) step_frame(5) by (metis snd_conv)
next
  case (host_close t hist host conns host')
  then show ?case using inv_sessions(5) step_frame(9) by (metis snd_conv)
qed (simp_all add: inv_record inv_touch inv_disconnect inv_observe inv_sessions)

section \<open>No note is admitted twice\<close>

definition entries :: "(time \<times> NoteEvent) list \<Rightarrow> (string \<times> time) list" where
  "entries hist = map (\<lambda>(t, event). (noteKeyOf event, t)) hist"

lemma length_entries [simp]: "length (entries hist) = length hist"
  by (simp add: entries_def)

lemma entries_nth: "i < length hist \<Longrightarrow> entries hist ! i = (noteKeyOf (snd (hist ! i)), fst (hist ! i))"
  by (simp add: entries_def split_beta)

text \<open>
  The order list is the end of the history: an earlier entry has gone because it is older than the
  retention time or because as many notes as the table holds were admitted since.
\<close>

definition remembers :: "HostConfig \<Rightarrow> time \<Rightarrow> (time \<times> NoteEvent) list \<Rightarrow> (string \<times> time) list \<Rightarrow> bool" where
  "remembers c t hist order \<longleftrightarrow>
     (\<exists>k \<le> length hist. order = drop k (entries hist) \<and>
        (\<forall>i < k. fst (hist ! i) < t - hc_RecentTTL c \<or> int i + hc_DuplicateCapacity c \<le> int (length hist)))"

lemma remembers_later: "remembers c t hist order \<Longrightarrow> t \<le> now \<Longrightarrow> remembers c now hist order"
  by (fastforce simp: remembers_def)

lemma remembers_prune:
  assumes "remembers c t hist order" and "t \<le> now"
  shows "remembers c now hist (dropWhile (\<lambda>e. snd e < now - hc_RecentTTL c) order)"
proof -
  obtain k where k: "k \<le> length hist" "order = drop k (entries hist)"
    "\<And>i. i < k \<Longrightarrow> fst (hist ! i) < now - hc_RecentTTL c \<or> int i + hc_DuplicateCapacity c \<le> int (length hist)"
    using remembers_later [OF assms] by (auto simp: remembers_def)
  let ?p = "\<lambda>e::string \<times> time. snd e < now - hc_RecentTTL c"
  let ?n = "length (takeWhile ?p order)"
  have n: "dropWhile ?p order = drop ?n order" by (rule dropWhile_eq_drop)
  have le: "k + ?n \<le> length hist" using length_takeWhile_le [of ?p order] k(1,2) by simp
  have "fst (hist ! i) < now - hc_RecentTTL c" if "k \<le> i" "i < k + ?n" for i
  proof -
    have "order ! (i - k) = takeWhile ?p order ! (i - k)" using that by (simp add: takeWhile_nth)
    moreover have "takeWhile ?p order ! (i - k) \<in> set (takeWhile ?p order)" using that by (intro nth_mem) simp
    ultimately have "?p (order ! (i - k))" using set_takeWhileD by metis
    moreover have "order ! (i - k) = entries hist ! i" using that k(1,2) le by simp
    ultimately show ?thesis using that le entries_nth [of i hist] by simp
  qed
  then have "\<forall>i < k + ?n. fst (hist ! i) < now - hc_RecentTTL c \<or> int i + hc_DuplicateCapacity c \<le> int (length hist)"
    using k(3) by (metis not_le)
  moreover have "dropWhile ?p order = drop (k + ?n) (entries hist)" by (simp only: n) (simp add: k(2) add.commute)
  ultimately show ?thesis using le unfolding remembers_def by blast
qed

lemma remembers_admit:
  assumes "remembers c now hist kept" and "0 < hc_DuplicateCapacity c"
  shows "remembers c now (hist @ [(now, event)])
    (drop (length kept + 1 - nat (hc_DuplicateCapacity c)) (kept @ [(noteKeyOf event, now)]))"
proof -
  obtain k where k: "k \<le> length hist" "kept = drop k (entries hist)"
    "\<And>i. i < k \<Longrightarrow> fst (hist ! i) < now - hc_RecentTTL c \<or> int i + hc_DuplicateCapacity c \<le> int (length hist)"
    using assms(1) by (auto simp: remembers_def)
  let ?m = "length kept + 1 - nat (hc_DuplicateCapacity c)" and ?hist = "hist @ [(now, event)]"
  have e: "kept @ [(noteKeyOf event, now)] = drop k (entries ?hist)" using k(1,2) by (simp add: entries_def)
  have le: "k + ?m \<le> length ?hist" using k(1,2) assms(2) by auto
  have "fst (?hist ! i) < now - hc_RecentTTL c \<or> int i + hc_DuplicateCapacity c \<le> int (length ?hist)" if "i < k + ?m" for i
  proof (cases "i < k")
    case True
    then show ?thesis using k(1) k(3) [of i] by (auto simp: nth_append)
  next
    case False
    then have "int i + hc_DuplicateCapacity c \<le> int (length hist) + 1" using that k(1,2) assms(2) by auto
    then show ?thesis by simp
  qed
  moreover have "drop ?m (kept @ [(noteKeyOf event, now)]) = drop (k + ?m) (entries ?hist)"
    by (simp only: e) (simp add: add.commute)
  ultimately show ?thesis using le unfolding remembers_def by blast
qed

text \<open>What is recorded of an admission: it was fresh, and it is not in the remembered part.\<close>

definition no_replay :: "HostConfig \<Rightarrow> (time \<times> NoteEvent) list \<Rightarrow> bool" where
  "no_replay c hist \<longleftrightarrow>
     (\<forall>j < length hist. \<forall>i < j. snd (hist ! i) = snd (hist ! j) \<longrightarrow> int i + hc_DuplicateCapacity c \<le> int j)"

definition fresh_at :: "HostConfig \<Rightarrow> time \<times> NoteEvent \<Rightarrow> bool" where
  "fresh_at c te \<longleftrightarrow> \<bar>fst te - ne_CreatedAt (snd te)\<bar> \<le> hc_StaleAfter c"

lemma time_Sub_fresh:
  "0 < d \<Longrightarrow> d < maxInt64 \<Longrightarrow> \<not> time_Sub t u > d \<Longrightarrow> \<not> time_Sub t u < - d \<Longrightarrow> \<bar>t - u\<bar> \<le> d"
  by (auto simp: time_Sub_def minInt64_def maxInt64_def)

lemma admit_no_replay:
  assumes rem: "remembers c now hist kept" and new: "noteKeyOf event \<notin> fst ` set kept"
    and fresh: "\<forall>te \<in> set hist. fresh_at c te" "fresh_at c (now, event)" and ttl: "2 * hc_StaleAfter c \<le> hc_RecentTTL c"
    and old: "no_replay c hist"
  shows "no_replay c (hist @ [(now, event)])"
  unfolding no_replay_def
proof (intro allI impI)
  fix j i
  assume j: "j < length (hist @ [(now, event)])" and i: "i < j" and eq: "snd ((hist @ [(now, event)]) ! i) = snd ((hist @ [(now, event)]) ! j)"
  show "int i + hc_DuplicateCapacity c \<le> int j"
  proof (cases "j < length hist")
    case True
    then show ?thesis using old i eq by (simp add: no_replay_def nth_append)
  next
    case False
    then have jl: "j = length hist" using j by simp
    then have ev: "snd (hist ! i) = event" and il: "i < length hist" using eq i by (simp_all add: nth_append)
    obtain k where k: "k \<le> length hist" "kept = drop k (entries hist)"
      "\<And>i. i < k \<Longrightarrow> fst (hist ! i) < now - hc_RecentTTL c \<or> int i + hc_DuplicateCapacity c \<le> int (length hist)"
      using rem by (auto simp: remembers_def)
    have "i < k"
    proof (rule ccontr)
      assume "\<not> i < k"
      then have "kept ! (i - k) = (noteKeyOf event, fst (hist ! i))" "i - k < length kept"
        using k(1,2) il ev entries_nth [OF il] by simp_all
      then have "(noteKeyOf event, fst (hist ! i)) \<in> set kept" by (metis nth_mem)
      then show False using new by force
    qed
    moreover have "\<not> fst (hist ! i) < now - hc_RecentTTL c"
    proof -
      have "\<bar>fst (hist ! i) - ne_CreatedAt event\<bar> \<le> hc_StaleAfter c" using fresh(1) il ev by (force simp: fresh_at_def)
      moreover have "\<bar>now - ne_CreatedAt event\<bar> \<le> hc_StaleAfter c" using fresh(2) by (simp add: fresh_at_def)
      ultimately show ?thesis using ttl by linarith
    qed
    ultimately show ?thesis using k(3) jl by blast
  qed
qed

lemma host_run_history:
  assumes "host_run start t hist host" and "host_inv start" and "ho_dupOrder start = []" and c: "c = ho_config start"
    and ttl: "2 * hc_StaleAfter c \<le> hc_RecentTTL c" and stale: "0 < hc_StaleAfter c" "hc_StaleAfter c < maxInt64"
  shows "remembers c t hist (ho_dupOrder host) \<and> (\<forall>te \<in> set hist. fresh_at c te) \<and> no_replay c hist"
  using assms(1)
proof (induction rule: host_run.induct)
  case (host_start t)
  then show ?case using assms(3) by (simp add: remembers_def no_replay_def entries_def)
next
  case (host_admit t hist host now ident wire res host')
  have inv: "host_inv host" and cfg: "ho_config host = c" using host_run_inv [OF host_admit(1) assms(2)] c by simp_all
  have cap: "0 < hc_DuplicateCapacity c" using inv cfg by (simp add: host_inv_def host_dups_def)
  have kept: "remembers c now hist (dropWhile (\<lambda>e. snd e < now - hc_RecentTTL c) (ho_dupOrder host))"
    using remembers_prune host_admit by blast
  show ?case
  proof (cases res)
    case (Inl x)
    then show ?thesis
      using admit_spec(3) [OF inv host_admit(3) Inl] host_admit.IH kept remembers_later host_admit(2) cfg by auto
  next
    case (Inr event)
    note a = admit_spec(4) [OF inv host_admit(3) Inr]
    have dups: "host_dups host" using inv by (simp add: host_inv_def)
    have d: "noteKeyOf event \<notin> fst ` set (dropWhile (\<lambda>e. snd e < now - hc_RecentTTL c) (ho_dupOrder host))"
      "ho_dupOrder host' = drop (length (dropWhile (\<lambda>e. snd e < now - hc_RecentTTL c) (ho_dupOrder host)) + 1 -
         nat (hc_DuplicateCapacity c)) (dropWhile (\<lambda>e. snd e < now - hc_RecentTTL c) (ho_dupOrder host) @ [(noteKeyOf event, now)])"
      using duplicate_spec [OF dups, of "noteKeyOf event" now False host'] a cfg by simp_all
    have fresh: "fresh_at c (now, event)" using a cfg time_Sub_fresh [OF stale] by (simp add: fresh_at_def)
    then show ?thesis
      using admit_no_replay [OF kept d(1) _ fresh ttl] remembers_admit [OF kept cap, of event] host_admit.IH Inr d(2) by simp
  qed
next
  case (host_register t hist host order1 order2 hello now remote conn res host')
  then show ?case using inv_register(3) host_run_inv [OF host_register(1) assms(2)] by metis
next
  case (host_snapshot t hist host order1 order2 now nodes host')
  then show ?case using inv_snapshot host_run_inv [OF host_snapshot(1) assms(2)] by metis
next
  case (host_begin t hist host b host')
  then show ?case using step_frame(2) by (metis snd_conv)
next
  case (host_track t hist host conn b host')
  then show ?case using step_frame(6) by (metis snd_conv)
next
  case (host_close t hist host conns host')
  then show ?case using step_frame(10) by (metis snd_conv)
qed (simp_all add: inv_record inv_observe)

section \<open>What a session writes\<close>

lemma duplicate_config [simp]: "ho_config (snd (duplicate ident now host)) = ho_config host"
  by (simp add: duplicate_def pruneDuplicatesLocked_def Let_def split: prod.split)

lemma admitNote_config: "admitNote now ident wire host = (res, host') \<Longrightarrow> ho_config host' = ho_config host"
proof (cases "PeerNote_Event wire")
  case (Inr event)
  obtain seen h where d: "duplicate (noteKeyOf event) now host = (seen, h)" by force
  then have "ho_config h = ho_config host" using duplicate_config [of "noteKeyOf event" now host] by simp
  then show "admitNote now ident wire host = (res, host') \<Longrightarrow> ho_config host' = ho_config host"
    by (auto simp: admitNote_def Inr d Let_def split: if_splits)
qed (simp add: admitNote_def)

definition admissible :: "HostConfig \<Rightarrow> time \<Rightarrow> string \<Rightarrow> NoteEvent \<Rightarrow> bool" where
  "admissible c now ident event \<longleftrightarrow> NoteEvent_Validate event = None \<and> ne_Origin event = ident \<and>
     \<not> time_Sub now (ne_CreatedAt event) > hc_StaleAfter c \<and> \<not> time_Sub now (ne_CreatedAt event) < - hc_StaleAfter c"

lemma admitNote_admissible:
  "admitNote now ident wire host = (Inr event, host') \<Longrightarrow> admissible (ho_config host) now ident event"
  by (auto simp: admitNote_def admissible_def PeerNote_Event_def Let_def validateEvent_None
      split: sum.splits prod.splits if_splits option.splits)

lemma acceptNote_written:
  assumes "acceptNote now now2 e ident g wire host = (err, Some event, host')"
  shows "admissible (ho_config host) now ident event"
proof -
  obtain res h where a: "admitNote now ident wire host = (res, h)" by force
  then have "res = Inr event" using assms by (auto simp: acceptNote_def split: sum.splits option.splits prod.splits)
  then show ?thesis using admitNote_admissible a by blast
qed

lemma acceptNote_config: "acceptNote now now2 e ident g wire host = (err, written, host') \<Longrightarrow> ho_config host' = ho_config host"
  by (auto simp: acceptNote_def inv_record inv_observe dest!: admitNote_config split: sum.splits option.splits prod.splits)

lemma serveLoop_written:
  "serveLoop ident g rs host = (out, events, host') \<Longrightarrow> (\<forall>r \<in> set rs. \<forall>h. ho_config (rd_env r h) = ho_config h) \<Longrightarrow>
     \<forall>event \<in> set events. \<exists>r \<in> set rs. admissible (ho_config host) (rd_now r) ident event"
proof (induction rs arbitrary: host out events host')
  case (Cons r rs)
  have env: "ho_config (rd_env r host) = ho_config host" using Cons.prems(2) by simp
  have rest: "\<forall>event \<in> set es. \<exists>r \<in> set rs. admissible (ho_config host) (rd_now r) ident event"
    if "serveLoop ident g rs h = (o1, es, h1)" "ho_config h = ho_config host" for h o1 es h1
    using Cons.IH [OF that(1)] Cons.prems(2) that(2) by simp
  show ?case
  proof (cases "rd_message r")
    case None
    then show ?thesis using Cons.prems(1) by (simp add: Let_def)
  next
    case (Some message)
    show ?thesis
    proof (cases "msg_Type message = TypeNote")
      case True
      show ?thesis
      proof (cases "msg_Note message")
        case None
        then show ?thesis using Cons.prems(1) Some True by (simp add: Let_def)
      next
        case (Some wire)
        obtain err written h1 where a: "acceptNote (rd_now r) (rd_now2 r) (rd_sinkErr r) ident g wire (rd_env r host) = (err, written, h1)"
          by (metis prod_cases3)
        obtain o1 es h2 where l: "serveLoop ident g rs h1 = (o1, es, h2)" by (metis prod_cases3)
        have "events = (case written of None \<Rightarrow> [] | Some e \<Rightarrow> [e]) @ es"
          using Cons.prems(1) \<open>rd_message r = Some message\<close> True Some a l by (simp add: Let_def)
        moreover have "\<forall>event \<in> set es. \<exists>r \<in> set rs. admissible (ho_config host) (rd_now r) ident event"
          by (rule rest [OF l]) (use acceptNote_config [OF a] env in simp)
        moreover have "admissible (ho_config host) (rd_now r) ident event" if "written = Some event" for event
          using acceptNote_written [of "rd_now r" "rd_now2 r" "rd_sinkErr r" ident g wire "rd_env r host" err event h1] a that env by simp
        ultimately show ?thesis by (auto split: option.splits)
      qed
    next
      case False
      obtain o1 es h2 where l: "serveLoop ident g rs (touch (rd_now r) ident g (rd_env r host)) = (o1, es, h2)" by (metis prod_cases3)
      have "events = es \<or> events = []" using Cons.prems(1) Some False l by (auto simp: Let_def split: if_splits)
      moreover have "\<forall>event \<in> set es. \<exists>r \<in> set rs. admissible (ho_config host) (rd_now r) ident event"
        by (rule rest [OF l]) (simp add: env)
      ultimately show ?thesis by auto
    qed
  qed
qed simp

lemma register_config: "register o1 o2 now hello remote conn host = (res, host') \<Longrightarrow> ho_config host' = ho_config host"
  by (auto simp: register_def Let_def split: if_splits)

lemma serveRegistered_written:
  assumes "serveRegistered i hello host = (out, events, host')" and "\<forall>r \<in> set (si_turns i). \<forall>h. ho_config (rd_env r h) = ho_config h"
  shows "\<forall>event \<in> set events. \<exists>r \<in> set (si_turns i). admissible (ho_config host) (rd_now r) (he_InstanceID hello) event"
proof -
  obtain res h where r: "register (si_order1 i) (si_order2 i) (si_now i) hello (rq_RemoteAddr (si_request i)) (si_conn i) host = (res, h)"
    by force
  show ?thesis
  proof (cases res)
    case None
    then show ?thesis using assms(1) r by (simp add: serveRegistered_def)
  next
    case (Some gr)
    obtain g replaced where gr: "gr = (g, replaced)" by force
    let ?h = "if replaced = None then ho_observe (Connection ''inbound'' ''connected'') h else h"
    obtain o1 es h1 where l: "serveLoop (he_InstanceID hello) g (si_turns i) ?h = (o1, es, h1)" by (metis prod_cases3)
    have cfg: "ho_config ?h = ho_config host" using register_config [OF r] by (simp add: inv_observe)
    have "events = es \<or> events = []" using assms(1) r Some gr l by (auto simp: serveRegistered_def Let_def split: if_splits)
    then show ?thesis using serveLoop_written [OF l assms(2)] cfg by auto
  qed
qed

lemma validBearer_iff: "validBearer header token \<longleftrightarrow> header = ''Bearer '' @ token"
proof -
  have "(if take (length p) h \<noteq> p \<or> length h \<noteq> length p + length q then False else drop (length p) h = q) \<longleftrightarrow> h = p @ q"
    for h p q :: string
    by (metis append_eq_conv_conj append_take_drop_id length_append)
  from this [of "''Bearer ''" header token] show ?thesis by (simp only: validBearer_def Let_def hasPrefix_def)
qed

section \<open>Samples\<close>

definition wireNote :: PeerNote where
  "wireNote = sum.projr (NoteFromEvent wireEvent)"

lemma wireNote_event: "PeerNote_Event wireNote = Inr wireEvent"
proof -
  have "NoteFromEvent wireEvent = Inr wireNote" by (simp add: wireNote_def NoteFromEvent_def wireEvent_valid)
  then show ?thesis using wire_reads_back [of wireEvent wireNote] by (simp add: wireEvent_def second_def maxInt64_def)
qed

definition sampleHostConfig :: HostConfig where
  "sampleHostConfig = \<lparr>hc_Token = ''0123456789abcdef'', hc_InstanceID = ''host'', hc_MappingVersion = FlowModeV1,
     hc_MaximumConnections = 1, hc_RecentCapacity = 2, hc_RecentTTL = 20, hc_StaleAfter = 10, hc_DuplicateCapacity = 2\<rparr>"

definition sampleHost :: Host where
  "sampleHost = sum.projr (NewHost sampleHostConfig)"

lemma hostName_safe: "safeIdentifier ''host'' 128"
  by (rule plain_safe; simp add: plain_def)

lemma sampleHost_eq:
  "sampleHost = \<lparr>ho_config = sampleHostConfig, ho_nodes = fmempty, ho_sessions = {||}, ho_generation = 0,
     ho_duplicates = fmempty, ho_dupOrder = [], ho_closing = False, ho_sessionCount = 0, ho_observed = []\<rparr>"
  using hostName_safe by (simp add: sampleHost_def NewHost_def sampleHostConfig_def)

lemma sampleHost_new: "NewHost sampleHostConfig = Inr sampleHost"
  using hostName_safe by (simp add: sampleHost_def NewHost_def sampleHostConfig_def)

lemma sampleAdmit_first:
  assumes "host_dups h" and "ho_dupOrder h = []" and "ho_config h = sampleHostConfig"
  shows "\<exists>h'. admitNote 6 ''edge'' wireNote h = (Inr wireEvent, h')"
proof -
  obtain seen h' where d: "duplicate (noteKeyOf wireEvent) 6 h = (seen, h')" by force
  have "\<not> seen" using duplicate_spec [OF assms(1) d] by (simp add: assms(2))
  then show ?thesis
    using d by (simp add: admitNote_def wireNote_event wireEvent_def [THEN arg_cong [where f = ne_Origin]]
        wireEvent_def [THEN arg_cong [where f = ne_CreatedAt]] assms(3) sampleHostConfig_def time_Sub_def minInt64_def maxInt64_def)
qed

lemma sampleHost_inv: "host_inv sampleHost" "ho_dupOrder sampleHost = []" "ho_config sampleHost = sampleHostConfig"
  using NewHost_inv [OF sampleHost_new] by simp_all

lemma sampleAdmit:
  "\<exists>host. admitNote 6 ''edge'' wireNote sampleHost = (Inr wireEvent, host) \<and> host_run sampleHost 6 [(6, wireEvent)] host"
proof -
  obtain host where a: "admitNote 6 ''edge'' wireNote sampleHost = (Inr wireEvent, host)"
    using sampleAdmit_first [of sampleHost] sampleHost_inv by (auto simp: host_inv_def)
  have "host_run sampleHost 6 [] sampleHost" by (rule host_start)
  from host_admit [OF this _ a] a show ?thesis by simp
qed

definition sampleTurn :: read_turn where
  "sampleTurn = \<lparr>rd_env = id, rd_message = Some \<lparr>msg_Type = TypeNote, msg_Version = ProtocolVersion, msg_Hello = None,
     msg_Note = Some wireNote, msg_Ping = None, msg_Pong = None, msg_Error = None\<rparr>, rd_now = 6, rd_now2 = 6,
     rd_sinkErr = None, rd_writeOK = True\<rparr>"

definition sampleSession :: session_input where
  "sampleSession = \<lparr>si_request = \<lparr>rq_Method = ''GET'', rq_Origins = [], rq_Authorization = ''Bearer 0123456789abcdef'',
       rq_RemoteAddr = ''192.0.2.1:9000''\<rparr>, si_upgraded = True, si_conn = 3,
     si_first = Some \<lparr>msg_Type = TypeHello, msg_Version = ProtocolVersion,
       msg_Hello = Some \<lparr>he_InstanceID = ''edge'', he_Role = ''edge'', he_MappingVersion = FlowModeV1\<rparr>,
       msg_Note = None, msg_Ping = None, msg_Pong = None, msg_Error = None\<rparr>,
     si_env = id, si_order1 = [], si_order2 = [''edge''], si_now = 5, si_helloOK = True, si_turns = [sampleTurn], si_end = 7\<rparr>"

lemma sampleSession_events: "fst (snd (ServeHTTP sampleSession sampleHost)) = [wireEvent]"
proof -
  let ?h = "sampleHost\<lparr>ho_sessionCount := 1, ho_sessions := {|3|}\<rparr>"
  let ?hello = "\<lparr>he_InstanceID = ''edge'', he_Role = ''edge'', he_MappingVersion = FlowModeV1\<rparr>"
  obtain res h where r: "register [] [''edge''] 5 ?hello ''192.0.2.1:9000'' 3 ?h = (res, h)" by force
  have fresh: "ho_nodes ?h = fmempty" "ho_closing ?h = False" "ho_sessionCount sampleHost = 0" "ho_sessions sampleHost = {||}"
    by (simp_all add: sampleHost_eq)
  have res: "res = Some (ho_generation sampleHost + 1, None)"
  proof -
    have none: "connectedOthers ident fmempty = 0" for ident
      by (simp add: connectedOthers_def fcard.rep_eq ffilter.rep_eq)
    show ?thesis using r fresh sampleHost_inv(3) none by (auto simp: register_def pruneNodesLocked_def Let_def sampleHostConfig_def)
  qed
  have h: "host_dups h" "ho_dupOrder h = []" "ho_config h = sampleHostConfig"
  proof -
    have "host_inv ?h" using sampleHost_inv by (simp add: host_inv_def host_dups_def sampleHostConfig_def)
    then show "host_dups h" "ho_dupOrder h = []" "ho_config h = sampleHostConfig"
      using inv_register(1-3) [OF _ _ _ _ r] fresh sampleHost_inv
      by (auto simp: lists_def pruneNodesLocked_def Let_def host_inv_def)
  qed
  obtain h' where a: "admitNote 6 ''edge'' wireNote (ho_observe (Connection ''inbound'' ''connected'') h) = (Inr wireEvent, h')"
    using sampleAdmit_first [of "ho_observe (Connection ''inbound'' ''connected'') h"] h by (auto simp: ho_observe_def host_dups_def)
  have "fst (snd (serveRegistered sampleSession ?hello ?h)) = [wireEvent]"
    using r a by (simp add: serveRegistered_def res sampleSession_def sampleTurn_def acceptNote_def Let_def TypeNote_def split: prod.split)
  then show ?thesis using fresh sampleHost_inv(3)
    by (simp add: ServeHTTP_def Let_def validBearer_iff beginSession_def trackSession_def handshake_def sampleHostConfig_def
        sampleSession_def [THEN arg_cong [where f = si_request]] sampleSession_def [THEN arg_cong [where f = si_upgraded]]
        sampleSession_def [THEN arg_cong [where f = si_conn]] sampleSession_def [THEN arg_cong [where f = si_env]]
        sampleSession_def [THEN arg_cong [where f = si_first]] split: prod.split) (metis fst_conv snd_conv)
qed

section \<open>Properties\<close>



text \<open>
  The host's memory is bounded whatever its peers do: at most the configured number of nodes is
  connected, the node table never exceeds its capacity, sessions in progress never exceed twice the
  connections, the duplicate table never exceeds its capacity and its map and order list agree, and each
  node's received notes are exactly its accepted, rejected, duplicate and stale ones.
\<close>

theorem Host_bounded:
  assumes new: "NewHost c = Inr host0" and run: "host_run host0 t hist host"
  shows "int (card {k. \<exists>node. fmlookup (ho_nodes host) k = Some node \<and> ns_State (hn_snapshot node) = ''connected''}) \<le> hc_MaximumConnections c \<and>
    int (map_len (ho_nodes host)) \<le> hc_RecentCapacity c \<and> ho_sessionCount host \<le> 2 * hc_MaximumConnections c \<and>
    int (length (ho_dupOrder host)) \<le> hc_DuplicateCapacity c \<and> (\<forall>k. fmlookup (ho_duplicates host) k = map_of (ho_dupOrder host) k) \<and>
    (\<forall>k node. fmlookup (ho_nodes host) k = Some node \<longrightarrow> ns_ReceivedTotal (hn_snapshot node) =
       ns_AcceptedTotal (hn_snapshot node) + ns_RejectedTotal (hn_snapshot node) + ns_DuplicateTotal (hn_snapshot node) +
       ns_StaleTotal (hn_snapshot node) \<and> length (hn_recent node) \<le> 4096)"
proof -
  have "host_inv host" "ho_config host = c" using host_run_inv [OF run] NewHost_inv [OF new] by simp_all
  then show ?thesis
    by (auto simp: host_inv_def host_dups_def dup_inv_def nodes_ok_def node_ok_def connectedSet_def is_connected_def
        maximumRateSamples_def Let_def)
qed

theorem Host_bounded_witness:
  "\<exists>host. host_run sampleHost 6 [(6, wireEvent)] host \<and> int (length (ho_dupOrder host)) \<le> 2 \<and> int (map_len (ho_nodes host)) \<le> 2"
  using sampleAdmit Host_bounded [OF sampleHost_new] by (fastforce simp: sampleHostConfig_def)

text \<open>
  C6. Only an authenticated edge reaches the sink, and only with its own fresh notes: every event a
  session hands to the sink came over a GET request without a browser origin that carried exactly the
  configured token, after the hello of an edge whose identity differs from the host's; the event is
  valid, names that edge as its origin, and was neither stale nor from the future when it was read.
\<close>

theorem ServeHTTP_authenticated:
  assumes serve: "ServeHTTP i host = (out, events, host')" and event: "event \<in> set events"
    and env: "\<forall>h. ho_config (si_env i h) = ho_config h" "\<forall>r \<in> set (si_turns i). \<forall>h. ho_config (rd_env r h) = ho_config h"
  shows "rq_Method (si_request i) = ''GET'' \<and> rq_Origins (si_request i) = [] \<and>
    rq_Authorization (si_request i) = ''Bearer '' @ hc_Token (ho_config host) \<and>
    (\<exists>message hello r. si_first i = Some message \<and> msg_Hello message = Some hello \<and> he_Role hello = ''edge'' \<and>
       he_InstanceID hello \<noteq> hc_InstanceID (ho_config host) \<and> r \<in> set (si_turns i) \<and> NoteEvent_Validate event = None \<and>
       ne_Origin event = he_InstanceID hello \<and> \<not> time_Sub (rd_now r) (ne_CreatedAt event) > hc_StaleAfter (ho_config host) \<and>
       \<not> time_Sub (rd_now r) (ne_CreatedAt event) < - hc_StaleAfter (ho_config host))"
proof -
  let ?q = "si_request i"
  obtain b h1 where b: "beginSession host = (b, h1)" by force
  obtain t h2 where t: "trackSession (si_conn i) h1 = (t, h2)" by force
  have cfg: "ho_config (si_env i h2) = ho_config host"
    using env(1) step_frame(1) [of host] step_frame(5) [of "si_conn i" h1] b t by simp
  have ok: "rq_Method ?q = ''GET''" "rq_Origins ?q = []" "validBearer (rq_Authorization ?q) (hc_Token (ho_config host))" "b" "si_upgraded i" "t"
    using serve event b t by (auto simp: ServeHTTP_def Let_def split: if_splits bool.splits)
  obtain hello where hs: "handshake (ho_config host) (si_first i) = Inr hello"
    using serve event b t ok cfg by (cases "handshake (ho_config host) (si_first i)") (auto simp: ServeHTTP_def Let_def)
  obtain o1 h3 where sr: "serveRegistered i hello (si_env i h2) = (o1, events, h3)"
    using serve b t ok cfg hs by (auto simp: ServeHTTP_def Let_def split: prod.splits)
  obtain r where r: "r \<in> set (si_turns i)" "admissible (ho_config host) (rd_now r) (he_InstanceID hello) event"
    using serveRegistered_written [OF sr env(2)] event cfg by auto
  have "\<exists>message. si_first i = Some message \<and> msg_Hello message = Some hello \<and> he_Role hello = ''edge'' \<and>
      he_InstanceID hello \<noteq> hc_InstanceID (ho_config host)"
    using hs by (auto simp: handshake_def split: option.splits if_splits)
  then show ?thesis using ok r validBearer_iff by (auto simp: admissible_def)
qed

theorem ServeHTTP_authenticated_witness:
  "wireEvent \<in> set (fst (snd (ServeHTTP sampleSession sampleHost))) \<and> ne_Origin wireEvent = ''edge''"
proof -
  obtain out events host' where s: "ServeHTTP sampleSession sampleHost = (out, events, host')" by (metis prod_cases3)
  have e: "wireEvent \<in> set events" using sampleSession_events s by simp
  have "\<forall>h. ho_config (si_env sampleSession h) = ho_config h" "\<forall>r \<in> set (si_turns sampleSession). \<forall>h. ho_config (rd_env r h) = ho_config h"
    by (simp_all add: sampleSession_def sampleTurn_def)
  from ServeHTTP_authenticated [OF s e this] have "ne_Origin wireEvent = ''edge''"
    by (auto simp: sampleSession_def)
  then show ?thesis using e s by simp
qed

end
