(* ===== verification/Peer_Edge.thy ===== *)
theory Peer_Edge
  imports Peer_Host "HOL-Library.Sublist"
begin

text \<open>
  internal/peer/edge.go with the outbound half of state.go: the bounded, non-blocking sink of an edge
  and its reconnecting session. Every choice of a \<open>select\<close>, every frame that arrives and every clock
  reading is an argument; what the edge hands to its connection is returned. The library argument holds
  encoding/json, the parser of net/url and the texts of protocol errors. The default jitter is an
  argument of each attempt, and the rate is given as an exact fraction.
\<close>

section \<open>State (edge.go, state.go)\<close>

record EdgeConfig =
  ec_URL :: string
  ec_Token :: string
  ec_InstanceID :: string
  ec_MappingVersion :: string
  ec_QueueCapacity :: int
  ec_StaleAfter :: duration
  ec_ReconnectBase :: duration
  ec_ReconnectLimit :: duration

record OutboundSnapshot =
  ob_Enabled :: bool
  ob_Target :: string
  ob_RemoteInstance :: string
  ob_State :: string
  ob_ProtocolVersion :: string
  ob_MappingVersion :: string
  ob_QueueDepth :: int
  ob_QueueCapacity :: int
  ob_SentTotal :: u64
  ob_DroppedFull :: u64
  ob_DroppedStale :: u64
  ob_Reconnects :: u64
  ob_SendRate :: real
  ob_LastSentAt :: time
  ob_ConnectedAt :: time
  ob_LastAttemptAt :: time
  ob_NextRetryAt :: time
  ob_RTT :: duration
  ob_LastError :: string
  ob_ActiveChannels :: "u8 list"

record outboundState =
  os_snapshot :: OutboundSnapshot
  os_recent :: "time list"
  os_channels :: "bool list"

record Edge =
  ed_config :: EdgeConfig
  ed_queue :: "NoteEvent list"
  ed_state :: outboundState
  ed_nonce :: u64
  ed_observed :: "peer_observation list"

record edge_lib =
  el_json :: json_codec
  el_errorText :: "peer_error \<Rightarrow> string"
  el_Parse :: "string \<Rightarrow> URL option"
  el_String :: "URL \<Rightarrow> string"

definition safeTarget :: "edge_lib \<Rightarrow> string \<Rightarrow> string" where
  "safeTarget lib raw =
     (case el_Parse lib raw of
        None \<Rightarrow> ''configured peer''
      | Some parsed \<Rightarrow>
        if url_Host parsed = [] then ''configured peer''
        else el_String lib (parsed\<lparr>url_User := None, url_RawQuery := [], url_Fragment := []\<rparr>))"

definition newOutboundState :: "edge_lib \<Rightarrow> string \<Rightarrow> int \<Rightarrow> outboundState" where
  "newOutboundState lib target capacity =
     \<lparr>os_snapshot = \<lparr>ob_Enabled = True, ob_Target = safeTarget lib target, ob_RemoteInstance = [],
        ob_State = ''disconnected'', ob_ProtocolVersion = [], ob_MappingVersion = ''flow-mode-v1'', ob_QueueDepth = 0,
        ob_QueueCapacity = capacity, ob_SentTotal = 0, ob_DroppedFull = 0, ob_DroppedStale = 0, ob_Reconnects = 0,
        ob_SendRate = 0, ob_LastSentAt = 0, ob_ConnectedAt = 0, ob_LastAttemptAt = 0, ob_NextRetryAt = 0, ob_RTT = 0,
        ob_LastError = [], ob_ActiveChannels = []\<rparr>,
      os_recent = [], os_channels = replicate 16 False\<rparr>"

definition outbound_prune :: "time \<Rightarrow> outboundState \<Rightarrow> outboundState" where
  "outbound_prune now state = state\<lparr>os_recent := dropWhile (\<lambda>t. t < now - rateWindow) (os_recent state)\<rparr>"

definition outbound_copy :: "time \<Rightarrow> int \<Rightarrow> outboundState \<Rightarrow> OutboundSnapshot \<times> outboundState" where
  "outbound_copy now depth state =
     (let state = outbound_prune now state in
      ((os_snapshot state)\<lparr>ob_QueueDepth := depth, ob_SendRate := real (length (os_recent state)) / 10,
         ob_ActiveChannels := activeChannels (os_channels state)\<rparr>, state))"

datatype edge_error = EdgeIdentityRequired | EdgeURLInvalid | EdgeMappingUnsupported | EdgeBoundsInvalid

definition NewEdge :: "edge_lib \<Rightarrow> EdgeConfig \<Rightarrow> edge_error + Edge" where
  "NewEdge lib c =
     (if ec_URL c = [] \<or> length (ec_Token c) < 16 \<or> \<not> safeIdentifier (ec_InstanceID c) 128 then Inl EdgeIdentityRequired
      else case el_Parse lib (ec_URL c) of
        None \<Rightarrow> Inl EdgeURLInvalid
      | Some parsedURL \<Rightarrow>
        if url_Host parsedURL = [] \<or> url_User parsedURL \<noteq> None \<or>
           url_Scheme parsedURL \<noteq> ''ws'' \<and> url_Scheme parsedURL \<noteq> ''wss'' then Inl EdgeURLInvalid
        else if ec_MappingVersion c \<noteq> FlowModeV1 then Inl EdgeMappingUnsupported
        else if ec_QueueCapacity c \<le> 0 \<or> ec_StaleAfter c \<le> 0 \<or> ec_ReconnectBase c \<le> 0 \<or>
                ec_ReconnectLimit c < ec_ReconnectBase c then Inl EdgeBoundsInvalid
        else Inr \<lparr>ed_config = c, ed_queue = [], ed_state = newOutboundState lib (ec_URL c) (ec_QueueCapacity c),
                  ed_nonce = 0, ed_observed = [Queue 0 (nat (ec_QueueCapacity c))]\<rparr>)"

section \<open>Writing\<close>

definition ed_observe :: "peer_observation \<Rightarrow> Edge \<Rightarrow> Edge" where
  "ed_observe e edge = edge\<lparr>ed_observed := ed_observed edge @ [e]\<rparr>"

text \<open>Under the lock of the state: update the snapshot.\<close>

definition setOutbound :: "(OutboundSnapshot \<Rightarrow> OutboundSnapshot) \<Rightarrow> Edge \<Rightarrow> Edge" where
  "setOutbound f edge = edge\<lparr>ed_state := (ed_state edge)\<lparr>os_snapshot := f (os_snapshot (ed_state edge))\<rparr>\<rparr>"

definition observeQueue :: "Edge \<Rightarrow> Edge" where
  "observeQueue edge = ed_observe (Queue (length (ed_queue edge)) (nat (ec_QueueCapacity (ed_config edge)))) edge"

datatype write_error = WriteContextNil | WriteCancelled string | WriteInvalid peer_error | ErrQueueFull

text \<open>A context is nil, live, or carries its error.\<close>

datatype go_context = NilContext | LiveContext | DoneContext string

definition Edge_Write :: "go_context \<Rightarrow> NoteEvent \<Rightarrow> Edge \<Rightarrow> write_error option \<times> Edge" where
  "Edge_Write ctx event edge =
     (case ctx of
        NilContext \<Rightarrow> (Some WriteContextNil, edge)
      | DoneContext e \<Rightarrow> (Some (WriteCancelled e), edge)
      | LiveContext \<Rightarrow>
        (case validateEvent event of
           Some e \<Rightarrow> (Some (WriteInvalid e), edge)
         | None \<Rightarrow>
           if int (length (ed_queue edge)) < ec_QueueCapacity (ed_config edge)
           then (None, observeQueue (ed_observe (PeerEvent ''outbound'' ''queued'') (edge\<lparr>ed_queue := ed_queue edge @ [event]\<rparr>)))
           else (Some ErrQueueFull, ed_observe (PeerEvent ''outbound'' ''dropped_full'')
                  (setOutbound (\<lambda>s. s\<lparr>ob_DroppedFull := ob_DroppedFull s + 1\<rparr>) edge))))"

section \<open>Errors\<close>

text \<open>\<open>state.go\<close>'s \<open>safeError\<close> of an error with the given text.\<close>

definition safeError :: "string option \<Rightarrow> string" where
  "safeError err =
     (case err of
        None \<Rightarrow> []
      | Some text \<Rightarrow> let message = strings_TrimSpace text in if length message > 256 then take 256 message else message)"

text \<open>
  \<open>strings.ReplaceAll\<close> for a non-empty pattern, the only case here since \<open>NewEdge\<close> requires the URL and the
  token: leftmost occurrences, from left to right.
\<close>

function replaceAll :: "string \<Rightarrow> string \<Rightarrow> string \<Rightarrow> string" where
  "replaceAll s old new =
     (if old = [] \<or> s = [] then s
      else if hasPrefix s old then new @ replaceAll (drop (length old) s) old new
      else hd s # replaceAll (tl s) old new)"
  by auto
termination by (relation "measure (\<lambda>(s, _, _). length s)") auto

declare replaceAll.simps [simp del]

definition Edge_safeError :: "edge_lib \<Rightarrow> EdgeConfig \<Rightarrow> string option \<Rightarrow> string" where
  "Edge_safeError lib c err =
     (let message = safeError err;
          message = replaceAll message (ec_URL c) (safeTarget lib (ec_URL c));
          message = replaceAll message (ec_Token c) ''<redacted>''
      in message)"

section \<open>A session\<close>

text \<open>What one read of the connection gave: an error, or whether the frame is text and its bytes.\<close>

type_synonym frame = "string + bool \<times> bytes"

definition readMessage :: "edge_lib \<Rightarrow> frame \<Rightarrow> string + Message" where
  "readMessage lib frame =
     (case frame of
        Inl e \<Rightarrow> Inl e
      | Inr (text, encoded) \<Rightarrow>
        if \<not> text then Inl ''peer frame must be text''
        else case Decode (el_json lib) encoded of Inl e \<Rightarrow> Inl (el_errorText lib e) | Inr message \<Rightarrow> Inr message)"

text \<open>The error of a write: of the encoding, or else the connection's own answer.\<close>

definition writeMessage :: "edge_lib \<Rightarrow> Message \<Rightarrow> string option \<Rightarrow> string option" where
  "writeMessage lib message answer =
     (case Encode (el_json lib) message of Inl e \<Rightarrow> Some (el_errorText lib e) | Inr _ \<Rightarrow> answer)"

definition emptyMessage :: "string \<Rightarrow> Message" where
  "emptyMessage kind = \<lparr>msg_Type = kind, msg_Version = ProtocolVersion, msg_Hello = None, msg_Note = None, msg_Ping = None,
     msg_Pong = None, msg_Error = None\<rparr>"

text \<open>
  What wakes the loop of a session, with the clock reading and the answer of the connection to what is
  written: cancellation, a frame from the reading goroutine, the heartbeat ticker, or a queued event.
\<close>

datatype session_event =
    CtxDone
  | Frame frame time "string option"
  | Tick time "string option"
  | Dequeue time "string option"

text \<open>
  \<open>Continue\<close> carries the pending nonce and the time it was sent; \<open>Return\<close> the error of \<open>runSession\<close>;
  \<open>Crash\<close> stands for a nil dereference or an index out of range.
\<close>

datatype session_outcome = Continue u64 time | Return "string option" | Crash

fun handleMessage ::
  "edge_lib \<Rightarrow> Message \<Rightarrow> time \<Rightarrow> string option \<Rightarrow> u64 \<Rightarrow> time \<Rightarrow> Edge \<Rightarrow> Message list \<times> session_outcome \<times> Edge" where
  "handleMessage lib message now answer pendingNonce pendingSent edge =
     (if msg_Type message = TypePong then
        (case msg_Pong message of
           None \<Rightarrow> ([], Crash, edge)
         | Some pong \<Rightarrow>
           if hb_Nonce pong = pendingNonce \<and> \<not> time_IsZero pendingSent then
             let rtt = time_Sub now pendingSent;
                 edge = (if rtt \<ge> 0 then ed_observe (RoundTrip rtt) (setOutbound (\<lambda>s. s\<lparr>ob_RTT := rtt\<rparr>) edge) else edge)
             in ([], Continue 0 pendingSent, edge)
           else ([], Continue pendingNonce pendingSent, edge))
      else if msg_Type message = TypePing then
        let reply = (emptyMessage TypePong)\<lparr>msg_Pong := msg_Ping message\<rparr> in
        case writeMessage lib reply answer of
          Some e \<Rightarrow> ([], Return (Some e), edge)
        | None \<Rightarrow> ([reply], Continue pendingNonce pendingSent, edge)
      else if msg_Type message = TypeError then
        (case msg_Error message of
           None \<Rightarrow> ([], Crash, edge)
         | Some e \<Rightarrow> ([], Continue pendingNonce pendingSent, ed_observe (PeerEvent ''outbound'' ''rejected'')
             (setOutbound (\<lambda>s. s\<lparr>ob_LastError := pe_Code e @ '': '' @ pe_Detail e\<rparr>) edge)))
      else ([], Return (Some (''peer host sent unexpected '' @ msg_Type message @ '' message'')), edge))"

definition markSent :: "time \<Rightarrow> NoteEvent \<Rightarrow> Edge \<Rightarrow> Edge" where
  "markSent now event edge =
     (let state = ed_state edge; s = os_snapshot state in
      ed_observe (PeerEvent ''outbound'' ''sent'')
        (edge\<lparr>ed_state := state\<lparr>os_snapshot := s\<lparr>ob_SentTotal := ob_SentTotal s + 1, ob_LastSentAt := now\<rparr>,
           os_recent := appendRateSample (os_recent state) now,
           os_channels := (os_channels state)[unat (ne_Channel event - 1) := True]\<rparr>\<rparr>))"

definition sendEvent ::
  "edge_lib \<Rightarrow> NoteEvent \<Rightarrow> time \<Rightarrow> string option \<Rightarrow> u64 \<Rightarrow> time \<Rightarrow> Edge \<Rightarrow> Message list \<times> session_outcome \<times> Edge" where
  "sendEvent lib event now answer pendingNonce pendingSent edge0 =
     (let edge = observeQueue edge0 in
      if time_IsZero (ne_CreatedAt event) \<or> time_Sub now (ne_CreatedAt event) > ec_StaleAfter (ed_config edge) then
        ([], Continue pendingNonce pendingSent, ed_observe (PeerEvent ''outbound'' ''dropped_stale'')
           (setOutbound (\<lambda>s. s\<lparr>ob_DroppedStale := ob_DroppedStale s + 1\<rparr>) edge))
      else case NoteFromEvent event of
        Inl e \<Rightarrow> ([], Continue pendingNonce pendingSent, ed_observe (PeerEvent ''outbound'' ''invalid'') edge)
      | Inr note \<Rightarrow>
        let message = (emptyMessage TypeNote)\<lparr>msg_Note := Some note\<rparr> in
        case writeMessage lib message answer of
          Some e \<Rightarrow> ([], Return (Some e), ed_observe (PeerEvent ''outbound'' ''failed'') edge)
        | None \<Rightarrow>
          if unat (ne_Channel event - 1) \<ge> 16 then ([message], Crash, edge)
          else ([message], Continue pendingNonce pendingSent, markSent now event edge))"

fun sessionStep :: "edge_lib \<Rightarrow> session_event \<Rightarrow> u64 \<Rightarrow> time \<Rightarrow> Edge \<Rightarrow> Message list \<times> session_outcome \<times> Edge" where
  "sessionStep lib CtxDone pendingNonce pendingSent edge = ([], Return None, edge)"
| "sessionStep lib (Frame frame now answer) pendingNonce pendingSent edge =
     (case readMessage lib frame of
        Inl e \<Rightarrow> ([], Return (Some (''read peer host: '' @ e)), edge)
      | Inr message \<Rightarrow> handleMessage lib message now answer pendingNonce pendingSent edge)"
| "sessionStep lib (Tick now answer) pendingNonce pendingSent edge =
     (if pendingNonce \<noteq> 0 then ([], Return (Some ''peer heartbeat timed out''), edge)
      else
        let nonce = ed_nonce edge + 1;
            edge = edge\<lparr>ed_nonce := nonce\<rparr>;
            message = (emptyMessage TypePing)\<lparr>msg_Ping := Some \<lparr>hb_Nonce = nonce, hb_SentAt = now\<rparr>\<rparr>
        in case writeMessage lib message answer of
             Some e \<Rightarrow> ([], Return (Some e), edge)
           | None \<Rightarrow> ([message], Continue nonce now, edge))"
| "sessionStep lib (Dequeue now answer) pendingNonce pendingSent edge =
     (case ed_queue edge of
        [] \<Rightarrow> ([], Continue pendingNonce pendingSent, edge)
      | event # rest \<Rightarrow> sendEvent lib event now answer pendingNonce pendingSent (edge\<lparr>ed_queue := rest\<rparr>))"

text \<open>
  The loop of a session interleaved with the writes of the pipeline: the answers to the writes, the
  messages on the wire, and the outcome, which is still \<open>Continue\<close> when the events run out.
\<close>

datatype edge_event = PipelineWrite go_context NoteEvent | SessionEvent session_event

fun sessionLoop ::
  "edge_lib \<Rightarrow> edge_event list \<Rightarrow> u64 \<Rightarrow> time \<Rightarrow> Edge \<Rightarrow> write_error option list \<times> Message list \<times> session_outcome \<times> Edge" where
  "sessionLoop lib [] pendingNonce pendingSent edge = ([], [], Continue pendingNonce pendingSent, edge)"
| "sessionLoop lib (PipelineWrite ctx event # evs) pendingNonce pendingSent edge =
     (let (answer, edge) = Edge_Write ctx event edge;
          (answers, wire, outcome, edge) = sessionLoop lib evs pendingNonce pendingSent edge
      in (answer # answers, wire, outcome, edge))"
| "sessionLoop lib (SessionEvent ev # evs) pendingNonce pendingSent edge =
     (case sessionStep lib ev pendingNonce pendingSent edge of
        (wire, Continue nonce sent, edge) \<Rightarrow>
          let (answers, more, outcome, edge) = sessionLoop lib evs nonce sent edge in (answers, wire @ more, outcome, edge)
      | (wire, outcome, edge) \<Rightarrow> ([], wire, outcome, edge))"

definition writes :: "(go_context \<times> NoteEvent) list \<Rightarrow> Edge \<Rightarrow> Edge" where
  "writes ws edge = fold (\<lambda>(ctx, event) edge. snd (Edge_Write ctx event edge)) ws edge"

record edge_session =
  se_dial :: "string option"
  se_helloAnswer :: "string option"
  se_reply :: frame
  se_connectedAt :: time
  se_events :: "edge_event list"

definition markConnected :: "time \<Rightarrow> Hello \<Rightarrow> Edge \<Rightarrow> Edge" where
  "markConnected now hello edge =
     ed_observe (Connection ''outbound'' ''connected'')
       (setOutbound (\<lambda>s. s\<lparr>ob_State := ''connected'', ob_RemoteInstance := he_InstanceID hello,
          ob_ProtocolVersion := ProtocolVersion, ob_MappingVersion := he_MappingVersion hello, ob_ConnectedAt := now,
          ob_LastError := [], ob_NextRetryAt := 0\<rparr>) edge)"

text \<open>\<open>runSession\<close>: whether it connected, its outcome, and the edge.\<close>

definition runSession :: "edge_lib \<Rightarrow> edge_session \<Rightarrow> Edge \<Rightarrow> bool \<times> session_outcome \<times> Edge" where
  "runSession lib session edge =
     (let c = ed_config edge in
      case se_dial session of
        Some e \<Rightarrow> (False, Return (Some (''connect to peer host: '' @ e)), edge)
      | None \<Rightarrow>
        (case writeMessage lib ((emptyMessage TypeHello)\<lparr>msg_Hello := Some \<lparr>he_InstanceID = ec_InstanceID c, he_Role = ''edge'',
                he_MappingVersion = ec_MappingVersion c\<rparr>\<rparr>) (se_helloAnswer session) of
           Some e \<Rightarrow> (False, Return (Some (''send peer hello: '' @ e)), edge)
         | None \<Rightarrow>
           (case readMessage lib (se_reply session) of
              Inl e \<Rightarrow> (False, Return (Some (''read peer hello: '' @ e)), edge)
            | Inr reply \<Rightarrow>
              if msg_Type reply \<noteq> TypeHello then (False, Return (Some ''peer host did not return a host hello''), edge)
              else case msg_Hello reply of
                None \<Rightarrow> (False, Crash, edge)
              | Some hello \<Rightarrow>
                if he_Role hello \<noteq> ''host'' then (False, Return (Some ''peer host did not return a host hello''), edge)
                else if he_InstanceID hello = ec_InstanceID c
                then (False, Return (Some ''peer host instance ID must differ from the edge''), edge)
                else
                  let (_, _, outcome, edge) = sessionLoop lib (se_events session) 0 0 (markConnected (se_connectedAt session) hello edge)
                  in (True, outcome, edge))))"

section \<open>Reconnecting (Run)\<close>

text \<open>
  One turn of the loop of \<open>Run\<close>: its clock readings, the writes of the pipeline while it dials and while
  it waits, the session, whether the context is done after it, and the jitter.
\<close>

record attempt =
  at_now :: time
  at_dialing :: "(go_context \<times> NoteEvent) list"
  at_session :: edge_session
  at_cancelled :: bool
  at_jitter :: "duration \<Rightarrow> duration"
  at_now2 :: time
  at_waiting :: "(go_context \<times> NoteEvent) list"

definition markConnecting :: "time \<Rightarrow> Edge \<Rightarrow> Edge" where
  "markConnecting now edge =
     ed_observe (Connection ''outbound'' ''connecting'')
       (setOutbound (\<lambda>s. s\<lparr>ob_State := ''connecting'', ob_LastAttemptAt := now, ob_NextRetryAt := 0\<rparr>) edge)"

definition markBackoff :: "edge_lib \<Rightarrow> string option \<Rightarrow> time \<Rightarrow> Edge \<Rightarrow> Edge" where
  "markBackoff lib err retryAt edge =
     ed_observe (Connection ''outbound'' ''backoff'')
       (setOutbound (\<lambda>s. s\<lparr>ob_State := ''backoff'', ob_LastError := Edge_safeError lib (ed_config edge) err,
          ob_Reconnects := ob_Reconnects s + 1, ob_NextRetryAt := retryAt\<rparr>) edge)"

definition markDisconnected :: "Edge \<Rightarrow> Edge" where
  "markDisconnected edge =
     ed_observe (Connection ''outbound'' ''disconnected'')
       (setOutbound (\<lambda>s. s\<lparr>ob_State := ''disconnected'', ob_NextRetryAt := 0\<rparr>) edge)"

definition nextBackoff :: "EdgeConfig \<Rightarrow> duration \<Rightarrow> duration" where
  "nextBackoff c backoff =
     (let backoff = wrap64 (backoff * 2) in if backoff > ec_ReconnectLimit c then ec_ReconnectLimit c else backoff)"

definition retryDelay :: "(duration \<Rightarrow> duration) \<Rightarrow> duration \<Rightarrow> duration" where
  "retryDelay jitter backoff = (let delay = jitter backoff in if delay \<le> 0 then backoff else delay)"

text \<open>
  The loop, and the waits it made as pairs of the backoff and the jittered delay. When the attempts run
  out the context is done at the head of the loop; a session that has not returned leaves the edge as it
  is.
\<close>

fun runLoop :: "edge_lib \<Rightarrow> attempt list \<Rightarrow> duration \<Rightarrow> Edge \<Rightarrow> (duration \<times> duration) list \<times> Edge" where
  "runLoop lib [] backoff edge = ([], markDisconnected edge)"
| "runLoop lib (a # attempts) backoff edge =
     (let edge = writes (at_dialing a) (markConnecting (at_now a) edge) in
      case runSession lib (at_session a) edge of
        (linked, Return err, edge) \<Rightarrow>
          if at_cancelled a then ([], markDisconnected edge)
          else
            let backoff = (if linked then ec_ReconnectBase (ed_config edge) else backoff);
                delay = retryDelay (at_jitter a) backoff;
                edge = writes (at_waiting a) (markBackoff lib err (at_now2 a + delay) edge);
                (waits, edge) = runLoop lib attempts (nextBackoff (ed_config edge) backoff) edge
            in ((backoff, delay) # waits, edge)
      | (linked, outcome, edge) \<Rightarrow> ([], edge))"

definition Edge_Run :: "edge_lib \<Rightarrow> go_context \<Rightarrow> attempt list \<Rightarrow> Edge \<Rightarrow> write_error + (duration \<times> duration) list \<times> Edge" where
  "Edge_Run lib ctx attempts edge =
     (case ctx of
        NilContext \<Rightarrow> Inl WriteContextNil
      | LiveContext \<Rightarrow> Inr (runLoop lib attempts (ec_ReconnectBase (ed_config edge)) edge)
      | DoneContext _ \<Rightarrow> Inr (runLoop lib [] (ec_ReconnectBase (ed_config edge)) edge))"

definition Edge_Snapshot :: "time \<Rightarrow> Edge \<Rightarrow> OutboundSnapshot \<times> Edge" where
  "Edge_Snapshot now edge =
     (let (view, state) = outbound_copy now (int (length (ed_queue edge))) (ed_state edge)
      in (view, edge\<lparr>ed_state := state\<rparr>))"

section \<open>Accounting\<close>

text \<open>How often the edge reported an outcome of an outgoing note, and what its state keeps of it.\<close>

definition outCount :: "string \<Rightarrow> Edge \<Rightarrow> nat" where
  "outCount k edge = length (filter (\<lambda>e. e = PeerEvent ''outbound'' k) (ed_observed edge))"

definition edge_inv :: "Edge \<Rightarrow> bool" where
  "edge_inv edge \<longleftrightarrow>
     outCount ''queued'' edge = outCount ''sent'' edge + outCount ''dropped_stale'' edge + outCount ''failed'' edge + length (ed_queue edge) \<and>
     outCount ''invalid'' edge = 0 \<and>
     ob_SentTotal (os_snapshot (ed_state edge)) = of_nat (outCount ''sent'' edge) \<and>
     ob_DroppedStale (os_snapshot (ed_state edge)) = of_nat (outCount ''dropped_stale'' edge) \<and>
     ob_DroppedFull (os_snapshot (ed_state edge)) = of_nat (outCount ''dropped_full'' edge) \<and>
     int (length (ed_queue edge)) \<le> ec_QueueCapacity (ed_config edge) \<and>
     (\<forall>event \<in> set (ed_queue edge). validateEvent event = None) \<and>
     length (os_recent (ed_state edge)) \<le> maximumRateSamples \<and> length (os_channels (ed_state edge)) = 16"

lemma edge_frame [simp]:
  "ed_config (ed_observe e edge) = ed_config edge" "ed_queue (ed_observe e edge) = ed_queue edge"
  "ed_state (ed_observe e edge) = ed_state edge" "ed_nonce (ed_observe e edge) = ed_nonce edge"
  "ed_config (setOutbound f edge) = ed_config edge" "ed_queue (setOutbound f edge) = ed_queue edge"
  "os_snapshot (ed_state (setOutbound f edge)) = f (os_snapshot (ed_state edge))" "ed_nonce (setOutbound f edge) = ed_nonce edge"
  "os_recent (ed_state (setOutbound f edge)) = os_recent (ed_state edge)"
  "os_channels (ed_state (setOutbound f edge)) = os_channels (ed_state edge)"
  "ed_config (observeQueue edge) = ed_config edge" "ed_queue (observeQueue edge) = ed_queue edge"
  "ed_state (observeQueue edge) = ed_state edge" "ed_nonce (observeQueue edge) = ed_nonce edge"
  by (simp_all add: ed_observe_def setOutbound_def observeQueue_def)

lemma outCount_frame [simp]:
  "outCount k (ed_observe e edge) = outCount k edge + (if e = PeerEvent ''outbound'' k then 1 else 0)"
  "outCount k (setOutbound f edge) = outCount k edge" "outCount k (observeQueue edge) = outCount k edge"
  "outCount k (edge\<lparr>ed_queue := q\<rparr>) = outCount k edge" "outCount k (edge\<lparr>ed_state := s\<rparr>) = outCount k edge"
  "outCount k (edge\<lparr>ed_nonce := x\<rparr>) = outCount k edge"
  by (simp_all add: outCount_def ed_observe_def setOutbound_def observeQueue_def)

lemma NewEdge_inv: "NewEdge lib c = Inr edge \<Longrightarrow> edge_inv edge \<and> ed_config edge = c"
  by (auto simp: NewEdge_def edge_inv_def outCount_def newOutboundState_def maximumRateSamples_def split: if_splits option.splits)

lemma Edge_Write_inv:
  "edge_inv edge \<Longrightarrow> Edge_Write ctx event edge = (answer, edge') \<Longrightarrow> edge_inv edge' \<and> ed_config edge' = ed_config edge"
  by (auto simp: Edge_Write_def edge_inv_def split: go_context.splits option.splits if_splits)

lemma Edge_Write_queue:
  "Edge_Write ctx event edge = (answer, edge') \<Longrightarrow>
     ed_queue edge' = ed_queue edge @ (if answer = None then [event] else []) \<and> ed_nonce edge' = ed_nonce edge"
  by (auto simp: Edge_Write_def split: go_context.splits option.splits if_splits)

lemma marks_inv [simp]:
  "edge_inv (markConnecting now edge) = edge_inv edge" "edge_inv (markConnected now hello edge) = edge_inv edge"
  "edge_inv (markBackoff lib err retryAt edge) = edge_inv edge" "edge_inv (markDisconnected edge) = edge_inv edge"
  by (simp_all add: markConnecting_def markConnected_def markBackoff_def markDisconnected_def edge_inv_def)

lemma marks_config [simp]:
  "ed_config (markConnecting now edge) = ed_config edge" "ed_config (markConnected now hello edge) = ed_config edge"
  "ed_config (markBackoff lib err retryAt edge) = ed_config edge" "ed_config (markDisconnected edge) = ed_config edge"
  by (simp_all add: markConnecting_def markConnected_def markBackoff_def markDisconnected_def)

lemma readMessage_valid: "readMessage lib frame = Inr message \<Longrightarrow> Message_Validate message = None"
  by (auto simp: readMessage_def Decode_def split: sum.splits if_splits option.splits prod.splits)

lemma valid_payloads:
  "Message_Validate message = None \<Longrightarrow> msg_Type message = TypePong \<Longrightarrow>
     \<exists>pong. msg_Pong message = Some pong \<and> hb_Nonce pong \<noteq> 0"
  "Message_Validate message = None \<Longrightarrow> msg_Type message = TypeError \<Longrightarrow> msg_Error message \<noteq> None"
  "Message_Validate message = None \<Longrightarrow> msg_Type message = TypeHello \<Longrightarrow> msg_Hello message \<noteq> None"
  by (auto simp: Message_Validate_def Heartbeat_validate_def TypePong_def TypeHello_def TypeNote_def TypePing_def TypeError_def
      split: if_splits option.splits)

lemma valid_channel:
  assumes "validateEvent event = None"
  shows "unat (ne_Channel event - 1) < 16"
proof -
  have c: "1 \<le> ne_Channel event" "ne_Channel event \<le> 16" using assms by (simp_all add: validateEvent_None NoteEvent_Validate_None)
  then have "unat (ne_Channel event - 1) = unat (ne_Channel event) - 1" by (simp add: unat_sub)
  moreover have "unat (ne_Channel event) \<le> 16" using c(2) by (simp add: word_le_nat_alt)
  ultimately show ?thesis by simp
qed

text \<open>The notes among the messages on the wire.\<close>

definition wireNotes :: "Message list \<Rightarrow> PeerNote list" where
  "wireNotes wire = concat (map (\<lambda>m. case msg_Note m of None \<Rightarrow> [] | Some note \<Rightarrow> [note]) wire)"

lemma wireNotes_append [simp]: "wireNotes (a @ b) = wireNotes a @ wireNotes b" "wireNotes [] = []"
  by (simp_all add: wireNotes_def)

lemma handleMessage_step:
  assumes "Message_Validate message = None" and "handleMessage lib message now answer n t edge = (wire, out, edge')"
  shows "out \<noteq> Crash" and "edge_inv edge' = edge_inv edge" and "ed_config edge' = ed_config edge"
    and "ed_queue edge' = ed_queue edge" and "ed_nonce edge' = ed_nonce edge" and "wireNotes wire = []"
    and "msg_Type message \<noteq> TypePong \<Longrightarrow> out = Continue n' t' \<Longrightarrow> n' = n"
  using assms(2) valid_payloads(1,2) [OF assms(1)]
  by (auto simp: edge_inv_def Let_def emptyMessage_def wireNotes_def split: if_splits option.splits)


lemma sendEvent_step:
  assumes inv: "edge_inv edge" and queue: "ed_queue edge = event # rest"
    and step: "sendEvent lib event now answer n t (edge\<lparr>ed_queue := rest\<rparr>) = (wire, out, edge')"
  shows "out \<noteq> Crash" and "edge_inv edge'" and "ed_config edge' = ed_config edge" and "ed_queue edge' = rest"
    and "ed_nonce edge' = ed_nonce edge" and "out = Continue n' t' \<Longrightarrow> n' = n"
    and "wireNotes wire = [] \<or> (\<exists>note. wireNotes wire = [note] \<and> NoteFromEvent event = Inr note \<and>
      time_Sub now (ne_CreatedAt event) \<le> ec_StaleAfter (ed_config edge))"
proof -
  have valid: "validateEvent event = None" "unat (ne_Channel event - 1) < 16"
    using inv queue valid_channel by (auto simp: edge_inv_def)
  then obtain pn where nt: "NoteFromEvent event = Inr pn" by (simp add: NoteFromEvent_def)
  consider (stale) "time_IsZero (ne_CreatedAt event) \<or> time_Sub now (ne_CreatedAt event) > ec_StaleAfter (ed_config edge)"
    | (failed) e where "\<not> (time_IsZero (ne_CreatedAt event) \<or> time_Sub now (ne_CreatedAt event) > ec_StaleAfter (ed_config edge))"
      "writeMessage lib ((emptyMessage TypeNote)\<lparr>msg_Note := Some pn\<rparr>) answer = Some e"
    | (sent) "\<not> (time_IsZero (ne_CreatedAt event) \<or> time_Sub now (ne_CreatedAt event) > ec_StaleAfter (ed_config edge))"
      "writeMessage lib ((emptyMessage TypeNote)\<lparr>msg_Note := Some pn\<rparr>) answer = None"
    by (cases "writeMessage lib ((emptyMessage TypeNote)\<lparr>msg_Note := Some pn\<rparr>) answer") auto
  then have "out \<noteq> Crash \<and> edge_inv edge' \<and> ed_config edge' = ed_config edge \<and> ed_queue edge' = rest \<and>
    ed_nonce edge' = ed_nonce edge \<and> (out = Continue n' t' \<longrightarrow> n' = n) \<and>
    (wireNotes wire = [] \<or> wireNotes wire = [pn] \<and> time_Sub now (ne_CreatedAt event) \<le> ec_StaleAfter (ed_config edge))"
  proof cases
    case stale
    then show ?thesis using step inv queue by (auto simp: sendEvent_def Let_def edge_inv_def)
  next
    case failed
    then show ?thesis using step inv queue nt by (auto simp: sendEvent_def Let_def edge_inv_def)
  next
    case sent
    then show ?thesis using step inv queue nt valid(2)
      by (auto simp: sendEvent_def Let_def edge_inv_def markSent_def appendRateSample_def emptyMessage_def wireNotes_def
          maximumRateSamples_def)
  qed
  then show "out \<noteq> Crash" "edge_inv edge'" "ed_config edge' = ed_config edge" "ed_queue edge' = rest"
    "ed_nonce edge' = ed_nonce edge" "out = Continue n' t' \<Longrightarrow> n' = n"
    "wireNotes wire = [] \<or> (\<exists>note. wireNotes wire = [note] \<and> NoteFromEvent event = Inr note \<and>
      time_Sub now (ne_CreatedAt event) \<le> ec_StaleAfter (ed_config edge))"
    using nt by auto
qed

text \<open>The wire form of an event that passed \<open>Write\<close>.\<close>

definition wireForm :: "NoteEvent \<Rightarrow> PeerNote" where
  "wireForm event = sum.projr (NoteFromEvent event)"

lemma sessionStep_inv:
  assumes inv: "edge_inv edge" and step: "sessionStep lib ev n t edge = (wire, out, edge')"
  shows "out \<noteq> Crash \<and> edge_inv edge' \<and> ed_config edge' = ed_config edge"
    and "\<exists>taken. ed_queue edge = taken @ ed_queue edge' \<and> subseq (wireNotes wire) (map wireForm taken)"
proof -
  have "(out \<noteq> Crash \<and> edge_inv edge' \<and> ed_config edge' = ed_config edge) \<and>
    (\<exists>taken. ed_queue edge = taken @ ed_queue edge' \<and> subseq (wireNotes wire) (map wireForm taken))"
  proof (cases ev)
    case CtxDone
    then show ?thesis using step inv by auto
  next
    case (Frame frame now answer)
    show ?thesis
    proof (cases "readMessage lib frame")
      case (Inr message)
      then have h: "handleMessage lib message now answer n t edge = (wire, out, edge')"
        using step Frame by (simp del: handleMessage.simps)
      from handleMessage_step [OF readMessage_valid [OF Inr] h] inv show ?thesis by simp
    qed (use step inv Frame in auto)
  next
    case (Tick now answer)
    then show ?thesis using step inv
      by (auto simp: edge_inv_def Let_def emptyMessage_def wireNotes_def split: if_splits option.splits)
  next
    case (Dequeue now answer)
    show ?thesis
    proof (cases "ed_queue edge")
      case (Cons event rest)
      then have h: "sendEvent lib event now answer n t (edge\<lparr>ed_queue := rest\<rparr>) = (wire, out, edge')" using step Dequeue by simp
      note s = sendEvent_step [OF inv Cons h]
      have "subseq (wireNotes wire) (map wireForm [event])" using s(7) by (auto simp: wireForm_def)
      then show ?thesis using s(1-4) Cons by (intro conjI exI [of _ "[event]"]) simp_all
    qed (use step inv Dequeue in auto)
  qed
  then show "out \<noteq> Crash \<and> edge_inv edge' \<and> ed_config edge' = ed_config edge"
    "\<exists>taken. ed_queue edge = taken @ ed_queue edge' \<and> subseq (wireNotes wire) (map wireForm taken)" by blast+
qed

text \<open>The events whose write was answered without an error, in order.\<close>

fun accepted :: "edge_event list \<Rightarrow> write_error option list \<Rightarrow> NoteEvent list" where
  "accepted (PipelineWrite ctx event # evs) (answer # answers) = (if answer = None then [event] else []) @ accepted evs answers"
| "accepted (SessionEvent ev # evs) answers = accepted evs answers"
| "accepted _ _ = []"

lemma accepted_none [simp]: "accepted evs [] = []"
  by (induction evs "[] :: write_error option list" rule: accepted.induct) auto

lemma sessionLoop_inv:
  "edge_inv edge \<Longrightarrow> sessionLoop lib evs n t edge = (answers, wire, out, edge') \<Longrightarrow>
     out \<noteq> Crash \<and> edge_inv edge' \<and> ed_config edge' = ed_config edge \<and>
     (\<exists>taken. ed_queue edge @ accepted evs answers = taken @ ed_queue edge' \<and> subseq (wireNotes wire) (map wireForm taken))"
proof (induction lib evs n t edge arbitrary: answers wire out edge' rule: sessionLoop.induct)
  case (1 lib n t edge)
  then show ?case by auto
next
  case (2 lib ctx event evs n t edge)
  obtain a e1 where w: "Edge_Write ctx event edge = (a, e1)" by force
  obtain as wr o1 e2 where l: "sessionLoop lib evs n t e1 = (as, wr, o1, e2)" by (metis prod_cases4)
  have eq: "answers = a # as" "wire = wr" "out = o1" "edge' = e2" using "2.prems"(2) w l by simp_all
  note i = Edge_Write_inv [OF "2.prems"(1) w] Edge_Write_queue [OF w]
  from "2.IH" [OF w [symmetric] refl _ l] i show ?case by (auto simp: eq)
next
  case (3 lib ev evs n t edge)
  obtain w1 o1 e1 where s: "sessionStep lib ev n t edge = (w1, o1, e1)" by (metis prod_cases3)
  note i = sessionStep_inv [OF "3.prems"(1) s]
  show ?case
  proof (cases o1)
    case (Continue n1 t1)
    obtain as wr o2 e2 where l: "sessionLoop lib evs n1 t1 e1 = (as, wr, o2, e2)" by (metis prod_cases4)
    have eq: "answers = as" "wire = w1 @ wr" "out = o2" "edge' = e2" using "3.prems"(2) s l Continue by simp_all
    from i(2) obtain t1' where a: "ed_queue edge = t1' @ ed_queue e1" "subseq (wireNotes w1) (map wireForm t1')" by blast
    from "3.IH" [OF s [symmetric] refl Continue _ l] i(1) obtain t2' where b: "o2 \<noteq> Crash" "edge_inv e2" "ed_config e2 = ed_config e1"
      "ed_queue e1 @ accepted evs as = t2' @ ed_queue e2" "subseq (wireNotes wr) (map wireForm t2')" by blast
    have "subseq (wireNotes wire) (map wireForm (t1' @ t2'))" using list_emb_append_mono [OF a(2) b(5)] by (simp add: eq)
    then show ?thesis using a b i(1) by (auto simp: eq intro!: exI [of _ "t1' @ t2'"])
  qed (use "3.prems"(2) s i in auto)
qed


lemma writes_inv: "edge_inv edge \<Longrightarrow> edge_inv (writes ws edge) \<and> ed_config (writes ws edge) = ed_config edge"
proof (induction ws arbitrary: edge)
  case (Cons w ws)
  obtain ctx event where w: "w = (ctx, event)" by force
  obtain a e1 where e1: "Edge_Write ctx event edge = (a, e1)" by force
  from Cons.IH [of e1] Edge_Write_inv [OF Cons.prems e1] show ?case by (simp add: writes_def w e1)
qed (simp add: writes_def)

lemma runSession_inv:
  assumes inv: "edge_inv edge" and run: "runSession lib session edge = (linked, out, edge')"
  shows "out \<noteq> Crash" and "edge_inv edge'" and "ed_config edge' = ed_config edge" and "se_dial session \<noteq> None \<Longrightarrow> \<not> linked"
    and "se_dial session \<noteq> None \<Longrightarrow> \<exists>err. out = Return err"
proof -
  have hello: "\<lbrakk>readMessage lib f = Inr m; msg_Type m = TypeHello; msg_Hello m = None\<rbrakk> \<Longrightarrow> False" for f m
    using valid_payloads(3) readMessage_valid by blast
  have loop: "o1 \<noteq> Crash \<and> edge_inv e1 \<and> ed_config e1 = ed_config edge"
    if "sessionLoop lib (se_events session) 0 0 (markConnected now h edge) = (as, wr, o1, e1)" for now h as wr o1 e1
    using sessionLoop_inv [OF _ that] inv by simp
  have "out \<noteq> Crash \<and> edge_inv edge' \<and> ed_config edge' = ed_config edge"
    using run inv by (auto simp: runSession_def Let_def dest: hello dest!: loop split: option.splits sum.splits if_splits prod.splits)
  then show "out \<noteq> Crash" "edge_inv edge'" "ed_config edge' = ed_config edge" by auto
  show "se_dial session \<noteq> None \<Longrightarrow> \<not> linked" "se_dial session \<noteq> None \<Longrightarrow> \<exists>err. out = Return err"
    using run by (auto simp: runSession_def Let_def)
qed

section \<open>Reconnecting\<close>

lemma nextBackoff_eq:
  "0 < b \<Longrightarrow> b \<le> ec_ReconnectLimit c \<Longrightarrow> ec_ReconnectLimit c \<le> maxInt64 div 2 \<Longrightarrow>
     nextBackoff c b = min (ec_ReconnectLimit c) (2 * b)"
  by (simp add: nextBackoff_def Let_def int64_def minInt64_def maxInt64_def min_def)

definition backoffOK :: "EdgeConfig \<Rightarrow> bool" where
  "backoffOK c \<longleftrightarrow> 0 < ec_ReconnectBase c \<and> ec_ReconnectBase c \<le> ec_ReconnectLimit c \<and> ec_ReconnectLimit c \<le> maxInt64 div 2"

text \<open>What one attempt does to the rest of the run.\<close>

lemma runLoop_Cons:
  assumes inv: "edge_inv edge" and run: "runLoop lib (a # attempts) b edge = (waits, edge')"
  obtains (stop) "waits = []" "edge_inv edge'" "ed_config edge' = ed_config edge" "at_cancelled a \<or> se_dial (at_session a) = None"
  | (wait) b' waits' edge1 where "waits = (b', retryDelay (at_jitter a) b') # waits'"
      "b' = b \<or> se_dial (at_session a) = None \<and> b' = ec_ReconnectBase (ed_config edge)" "edge_inv edge1"
      "ed_config edge1 = ed_config edge" "runLoop lib attempts (nextBackoff (ed_config edge) b') edge1 = (waits', edge')"
proof -
  let ?e = "writes (at_dialing a) (markConnecting (at_now a) edge)"
  have e: "edge_inv ?e" "ed_config ?e = ed_config edge" using writes_inv [of "markConnecting (at_now a) edge"] inv by simp_all
  obtain linked out e1 where s: "runSession lib (at_session a) ?e = (linked, out, e1)" by (metis prod_cases3)
  note r = runSession_inv [OF e(1) s]
  show ?thesis
  proof (cases "at_cancelled a \<or> (\<forall>err. out \<noteq> Return err)")
    case True
    then have "waits = [] \<and> (edge' = e1 \<or> edge' = markDisconnected e1)" using run s by (auto split: session_outcome.splits)
    then show ?thesis using stop r True e by (cases "se_dial (at_session a)") auto
  next
    case False
    then obtain err where err: "out = Return err" by blast
    let ?b = "if linked then ec_ReconnectBase (ed_config e1) else b"
    let ?m = "markBackoff lib err (at_now2 a + retryDelay (at_jitter a) ?b) e1"
    have e2: "edge_inv (writes (at_waiting a) ?m)" "ed_config (writes (at_waiting a) ?m) = ed_config edge"
      using writes_inv [of ?m "at_waiting a"] r e by simp_all
    obtain ws e3 where l: "runLoop lib attempts (nextBackoff (ed_config edge) ?b) (writes (at_waiting a) ?m) = (ws, e3)" by force
    have "waits = (?b, retryDelay (at_jitter a) ?b) # ws" "edge' = e3"
      using run s err False l e2(2) by (simp_all add: Let_def)
    moreover have "?b = b \<or> se_dial (at_session a) = None \<and> ?b = ec_ReconnectBase (ed_config edge)"
      using r(3,4) e(2) by auto
    ultimately show ?thesis using wait [of ?b ws "writes (at_waiting a) ?m"] e2 l by simp
  qed
qed

lemma runLoop_inv: "edge_inv edge \<Longrightarrow> runLoop lib attempts b edge = (waits, edge') \<Longrightarrow> edge_inv edge' \<and> ed_config edge' = ed_config edge"
proof (induction attempts arbitrary: b edge waits)
  case (Cons a attempts)
  from Cons.prems show ?case
  proof (cases rule: runLoop_Cons)
    case (wait b' waits' edge1)
    then show ?thesis using Cons.IH [OF wait(3,5)] by simp
  qed simp
qed auto

lemma Edge_Run_inv:
  assumes "NewEdge lib c = Inr edge0" and "Edge_Run lib ctx attempts edge0 = Inr (waits, edge)"
  shows "edge_inv edge \<and> ed_config edge = c"
proof -
  have "\<exists>as b. runLoop lib as b edge0 = (waits, edge)"
    using assms(2) unfolding Edge_Run_def by (auto split: go_context.splits) (metis runLoop.simps(1))
  then show ?thesis using runLoop_inv NewEdge_inv [OF assms(1)] by metis
qed

lemma runLoop_backoff:
  "edge_inv edge \<Longrightarrow> ed_config edge = c \<Longrightarrow> backoffOK c \<Longrightarrow> ec_ReconnectBase c \<le> b \<Longrightarrow> b \<le> ec_ReconnectLimit c \<Longrightarrow>
   runLoop lib attempts b edge = (waits, edge') \<Longrightarrow>
     (\<forall>w \<in> set waits. ec_ReconnectBase c \<le> fst w \<and> fst w \<le> ec_ReconnectLimit c \<and> 0 < snd w) \<and>
     (\<forall>i. Suc i < length waits \<longrightarrow> fst (waits ! Suc i) \<in> {ec_ReconnectBase c, min (ec_ReconnectLimit c) (2 * fst (waits ! i))}) \<and>
     (waits \<noteq> [] \<longrightarrow> fst (hd waits) \<in> {b, ec_ReconnectBase c})"
proof (induction attempts arbitrary: b edge waits)
  case (Cons a attempts)
  from Cons.prems(1,6) show ?case
  proof (cases rule: runLoop_Cons)
    case (wait b' waits' edge1)
    have b': "ec_ReconnectBase c \<le> b'" "b' \<le> ec_ReconnectLimit c" "0 < b'" using wait(2) Cons.prems by (auto simp: backoffOK_def)
    have nx: "nextBackoff c b' = min (ec_ReconnectLimit c) (2 * b')"
      using nextBackoff_eq [of b' c] b' Cons.prems(3) by (simp add: backoffOK_def)
    then have nxb: "ec_ReconnectBase c \<le> nextBackoff c b'" "nextBackoff c b' \<le> ec_ReconnectLimit c"
      using b' Cons.prems(3) by (auto simp: backoffOK_def)
    have "ed_config edge1 = c" using wait(4) Cons.prems(2) by simp
    note ih = Cons.IH [OF wait(3) this Cons.prems(3) nxb wait(5) [unfolded Cons.prems(2)]]
    have d: "0 < retryDelay (at_jitter a) b'" using b' by (simp add: retryDelay_def Let_def)
    have step: "fst (waits ! Suc i) \<in> {ec_ReconnectBase c, min (ec_ReconnectLimit c) (2 * fst (waits ! i))}" if "Suc i < length waits" for i
    proof (cases i)
      case 0
      then have "waits' \<noteq> []" "waits' ! 0 = hd waits'" using that wait(1) by (auto simp: hd_conv_nth)
      then show ?thesis using ih nx wait(1) 0 by auto
    next
      case (Suc j)
      then show ?thesis using ih that wait(1) by auto
    qed
    show ?thesis using ih wait(1,2) b' d step Cons.prems(2) by auto
  qed simp
qed auto

lemma min_double: "0 \<le> (l :: int) \<Longrightarrow> min l (2 * min l x) = min l (2 * x)"
  by (simp add: min_def)

lemma runLoop_refused:
  "edge_inv edge \<Longrightarrow> ed_config edge = c \<Longrightarrow> backoffOK c \<Longrightarrow>
   (\<forall>a \<in> set attempts. se_dial (at_session a) \<noteq> None \<and> \<not> at_cancelled a) \<Longrightarrow>
   runLoop lib attempts (min (ec_ReconnectLimit c) (ec_ReconnectBase c * 2 ^ k)) edge = (waits, edge') \<Longrightarrow>
     map fst waits = map (\<lambda>i. min (ec_ReconnectLimit c) (ec_ReconnectBase c * 2 ^ (k + i))) [0..<length attempts]"
proof (induction attempts arbitrary: edge waits k)
  case (Cons a attempts)
  let ?b = "min (ec_ReconnectLimit c) (ec_ReconnectBase c * 2 ^ k)"
  from Cons.prems(1,5) show ?case
  proof (cases rule: runLoop_Cons)
    case (wait b' waits' edge1)
    have b': "b' = ?b" using wait(2) Cons.prems(4) by auto
    have ok: "0 < ec_ReconnectBase c" "ec_ReconnectBase c \<le> ec_ReconnectLimit c" "ec_ReconnectLimit c \<le> maxInt64 div 2"
      using Cons.prems(3) by (simp_all add: backoffOK_def)
    have "nextBackoff c ?b = min (ec_ReconnectLimit c) (2 * ?b)" by (rule nextBackoff_eq) (use ok in auto)
    also have "\<dots> = min (ec_ReconnectLimit c) (ec_ReconnectBase c * 2 ^ Suc k)" using ok by (subst min_double) (auto simp: mult.left_commute)
    finally have "runLoop lib attempts (min (ec_ReconnectLimit c) (ec_ReconnectBase c * 2 ^ Suc k)) edge1 = (waits', edge')"
      using wait(5) Cons.prems(2) b' by simp
    from Cons.IH [OF wait(3) _ Cons.prems(3) _ this] wait(4) Cons.prems(2,4)
    have "map fst waits' = map (\<lambda>i. min (ec_ReconnectLimit c) (ec_ReconnectBase c * 2 ^ (Suc k + i))) [0..<length attempts]" by simp
    then show ?thesis using wait(1) b' by (simp add: upt_conv_Cons map_Suc_upt [symmetric] del: upt_Suc)
  qed (use Cons.prems(4) in auto)
qed auto


section \<open>Heartbeats\<close>

text \<open>An event that does not carry the answer to a ping.\<close>

fun silent :: "edge_lib \<Rightarrow> edge_event \<Rightarrow> bool" where
  "silent lib (SessionEvent (Frame frame now answer)) = (case readMessage lib frame of Inl _ \<Rightarrow> True | Inr message \<Rightarrow> msg_Type message \<noteq> TypePong)"
| "silent lib _ = True"

lemma sendEvent_frame:
  "sendEvent lib event now answer n t edge = (wire, out, edge') \<Longrightarrow>
     ed_nonce edge' = ed_nonce edge \<and> (\<forall>n' t'. out = Continue n' t' \<longrightarrow> n' = n)"
  by (auto simp: sendEvent_def Let_def markSent_def split: if_splits sum.splits option.splits)

lemma sessionStep_nonce:
  assumes "sessionStep lib ev n t edge = (wire, out, edge')"
  shows "ed_nonce edge' = ed_nonce edge \<or> ed_nonce edge' = ed_nonce edge + 1"
proof (cases ev)
  case (Frame frame now answer)
  then show ?thesis using assms
    by (auto simp del: handleMessage.simps dest: handleMessage_step(5) [OF readMessage_valid] split: sum.splits)
next
  case (Dequeue now answer)
  then show ?thesis using assms sendEvent_frame by (fastforce split: list.splits)
qed (use assms in \<open>auto simp: Let_def split: if_splits option.splits\<close>)

lemma sessionStep_pending:
  assumes "sessionStep lib ev n t edge = (wire, Continue n' t', edge')" and "silent lib (SessionEvent ev)" and "n \<noteq> 0"
  shows "n' = n"
proof (cases ev)
  case (Frame frame now answer)
  then show ?thesis using assms
    by (auto simp del: handleMessage.simps dest: handleMessage_step(7) [OF readMessage_valid] split: sum.splits)
next
  case (Dequeue now answer)
  then show ?thesis using assms sendEvent_frame by (fastforce split: list.splits)
qed (use assms in auto)

text \<open>How the loop continues after a part of its events.\<close>

abbreviation loopEnd :: "edge_lib \<Rightarrow> edge_event list \<Rightarrow> u64 \<Rightarrow> time \<Rightarrow> Edge \<Rightarrow> session_outcome \<times> Edge" where
  "loopEnd lib evs n t edge \<equiv> snd (snd (sessionLoop lib evs n t edge))"

lemma loopEnd_write: "loopEnd lib (PipelineWrite ctx event # evs) n t edge = loopEnd lib evs n t (snd (Edge_Write ctx event edge))"
  by (simp split: prod.split)

lemma loopEnd_step:
  "loopEnd lib (SessionEvent ev # evs) n t edge =
     (case sessionStep lib ev n t edge of
        (_, Continue n' t', edge') \<Rightarrow> loopEnd lib evs n' t' edge' | (_, out, edge') \<Rightarrow> (out, edge'))"
  by (simp split: prod.split session_outcome.split)

lemma loopEnd_append:
  "loopEnd lib (pre @ post) n t edge =
     (case loopEnd lib pre n t edge of (Continue n' t', edge') \<Rightarrow> loopEnd lib post n' t' edge' | (out, edge') \<Rightarrow> (out, edge'))"
proof (induction pre arbitrary: n t edge)
  case (Cons e pre)
  then show ?case
    by (cases e) (simp_all only: append_Cons loopEnd_write loopEnd_step split: prod.split session_outcome.split, auto)
qed simp

lemma loopEnd_pending:
  "\<forall>e \<in> set evs. silent lib e \<Longrightarrow> n \<noteq> 0 \<Longrightarrow> loopEnd lib evs n t edge = (Continue n' t', edge') \<Longrightarrow> n' = n"
proof (induction evs arbitrary: n t edge)
  case (Cons e evs)
  show ?case
  proof (cases e)
    case (PipelineWrite ctx event)
    then show ?thesis using Cons.IH [OF _ Cons.prems(2)] Cons.prems by (simp only: loopEnd_write list.set) blast
  next
    case (SessionEvent ev)
    obtain w o1 e1 where s: "sessionStep lib ev n t edge = (w, o1, e1)" by (metis prod_cases3)
    obtain n1 t1 where c: "o1 = Continue n1 t1" "loopEnd lib evs n1 t1 e1 = (Continue n' t', edge')"
      using Cons.prems(3) s by (simp only: SessionEvent loopEnd_step prod.case split: session_outcome.splits) auto
    have "n1 = n" using sessionStep_pending s c(1) Cons.prems(1,2) SessionEvent by auto
    then show ?thesis using Cons.IH [OF _ Cons.prems(2) c(2) [unfolded \<open>n1 = n\<close>]] Cons.prems(1) by simp
  qed
qed simp

lemma loopEnd_nonce:
  "unat (ed_nonce edge) + length evs < 2 ^ 64 \<Longrightarrow> loopEnd lib evs n t edge = (out, edge') \<Longrightarrow>
     unat (ed_nonce edge') \<le> unat (ed_nonce edge) + length evs"
proof (induction evs arbitrary: n t edge)
  case (Cons e evs)
  show ?case
  proof (cases e)
    case (PipelineWrite ctx event)
    have "ed_nonce (snd (Edge_Write ctx event edge)) = ed_nonce edge"
      using Edge_Write_queue [of ctx event edge] by (metis prod.collapse)
    then show ?thesis using Cons.IH [of "snd (Edge_Write ctx event edge)" n t] Cons.prems unfolding PipelineWrite loopEnd_write by simp
  next
    case (SessionEvent ev)
    obtain w o1 e1 where s: "sessionStep lib ev n t edge = (w, o1, e1)" by (metis prod_cases3)
    have "unat (ed_nonce edge + 1) = unat (ed_nonce edge) + 1" using Cons.prems(1) by (simp add: unat_word_ariths)
    then have m: "unat (ed_nonce e1) \<le> unat (ed_nonce edge) + 1" using sessionStep_nonce [OF s] by auto
    have "edge' = e1 \<or> (\<exists>n1 t1. loopEnd lib evs n1 t1 e1 = (out, edge'))"
      using Cons.prems(2) s by (simp only: SessionEvent loopEnd_step prod.case split: session_outcome.splits) auto
    then show ?thesis using Cons.IH [of e1] Cons.prems(1) m by fastforce
  qed
qed simp


lemma tick_outcome:
  assumes "sessionStep lib (Tick now answer) n t edge = (wire, Continue n' t', edge')" and "ed_nonce edge + 1 \<noteq> 0"
  shows "n' \<noteq> 0"
  using assms by (auto simp: Let_def split: if_splits option.splits)

section \<open>Samples\<close>

definition sampleURL :: URL where
  "sampleURL = \<lparr>url_Scheme = ''ws'', url_Host = ''host'', url_User = None, url_RawQuery = [], url_Fragment = [], url_rest = []\<rparr>"

definition sampleLib :: edge_lib where
  "sampleLib = \<lparr>el_json = pongCodec, el_errorText = (\<lambda>_. ''protocol error''), el_Parse = (\<lambda>_. Some sampleURL),
     el_String = (\<lambda>u. url_Scheme u @ ''://'' @ url_Host u @ url_rest u)\<rparr>"

definition sampleEdgeConfig :: EdgeConfig where
  "sampleEdgeConfig = \<lparr>ec_URL = ''ws://host'', ec_Token = ''0123456789abcdef'', ec_InstanceID = ''edge'',
     ec_MappingVersion = FlowModeV1, ec_QueueCapacity = 2, ec_StaleAfter = 10, ec_ReconnectBase = 3, ec_ReconnectLimit = 20\<rparr>"

definition sampleEdge :: Edge where
  "sampleEdge = sum.projr (NewEdge sampleLib sampleEdgeConfig)"

lemma sampleEdge_new: "NewEdge sampleLib sampleEdgeConfig = Inr sampleEdge"
  using wireEvent_safe(2) by (simp add: sampleEdge_def NewEdge_def sampleEdgeConfig_def sampleLib_def sampleURL_def)

definition refusedAttempt :: attempt where
  "refusedAttempt = \<lparr>at_now = 1, at_dialing = [(LiveContext, wireEvent)], at_session = \<lparr>se_dial = Some ''refused'',
     se_helloAnswer = None, se_reply = Inl ''closed'', se_connectedAt = 0, se_events = []\<rparr>, at_cancelled = False,
     at_jitter = (\<lambda>d. d), at_now2 = 2, at_waiting = []\<rparr>"

section \<open>Properties\<close>

text \<open>
  C9. The edge loses no note silently. Whatever the connection, the host and the pipeline do during a run,
  every note it accepted was sent, was dropped as stale, failed in the write that ended a session, or is
  still queued; the snapshot's totals count exactly the sent, stale and rejected-as-full notes; the queue
  stays within its capacity and holds only valid notes; and the buffers of the snapshot stay bounded.
\<close>

theorem Edge_accounting:
  assumes "NewEdge lib c = Inr edge0" and "Edge_Run lib ctx attempts edge0 = Inr (waits, edge)"
  shows "outCount ''queued'' edge = outCount ''sent'' edge + outCount ''dropped_stale'' edge + outCount ''failed'' edge + length (ed_queue edge) \<and>
    ob_SentTotal (os_snapshot (ed_state edge)) = of_nat (outCount ''sent'' edge) \<and>
    ob_DroppedStale (os_snapshot (ed_state edge)) = of_nat (outCount ''dropped_stale'' edge) \<and>
    ob_DroppedFull (os_snapshot (ed_state edge)) = of_nat (outCount ''dropped_full'' edge) \<and>
    int (length (ed_queue edge)) \<le> ec_QueueCapacity c \<and> (\<forall>event \<in> set (ed_queue edge). validateEvent event = None) \<and>
    length (os_recent (ed_state edge)) \<le> 4096"
proof -
  from Edge_Run_inv [OF assms] show ?thesis by (auto simp: edge_inv_def maximumRateSamples_def)
qed

theorem Edge_accounting_witness:
  "\<exists>waits edge. Edge_Run sampleLib LiveContext [refusedAttempt] sampleEdge = Inr (waits, edge) \<and>
     outCount ''queued'' edge = outCount ''sent'' edge + outCount ''dropped_stale'' edge + outCount ''failed'' edge + length (ed_queue edge)"
proof -
  obtain waits edge where r: "Edge_Run sampleLib LiveContext [refusedAttempt] sampleEdge = Inr (waits, edge)"
    by (metis Edge_Run_def go_context.simps(9) surj_pair)
  from Edge_accounting [OF sampleEdge_new r] r show ?thesis by blast
qed

text \<open>
  Order on the wire, and no crash. In a session the events taken from the queue are, in order, a
  prefix of what was queued before followed by what \<open>Write\<close> accepted meanwhile, the rest is the queue that
  remains, and the notes on the wire are the wire forms of taken events in the same order, none twice and
  none invented. No frame from the host and no event makes the session panic.
\<close>

theorem Session_fifo:
  assumes "NewEdge lib c = Inr edge0" and "Edge_Run lib ctx attempts edge0 = Inr (waits, edge)"
    and "sessionLoop lib evs nonce sent edge = (answers, wire, out, edge')"
  shows "out \<noteq> Crash \<and> (\<exists>taken. ed_queue edge @ accepted evs answers = taken @ ed_queue edge' \<and>
    subseq (wireNotes wire) (map wireForm taken))"
proof -
  have "edge_inv edge" using Edge_Run_inv [OF assms(1,2)] by simp
  from sessionLoop_inv [OF this assms(3)] show ?thesis by simp
qed

theorem Session_fifo_witness:
  "\<exists>waits edge answers wire out edge'. Edge_Run sampleLib LiveContext [] sampleEdge = Inr (waits, edge) \<and>
     sessionLoop sampleLib [PipelineWrite LiveContext wireEvent, SessionEvent (Frame (Inl ''eof'') 1 None)] 0 0 edge =
       (answers, wire, out, edge') \<and> out \<noteq> Crash \<and> answers = [None] \<and> ed_queue edge' = [wireEvent]"
proof -
  obtain waits edge where r: "Edge_Run sampleLib LiveContext [] sampleEdge = Inr (waits, edge)" "waits = []" "edge = markDisconnected sampleEdge"
    by (simp add: Edge_Run_def)
  let ?evs = "[PipelineWrite LiveContext wireEvent, SessionEvent (Frame (Inl ''eof'') 1 None)]"
  obtain answers wire out edge' where l: "sessionLoop sampleLib ?evs 0 0 edge = (answers, wire, out, edge')" by (metis prod_cases4)
  have q: "ed_queue edge = []" "ec_QueueCapacity (ed_config edge) = 2"
    using r(3) NewEdge_inv [OF sampleEdge_new] wireEvent_safe(2)
    by (simp_all add: sampleEdge_def NewEdge_def markDisconnected_def sampleEdgeConfig_def sampleLib_def sampleURL_def)
  have "answers = [None]" "ed_queue edge' = [wireEvent]"
    using l q wireEvent_valid by (auto simp: Edge_Write_def readMessage_def)
  then show ?thesis using Session_fifo [OF sampleEdge_new r(1) l] r l by blast
qed

text \<open>
  C27. A host that stops answering is noticed: if two heartbeats fall due in a session and no pong arrives
  between them, the session has returned by the second, whatever else happens before, between and after.
\<close>

theorem Heartbeat_timeout:
  assumes "\<forall>e \<in> set mid. silent lib e"
    and "unat (ed_nonce edge) + length pre < 2 ^ 64 - 1"
    and "sessionLoop lib (pre @ SessionEvent (Tick t1 a1) # mid @ SessionEvent (Tick t2 a2) # post) nonce sent edge = (answers, wire, out, edge')"
  shows "\<not> (\<exists>n t. out = Continue n t)"
proof
  let ?post = "SessionEvent (Tick t2 a2) # post"
  assume "\<exists>n t. out = Continue n t"
  then obtain n t where c: "loopEnd lib (pre @ SessionEvent (Tick t1 a1) # mid @ ?post) nonce sent edge = (Continue n t, edge')"
    using assms(3) by auto
  obtain n1 s1 e1 where p1: "loopEnd lib pre nonce sent edge = (Continue n1 s1, e1)"
    and c1: "loopEnd lib (SessionEvent (Tick t1 a1) # mid @ ?post) n1 s1 e1 = (Continue n t, edge')"
    using c unfolding loopEnd_append [of lib pre] by (auto split: prod.splits session_outcome.splits)
  have "unat (ed_nonce e1) < 2 ^ 64 - 1" using loopEnd_nonce [OF _ p1] assms(2) by simp
  then have "unat (ed_nonce e1 + 1) = unat (ed_nonce e1) + 1" by (simp add: unat_word_ariths)
  then have n0: "ed_nonce e1 + 1 \<noteq> 0" by (metis Suc_eq_plus1 nat.distinct(1) unat_0)
  obtain w2 n2 s2 e2 where p2: "sessionStep lib (Tick t1 a1) n1 s1 e1 = (w2, Continue n2 s2, e2)"
    and c2: "loopEnd lib (mid @ ?post) n2 s2 e2 = (Continue n t, edge')"
    using c1 unfolding loopEnd_step by (auto split: prod.splits session_outcome.splits)
  obtain n3 s3 e3 where p3: "loopEnd lib mid n2 s2 e2 = (Continue n3 s3, e3)"
    and c3: "loopEnd lib ?post n3 s3 e3 = (Continue n t, edge')"
    using c2 unfolding loopEnd_append [of lib mid] by (auto split: prod.splits session_outcome.splits)
  have "n3 \<noteq> 0" using loopEnd_pending [OF assms(1) _ p3] tick_outcome [OF p2 n0] by simp
  then show False using c3 unfolding loopEnd_step by simp
qed

theorem Heartbeat_timeout_witness:
  "\<exists>answers wire out edge'. sessionLoop sampleLib ([] @ SessionEvent (Tick 1 None) #
     [PipelineWrite LiveContext wireEvent] @ SessionEvent (Tick 2 None) # []) 0 0 sampleEdge = (answers, wire, out, edge') \<and>
     \<not> (\<exists>n t. out = Continue n t)"
proof -
  let ?evs = "[] @ SessionEvent (Tick 1 None) # [PipelineWrite LiveContext wireEvent] @ SessionEvent (Tick 2 None) # []"
  obtain answers wire out edge' where l: "sessionLoop sampleLib ?evs 0 0 sampleEdge = (answers, wire, out, edge')" by (metis prod_cases4)
  have "ed_nonce sampleEdge = 0" using wireEvent_safe(2) by (simp add: sampleEdge_def NewEdge_def sampleEdgeConfig_def sampleLib_def sampleURL_def)
  then have "\<not> (\<exists>n t. out = Continue n t)" by (intro Heartbeat_timeout [OF _ _ l]) simp_all
  then show ?thesis using l by blast
qed



lemma replaceAll_absent: "last old \<notin> set s \<Longrightarrow> replaceAll s old new = s"
proof (induction s)
  case (Cons c s)
  have "\<not> hasPrefix (c # s) old" if "old \<noteq> []"
    using Cons.prems last_in_set [OF that] set_take_subset [of "length old" "c # s"] by (auto simp: hasPrefix_def)
  then show ?case using Cons by (auto simp: replaceAll.simps [of "c # s"])
qed (simp add: replaceAll.simps)

text \<open>
  The error text an edge publishes is cut to 256 bytes before its token is redacted, so a token that
  straddles the cut is not recognised: of this text with the sixteen-byte token at its end, fifteen bytes
  of the token remain.
\<close>

theorem Edge_safeError_cut_token:
  "Edge_safeError sampleLib sampleEdgeConfig (Some (replicate 241 CHR ''x'' @ ec_Token sampleEdgeConfig)) =
     replicate 241 CHR ''x'' @ ''0123456789abcde''"
proof -
  let ?text = "replicate 241 CHR ''x'' @ ec_Token sampleEdgeConfig"
  have "strings_TrimSpace ?text = ?text"
    by (rule TrimSpace_plain) (simp_all add: sampleEdgeConfig_def plain_def hd_append)
  then have cut: "safeError (Some ?text) = replicate 241 CHR ''x'' @ ''0123456789abcde''"
    by (simp add: safeError_def sampleEdgeConfig_def)
  show ?thesis unfolding Edge_safeError_def Let_def cut by (simp add: replaceAll_absent sampleEdgeConfig_def)
qed

end
