(* ===== verification/App.thy ===== *)
theory App
  imports Safety Pipeline_Spec Midi_Runtime Peer_Edge
begin

text \<open>
  internal/app/components.go with the parts of app.go and runtime_peer.go that put the runtime together and
  take it apart: the construction of the packet path, of the MIDI output and of the peers from one
  configuration, the filter for errors that are expected at shutdown, and the supervisor that stops the
  components in order. The errors of components are trees of wrapped and joined errors.
\<close>

section \<open>Constructing the components (components.go)\<close>

datatype app_error =
    InitPolicy policy_error
  | InitRegistry registry_error
  | InitMapper mapper_error
  | InitPipeline pipeline_error
  | InitDriver string
  | DriverUnavailable
  | InitManager manager_error
  | InitScheduler scheduler_error
  | CloseDriver string
  | InitEdge edge_error
  | InitHost host_error
  | SinkUnavailable
  | RoleUnsupported string

record 'd processingComponents =
  pcs_registry :: Registry
  pcs_mapper :: Mapper
  pcs_controller :: "'d Controller"

definition newProcessingComponents ::
  "yaml_lib \<Rightarrow> Config \<Rightarrow> 'd Controller option \<Rightarrow> 'd \<Rightarrow> (app_error + 'd processingComponents) \<times> 'd" where
  "newProcessingComponents lib configuration controller d =
     (case (case controller of Some c \<Rightarrow> (Inr c, d) | None \<Rightarrow> newController lib configuration None None d) of
        (Inl e, d) \<Rightarrow> (Inl (InitPolicy e), d)
      | (Inr controller, d) \<Rightarrow>
        let configuration = do_Config (Current controller) in
        case NewRegistry \<lparr>rc_Seed = mac_Seed (cf_Mapping configuration),
               rc_Capacity = pc_FlowRegistryCapacity (cf_Performance configuration), rc_TTL = pc_FlowTTL (cf_Performance configuration)\<rparr> of
          Inl e \<Rightarrow> (Inl (InitRegistry e), d)
        | Inr registry \<Rightarrow>
          (case NewMapper \<lparr>mc_Seed = mac_Seed (cf_Mapping configuration), mc_Origin = ic_ID (cf_Instance configuration),
                 mc_MinimumNote = mac_MinimumNote (cf_Mapping configuration), mc_MaximumNote = mac_MaximumNote (cf_Mapping configuration),
                 mc_MinimumDuration = mac_MinimumDuration (cf_Mapping configuration),
                 mc_MaximumDuration = mac_MaximumDuration (cf_Mapping configuration)\<rparr> of
             Inl e \<Rightarrow> (Inl (InitMapper e), d)
           | Inr mapper \<Rightarrow> (Inr \<lparr>pcs_registry = registry, pcs_mapper = mapper, pcs_controller = controller\<rparr>, d)))"

text \<open>The stages behind the pipeline: the selector is the policy store, which brings its own overlay.\<close>

type_synonym runtime_stages = "Registry \<times> policySnapshot \<times> Mapper"

definition runtimeStages :: "runtime_stages Stages" where
  "runtimeStages =
     \<lparr>st_Observe = (\<lambda>(r, s, m) event. case Registry_Observe r event of (res, r') \<Rightarrow> (res, r', s, m)),
      st_Expire = (\<lambda>(r, s, m) now. case Registry_Expire r now of (expired, r') \<Rightarrow> (expired, r', s, m)),
      st_Len = (\<lambda>(r, s, m). Registry_Len r), st_Evaluate = (\<lambda>(r, s, m) event overlay. policy_Evaluate s event),
      st_Map = (\<lambda>(r, s, m). Mapper_Map m)\<rparr>"

definition newProcessor :: "Config \<Rightarrow> 'd processingComponents \<Rightarrow> app_error + runtime_stages Processor" where
  "newProcessor configuration components =
     (case NewProcessor (pcs_registry components, co_current (pcs_controller components), pcs_mapper components)
         (pc_PacketQueueCapacity (cf_Performance configuration)) (pc_NoteQueueCapacity (cf_Performance configuration)) of
        Inl e \<Rightarrow> Inl (InitPipeline e)
      | Inr processor \<Rightarrow> Inr processor)"

text \<open>\<open>driver\<close> is what the driver's constructor answers, without a driver or with one in its initial state.\<close>

definition newMIDIComponents ::
  "config_lib \<Rightarrow> Config \<Rightarrow> string + 'w option \<Rightarrow> string option \<Rightarrow> app_error list + Manager \<times> 'w Runtime" where
  "newMIDIComponents lib configuration driver closeErr =
     (let closed = (case closeErr of None \<Rightarrow> [] | Some e \<Rightarrow> [CloseDriver e]) in
      case driver of
        Inl e \<Rightarrow> Inl [InitDriver e]
      | Inr None \<Rightarrow> Inl [DriverUnavailable]
      | Inr (Some w) \<Rightarrow>
        (case NewManager (cl_regexp lib) \<lparr>mcf_ExactDeviceName = mdc_ExactDeviceName (cf_MIDI configuration),
               mcf_DeviceNamePattern = mdc_DeviceNameRegexp (cf_MIDI configuration), mcf_PollInterval = mdc_PollInterval (cf_MIDI configuration)\<rparr> of
           Inl e \<Rightarrow> Inl (InitManager e # closed)
         | Inr manager \<Rightarrow>
           (case NewScheduler \<lparr>cf_MaximumNotesPerSecond = pc_MaximumNotesPerSecond (cf_Performance configuration),
                  cf_MaximumPolyphony = pc_MaximumPolyphony (cf_Performance configuration),
                  cf_MinimumRetriggerInterval = pc_MinimumRetriggerInterval (cf_Performance configuration)\<rparr> of
              Inl e \<Rightarrow> Inl (InitScheduler e # closed)
            | Inr scheduler \<Rightarrow> Inr (manager, NewRuntime manager scheduler w))))"

section \<open>Constructing the peers (runtime_peer.go)\<close>

definition hostDuplicateCapacity :: int where "hostDuplicateCapacity = 65536"

datatype runtimePeers = StaticPeers string | EdgePeer Edge | HostPeer Host

definition newRuntimePeers :: "edge_lib \<Rightarrow> Config \<Rightarrow> bool \<Rightarrow> app_error + runtimePeers" where
  "newRuntimePeers lib configuration hostSinkNil =
     (let peer = cf_Peer configuration; role = ic_Role (cf_Instance configuration) in
      if role = RoleStandalone then Inr (StaticPeers RoleStandalone)
      else if role = RoleEdge then
        (case NewEdge lib \<lparr>ec_URL = pec_URL peer, ec_Token = pec_Token peer, ec_InstanceID = ic_ID (cf_Instance configuration),
               ec_MappingVersion = mac_Version (cf_Mapping configuration), ec_QueueCapacity = pec_QueueCapacity peer,
               ec_StaleAfter = pec_StaleAfter peer, ec_ReconnectBase = pec_ReconnectBase peer, ec_ReconnectLimit = pec_ReconnectLimit peer\<rparr> of
           Inl e \<Rightarrow> Inl (InitEdge e)
         | Inr edge \<Rightarrow> Inr (EdgePeer edge))
      else if role = RoleHost then
        if \<not> pec_Enabled peer then Inr (StaticPeers RoleHost)
        else if hostSinkNil then Inl SinkUnavailable
        else (case NewHost \<lparr>hc_Token = pec_Token peer, hc_InstanceID = ic_ID (cf_Instance configuration),
               hc_MappingVersion = mac_Version (cf_Mapping configuration), hc_MaximumConnections = pec_MaximumConnections peer,
               hc_RecentCapacity = pec_MaximumConnections peer * 2, hc_RecentTTL = pec_RecentTTL peer, hc_StaleAfter = pec_StaleAfter peer,
               hc_DuplicateCapacity = hostDuplicateCapacity\<rparr> of
            Inl e \<Rightarrow> Inl (InitHost e)
          | Inr host \<Rightarrow> Inr (HostPeer host))
      else Inl (RoleUnsupported role))"

section \<open>Expected errors (app.go)\<close>

text \<open>
  An error is a leaf, or wraps one error or none, or joins several (\<open>Unwrap() []error\<close>). \<open>expected\<close> is asked
  about leaves only.
\<close>

datatype go_error = ErrLeaf string | ErrWrap string "go_error option" | ErrJoin "go_error list"

definition errors_Join :: "go_error option list \<Rightarrow> go_error option" where
  "errors_Join errs = (let present = concat (map (\<lambda>e. case e of None \<Rightarrow> [] | Some x \<Rightarrow> [x]) errs) in if present = [] then None else Some (ErrJoin present))"

fun filterExpectedErrors :: "(string \<Rightarrow> bool) \<Rightarrow> go_error \<Rightarrow> go_error option \<times> bool"
  and filterChildren :: "(string \<Rightarrow> bool) \<Rightarrow> go_error list \<Rightarrow> go_error list \<times> bool" where
  "filterExpectedErrors expected (ErrJoin children) =
     (let (remaining, changed) = filterChildren expected children
      in if \<not> changed then (Some (ErrJoin children), False) else (errors_Join (map Some remaining), True))"
| "filterExpectedErrors expected (ErrWrap text None) = (Some (ErrWrap text None), False)"
| "filterExpectedErrors expected (ErrWrap text (Some inner)) =
     (let (normalized, changed) = filterExpectedErrors expected inner
      in if \<not> changed then (Some (ErrWrap text (Some inner)), False) else (normalized, True))"
| "filterExpectedErrors expected (ErrLeaf text) = (if expected text then (None, True) else (Some (ErrLeaf text), False))"
| "filterChildren expected [] = ([], False)"
| "filterChildren expected (child # children) =
     (let (normalized, childChanged) = filterExpectedErrors expected child;
          (remaining, changed) = filterChildren expected children
      in ((case normalized of None \<Rightarrow> [] | Some e \<Rightarrow> [e]) @ remaining, childChanged \<or> changed))"

definition contextCanceled :: string where "contextCanceled = ''context canceled''"
definition contextDeadlineExceeded :: string where "contextDeadlineExceeded = ''context deadline exceeded''"
definition httpServerClosed :: string where "httpServerClosed = ''http: Server closed''"

definition normalizeComponentError :: "go_error option \<Rightarrow> go_error option" where
  "normalizeComponentError err =
     (case err of None \<Rightarrow> None | Some e \<Rightarrow> fst (filterExpectedErrors (\<lambda>text. text = contextCanceled \<or> text = contextDeadlineExceeded) e))"

definition normalizeHTTPError :: "go_error option \<Rightarrow> go_error option" where
  "normalizeHTTPError err =
     (case err of None \<Rightarrow> None
      | Some e \<Rightarrow> fst (filterExpectedErrors (\<lambda>text. text = httpServerClosed \<or> text = contextCanceled \<or> text = contextDeadlineExceeded) e))"

definition componentStopped :: "string \<Rightarrow> go_error option \<Rightarrow> go_error" where
  "componentStopped name err =
     (case normalizeComponentError err of
        Some normalized \<Rightarrow> ErrWrap name (Some normalized)
      | None \<Rightarrow> ErrLeaf (name @ '' stopped unexpectedly''))"

section \<open>The supervisor (app.go)\<close>

datatype first_event = CtxDone | ProcessorDone | EdgeDone | ManagerDone | ServerDone

text \<open>
  What the components answer: \<open>None\<close> for one that was not started, otherwise the error it returns; and the
  errors of closing the MIDI runtime, of shutting the server down and of closing it.
\<close>

record supervised =
  sv_processor :: "go_error option option"
  sv_edge :: "go_error option option"
  sv_host :: bool
  sv_midi :: "go_error option option"
  sv_manager :: "go_error option option"
  sv_server :: "go_error option"
  sv_shutdown :: "go_error option"
  sv_close :: "go_error option"

datatype sup_action =
    NotReady
  | CancelManagement
  | CancelProcessor
  | AwaitProcessor
  | CancelEdge
  | AwaitEdge
  | CloseHost
  | CloseMIDI
  | CancelManager
  | AwaitManager
  | ShutdownServer
  | CloseServer
  | AwaitServer

definition firstResult :: "first_event \<Rightarrow> supervised \<Rightarrow> go_error option" where
  "firstResult first sv =
     (case first of
        CtxDone \<Rightarrow> None
      | ProcessorDone \<Rightarrow> Some (componentStopped ''packet pipeline'' (the (sv_processor sv)))
      | EdgeDone \<Rightarrow> Some (componentStopped ''edge peer'' (the (sv_edge sv)))
      | ManagerDone \<Rightarrow> Some (componentStopped ''MIDI manager'' (the (sv_manager sv)))
      | ServerDone \<Rightarrow> Some (componentStopped ''HTTP server'' (normalizeHTTPError (sv_server sv))))"

text \<open>Waiting for a component that has not finished: its error joins the result.\<close>

definition awaitResult :: "bool \<Rightarrow> go_error option option \<Rightarrow> go_error option \<Rightarrow> go_error option" where
  "awaitResult finished answer result =
     (case answer of Some e \<Rightarrow> if finished then result else errors_Join [result, normalizeComponentError e] | None \<Rightarrow> result)"

definition awaitActions :: "sup_action \<Rightarrow> sup_action \<Rightarrow> bool \<Rightarrow> go_error option option \<Rightarrow> sup_action list" where
  "awaitActions cancel await finished answer =
     (if answer = None then [] else cancel # (if finished then [] else [await]))"

definition supervise :: "first_event \<Rightarrow> supervised \<Rightarrow> go_error option \<times> sup_action list" where
  "supervise first sv =
     (let result = firstResult first sv;
          result = awaitResult (first = ProcessorDone) (sv_processor sv) result;
          result = awaitResult (first = EdgeDone) (sv_edge sv) result;
          result = errors_Join [result, case sv_midi sv of None \<Rightarrow> None | Some e \<Rightarrow> e];
          result = awaitResult (first = ManagerDone) (sv_manager sv) result;
          shutdownErr = (if sv_shutdown sv = None then None else errors_Join [sv_shutdown sv, sv_close sv]);
          result = errors_Join [result, shutdownErr];
          result = (if first = ServerDone then result else errors_Join [result, normalizeHTTPError (sv_server sv)])
      in (result,
          [NotReady, CancelManagement] @
          awaitActions CancelProcessor AwaitProcessor (first = ProcessorDone) (sv_processor sv) @
          awaitActions CancelEdge AwaitEdge (first = EdgeDone) (sv_edge sv) @
          (if sv_host sv then [CloseHost] else []) @
          (if sv_midi sv \<noteq> None then [CloseMIDI] else []) @
          awaitActions CancelManager AwaitManager (first = ManagerDone) (sv_manager sv) @
          [ShutdownServer] @ (if sv_shutdown sv = None then [] else [CloseServer]) @ (if first = ServerDone then [] else [AwaitServer])))"

section \<open>The stages of the running program\<close>

definition runtime_ok :: "runtime_stages \<Rightarrow> bool" where
  "runtime_ok rsm \<longleftrightarrow> (case rsm of (r, s, m) \<Rightarrow> stages_ok (r, ps_selector s, m))"

text \<open>The policy store keeps the contract of the pipeline because its selector does.\<close>

interpretation runtime: packet_stages runtimeStages runtime_ok
proof
  fix rsm :: runtime_stages and now
  assume "runtime_ok rsm"
  then show "runtime_ok (snd (st_Expire runtimeStages rsm now))"
    using program.expire_ok [of "(fst rsm, ps_selector (fst (snd rsm)), snd (snd rsm))" now]
    by (auto simp: runtime_ok_def runtimeStages_def pipelineStages_def split: prod.splits)
next
  fix rsm :: runtime_stages and event
  assume "runtime_ok rsm"
  then show "runtime_ok (snd (st_Observe runtimeStages rsm event))"
    using program.observe_ok [of "(fst rsm, ps_selector (fst (snd rsm)), snd (snd rsm))" event]
    by (auto simp: runtime_ok_def runtimeStages_def pipelineStages_def split: prod.splits)
next
  fix rsm :: runtime_stages and event res rsm'
  assume "runtime_ok rsm" "st_Observe runtimeStages rsm event = (Inr res, rsm')"
  then show "Event_Validate event = None"
    by (auto simp: runtimeStages_def Registry_Observe_def split: prod.splits option.splits)
next
  fix rsm :: runtime_stages and event and overlay :: Overlay
  assume "runtime_ok rsm" "Event_Validate event = None"
  then show "\<exists>sel. st_Evaluate runtimeStages rsm event overlay = Inr sel \<and> selection_ok sel"
    using program.evaluate_total [of "(fst rsm, ps_selector (fst (snd rsm)), snd (snd rsm))" event "ps_overlay (fst (snd rsm))"]
    by (auto simp: runtime_ok_def runtimeStages_def pipelineStages_def policy_Evaluate_def split: prod.splits)
next
  fix rsm :: runtime_stages and i :: MapInput
  assume "runtime_ok rsm" "Event_Validate (mi_Packet i) = None" "packet_fits (mi_Packet i)" "1 \<le> mi_Channel i"
    "mi_Channel i \<le> 16" "mi_Mode i = [] \<or> validMusicalMode (mi_Mode i) \<and> mi_Root i \<le> 11"
  then show "is_ok (st_Map runtimeStages rsm i)"
    using program.map_total [of "(fst rsm, ps_selector (fst (snd rsm)), snd (snd rsm))" i]
    by (auto simp: runtime_ok_def runtimeStages_def pipelineStages_def split: prod.splits)
next
  fix rsm :: runtime_stages and i n
  assume "st_Map runtimeStages rsm i = Inr n"
  then show "NoteEvent_Validate n = None"
    using program.map_valid [of "(fst rsm, ps_selector (fst (snd rsm)), snd (snd rsm))" i n]
    by (auto simp: runtimeStages_def pipelineStages_def split: prod.splits)
qed

section \<open>What a valid configuration provides\<close>

lemma Config_Validate_parts:
  assumes "Config_Validate lib c = []"
  shows "validateMapping (cf_Mapping c) = []" and "validatePerformance (cf_Performance c) = []"
    and "strings_TrimSpace (ic_ID (cf_Instance c)) \<noteq> []"
    and "ic_Role (cf_Instance c) \<in> {RoleStandalone, RoleEdge, RoleHost}"
    and "ic_Role (cf_Instance c) = RoleEdge \<Longrightarrow> pec_Enabled (cf_Peer c)"
    and "pec_Enabled (cf_Peer c) \<Longrightarrow> validatePeer lib (ic_Role (cf_Instance c)) (cf_Peer c) = []"
    and "mdc_Enabled (cf_MIDI c) \<Longrightarrow> mdc_PollInterval (cf_MIDI c) > 0 \<and>
      (mdc_DeviceNameRegexp (cf_MIDI c) = [] \<or> cl_regexp lib (mdc_DeviceNameRegexp (cf_MIDI c)) \<noteq> None)"
proof -
  note parts = assms [unfolded Config_Validate_def append_is_Nil_conv problem_Nil]
  show "validateMapping (cf_Mapping c) = []" using parts by (elim conjE)
  show "validatePerformance (cf_Performance c) = []" using parts by (elim conjE)
  show "strings_TrimSpace (ic_ID (cf_Instance c)) \<noteq> []" using parts by (elim conjE)
  show "ic_Role (cf_Instance c) \<in> {RoleStandalone, RoleEdge, RoleHost}" using parts by (elim conjE) (erule notnotD)
  show "pec_Enabled (cf_Peer c)" if "ic_Role (cf_Instance c) = RoleEdge" using parts that by blast
  show "validatePeer lib (ic_Role (cf_Instance c)) (cf_Peer c) = []" if "pec_Enabled (cf_Peer c)"
  proof -
    have "(if pec_Enabled (cf_Peer c) then validatePeer lib (ic_Role (cf_Instance c)) (cf_Peer c) else []) = []"
      using parts by (elim conjE)
    then show ?thesis using that by simp
  qed
  show "mdc_PollInterval (cf_MIDI c) > 0 \<and>
      (mdc_DeviceNameRegexp (cf_MIDI c) = [] \<or> cl_regexp lib (mdc_DeviceNameRegexp (cf_MIDI c)) \<noteq> None)" if "mdc_Enabled (cf_MIDI c)"
  proof -
    have "(if mdc_Enabled (cf_MIDI c) then
        problem (mdc_PollInterval (cf_MIDI c) \<le> 0) PollIntervalInvalid @
        problem (mdc_DeviceNameRegexp (cf_MIDI c) \<noteq> [] \<and> cl_regexp lib (mdc_DeviceNameRegexp (cf_MIDI c)) = None) DeviceRegexpInvalid
      else []) = []"
      using parts by (elim conjE)
    then show ?thesis using that by (auto simp: problem_Nil)
  qed
qed

lemma compileSelector_seed: "compileSelector lib c safety = Inr s \<Longrightarrow> sl_seed s = mac_Seed (cf_Mapping c)"
  by (auto simp: compileSelector_def NewSelector_iff configured_def Let_def dest!: arg_cong [where f = sl_seed] split: sum.splits)

lemma coherent_config:
  assumes "coherent lib controller"
  shows "Config_Validate lib (ps_configuration (co_current controller)) = []"
    and "sl_seed (ps_selector (co_current controller)) = mac_Seed (cf_Mapping (ps_configuration (co_current controller)))"
    and "Selector_inv (ps_selector (co_current controller))"
proof -
  have s: "compileSelector lib (ps_configuration (co_current controller)) (co_safety controller) = Inr (ps_selector (co_current controller))"
    and "Config_Validate lib (ps_configuration (co_current controller)) = []" using assms by (auto simp: coherent_def Let_def)
  then show "Config_Validate lib (ps_configuration (co_current controller)) = []" by simp
  show "Selector_inv (ps_selector (co_current controller))" using compileSelector_inv [OF s] .
  show "sl_seed (ps_selector (co_current controller)) = mac_Seed (cf_Mapping (ps_configuration (co_current controller)))"
    using compileSelector_seed [OF s] .
qed

lemma Config_Validate_ID: "Config_Validate lib c = [] \<Longrightarrow> ic_ID (cf_Instance c) \<noteq> []"
  using Config_Validate_parts(3) TrimSpace_Nil by metis

text \<open>The packet path of a coherent controller.\<close>

lemma components_built:
  assumes co: "coherent (yl_config lib) controller" and c: "c = ps_configuration (co_current controller)"
  obtains registry mapper processor where
    "newProcessingComponents lib configuration (Some controller) d =
       (Inr \<lparr>pcs_registry = registry, pcs_mapper = mapper, pcs_controller = controller\<rparr>, d)"
    "newProcessor c \<lparr>pcs_registry = registry, pcs_mapper = mapper, pcs_controller = controller\<rparr> = Inr processor"
    "NewProcessor (registry, co_current controller, mapper) (pc_PacketQueueCapacity (cf_Performance c)) (pc_NoteQueueCapacity (cf_Performance c)) =
       Inr processor"
    "mac_MinimumNote (cf_Mapping c) < mac_MaximumNote (cf_Mapping c) \<Longrightarrow> runtime_ok (registry, co_current controller, mapper)"
proof -
  note valid = coherent_config [OF co, folded c]
  note parts = Config_Validate_parts [OF valid(1)] Config_Validate_ID [OF valid(1)]
  let ?rc = "\<lparr>rc_Seed = mac_Seed (cf_Mapping c), rc_Capacity = pc_FlowRegistryCapacity (cf_Performance c), rc_TTL = pc_FlowTTL (cf_Performance c)\<rparr>"
  let ?mc = "\<lparr>mc_Seed = mac_Seed (cf_Mapping c), mc_Origin = ic_ID (cf_Instance c), mc_MinimumNote = mac_MinimumNote (cf_Mapping c),
    mc_MaximumNote = mac_MaximumNote (cf_Mapping c), mc_MinimumDuration = mac_MinimumDuration (cf_Mapping c),
    mc_MaximumDuration = mac_MaximumDuration (cf_Mapping c)\<rparr>"
  obtain registry where r: "NewRegistry ?rc = Inr registry" "rg_seed registry = mac_Seed (cf_Mapping c)"
    using parts(1,2) by (simp add: NewRegistry_def validateMapping_def validatePerformance_def problem_Nil)
  obtain mapper where m: "NewMapper ?mc = Inr mapper"
    using parts(1,8) by (simp add: NewMapper_def validateMapping_def problem_Nil)
  obtain processor where p: "NewProcessor (registry, co_current controller, mapper) (pc_PacketQueueCapacity (cf_Performance c))
      (pc_NoteQueueCapacity (cf_Performance c)) = Inr processor"
    using parts(2) by (simp add: NewProcessor_def validatePerformance_def problem_Nil)
  show ?thesis
  proof (rule that)
    show "newProcessingComponents lib configuration (Some controller) d =
        (Inr \<lparr>pcs_registry = registry, pcs_mapper = mapper, pcs_controller = controller\<rparr>, d)"
      using r m by (simp add: newProcessingComponents_def Current_def c [symmetric] Let_def)
    show "newProcessor c \<lparr>pcs_registry = registry, pcs_mapper = mapper, pcs_controller = controller\<rparr> = Inr processor"
      using p by (simp add: newProcessor_def)
    show "runtime_ok (registry, co_current controller, mapper)" if "mac_MinimumNote (cf_Mapping c) < mac_MaximumNote (cf_Mapping c)"
      using that valid(2,3) r NewRegistry_inv [OF r(1)] NewMapper_config(1) [OF m] m by (simp add: runtime_ok_def stages_ok_def)
  qed (rule p)
qed

lemma MIDI_built:
  assumes valid: "Config_Validate lib c = []" and on: "mdc_Enabled (cf_MIDI c)"
  shows "\<exists>manager runtime. newMIDIComponents lib c (Inr (Some w)) closeErr = Inr (manager, runtime)"
proof -
  note parts = Config_Validate_parts(2) [OF valid] Config_Validate_parts(7) [OF valid on]
  then show ?thesis
    by (auto simp: newMIDIComponents_def NewManager_def NewScheduler_def validatePerformance_def problem_Nil Let_def not_le)
qed

lemma configureSafety_coherent:
  assumes "coherent lib controller" and "configureSafety lib safety controller = (None, controller')"
    and "ps_state (co_current controller) \<noteq> StateRestartPending"
  shows "coherent lib controller'" and "ps_configuration (co_current controller') = ps_configuration (co_current controller)"
  using assms by (auto simp: configureSafety_def coherent_def publish_def Let_def split: sum.splits)

section \<open>The leaves of an error\<close>

text \<open>
  \<open>errorLeaves\<close> are the errors at the ends of a tree, each with its text and whether it may be asked about:
  a wrapper around nothing is not. \<open>errors.Join\<close> never makes an empty join, so a tree has none.
\<close>

fun errorLeaves :: "go_error \<Rightarrow> (bool \<times> string) list" where
  "errorLeaves (ErrJoin children) = concat (map errorLeaves children)"
| "errorLeaves (ErrWrap text None) = [(False, text)]"
| "errorLeaves (ErrWrap text (Some inner)) = errorLeaves inner"
| "errorLeaves (ErrLeaf text) = [(True, text)]"

fun joined :: "go_error \<Rightarrow> bool" where
  "joined (ErrJoin children) \<longleftrightarrow> children \<noteq> [] \<and> (\<forall>child \<in> set children. joined child)"
| "joined (ErrWrap text inner) \<longleftrightarrow> (case inner of None \<Rightarrow> True | Some e \<Rightarrow> joined e)"
| "joined (ErrLeaf text) \<longleftrightarrow> True"

definition leavesOf :: "go_error option \<Rightarrow> (bool \<times> string) list" where
  "leavesOf e = (case e of None \<Rightarrow> [] | Some x \<Rightarrow> errorLeaves x)"

definition joinedOpt :: "go_error option \<Rightarrow> bool" where
  "joinedOpt e \<longleftrightarrow> (case e of None \<Rightarrow> True | Some x \<Rightarrow> joined x)"

definition unexpectedLeaf :: "(string \<Rightarrow> bool) \<Rightarrow> bool \<times> string \<Rightarrow> bool" where
  "unexpectedLeaf expected leaf \<longleftrightarrow> \<not> (fst leaf \<and> expected (snd leaf))"

lemma joined_leaves: "joined e \<Longrightarrow> errorLeaves e \<noteq> []"
proof (induction e rule: joined.induct)
  case (1 children)
  then show ?case by (cases children) auto
next
  case (2 t inner)
  then show ?case by (cases inner) auto
qed simp

lemma leavesOf_Nil: "joinedOpt e \<Longrightarrow> leavesOf e = [] \<longleftrightarrow> e = None"
  using joined_leaves by (auto simp: leavesOf_def joinedOpt_def split: option.splits)

lemma errors_Join_leaves: "leavesOf (errors_Join errs) = concat (map leavesOf errs)"
proof -
  define present where "present = concat (map (\<lambda>e. case e of None \<Rightarrow> [] | Some x \<Rightarrow> [x]) errs)"
  have "concat (map errorLeaves present) = concat (map leavesOf errs)"
    unfolding present_def by (induction errs) (auto simp: leavesOf_def split: option.split)
  moreover have "errors_Join errs = (if present = [] then None else Some (ErrJoin present))"
    by (simp add: errors_Join_def present_def Let_def)
  ultimately show ?thesis by (cases "present = []") (simp_all add: leavesOf_def)
qed

lemma errors_Join_joined: "\<forall>e \<in> set errs. joinedOpt e \<Longrightarrow> joinedOpt (errors_Join errs)"
  by (auto simp: errors_Join_def joinedOpt_def Let_def split: option.splits)

lemma filter_spec:
  "joined e \<Longrightarrow> filterExpectedErrors expected e = (r, changed) \<Longrightarrow>
     leavesOf r = filter (unexpectedLeaf expected) (errorLeaves e) \<and> joinedOpt r \<and> (\<not> changed \<longrightarrow> r = Some e)"
  "\<forall>child \<in> set children. joined child \<Longrightarrow> filterChildren expected children = (rs, changed') \<Longrightarrow>
     concat (map errorLeaves rs) = filter (unexpectedLeaf expected) (concat (map errorLeaves children)) \<and> (\<forall>child \<in> set rs. joined child) \<and>
     (\<not> changed' \<longrightarrow> rs = children)"
proof (induction expected e and expected children arbitrary: r changed and rs changed' rule: filterExpectedErrors_filterChildren.induct)
  case (1 expected children)
  obtain rem ch where c: "filterChildren expected children = (rem, ch)" by force
  have *: "concat (map errorLeaves rem) = filter (unexpectedLeaf expected) (concat (map errorLeaves children))"
    "\<forall>child \<in> set rem. joined child" "\<not> ch \<Longrightarrow> rem = children" using 1 c by auto
  show ?case
  proof (cases ch)
    case False
    then show ?thesis using 1(2,3) * c by (auto simp: leavesOf_def joinedOpt_def)
  next
    case True
    then have r: "r = errors_Join (map Some rem)" "changed" using 1(3) c by auto
    have "leavesOf r = concat (map errorLeaves rem)" unfolding r errors_Join_leaves by (simp add: leavesOf_def comp_def)
    moreover have "joinedOpt r" unfolding r using *(2) by (intro errors_Join_joined) (auto simp: joinedOpt_def)
    ultimately show ?thesis using * r by simp
  qed
next
  case (3 expected t inner)
  then show ?case by (auto simp: leavesOf_def joinedOpt_def split: prod.splits if_splits)
next
  case (6 expected child children)
  obtain n cch where n: "filterExpectedErrors expected child = (n, cch)" by force
  obtain rem ch where c: "filterChildren expected children = (rem, ch)" by force
  have a: "leavesOf n = filter (unexpectedLeaf expected) (errorLeaves child)" "joinedOpt n" "\<not> cch \<Longrightarrow> n = Some child"
    using 6(1,3) n by auto
  have b: "concat (map errorLeaves rem) = filter (unexpectedLeaf expected) (concat (map errorLeaves children))"
    "\<forall>child \<in> set rem. joined child" "\<not> ch \<Longrightarrow> rem = children" using 6(2,3) n c by auto
  show ?case using 6(4) n c a b by (cases n) (auto simp: leavesOf_def joinedOpt_def)
qed (auto simp: leavesOf_def joinedOpt_def unexpectedLeaf_def split: if_splits)

definition componentExpected :: "string \<Rightarrow> bool" where
  "componentExpected text \<longleftrightarrow> text = contextCanceled \<or> text = contextDeadlineExceeded"

definition httpExpected :: "string \<Rightarrow> bool" where
  "httpExpected text \<longleftrightarrow> text = httpServerClosed \<or> text = contextCanceled \<or> text = contextDeadlineExceeded"

lemma normalize_spec:
  assumes "joinedOpt e"
  shows "leavesOf (normalizeComponentError e) = filter (unexpectedLeaf componentExpected) (leavesOf e) \<and> joinedOpt (normalizeComponentError e)"
    and "leavesOf (normalizeHTTPError e) = filter (unexpectedLeaf httpExpected) (leavesOf e) \<and> joinedOpt (normalizeHTTPError e)"
proof -
  have *: "leavesOf (fst (filterExpectedErrors ex x)) = filter (unexpectedLeaf ex) (errorLeaves x) \<and> joinedOpt (fst (filterExpectedErrors ex x))"
    if "joined x" for ex x using filter_spec(1) [OF that, of ex] by (metis prod.collapse)
  show "leavesOf (normalizeComponentError e) = filter (unexpectedLeaf componentExpected) (leavesOf e) \<and> joinedOpt (normalizeComponentError e)"
    using assms * [of _ componentExpected]
    by (cases e) (simp_all add: normalizeComponentError_def leavesOf_def joinedOpt_def componentExpected_def [abs_def])
  show "leavesOf (normalizeHTTPError e) = filter (unexpectedLeaf httpExpected) (leavesOf e) \<and> joinedOpt (normalizeHTTPError e)"
    using assms * [of _ httpExpected]
    by (cases e) (simp_all add: normalizeHTTPError_def leavesOf_def joinedOpt_def httpExpected_def [abs_def])
qed

section \<open>The result of the supervisor\<close>

text \<open>What an answer leaves after the expected errors are taken out of it.\<close>

definition unexpectedLeaves :: "(string \<Rightarrow> bool) \<Rightarrow> go_error option option \<Rightarrow> (bool \<times> string) list" where
  "unexpectedLeaves expected answer = (case answer of None \<Rightarrow> [] | Some e \<Rightarrow> filter (unexpectedLeaf expected) (leavesOf e))"

definition answers_joined :: "supervised \<Rightarrow> bool" where
  "answers_joined sv \<longleftrightarrow>
     (\<forall>answer \<in> {sv_processor sv, sv_edge sv, sv_midi sv, sv_manager sv, Some (sv_server sv), Some (sv_shutdown sv), Some (sv_close sv)}.
        case answer of None \<Rightarrow> True | Some e \<Rightarrow> joinedOpt e)"

lemma answers_joinedD:
  assumes "answers_joined sv"
  shows "sv_processor sv = Some e \<Longrightarrow> joinedOpt e" and "sv_edge sv = Some e \<Longrightarrow> joinedOpt e" and "sv_midi sv = Some e \<Longrightarrow> joinedOpt e"
    and "sv_manager sv = Some e \<Longrightarrow> joinedOpt e" and "joinedOpt (sv_server sv)" and "joinedOpt (sv_shutdown sv)" and "joinedOpt (sv_close sv)"
  using assms by (auto simp: answers_joined_def)

lemma componentStopped_joined: "joinedOpt e \<Longrightarrow> joined (componentStopped name e)"
  using normalize_spec(1) [of e] by (auto simp: componentStopped_def joinedOpt_def split: option.splits)

lemma firstResult_joined:
  assumes "answers_joined sv"
    and "first = ProcessorDone \<Longrightarrow> sv_processor sv \<noteq> None" "first = EdgeDone \<Longrightarrow> sv_edge sv \<noteq> None" "first = ManagerDone \<Longrightarrow> sv_manager sv \<noteq> None"
  shows "joinedOpt (firstResult first sv)"
  using assms(2-4) answers_joinedD [OF assms(1)] normalize_spec(2) [of "sv_server sv"]
  by (cases first) (auto simp: firstResult_def joinedOpt_def [of "Some (componentStopped n e)" for n e] joinedOpt_def [of None]
      intro!: componentStopped_joined)

lemma awaitResult_leaves:
  assumes "\<And>e. answer = Some e \<Longrightarrow> joinedOpt e"
  shows "leavesOf (awaitResult finished answer result) =
      leavesOf result @ (if finished then [] else unexpectedLeaves componentExpected answer)"
    and "joinedOpt result \<Longrightarrow> joinedOpt (awaitResult finished answer result)"
  using assms normalize_spec(1)
  by (auto simp: awaitResult_def unexpectedLeaves_def errors_Join_leaves split: option.split intro!: errors_Join_joined)

lemma supervise_leaves:
  assumes sv: "answers_joined sv"
  shows "leavesOf (fst (supervise first sv)) = leavesOf (firstResult first sv) @
      (if first = ProcessorDone then [] else unexpectedLeaves componentExpected (sv_processor sv)) @
      (if first = EdgeDone then [] else unexpectedLeaves componentExpected (sv_edge sv)) @
      (case sv_midi sv of None \<Rightarrow> [] | Some e \<Rightarrow> leavesOf e) @
      (if first = ManagerDone then [] else unexpectedLeaves componentExpected (sv_manager sv)) @
      (if sv_shutdown sv = None then [] else leavesOf (sv_shutdown sv) @ leavesOf (sv_close sv)) @
      (if first = ServerDone then [] else unexpectedLeaves httpExpected (Some (sv_server sv)))"
  using awaitResult_leaves(1) [OF answers_joinedD(1) [OF sv]] awaitResult_leaves(1) [OF answers_joinedD(2) [OF sv]]
    awaitResult_leaves(1) [OF answers_joinedD(4) [OF sv]] normalize_spec(2) [OF answers_joinedD(5) [OF sv]]
  by (auto simp: supervise_def Let_def errors_Join_leaves unexpectedLeaves_def leavesOf_def [of None] split: option.split)

lemma supervise_joined:
  assumes sv: "answers_joined sv" and first: "joinedOpt (firstResult first sv)"
  shows "joinedOpt (fst (supervise first sv))"
proof -
  have midi: "joinedOpt (case sv_midi sv of None \<Rightarrow> None | Some e \<Rightarrow> e)"
    using answers_joinedD(3) [OF sv] by (auto simp: joinedOpt_def split: option.split)
  have none: "joinedOpt None" by (simp add: joinedOpt_def)
  show ?thesis
    unfolding supervise_def Let_def fst_conv
    using first midi none answers_joinedD [OF sv] normalize_spec(2)
    by (auto intro!: errors_Join_joined awaitResult_leaves(2))
qed


definition sampleStop :: supervised where
  "sampleStop = \<lparr>sv_processor = Some (Some (ErrWrap ''run'' (Some (ErrJoin [ErrLeaf contextCanceled, ErrLeaf ''capture failed''])))), sv_edge = None,
     sv_host = True, sv_midi = Some None, sv_manager = Some (Some (ErrLeaf contextCanceled)), sv_server = Some (ErrLeaf httpServerClosed),
     sv_shutdown = None, sv_close = None\<rparr>"


section \<open>The order of a shutdown\<close>

text \<open>The actions before the first \<open>a\<close>.\<close>

definition beforeAction :: "sup_action \<Rightarrow> sup_action list \<Rightarrow> sup_action set" where
  "beforeAction a actions = set (takeWhile (\<lambda>b. b \<noteq> a) actions)"

lemma supervise_actions:
  "snd (supervise first sv) =
     [NotReady, CancelManagement] @
     awaitActions CancelProcessor AwaitProcessor (first = ProcessorDone) (sv_processor sv) @
     awaitActions CancelEdge AwaitEdge (first = EdgeDone) (sv_edge sv) @
     (if sv_host sv then [CloseHost] else []) @
     (if sv_midi sv \<noteq> None then [CloseMIDI] else []) @
     awaitActions CancelManager AwaitManager (first = ManagerDone) (sv_manager sv) @
     [ShutdownServer] @ (if sv_shutdown sv = None then [] else [CloseServer]) @ (if first = ServerDone then [] else [AwaitServer])"
  by (simp only: supervise_def Let_def snd_conv)

lemma takeWhile_await:
  "a \<notin> {cancel, await} \<Longrightarrow>
     takeWhile (\<lambda>b. b \<noteq> a) (awaitActions cancel await finished answer @ rest) = awaitActions cancel await finished answer @ takeWhile (\<lambda>b. b \<noteq> a) rest"
  by (auto simp: awaitActions_def)

lemma takeWhile_cancel:
  "cancel \<noteq> await \<Longrightarrow> cancel \<in> set (takeWhile (\<lambda>b. b \<noteq> await) (awaitActions cancel await finished answer @ rest)) \<longleftrightarrow>
     answer \<noteq> None \<or> cancel \<in> set (takeWhile (\<lambda>b. b \<noteq> await) rest)"
  by (cases answer) (auto simp: awaitActions_def)

lemma set_awaitActions:
  "set (awaitActions cancel await finished answer) = (if answer = None then {} else if finished then {cancel} else {cancel, await})"
  by (auto simp: awaitActions_def)

lemma distinct_awaitActions: "cancel \<noteq> await \<Longrightarrow> distinct (awaitActions cancel await finished answer)"
  by (simp add: awaitActions_def)



section \<open>Startup\<close>



text \<open>
  C32. Which valid configurations start their peer. With a valid configuration the constructor fails exactly
  for an edge or an enabled host whose token is shorter than 16 bytes or whose instance identifier is not
  a safe identifier of at most 128 bytes; nothing else that the constructors check can be wrong. The
  validation itself lets the redaction placeholder pass as a token and does not look at the characters of
  the identifier. (Both read URLs with \<open>url.Parse\<close>, which gives an empty text no host.)
\<close>

theorem newRuntimePeers_iff:
  assumes valid: "Config_Validate lib c = []" and parse: "el_Parse elib = cl_Parse lib"
    and empty: "\<And>u. cl_Parse lib [] = Some u \<Longrightarrow> url_Host u = []"
  shows "is_ok (newRuntimePeers elib c False) \<longleftrightarrow>
    ic_Role (cf_Instance c) = RoleStandalone \<or> ic_Role (cf_Instance c) = RoleHost \<and> \<not> pec_Enabled (cf_Peer c) \<or>
    16 \<le> length (pec_Token (cf_Peer c)) \<and> safeIdentifier (ic_ID (cf_Instance c)) 128"
proof -
  note parts = Config_Validate_parts [OF valid]
  have version: "mac_Version (cf_Mapping c) = FlowModeV1"
    using parts(1) by (simp add: validateMapping_def problem_Nil FlowModeV1_def)
  have roles: "RoleStandalone \<noteq> RoleEdge" "RoleStandalone \<noteq> RoleHost" "RoleEdge \<noteq> RoleHost"
    by (simp_all add: RoleStandalone_def RoleEdge_def RoleHost_def)
  consider "ic_Role (cf_Instance c) = RoleStandalone" | "ic_Role (cf_Instance c) = RoleEdge" | "ic_Role (cf_Instance c) = RoleHost"
    using parts(4) by auto
  then show ?thesis
  proof cases
    case 1
    then show ?thesis by (simp add: newRuntimePeers_def Let_def is_ok_iff)
  next
    case 2
    have peer: "validatePeer lib RoleEdge (cf_Peer c) = []" using parts(5,6) 2 by simp
    then obtain u where u: "cl_Parse lib (pec_URL (cf_Peer c)) = Some u" "url_Host u \<noteq> []" "url_User u = None"
      "url_Scheme u = ''ws'' \<or> url_Scheme u = ''wss''"
      by (auto simp: validatePeer_def problem_Nil peerURLOK_def split: option.splits)
    have url: "pec_URL (cf_Peer c) \<noteq> []" using u(1,2) empty by metis
    show ?thesis using peer 2 u url version parse roles
      by (auto simp: newRuntimePeers_def NewEdge_def validatePeer_def problem_Nil Let_def is_ok_iff)
  next
    case 3
    then show ?thesis
    proof (cases "pec_Enabled (cf_Peer c)")
      case True
      then have "validatePeer lib RoleHost (cf_Peer c) = []" using parts(6) 3 by simp
      then show ?thesis using 3 True version roles
        by (auto simp: newRuntimePeers_def NewHost_def validatePeer_def problem_Nil Let_def is_ok_iff hostDuplicateCapacity_def)
    qed (use roles in \<open>simp add: newRuntimePeers_def Let_def is_ok_iff\<close>)
  qed
qed

definition edgeConfig :: "string \<Rightarrow> Config" where
  "edgeConfig token = Config_Default\<lparr>cf_Instance := \<lparr>ic_ID = ''edge'', ic_Role = RoleEdge\<rparr>,
     cf_MIDI := (cf_MIDI Config_Default)\<lparr>mdc_Enabled := False\<rparr>,
     cf_Peer := (cf_Peer Config_Default)\<lparr>pec_Enabled := True, pec_URL := ''ws://host'', pec_Token := token\<rparr>\<rparr>"

lemma edgeConfig_valid:
  assumes "16 \<le> length token \<or> token = RedactedValue"
  shows "Config_Validate sampleConfigLib (edgeConfig token) = []"
proof -
  have "strings_TrimSpace ''edge'' = ''edge''" by (rule TrimSpace_plain) (simp_all add: plain_def)
  then show ?thesis using assms by (auto simp: edgeConfig_def default_simps validatePeer_def peerURLOK_def sampleConfigLib_def)
qed

theorem newRuntimePeers_iff_witness:
  "is_ok (newRuntimePeers (sampleLib\<lparr>el_Parse := cl_Parse sampleConfigLib\<rparr>) (edgeConfig ''0123456789abcdef'') False) \<and>
   \<not> is_ok (newRuntimePeers (sampleLib\<lparr>el_Parse := cl_Parse sampleConfigLib\<rparr>) (edgeConfig RedactedValue) False)"
proof -
  have p: "el_Parse (sampleLib\<lparr>el_Parse := cl_Parse sampleConfigLib\<rparr>) = cl_Parse sampleConfigLib" by simp
  have e: "\<And>u. cl_Parse sampleConfigLib [] = Some u \<Longrightarrow> url_Host u = []" by (simp add: sampleConfigLib_def)
  have s: "safeIdentifier ''edge'' 128" by (rule wireEvent_safe(2))
  note iff = newRuntimePeers_iff [OF edgeConfig_valid p e]
  have "16 \<le> length ''0123456789abcdef''" by simp
  then show ?thesis using iff s by (simp add: edgeConfig_def RedactedValue_def RoleEdge_def RoleStandalone_def RoleHost_def)
qed

end
