(* ===== verification/Capture.thy ===== *)
theory Capture
  imports App
begin

text \<open>
  internal/capture/normalize.go and replay.go, and internal/app/replay.go: how a decoded frame becomes the metadata of a
  packet, how a PCAP file is read, paced and played. A frame is what gopacket has decoded of it; what the reader of
  the file answers, the clock and the ends of the components are arguments.
\<close>

section \<open>Frames (normalize.go)\<close>

record tcp_layer =
  tcp_SrcPort :: u16
  tcp_DstPort :: u16
  tcp_Payload :: nat
  tcp_FIN :: bool
  tcp_SYN :: bool
  tcp_RST :: bool
  tcp_PSH :: bool
  tcp_ACK :: bool
  tcp_URG :: bool

datatype network_layer = IPv4Layer bytes bytes | IPv6Layer bytes bytes | OtherNetwork
datatype transport_layer = TCPLayer tcp_layer | UDPLayer u16 u16 nat | OtherTransport

text \<open>Of payloads only the length is used; an ICMP layer that is absent has none.\<close>

record frame =
  fr_Network :: network_layer
  fr_Transport :: transport_layer
  fr_ICMPv4 :: "nat option"
  fr_ICMPv6 :: "nat option"
  fr_Data :: nat

record CaptureInfo =
  ci_Timestamp :: time
  ci_CaptureLength :: int
  ci_Length :: int

datatype capture_error =
    ErrUnsupportedPacket
  | UnsupportedAddress
  | NormalizeInvalid event_error
  | ErrSourceClosed
  | ReadPCAP string
  | CaptureContext string
  | PaceReplay string

text \<open>\<open>netip.AddrFromSlice\<close> takes 4 or 16 bytes.\<close>

definition word_of_bytes :: "bytes \<Rightarrow> 'a::len word" where
  "word_of_bytes bs = of_nat (foldl (\<lambda>n b. 256 * n + unat b) 0 bs)"

definition addrFromBytes :: "bytes \<Rightarrow> Addr" where
  "addrFromBytes bs =
     (if length bs = 4 then Addr_Unmap (Addr4 (word_of_bytes bs)) else if length bs = 16 then Addr_Unmap (Addr6 (word_of_bytes bs) []) else AddrZero)"

definition tcpFlags :: "tcp_layer \<Rightarrow> TCPFlags" where
  "tcpFlags t =
     (if tcp_FIN t then TCPFlagFIN else 0) OR (if tcp_SYN t then TCPFlagSYN else 0) OR (if tcp_RST t then TCPFlagRST else 0) OR
     (if tcp_PSH t then TCPFlagPSH else 0) OR (if tcp_ACK t then TCPFlagACK else 0) OR (if tcp_URG t then TCPFlagURG else 0)"

definition networkAddresses :: "network_layer \<Rightarrow> (Addr \<times> Addr) option" where
  "networkAddresses network =
     (case network of
        IPv4Layer source destination \<Rightarrow> Some (addrFromBytes source, addrFromBytes destination)
      | IPv6Layer source destination \<Rightarrow> Some (addrFromBytes source, addrFromBytes destination)
      | OtherNetwork \<Rightarrow> None)"

definition withTransport :: "frame \<Rightarrow> Event \<Rightarrow> Event" where
  "withTransport fr event =
     (let ports = (\<lambda>source destination e. e\<lparr>ev_Source := (ev_Source e)\<lparr>ep_Port := source\<rparr>, ev_Destination := (ev_Destination e)\<lparr>ep_Port := destination\<rparr>\<rparr>) in
      case fr_Transport fr of
        TCPLayer t \<Rightarrow> ports (tcp_SrcPort t) (tcp_DstPort t) (event\<lparr>ev_Protocol := ProtocolTCP, ev_PayloadLength := int (tcp_Payload t), ev_TCPFlags := tcpFlags t\<rparr>)
      | UDPLayer source destination n \<Rightarrow> ports source destination (event\<lparr>ev_Protocol := ProtocolUDP, ev_PayloadLength := int n\<rparr>)
      | OtherTransport \<Rightarrow>
        (case fr_ICMPv4 fr of
           Some n \<Rightarrow> event\<lparr>ev_Protocol := ProtocolICMP, ev_PayloadLength := int n\<rparr>
         | None \<Rightarrow> (case fr_ICMPv6 fr of Some n \<Rightarrow> event\<lparr>ev_Protocol := ProtocolICMP6, ev_PayloadLength := int n\<rparr> | None \<Rightarrow> event)))"

definition Normalize :: "frame \<Rightarrow> CaptureInfo \<Rightarrow> capture_error + Event" where
  "Normalize fr info =
     (case networkAddresses (fr_Network fr) of
        None \<Rightarrow> Inl ErrUnsupportedPacket
      | Some (source, destination) \<Rightarrow>
        if \<not> Addr_IsValid source \<or> \<not> Addr_IsValid destination then Inl UnsupportedAddress
        else
          let event = \<lparr>ev_CapturedAt = ci_Timestamp info, ev_Source = \<lparr>ep_Addr = source, ep_Port = 0\<rparr>, ev_Destination = \<lparr>ep_Addr = destination, ep_Port = 0\<rparr>,
                ev_Protocol = ProtocolOther, ev_WireLength = ci_Length info, ev_CapturedLength = ci_CaptureLength info, ev_PayloadLength = 0, ev_TCPFlags = 0\<rparr>;
              event = (if ev_CapturedLength event = 0 then event\<lparr>ev_CapturedLength := int (fr_Data fr)\<rparr> else event);
              event = (if ev_WireLength event < ev_CapturedLength event then event\<lparr>ev_WireLength := ev_CapturedLength event\<rparr> else event);
              event = withTransport fr event;
              event = (if ev_PayloadLength event > ev_CapturedLength event then event\<lparr>ev_PayloadLength := ev_CapturedLength event\<rparr> else event)
          in case Event_Validate event of Some e \<Rightarrow> Inl (NormalizeInvalid e) | None \<Rightarrow> Inr event)"

section \<open>Reading a file (replay.go)\<close>

text \<open>
  The reads that are left, each with the error of the context when it is made; after them the reader answers EOF. Both
  errors of \<open>Normalize\<close> for unsupported frames wrap the same one.
\<close>

record replaySource =
  rs_reads :: "(string option \<times> (string + frame \<times> CaptureInfo)) list"
  rs_closed :: bool

fun replayLoop :: "(string option \<times> (string + frame \<times> CaptureInfo)) list \<Rightarrow>
    (capture_error + Event) \<times> (string option \<times> (string + frame \<times> CaptureInfo)) list" where
  "replayLoop [] = (Inl (ReadPCAP ''EOF''), [])"
| "replayLoop ((cancelled, result) # reads) =
     (case cancelled of
        Some e \<Rightarrow> (Inl (CaptureContext e), reads)
      | None \<Rightarrow>
        (case result of
           Inl e \<Rightarrow> (Inl (ReadPCAP e), reads)
         | Inr (fr, info) \<Rightarrow>
           (case Normalize fr info of
              Inl ErrUnsupportedPacket \<Rightarrow> replayLoop reads
            | Inl UnsupportedAddress \<Rightarrow> replayLoop reads
            | Inl e \<Rightarrow> (Inl e, reads)
            | Inr event \<Rightarrow> (Inr event, reads))))"

definition replaySource_Next :: "replaySource \<Rightarrow> (capture_error + Event) \<times> replaySource" where
  "replaySource_Next s =
     (if rs_closed s then (case rs_reads s of (Some e, _) # _ \<Rightarrow> (Inl (CaptureContext e), s) | _ \<Rightarrow> (Inl ErrSourceClosed, s))
      else case replayLoop (rs_reads s) of (r, reads) \<Rightarrow> (r, s\<lparr>rs_reads := reads\<rparr>))"

definition replaySource_Close :: "string option \<Rightarrow> replaySource \<Rightarrow> string option \<times> replaySource" where
  "replaySource_Close closerErr s =
     (if rs_closed s then (None, s) else (map_option (\<lambda>e. ''close PCAP source: '' @ e) closerErr, s\<lparr>rs_closed := True\<rparr>))"

section \<open>Live capture (live_pcap.go)\<close>

definition defaultReadTimeout :: duration where "defaultReadTimeout = 250 * millisecond"

record LiveConfig =
  lv_Device :: string
  lv_SnapshotLength :: int
  lv_Promiscuous :: bool
  lv_Timeout :: duration
  lv_BPF :: string

datatype live_error = DeviceRequired | SnapshotLengthInvalid | OpenDevice string | ApplyBPF string

text \<open>\<open>OpenLive\<close>: libpcap opens the device with these arguments and applies the filter, if there is one.\<close>

definition OpenLive :: "(string \<Rightarrow> int \<Rightarrow> bool \<Rightarrow> duration \<Rightarrow> string option) \<Rightarrow> (string \<Rightarrow> string option) \<Rightarrow> LiveConfig \<Rightarrow> live_error option" where
  "OpenLive pcapOpen setFilter c =
     (if strings_TrimSpace (lv_Device c) = [] then Some DeviceRequired
      else if lv_SnapshotLength c < 64 \<or> lv_SnapshotLength c > 65535 then Some SnapshotLengthInvalid
      else case pcapOpen (lv_Device c) (lv_SnapshotLength c) (lv_Promiscuous c) (if lv_Timeout c \<le> 0 then defaultReadTimeout else lv_Timeout c) of
        Some e \<Rightarrow> Some (OpenDevice e)
      | None \<Rightarrow>
        if strings_TrimSpace (lv_BPF c) \<noteq> [] then map_option ApplyBPF (setFilter (lv_BPF c)) else None)"

datatype live_read = LiveTimeout | LiveError string | LivePacket frame CaptureInfo

text \<open>\<open>Next\<close> along the reads it makes; with none left it is still waiting.\<close>

fun liveSource_Next :: "(string option \<times> live_read) list \<Rightarrow> (capture_error + Event) option \<times> (string option \<times> live_read) list" where
  "liveSource_Next [] = (None, [])"
| "liveSource_Next ((cancelled, result) # reads) =
     (case cancelled of
        Some e \<Rightarrow> (Some (Inl (CaptureContext e)), reads)
      | None \<Rightarrow>
        (case result of
           LiveTimeout \<Rightarrow> liveSource_Next reads
         | LiveError e \<Rightarrow> (Some (Inl (ReadPCAP e)), reads)
         | LivePacket fr info \<Rightarrow>
           (case Normalize fr info of
              Inl ErrUnsupportedPacket \<Rightarrow> liveSource_Next reads
            | Inl UnsupportedAddress \<Rightarrow> liveSource_Next reads
            | r \<Rightarrow> (Some r, reads))))"

section \<open>Pacing (app/replay.go)\<close>

record pacedReplaySource =
  ps_started :: bool
  ps_firstCaptured :: time
  ps_wallStart :: time

text \<open>
  One \<open>Next\<close>: what the file answered, the clock when it is read, and what the wait answers; the result, the delay that was
  waited for (if any), and the new state.
\<close>

definition paced_Next :: "capture_error + Event \<Rightarrow> time \<Rightarrow> string option \<Rightarrow> pacedReplaySource \<Rightarrow>
    (capture_error + Event) \<times> duration option \<times> pacedReplaySource" where
  "paced_Next answer now waited s =
     (case answer of
        Inl e \<Rightarrow> (Inl e, None, s)
      | Inr event \<Rightarrow>
        if \<not> ps_started s then
          (Inr event, None, \<lparr>ps_started = True, ps_firstCaptured = ev_CapturedAt event, ps_wallStart = now\<rparr>)
        else
          let offset = time_Sub (ev_CapturedAt event) (ps_firstCaptured s) in
          if offset \<le> 0 then (Inr event, None, s)
          else let delay = time_Sub (ps_wallStart s + offset) now in
          if delay \<le> 0 then (Inr event, None, s)
          else (case waited of Some e \<Rightarrow> Inl (PaceReplay e) | None \<Rightarrow> Inr event, Some delay, s))"

section \<open>Starting and stopping a replay (app/replay.go)\<close>

datatype replay_refusal =
    ReplayContextRequired
  | ReplayInvalid "config_problem list"
  | ReplayRole string
  | ReplayPeer
  | ReplayCaptureDisabled
  | ReplayBPF
  | ReplayPathRequired

definition replayRefusal :: "config_lib \<Rightarrow> bool \<Rightarrow> Config \<Rightarrow> string \<Rightarrow> replay_refusal option" where
  "replayRefusal lib ctxNil c pcapPath =
     (if ctxNil then Some ReplayContextRequired
      else if Config_Validate lib c \<noteq> [] then Some (ReplayInvalid (Config_Validate lib c))
      else if ic_Role (cf_Instance c) \<noteq> RoleStandalone then Some (ReplayRole (ic_Role (cf_Instance c)))
      else if pec_Enabled (cf_Peer c) then Some ReplayPeer
      else if \<not> cc_Enabled (cf_Capture c) then Some ReplayCaptureDisabled
      else if strings_TrimSpace (cc_BPF (cf_Capture c)) \<noteq> [] then Some ReplayBPF
      else if strings_TrimSpace pcapPath = [] then Some ReplayPathRequired
      else None)"

text \<open>A start that is given up: the source, the MIDI runtime and the manager (if it runs) are closed.\<close>

definition shutdownReplayStartup :: "go_error option \<Rightarrow> go_error option \<Rightarrow> go_error option \<Rightarrow> go_error option option \<Rightarrow> go_error option" where
  "shutdownReplayStartup startupErr sourceErr schedulerErr managerDone =
     errors_Join [startupErr, sourceErr, schedulerErr, normalizeComponentError (case managerDone of None \<Rightarrow> None | Some e \<Rightarrow> e)]"

datatype replay_first = ReplayCancelled | ReplayEnded | ReplayManagerDone

text \<open>
  \<open>superviseReplay\<close>: which end comes first, the answers of the processor, of closing the MIDI runtime and, when it runs, of the
  manager. The second result is the order of the actions.
\<close>

definition superviseReplay ::
  "replay_first \<Rightarrow> go_error option \<Rightarrow> go_error option \<Rightarrow> go_error option option \<Rightarrow> go_error option \<times> sup_action list" where
  "superviseReplay first processorErr midiErr managerDone =
     (let result = (case first of
            ReplayCancelled \<Rightarrow> None
          | ReplayEnded \<Rightarrow> normalizeComponentError processorErr
          | ReplayManagerDone \<Rightarrow> Some (componentStopped ''MIDI manager'' (the managerDone)));
          result = (if first = ReplayEnded then result else errors_Join [result, normalizeComponentError processorErr]);
          result = errors_Join [result, midiErr];
          managerFinished = (managerDone = None \<or> first = ReplayManagerDone);
          result = (if managerFinished then result else errors_Join [result, normalizeComponentError (the managerDone)])
      in (result,
          [CancelProcessor] @ (if first = ReplayEnded then [] else [AwaitProcessor]) @ [CloseMIDI] @
          (if managerDone = None then [] else [CancelManager]) @ (if managerFinished then [] else [AwaitManager])))"

section \<open>Normalized packets\<close>

lemma Addr_Unmap_facts [simp]: "Addr_IsValid (Addr_Unmap a) = Addr_IsValid a" "Addr_Unmap (Addr_Unmap a) = Addr_Unmap a"
  by (cases a; simp)+

lemma addrFromBytes_facts: "Addr_IsValid (addrFromBytes bs) \<longleftrightarrow> length bs \<in> {4, 16}" "Addr_Unmap (addrFromBytes bs) = addrFromBytes bs"
  by (auto simp: addrFromBytes_def)

lemma withTransport_frame [simp]:
  "ev_CapturedAt (withTransport fr event) = ev_CapturedAt event" "ev_WireLength (withTransport fr event) = ev_WireLength event"
  "ev_CapturedLength (withTransport fr event) = ev_CapturedLength event"
  "ep_Addr (ev_Source (withTransport fr event)) = ep_Addr (ev_Source event)"
  "ep_Addr (ev_Destination (withTransport fr event)) = ep_Addr (ev_Destination event)"
  by (simp_all add: withTransport_def Let_def split: transport_layer.split option.split)

lemma withTransport_payload:
  "ev_PayloadLength event = 0 \<Longrightarrow> 0 \<le> ev_PayloadLength (withTransport fr event)"
  "ev_Protocol event \<in> set protocols \<Longrightarrow> ev_Protocol (withTransport fr event) \<in> set protocols"
  by (auto simp: withTransport_def Let_def protocols_def split: transport_layer.split option.split)

text \<open>The event before its validation.\<close>

definition normalizedEvent :: "frame \<Rightarrow> CaptureInfo \<Rightarrow> Addr \<Rightarrow> Addr \<Rightarrow> Event" where
  "normalizedEvent fr info source destination =
     (let captured = (if ci_CaptureLength info = 0 then int (fr_Data fr) else ci_CaptureLength info);
          event = withTransport fr \<lparr>ev_CapturedAt = ci_Timestamp info, ev_Source = \<lparr>ep_Addr = source, ep_Port = 0\<rparr>,
            ev_Destination = \<lparr>ep_Addr = destination, ep_Port = 0\<rparr>, ev_Protocol = ProtocolOther, ev_WireLength = max (ci_Length info) captured,
            ev_CapturedLength = captured, ev_PayloadLength = 0, ev_TCPFlags = 0\<rparr>
      in event\<lparr>ev_PayloadLength := min (ev_PayloadLength event) captured\<rparr>)"

lemma Normalize_unfold:
  "Normalize fr info =
     (case networkAddresses (fr_Network fr) of
        None \<Rightarrow> Inl ErrUnsupportedPacket
      | Some (source, destination) \<Rightarrow>
        if \<not> Addr_IsValid source \<or> \<not> Addr_IsValid destination then Inl UnsupportedAddress
        else case Event_Validate (normalizedEvent fr info source destination) of
          Some e \<Rightarrow> Inl (NormalizeInvalid e) | None \<Rightarrow> Inr (normalizedEvent fr info source destination))"
proof -
  have same: "(if n < ev_PayloadLength e then e\<lparr>ev_PayloadLength := n\<rparr> else e) = e\<lparr>ev_PayloadLength := min (ev_PayloadLength e) n\<rparr>" for e :: Event and n
    by (cases e) (simp add: min_def)
  show ?thesis
    by (cases "ci_CaptureLength info = 0"; cases "ci_Length info < (if ci_CaptureLength info = 0 then int (fr_Data fr) else ci_CaptureLength info)")
      (simp_all add: Normalize_def normalizedEvent_def Let_def same max_def split: option.split)
qed

lemma normalizedEvent_valid:
  assumes "Addr_IsValid source" "Addr_IsValid destination"
  shows "Event_Validate (normalizedEvent fr info source destination) = None \<longleftrightarrow> 0 \<le> ci_CaptureLength info"
  using assms withTransport_payload by (simp add: Event_Validate_None normalizedEvent_def Let_def protocols_def)

lemma networkAddresses_Some:
  "(\<exists>s d. networkAddresses network = Some (s, d) \<and> Addr_IsValid s \<and> Addr_IsValid d) \<longleftrightarrow>
   (\<exists>source destination. network \<in> {IPv4Layer source destination, IPv6Layer source destination} \<and>
      length source \<in> {4, 16} \<and> length destination \<in> {4, 16})"
  by (cases network) (auto simp: networkAddresses_def addrFromBytes_facts)

text \<open>
  C38. What a capture hands to the pipeline is always a valid packet. A frame is normalized exactly if it is IPv4 or IPv6 with
  addresses of 4 or 16 bytes and a captured length that is not negative; whatever lengths the capture claims, the
  result passes the validation of events, keeps the capture time, never carries an IPv4 address in IPv6 form (so
  that rules for IPv4 see it), and the captured length covers the payload.
\<close>

theorem Normalize_spec:
  "(is_ok (Normalize fr info) \<longleftrightarrow>
      (\<exists>source destination. fr_Network fr \<in> {IPv4Layer source destination, IPv6Layer source destination} \<and>
         length source \<in> {4, 16} \<and> length destination \<in> {4, 16}) \<and> 0 \<le> ci_CaptureLength info) \<and>
   (\<forall>event. Normalize fr info = Inr event \<longrightarrow>
      Event_Validate event = None \<and> ev_CapturedAt event = ci_Timestamp info \<and>
      Addr_Unmap (ep_Addr (ev_Source event)) = ep_Addr (ev_Source event) \<and>
      Addr_Unmap (ep_Addr (ev_Destination event)) = ep_Addr (ev_Destination event) \<and>
      ev_WireLength event = max (ci_Length info) (ev_CapturedLength event))"
proof -
  have ok: "is_ok (Normalize fr info) \<longleftrightarrow>
      (\<exists>s d. networkAddresses (fr_Network fr) = Some (s, d) \<and> Addr_IsValid s \<and> Addr_IsValid d) \<and> 0 \<le> ci_CaptureLength info"
  proof -
    have "is_ok (case Event_Validate e of Some x \<Rightarrow> Inl (NormalizeInvalid x) | None \<Rightarrow> Inr e) \<longleftrightarrow> Event_Validate e = None" for e :: Event
      by (simp split: option.split)
    then show ?thesis using normalizedEvent_valid by (auto simp: Normalize_unfold split: option.split)
  qed
  have "Event_Validate event = None \<and> ev_CapturedAt event = ci_Timestamp info \<and>
      Addr_Unmap (ep_Addr (ev_Source event)) = ep_Addr (ev_Source event) \<and>
      Addr_Unmap (ep_Addr (ev_Destination event)) = ep_Addr (ev_Destination event) \<and>
      ev_WireLength event = max (ci_Length info) (ev_CapturedLength event)" if n: "Normalize fr info = Inr event" for event
  proof -
    obtain s d where a: "networkAddresses (fr_Network fr) = Some (s, d)" "Event_Validate event = None" "event = normalizedEvent fr info s d"
      using n by (auto simp: Normalize_unfold split: option.splits if_splits)
    have "Addr_Unmap s = s" "Addr_Unmap d = d"
      using a(1) by (auto simp: networkAddresses_def addrFromBytes_facts split: network_layer.splits)
    then show ?thesis using a(2,3) by (simp add: normalizedEvent_def Let_def)
  qed
  then show ?thesis unfolding ok networkAddresses_Some by blast
qed

definition sampleFrame :: frame where
  "sampleFrame = \<lparr>fr_Network = IPv6Layer (replicate 10 0 @ [255, 255, 10, 0, 0, 1]) [10, 0, 0, 2], fr_Transport = UDPLayer 53 40000 900, fr_ICMPv4 = None,
     fr_ICMPv6 = None, fr_Data = 64\<rparr>"

theorem Normalize_spec_witness:
  "\<exists>event. Normalize sampleFrame \<lparr>ci_Timestamp = 7, ci_CaptureLength = 64, ci_Length = 20\<rparr> = Inr event \<and> Event_Validate event = None \<and> ev_WireLength event = 64"
proof -
  let ?info = "\<lparr>ci_Timestamp = 7, ci_CaptureLength = 64, ci_Length = 20\<rparr>"
  note spec = Normalize_spec [of sampleFrame ?info]
  have "is_ok (Normalize sampleFrame ?info)" using conjunct1 [OF spec] by (simp add: sampleFrame_def)
  then obtain event where e: "Normalize sampleFrame ?info = Inr event" by (cases "Normalize sampleFrame ?info") auto
  have "ev_CapturedLength event = 64" using e by (auto simp: Normalize_unfold normalizedEvent_def Let_def split: option.splits if_splits)
  then show ?thesis using conjunct2 [OF spec] e by auto
qed


section \<open>Pacing\<close>

text \<open>Successive calls: each with the event and the time at which it was read, answered by when it is handed on.\<close>

fun pacedRun :: "(Event \<times> time) list \<Rightarrow> pacedReplaySource \<Rightarrow> (Event \<times> time) list" where
  "pacedRun [] s = []"
| "pacedRun ((event, now) # rest) s =
     (case paced_Next (Inr event) now None s of
        (_, delay, s) \<Rightarrow> (event, now + (case delay of None \<Rightarrow> 0 | Some d \<Rightarrow> d)) # pacedRun rest s)"

definition notStarted :: pacedReplaySource where
  "notStarted = \<lparr>ps_started = False, ps_firstCaptured = 0, ps_wallStart = 0\<rparr>"

lemma paced_step:
  assumes "ps_started s" and "ev_CapturedAt event - ps_firstCaptured s \<le> maxInt64" and "ps_wallStart s \<le> now"
  shows "\<exists>delay. paced_Next (Inr event) now None s = (Inr event, delay, s) \<and>
     now + (case delay of None \<Rightarrow> 0 | Some d \<Rightarrow> d) = max now (ps_wallStart s + (ev_CapturedAt event - ps_firstCaptured s))"
  using assms by (auto simp: paced_Next_def Let_def time_Sub_def max_def min_def minInt64_def)

text \<open>
  C39. A replay keeps the rhythm of the capture without drift. However long the earlier packets took, each packet is handed on at
  the time of the first one plus its distance to it in the file, or at once when that time has passed; so
  delays never add up and nothing is played early. (Clocks do not run backwards and the file spans less than 292 years.)
\<close>

theorem Replay_pacing:
  assumes "\<forall>(event, now) \<in> set rest. start \<le> now \<and> ev_CapturedAt event - ev_CapturedAt first \<le> maxInt64"
  shows "pacedRun ((first, start) # rest) notStarted =
    (first, start) # map (\<lambda>(event, now). (event, max now (start + (ev_CapturedAt event - ev_CapturedAt first)))) rest"
proof -
  let ?s = "\<lparr>ps_started = True, ps_firstCaptured = ev_CapturedAt first, ps_wallStart = start\<rparr>"
  have "pacedRun rest ?s = map (\<lambda>(event, now). (event, max now (start + (ev_CapturedAt event - ev_CapturedAt first)))) rest"
    using assms
  proof (induction rest)
    case (Cons x rest)
    obtain event now where x: "x = (event, now)" by force
    from paced_step [of ?s event now] Cons show ?case by (force simp: x)
  qed simp
  then show ?thesis by (simp add: paced_Next_def notStarted_def)
qed

theorem Replay_pacing_witness:
  "map snd (pacedRun [(sampleEvent, 100), (sampleEvent\<lparr>ev_CapturedAt := 15\<rparr>, 103), (sampleEvent\<lparr>ev_CapturedAt := 25\<rparr>, 150)] notStarted) = [100, 110, 150]"
  using Replay_pacing [of "[(sampleEvent\<lparr>ev_CapturedAt := 15\<rparr>, 103), (sampleEvent\<lparr>ev_CapturedAt := 25\<rparr>, 150)]" 100 sampleEvent]
  by (simp add: sampleEvent_def maxInt64_def)

section \<open>The end of a replay\<close>

text \<open>
  A replay ends without an error exactly when nothing went wrong: the manager did not stop by itself, and neither the processor,
  nor closing the MIDI output, nor the manager answered anything but a cancellation.
\<close>

lemma superviseReplay_result:
  assumes "joinedOpt processorErr" "joinedOpt midiErr" "\<And>e. managerDone = Some e \<Longrightarrow> joinedOpt e"
    and "first = ReplayManagerDone \<Longrightarrow> managerDone \<noteq> None"
  shows "fst (superviseReplay first processorErr midiErr managerDone) = None \<longleftrightarrow>
    first \<noteq> ReplayManagerDone \<and> unexpectedLeaves componentExpected (Some processorErr) = [] \<and> midiErr = None \<and>
    unexpectedLeaves componentExpected managerDone = []"
proof -
  have m: "joinedOpt (case managerDone of None \<Rightarrow> None | Some e \<Rightarrow> e)" using assms(3) by (auto simp: joinedOpt_def split: option.split)
  have stop: "joinedOpt (Some (componentStopped name e))" if "joinedOpt e" for name e using componentStopped_joined [OF that] by (simp add: joinedOpt_def)
  have none: "joinedOpt None" by (simp add: joinedOpt_def)
  have j: "joinedOpt (fst (superviseReplay first processorErr midiErr managerDone))"
    using assms normalize_spec(1) stop none by (cases first; cases managerDone) (auto simp: superviseReplay_def Let_def intro!: errors_Join_joined)
  have stopped: "leavesOf (Some (componentStopped name e)) \<noteq> []" if "joinedOpt e" for name e
    using leavesOf_Nil [OF stop [OF that]] by simp
  have leaves: "leavesOf (fst (superviseReplay first processorErr midiErr managerDone)) =
      (if first = ReplayManagerDone then leavesOf (Some (componentStopped ''MIDI manager'' (the managerDone))) else []) @
      unexpectedLeaves componentExpected (Some processorErr) @ leavesOf midiErr @
      (if first = ReplayManagerDone then [] else unexpectedLeaves componentExpected managerDone)"
    using assms normalize_spec(1)
    by (cases first; cases managerDone) (auto simp: superviseReplay_def Let_def errors_Join_leaves unexpectedLeaves_def leavesOf_def [of None])
  show ?thesis
    unfolding leavesOf_Nil [OF j, symmetric] leaves using stopped assms leavesOf_Nil [OF assms(2)] by (cases first) auto
qed

end
