(* ===== verification/Spec2Isabelle.thy ===== *)
theory Spec2Isabelle
  imports Scheduler_Spec Midi_Process Stream_Handler Devices Capture
begin

text \<open>
  go-musical-packets captures packets, groups them into flows, decides by ordered rules which flows are heard,
  maps the packets of those flows to notes of a scale and plays the notes on a MIDI output. Instances can be
  connected: an edge sends its notes to a host, which plays them. A local HTTP interface shows and changes the
  configuration, and a browser stream shows the notes. This library models the program's own code, under
  src/internal, and proves what makes it correct.

  \<^bold>\<open>The way of a packet.\<close> A capture source delivers events (\<open>Packet\<close>: packet/event.go). The processor
  (\<open>Pipeline\<close>: pipeline/processor.go) passes each through the flow registry, the selector and the mapper and hands
  notes to a sink, with three goroutines and two bounded queues between them.
    \<^item> \<open>Capture\<close> (capture/normalize.go, replay.go, live_pcap.go, app/replay.go): what becomes of a decoded frame (always a valid
      event), the sources, and the pacing of a replay without drift.
    \<^item> \<open>FlowKey\<close> (flow/key.go): the canonical key of both directions and the seeded identifier. Both directions give
      one identifier.
    \<^item> \<open>Container_Heap\<close>, \<open>Registry\<close>, \<open>Registry_Spec\<close>, \<open>Registry_Recent\<close> (flow/registry.go): container/heap over its
      interface (locale \<open>heap_interface\<close>, interpreted for the heap of entries and for the heap of the top-k query),
      the map and heap of flows, the invariant between them, what every operation does seen through \<open>Get\<close>, and
      that the recent flows are the most recent ones.
    \<^item> \<open>Selector\<close> (flow/selector.go): rules in three tiers with mute and solo; safety rules decide first.
    \<^item> \<open>Music\<close> (music/*.go): modes, notes and the mapping flow-mode-v1 with its 64-bit index arithmetic. It always
      answers a valid note in range for packets of realistic length; \<open>Mapper_Map_index_overflow\<close> shows the
      length at which the index overflows.
    \<^item> \<open>Pipeline\<close>, \<open>Pipeline_Spec\<close>: the goroutines as interleaved steps (\<open>pl_step\<close>, \<open>pl_run\<close>), the accounting of every
      packet and note, termination of the drain, and soundness over the contract \<open>packet_stages\<close> of the three stages.

  \<^bold>\<open>The MIDI output.\<close>
    \<^item> \<open>Midi\<close> (midi/midi.go): device selection and the three messages.
    \<^item> \<open>Scheduler\<close>, \<open>Scheduler_Spec\<close> (midi/scheduler.go): notes with timers, callbacks, limits and panic, over a sender
      that may fail (locales \<open>midi_sender\<close>, \<open>reliable_sender\<close>): polyphony, rate, no stuck notes, and
      agreement with an abstract synthesizer that is the set of sounding notes.
    \<^item> \<open>Midi_Runtime\<close> (midi/manager.go, runtime.go): discovery, opening and replacing the output, and the gate that makes
      these and the scheduler's operations atomic steps (\<open>rt_step\<close>), over any driver (locale \<open>midi_ports\<close>).
    \<^item> \<open>Midi_Process\<close> (midi/process.go, helper.go, rtmidi.go): the driver of the program, which runs the native library in
      processes of its own; it refines the native output and is shown to be a driver in the sense of \<open>midi_ports\<close>
      (locale \<open>rt_ports\<close> for the library), so the guarantees of the runtime hold across the processes.

  \<^bold>\<open>Peers.\<close>
    \<^item> \<open>Peer_Protocol\<close> (peer/protocol.go): messages, their validation and wire form, and the walk over the tokens of a
      frame, which accepts exactly the documents without repeated names within the depth limit (locale \<open>token_walk\<close>, interpreted
      for this walk and for the one of the management API).
    \<^item> \<open>Peer_Host\<close> (peer/host.go, state.go): authentication, sessions, bounded tables, admission of notes, no replay.
    \<^item> \<open>Peer_Edge\<close> (peer/edge.go, state.go): the bounded sink, sessions with heartbeats, reconnecting with backoff, and
      the accounting of every accepted note.
    \<^item> \<open>Uistream\<close>, \<open>Stream_Handler\<close> (uistream/hub.go, handler.go): the browsers' bounded queues and batches, and the sessions,
      which are open to local requests only.

  \<^bold>\<open>Configuration and management.\<close>
    \<^item> \<open>Config\<close> (config/config.go, rules.go, secrets.go): the document, validation, rule conversion, redaction.
    \<^item> \<open>Repository\<close> (config/load.go, repository.go): decoding, and atomic replacement of the file by compare-and-swap
      with every system call failing or not.
    \<^item> \<open>Policy\<close>, \<open>Policy_Spec\<close> (app/policy.go): the controller of the runtime policy over an abstract repository (locales
      \<open>policy_repository\<close>, \<open>quiet_repository\<close>, interpreted for the file repository), coherent and in step with the
      file over every sequence of operations.
    \<^item> \<open>Safety\<close> (app/app.go, runtime_peer.go): the rules by which the program ignores its own traffic.
    \<^item> \<open>Management\<close>, \<open>Management_Spec\<close> (app/management*.go): the backend of the management API: revision tokens,
      configuration and rule transactions, flows and overlays.
    \<^item> \<open>Api\<close>, \<open>Api_Spec\<close> (managementapi/*.go): the HTTP handler over the interface \<open>Backend\<close> (locale \<open>management_contract\<close>,
      interpreted for the backend of the program): which requests can change what, a PUT of the configuration
      from the header to the file and back, paths and entity tags.
    \<^item> \<open>Devices\<close> (app/management_midi.go, management_interfaces.go, viewer.go, capture/source.go): MIDI outputs, capture
      interfaces, auditioning and panic, composed with the handler, the MIDI runtime and the browser hub.
    \<^item> \<open>App\<close> (app/components.go, app.go, runtime_peer.go): construction of the components from a configuration, with the
      contract of the pipeline interpreted for them, and the supervisor that stops them in order.

  \<open>Prelude\<close>, \<open>Sha256\<close> and \<open>Netip\<close> write out what the code uses of the language and its standard library: words that
  wrap, strings as bytes, package strings, hex, decimal texts, SHA-256, addresses and prefixes.

  \<^bold>\<open>Conventions.\<close> A struct is a record with prefixed fields, an error a value of a datatype or an optional result,
  a map an \<open>fmap\<close> or an association list where its order shows. An operation that holds a lock for its whole body is one
  step. What a goroutine meets between its own steps (other goroutines, clocks, select choices, frames, answers
  of system calls) is an argument, usually a list or a function, and the properties quantify over it. Durations and
  instants are integers; counters and generations are 64-bit words.

  \<^bold>\<open>Fuel and bounds.\<close> Loops are structural recursion over their input, with few exceptions. \<open>walk\<close> and \<open>scan\<close>, which
  read JSON tokens, take fuel \<open>2 * length + 2\<close>: every turn consumes a token or starts a loop, and
  the lemmas of \<open>token_walk\<close> show for both that it never runs out on any document. Heap sifting and
  unique rule names recurse over a bound on the size. The sessions and the reconnecting loop of an edge, the
  capture sources and the browser sessions run along the list of events they meet; the helper process runs along the bytes it is sent.

  \<^bold>\<open>Hypotheses.\<close> Code outside the repository is an argument, and what is assumed of it is named: \<open>yaml_roundtrip\<close>
  (decoding an encoded valid configuration gives it back), \<open>lib_ok\<close> (parsers of prefixes and patterns), \<open>resolver_ok\<close>
  (addresses a resolver answers), a quiet world (\<open>quietWorld\<close>: system calls that are not disturbed by programs which
  ignore the lock), a sender or driver that delivers what it reports as sent, injectivity of the keyed hash on the
  revisions in use, and that an empty text has no host as a URL. Each property with a hypothesis is followed by a
  witness at a concrete instance.

  \<^bold>\<open>Not modelled.\<close> cmd/musical-packets (flags, logging, exit codes), metrics (the Prometheus client), libpcap
  and gopacket (a frame is what they decoded), the native MIDI library, webui and httpserver (embedded files, constant headers), the upgrade of
  WebSockets, the listing of peers (a copy of modelled snapshots), the wiring of sockets and handlers in app.go and replay.go,
  detail texts of errors and logging. They are input, output or libraries that the sources only call.
\<close>

end
